(* ===== verification/Prelude.thy ===== *)
theory Prelude
  imports Main "HOL-Library.Word"
begin

text \<open>
  Shared vocabulary of the development: Go's bytes, strings and fixed-width integers, the
  error values, the visiting order of a \<open>range\<close> over a Go map, and the functions of the Go
  standard library (packages \<open>strings\<close>, \<open>strconv\<close>, \<open>encoding/binary\<close>) that the router calls.
  The named collections gather the facts that the component theories hand to the simplifier.
\<close>

named_theorems go_defs \<open>definitions of the straight-line operations, unfolded by case analysis\<close>
named_theorems frame_rules \<open>fields that an operation leaves alone\<close>

section \<open>Bytes, strings, errors\<close>

type_synonym byte = "8 word"
type_synonym gostring = string \<comment> \<open>a Go string is a sequence of bytes; so is a \<open>char list\<close>\<close>

datatype go_error = EOF | UnexpectedEOF | Err string

text \<open>The conversions \<open>[]byte(s)\<close> and \<open>string(b)\<close>.\<close>

definition bytes_of :: "gostring \<Rightarrow> byte list" where
  "bytes_of s = List.map (of_char :: char \<Rightarrow> byte) s"

definition string_of :: "byte list \<Rightarrow> gostring" where
  "string_of b = List.map (\<lambda>w. char_of (unat w)) b"

lemma unat_of_char_byte [simp]: "unat (of_char c :: byte) = of_char c"
proof -
  have "unat (of_nat (of_char c) :: byte) = of_char c mod 256"
    by (simp add: unat_of_nat)
  then show ?thesis by (simp add: of_nat_of_char)
qed

lemma of_char_char_of_byte [simp]: "(of_char (char_of (unat w)) :: byte) = w"
proof -
  have "unat w < 256" using unsigned_less [of w] by simp
  then have "unat (of_char (char_of (unat w)) :: byte) = unat w" by simp
  then show ?thesis by (simp only: unsigned_word_eqI)
qed

lemma string_of_bytes_of [simp]: "string_of (bytes_of s) = s"
  by (simp add: string_of_def bytes_of_def comp_def)

lemma bytes_of_string_of [simp]: "bytes_of (string_of b) = b"
  by (simp add: string_of_def bytes_of_def comp_def)

lemma bytes_of_append [simp]: "bytes_of (s @ t) = bytes_of s @ bytes_of t"
  by (simp add: bytes_of_def)

lemma bytes_of_eq_iff [simp]: "bytes_of s = bytes_of t \<longleftrightarrow> s = t"
  by (metis string_of_bytes_of)

lemma length_string_of [simp]: "length (string_of b) = length b"
  by (simp add: string_of_def)

lemma length_bytes_of [simp]: "length (bytes_of s) = length s"
  by (simp add: bytes_of_def)

section \<open>Big-endian 32-bit integers (encoding/binary)\<close>

definition be32 :: "32 word \<Rightarrow> byte list" where
  "be32 w = [ucast (drop_bit 24 w), ucast (drop_bit 16 w), ucast (drop_bit 8 w), ucast w]"

definition of_be32 :: "byte list \<Rightarrow> 32 word" where
  "of_be32 b = (case b of
      [a0, a1, a2, a3] \<Rightarrow>
        or (push_bit 24 (ucast a0)) (or (push_bit 16 (ucast a1)) (or (push_bit 8 (ucast a2)) (ucast a3)))
    | _ \<Rightarrow> 0)"

lemma length_be32 [simp]: "length (be32 w) = 4"
  by (simp add: be32_def)

lemma of_be32_be32 [simp]: "of_be32 (be32 w) = w"
proof (rule bit_word_eqI)
  fix n
  assume "n < LENGTH(32)"
  consider "n < 8" | "8 \<le> n" "n < 16" | "16 \<le> n" "n < 24" | "24 \<le> n" by linarith
  then show "bit (of_be32 (be32 w)) n \<longleftrightarrow> bit w n"
    by cases (auto simp: of_be32_def be32_def bit_simps \<open>n < LENGTH(32)\<close> dest: bit_imp_le_length)
qed

text \<open>\<open>uint32(len(x))\<close> and \<open>int32(len(x))\<close>: the low 32 bits of a Go \<open>int\<close>.\<close>

definition len32 :: "'a list \<Rightarrow> 32 word" where
  "len32 xs = of_nat (length xs)"

lemma unat_len32 [simp]: "length xs < 2 ^ 32 \<Longrightarrow> unat (len32 xs) = length xs"
  by (simp add: len32_def unat_of_nat)

lemma sint_len32 [simp]: "length xs < 2 ^ 31 \<Longrightarrow> sint (len32 xs) = int (length xs)"
  by (simp add: len32_def signed_of_nat signed_take_bit_int_eq_self)

lemma distinct_singleton: "distinct xs \<Longrightarrow> set xs = {x} \<Longrightarrow> xs = [x]"
  by (cases xs; cases "tl xs") auto

section \<open>Ranging over a Go map\<close>

text \<open>
  Go visits the keys of a map in an unspecified order, another one in each loop. An operation
  that ranges over a map takes the visiting order as a list of keys; a legal one holds each
  key once.
\<close>

definition enumerates :: "'k list \<Rightarrow> ('k \<rightharpoonup> 'v) \<Rightarrow> bool" where
  "enumerates ks m \<longleftrightarrow> distinct ks \<and> set ks = dom m"

definition range_map :: "'k list \<Rightarrow> ('k \<rightharpoonup> 'v) \<Rightarrow> ('k \<times> 'v) list" where
  "range_map ks m = List.map_filter (\<lambda>k. map_option (Pair k) (m k)) ks"

lemma range_map_Nil [simp]: "range_map [] m = []"
  by (simp add: range_map_def)

lemma range_map_Cons [simp]:
  "range_map (k # ks) m = (case m k of None \<Rightarrow> range_map ks m | Some v \<Rightarrow> (k, v) # range_map ks m)"
  by (simp add: range_map_def List.map_filter_simps split: option.splits)

lemma set_range_map [simp]: "set (range_map ks m) = {(k, v). k \<in> set ks \<and> m k = Some v}"
  by (induction ks) (auto split: option.splits)

lemma map_fst_range_map: "List.map fst (range_map ks m) = filter (\<lambda>k. m k \<noteq> None) ks"
  by (induction ks) (auto split: option.splits)

lemma range_map_enumerates:
  assumes "enumerates ks m"
  shows "List.map fst (range_map ks m) = ks" and "distinct (range_map ks m)"
    and "(k, v) \<in> set (range_map ks m) \<longleftrightarrow> m k = Some v"
proof -
  have "filter (\<lambda>k. m k \<noteq> None) ks = ks"
    using assms by (auto simp: enumerates_def filter_id_conv)
  then show fst: "List.map fst (range_map ks m) = ks"
    by (simp add: map_fst_range_map)
  have "distinct (List.map fst (range_map ks m))"
    using assms by (simp add: fst enumerates_def)
  then show "distinct (range_map ks m)" by (simp add: distinct_map)
  show "(k, v) \<in> set (range_map ks m) \<longleftrightarrow> m k = Some v"
    using assms by (auto simp: enumerates_def)
qed

lemma length_range_map: "enumerates ks m \<Longrightarrow> length (range_map ks m) = card (dom m)"
  by (metis distinct_card enumerates_def length_map range_map_enumerates(1))

end
