(* ===== verification/GoStrings.thy ===== *)
theory GoStrings
  imports Prelude
begin

text \<open>
  The functions of the Go packages \<open>strings\<close> and \<open>strconv\<close> that the router uses, with the
  facts the components need. Case mapping is the ASCII one; white space is Go's
  \<open>unicode.IsSpace\<close>, recognised on the UTF-8 bytes of each space.
\<close>

section \<open>Prefixes and searching\<close>

definition HasPrefix :: "gostring \<Rightarrow> gostring \<Rightarrow> bool" where
  "HasPrefix s p \<longleftrightarrow> take (length p) s = p"

definition TrimPrefix :: "gostring \<Rightarrow> gostring \<Rightarrow> gostring" where
  "TrimPrefix s p = (if HasPrefix s p then drop (length p) s else s)"

lemma HasPrefix_iff: "HasPrefix s p \<longleftrightarrow> (\<exists>t. s = p @ t)"
  by (metis HasPrefix_def append_eq_conv_conj)

lemma HasPrefix_append [simp]: "HasPrefix (p @ t) p"
  by (simp add: HasPrefix_def)

lemma HasPrefix_Nil [simp]: "HasPrefix s []"
  by (simp add: HasPrefix_def)

lemma HasPrefix_Cons [simp]: "HasPrefix (x # s) (y # p) \<longleftrightarrow> x = y \<and> HasPrefix s p"
  by (auto simp: HasPrefix_def)

lemma HasPrefix_empty [simp]: "HasPrefix [] p \<longleftrightarrow> p = []"
  by (auto simp: HasPrefix_def)

fun Contains :: "gostring \<Rightarrow> gostring \<Rightarrow> bool" where
  "Contains [] p = (p = [])"
| "Contains (c # s) p = (HasPrefix (c # s) p \<or> Contains s p)"

lemma Contains_iff: "Contains s p \<longleftrightarrow> (\<exists>a b. s = a @ p @ b)"
proof (induction s)
  case Nil
  then show ?case by auto
next
  case (Cons c s)
  show ?case
  proof
    assume "Contains (c # s) p"
    then consider "HasPrefix (c # s) p" | "Contains s p" by auto
    then show "\<exists>a b. c # s = a @ p @ b"
    proof cases
      case 1
      then obtain b where "c # s = [] @ p @ b" by (auto simp: HasPrefix_iff)
      then show ?thesis by blast
    next
      case 2
      then obtain a b where "c # s = (c # a) @ p @ b" using Cons.IH by auto
      then show ?thesis by blast
    qed
  next
    assume "\<exists>a b. c # s = a @ p @ b"
    then obtain a b where ab: "c # s = a @ p @ b" by blast
    show "Contains (c # s) p"
    proof (cases a)
      case Nil
      with ab have "HasPrefix (c # s) p" by simp
      then show ?thesis by simp
    next
      case (Cons d a')
      with ab have "s = a' @ p @ b" by simp
      then show ?thesis using Cons.IH by auto
    qed
  qed
qed

lemma ContainsI [intro]: "Contains (a @ p @ b) p"
  by (auto simp: Contains_iff)

lemma Contains_appendI1: "Contains s p \<Longrightarrow> Contains (s @ t) p"
  by (auto simp: Contains_iff) (metis append.assoc)

lemma Contains_appendI2: "Contains t p \<Longrightarrow> Contains (s @ t) p"
  by (auto simp: Contains_iff) (metis append.assoc)

text \<open>The last position at which \<open>p\<close> occurs, or -1.\<close>

definition LastIndex :: "gostring \<Rightarrow> gostring \<Rightarrow> int" where
  "LastIndex s p =
     (case filter (\<lambda>i. HasPrefix (drop i s) p) (rev [0..<Suc (length s)]) of
        [] \<Rightarrow> -1 | i # _ \<Rightarrow> int i)"

lemma filter_hd_rev_upt:
  assumes "filter P (rev [0..<n]) = i # is"
  shows "P i" and "i < n" and "\<And>j. i < j \<Longrightarrow> j < n \<Longrightarrow> \<not> P j"
  using assms by (induction n) (auto split: if_splits simp: less_Suc_eq)

lemma filter_Nil_rev_upt: "filter P (rev [0..<n]) = [] \<longleftrightarrow> (\<forall>i<n. \<not> P i)"
  by (auto simp: filter_empty_conv)

section \<open>Splitting and joining\<close>

fun SplitChar :: "char \<Rightarrow> gostring \<Rightarrow> gostring list" where
  "SplitChar c [] = [[]]"
| "SplitChar c (x # xs) =
     (if x = c then [] # SplitChar c xs
      else (case SplitChar c xs of [] \<Rightarrow> [[x]] | y # ys \<Rightarrow> (x # y) # ys))"

fun Join :: "gostring list \<Rightarrow> gostring \<Rightarrow> gostring" where
  "Join [] sep = []"
| "Join [x] sep = x"
| "Join (x # y # ys) sep = x @ sep @ Join (y # ys) sep"

lemma SplitChar_nonempty [simp]: "SplitChar c s \<noteq> []"
  by (induction s) (auto split: list.splits)

lemma Join_SplitChar: "Join (SplitChar c s) [c] = s"
proof (induction s)
  case (Cons x xs)
  obtain y ys where ys: "SplitChar c xs = y # ys"
    by (cases "SplitChar c xs") auto
  with Cons show ?case by (cases ys) auto
qed simp

lemma SplitChar_no_sep: "seg \<in> set (SplitChar c s) \<Longrightarrow> c \<notin> set seg"
  by (induction s arbitrary: seg) (auto split: if_splits list.splits)

section \<open>Case\<close>

definition lower_char :: "char \<Rightarrow> char" where
  "lower_char c = (let n = (of_char c :: nat) in if 65 \<le> n \<and> n \<le> 90 then char_of (n + 32) else c)"

definition ToLower :: "gostring \<Rightarrow> gostring" where
  "ToLower s = List.map lower_char s"

definition EqualFold :: "gostring \<Rightarrow> gostring \<Rightarrow> bool" where
  "EqualFold s t \<longleftrightarrow> ToLower s = ToLower t"

lemma lower_char_idem [simp]: "lower_char (lower_char c) = lower_char c"
  by (simp add: lower_char_def Let_def)

lemma ToLower_idem [simp]: "ToLower (ToLower s) = ToLower s"
  by (simp add: ToLower_def)

lemma ToLower_append [simp]: "ToLower (s @ t) = ToLower s @ ToLower t"
  by (simp add: ToLower_def)

lemma EqualFold_refl [simp]: "EqualFold s s"
  by (simp add: EqualFold_def)

lemma EqualFold_sym: "EqualFold s t \<Longrightarrow> EqualFold t s"
  by (simp add: EqualFold_def)

lemma EqualFold_trans: "EqualFold s t \<Longrightarrow> EqualFold t u \<Longrightarrow> EqualFold s u"
  by (simp add: EqualFold_def)

section \<open>White space\<close>

text \<open>
  \<open>unicode.IsSpace\<close> in UTF-8: tab, line feed, vertical tab, form feed, carriage return, space,
  U+0085, U+00A0, U+1680, U+2000 to U+200A, U+2028, U+2029, U+202F, U+205F and U+3000.
\<close>

definition space_seqs :: "gostring list" where
  "space_seqs =
     [[CHR 0x09], [CHR 0x0A], [CHR 0x0B], [CHR 0x0C], [CHR 0x0D], [CHR 0x20],
      [CHR 0xC2, CHR 0x85], [CHR 0xC2, CHR 0xA0], [CHR 0xE1, CHR 0x9A, CHR 0x80],
      [CHR 0xE2, CHR 0x80, CHR 0x80], [CHR 0xE2, CHR 0x80, CHR 0x81], [CHR 0xE2, CHR 0x80, CHR 0x82],
      [CHR 0xE2, CHR 0x80, CHR 0x83], [CHR 0xE2, CHR 0x80, CHR 0x84], [CHR 0xE2, CHR 0x80, CHR 0x85],
      [CHR 0xE2, CHR 0x80, CHR 0x86], [CHR 0xE2, CHR 0x80, CHR 0x87], [CHR 0xE2, CHR 0x80, CHR 0x88],
      [CHR 0xE2, CHR 0x80, CHR 0x89], [CHR 0xE2, CHR 0x80, CHR 0x8A], [CHR 0xE2, CHR 0x80, CHR 0xA8],
      [CHR 0xE2, CHR 0x80, CHR 0xA9], [CHR 0xE2, CHR 0x80, CHR 0xAF], [CHR 0xE2, CHR 0x81, CHR 0x9F],
      [CHR 0xE3, CHR 0x80, CHR 0x80]]"

text \<open>Strip, from the left, as many words of a list as there are.\<close>

function strip_left :: "gostring list \<Rightarrow> gostring \<Rightarrow> gostring" where
  "strip_left ws s =
     (case find (\<lambda>w. w \<noteq> [] \<and> HasPrefix s w) ws of
        None \<Rightarrow> s | Some w \<Rightarrow> strip_left ws (drop (length w) s))"
  by pat_completeness auto
termination
  by (relation "measure (\<lambda>(ws, s). length s)") (auto simp: find_Some_iff HasPrefix_iff)

declare strip_left.simps [simp del]

definition TrimSpace :: "gostring \<Rightarrow> gostring" where
  "TrimSpace s = rev (strip_left (List.map rev space_seqs) (rev (strip_left space_seqs s)))"

lemma strip_left_Nil [simp]: "strip_left ws [] = []"
  by (subst strip_left.simps) (auto split: option.splits simp: find_Some_iff HasPrefix_def)

lemma strip_left_suffix: "\<exists>a. s = a @ strip_left ws s"
proof (induction ws s rule: strip_left.induct)
  case (1 ws s)
  show ?case
  proof (cases "find (\<lambda>w. w \<noteq> [] \<and> HasPrefix s w) ws")
    case None
    then show ?thesis by (subst strip_left.simps) simp
  next
    case (Some w)
    with 1 obtain a where a: "drop (length w) s = a @ strip_left ws (drop (length w) s)" by blast
    have "s = (take (length w) s @ a) @ strip_left ws (drop (length w) s)"
      using a by (metis append.assoc append_take_drop_id)
    with Some show ?thesis by (simp only: strip_left.simps [of ws s] option.case) blast
  qed
qed

lemma strip_left_stop: "w \<in> set ws \<Longrightarrow> w \<noteq> [] \<Longrightarrow> \<not> HasPrefix (strip_left ws s) w"
proof (induction ws s rule: strip_left.induct)
  case (1 ws s)
  show ?case
  proof (cases "find (\<lambda>w. w \<noteq> [] \<and> HasPrefix s w) ws")
    case None
    then have "strip_left ws s = s" by (simp add: strip_left.simps [of ws s])
    with None "1.prems" show ?thesis by (auto simp: find_None_iff)
  next
    case (Some v)
    with 1 show ?thesis by (simp add: strip_left.simps [of ws s])
  qed
qed

text \<open>What is left neither starts nor ends with white space.\<close>

lemma HasPrefix_rev: "HasPrefix (rev s) (rev p) \<longleftrightarrow> (\<exists>t. s = t @ p)"
  by (auto simp: HasPrefix_iff) (metis rev_append rev_rev_ident)

lemma TrimSpace_decomp: "\<exists>a b. s = a @ TrimSpace s @ b"
proof -
  define l where "l = strip_left space_seqs s"
  obtain a where a: "s = a @ l"
    using strip_left_suffix [of s space_seqs] by (auto simp: l_def)
  obtain b where "rev l = b @ rev (TrimSpace s)"
    using strip_left_suffix [of "rev l" "List.map rev space_seqs"]
    by (auto simp: TrimSpace_def l_def)
  then have "l = TrimSpace s @ rev b" by (metis rev_append rev_rev_ident)
  with a show ?thesis by blast
qed

lemma space_seqs_nonempty: "w \<in> set space_seqs \<Longrightarrow> w \<noteq> []"
  by (auto simp: space_seqs_def)

lemma TrimSpace_no_suffix:
  assumes "w \<in> set space_seqs"
  shows "TrimSpace s \<noteq> t @ w"
proof
  assume "TrimSpace s = t @ w"
  then have "HasPrefix (rev (TrimSpace s)) (rev w)" by (simp add: HasPrefix_iff)
  moreover have "\<not> HasPrefix (rev (TrimSpace s)) (rev w)"
    unfolding TrimSpace_def rev_rev_ident
    by (rule strip_left_stop) (use assms space_seqs_nonempty in auto)
  ultimately show False by blast
qed

lemma TrimSpace_no_prefix:
  assumes "w \<in> set space_seqs"
  shows "TrimSpace s \<noteq> w @ t"
proof
  assume eq: "TrimSpace s = w @ t"
  define l where "l = strip_left space_seqs s"
  obtain b where "rev l = b @ rev (TrimSpace s)"
    using strip_left_suffix [of "rev l" "List.map rev space_seqs"]
    by (auto simp: TrimSpace_def l_def)
  then have "l = TrimSpace s @ rev b" by (metis rev_append rev_rev_ident)
  with eq have "HasPrefix l w" by simp
  moreover have "\<not> HasPrefix l w"
    unfolding l_def by (rule strip_left_stop) (use assms space_seqs_nonempty in auto)
  ultimately show False by blast
qed

lemma strip_left_id: "(\<forall>w\<in>set ws. w \<noteq> [] \<longrightarrow> \<not> HasPrefix s w) \<Longrightarrow> strip_left ws s = s"
  by (subst strip_left.simps) (auto split: option.splits simp: find_Some_iff)

lemma TrimSpace_id:
  assumes "\<And>w t. w \<in> set space_seqs \<Longrightarrow> s \<noteq> w @ t" "\<And>w t. w \<in> set space_seqs \<Longrightarrow> s \<noteq> t @ w"
  shows "TrimSpace s = s"
proof -
  have "strip_left space_seqs s = s"
    using assms(1) by (intro strip_left_id) (auto simp: HasPrefix_iff)
  moreover have "strip_left (List.map rev space_seqs) (rev s) = rev s"
    using assms(2) by (intro strip_left_id) (auto simp: HasPrefix_rev)
  ultimately show ?thesis by (simp add: TrimSpace_def)
qed

lemma TrimSpace_idem [simp]: "TrimSpace (TrimSpace s) = TrimSpace s"
  by (rule TrimSpace_id) (auto dest: TrimSpace_no_prefix TrimSpace_no_suffix)

lemma TrimSpace_Nil [simp]: "TrimSpace [] = []"
  by (simp add: TrimSpace_def)

section \<open>Decimal numbers\<close>

fun nat_digits :: "nat \<Rightarrow> gostring" where
  "nat_digits n =
     (if n < 10 then [char_of (48 + n)] else nat_digits (n div 10) @ [char_of (48 + n mod 10)])"

declare nat_digits.simps [simp del]

definition Itoa :: "int \<Rightarrow> gostring" where
  "Itoa i = (if i < 0 then CHR ''-'' # nat_digits (nat (- i)) else nat_digits (nat i))"

definition is_digit :: "char \<Rightarrow> bool" where
  "is_digit c \<longleftrightarrow> (48::nat) \<le> of_char c \<and> (of_char c :: nat) \<le> 57"

definition digits_value :: "gostring \<Rightarrow> nat" where
  "digits_value s = foldl (\<lambda>v c. 10 * v + (of_char c - 48)) 0 s"

definition int64_range :: "int \<Rightarrow> bool" where
  "int64_range i \<longleftrightarrow> - (2 ^ 63) \<le> i \<and> i < 2 ^ 63"

text \<open>\<open>strconv.Atoi\<close>: an optional sign, at least one digit, and a value that fits \<open>int\<close>.\<close>

definition Atoi :: "gostring \<Rightarrow> int option" where
  "Atoi s =
     (let neg = HasPrefix s ''-'';
          ds = (if neg \<or> HasPrefix s ''+'' then tl s else s);
          v = (if neg then - int (digits_value ds) else int (digits_value ds))
      in if ds \<noteq> [] \<and> list_all is_digit ds \<and> int64_range v then Some v else None)"

lemma is_digit_char_of [simp]: "d < 10 \<Longrightarrow> is_digit (char_of (48 + d :: nat))"
  by (simp add: is_digit_def)

lemma nat_digits_nonempty [simp]: "nat_digits n \<noteq> []"
  by (subst nat_digits.simps) simp

lemma nat_digits_digits [simp]: "list_all is_digit (nat_digits n)"
proof (induction n rule: nat_digits.induct)
  case (1 n)
  then show ?case by (simp add: nat_digits.simps [of n])
qed

lemma digits_value_snoc [simp]:
  "digits_value (s @ [c]) = 10 * digits_value s + (of_char c - 48)"
  by (simp add: digits_value_def)

lemma digits_value_nat_digits [simp]: "digits_value (nat_digits n) = n"
proof (induction n rule: nat_digits.induct)
  case (1 n)
  show ?case
  proof (cases "n < 10")
    case True
    then show ?thesis by (simp add: nat_digits.simps [of n] digits_value_def)
  next
    case False
    with 1 have "digits_value (nat_digits n) = 10 * (n div 10) + n mod 10"
      by (simp add: nat_digits.simps [of n])
    then show ?thesis by simp
  qed
qed

lemma hd_nat_digits: "is_digit (hd (nat_digits n))"
  using nat_digits_digits [of n] by (cases "nat_digits n") auto

lemma nat_digits_unsigned [simp]:
  "\<not> HasPrefix (nat_digits n) ''-''" "\<not> HasPrefix (nat_digits n) ''+''"
  using hd_nat_digits [of n] by (auto simp: HasPrefix_iff is_digit_def)

lemma Atoi_Itoa [simp]: "int64_range i \<Longrightarrow> Atoi (Itoa i) = Some i"
  by (auto simp: Atoi_def Itoa_def Let_def)

lemma Itoa_inject [simp]: "Itoa i = Itoa j \<longleftrightarrow> i = j"
proof
  assume eq: "Itoa i = Itoa j"
  have inj: "nat_digits m = nat_digits n \<Longrightarrow> m = n" for m n
    by (metis digits_value_nat_digits)
  have sign: "CHR ''-'' # s \<noteq> nat_digits n" for s n
    using nat_digits_unsigned(1) [of n] by (metis HasPrefix_iff append_Cons append_Nil)
  show "i = j"
    using eq inj sign sign [symmetric] by (auto simp: Itoa_def split: if_splits) fastforce+
qed simp

end
