(* ===== verification/Framing.thy ===== *)
theory Framing
  imports GoStrings
begin

text \<open>
  \<open>internal/core/framing.go\<close>: frames with a 4-byte big-endian length prefix, and the two byte
  sources frames are read from: a \<open>bytes.Reader\<close> over a slice and a TCP connection that
  delivers its bytes in arbitrary chunks. The interface the frame code relies on
  (\<open>io.ReadFull\<close>) is the locale \<open>byte_source\<close>; both sources interpret it.
\<close>

section \<open>Byte sources\<close>

text \<open>
  \<open>bytes.Reader\<close>: a slice and the index of the next unread byte. \<open>io.ReadFull\<close> on it
  consumes what is left when there is too little.
\<close>

record bytes_reader =
  br_s :: "byte list"
  br_i :: nat

definition br_new :: "byte list \<Rightarrow> bytes_reader" where
  "br_new b = \<lparr>br_s = b, br_i = 0\<rparr>"

definition br_rest :: "bytes_reader \<Rightarrow> byte list" where
  "br_rest r = drop (br_i r) (br_s r)"

definition br_Len :: "bytes_reader \<Rightarrow> int" where
  "br_Len r = int (length (br_rest r))"

definition br_ReadFull :: "nat \<Rightarrow> bytes_reader \<Rightarrow> (go_error + byte list) \<times> bytes_reader" where
  "br_ReadFull n r =
     (let avail = br_rest r; r' = r\<lparr>br_i := min (length (br_s r)) (br_i r + n)\<rparr> in
      if n \<le> length avail then (Inr (take n avail), r')
      else if avail = [] then (Inl EOF, r)
      else (Inl UnexpectedEOF, r'))"

text \<open>
  A TCP connection seen from the reader: the chunks the kernel will deliver, in order; when
  they are used up the connection reports end of file. One \<open>Read\<close> returns bytes of the first
  chunk only; \<open>io.ReadFull\<close> repeats \<open>Read\<close> until the buffer is full.
\<close>

type_synonym tcp = "byte list list"

fun tcp_Read :: "nat \<Rightarrow> tcp \<Rightarrow> (go_error + byte list) \<times> tcp" where
  "tcp_Read n [] = (Inl EOF, [])"
| "tcp_Read n (c # cs) = (if length c \<le> n then (Inr c, cs) else (Inr (take n c), drop n c # cs))"

fun tcp_ReadFull :: "nat \<Rightarrow> tcp \<Rightarrow> (go_error + byte list) \<times> tcp" where
  "tcp_ReadFull 0 cs = (Inr [], cs)"
| "tcp_ReadFull (Suc n) [] = (Inl EOF, [])"
| "tcp_ReadFull (Suc n) (c # cs) =
     (if Suc n < length c then (Inr (take (Suc n) c), drop (Suc n) c # cs)
      else (case tcp_ReadFull (Suc n - length c) cs of
              (Inr b, cs') \<Rightarrow> (Inr (c @ b), cs')
            | (Inl EOF, cs') \<Rightarrow> (Inl (if c = [] then EOF else UnexpectedEOF), cs')
            | (Inl e, cs') \<Rightarrow> (Inl e, cs')))"

text \<open>
  What \<open>io.ReadFull\<close> promises of any source, in terms of the bytes the source still holds.
\<close>

locale byte_source =
  fixes rdfull :: "nat \<Rightarrow> 's \<Rightarrow> (go_error + byte list) \<times> 's"
    and stream :: "'s \<Rightarrow> byte list"
  assumes rdfull_enough: "n \<le> length (stream s) \<Longrightarrow>
            fst (rdfull n s) = Inr (take n (stream s)) \<and> stream (snd (rdfull n s)) = drop n (stream s)"
    and rdfull_short: "length (stream s) < n \<Longrightarrow>
            fst (rdfull n s) = Inl (if stream s = [] then EOF else UnexpectedEOF) \<and>
            stream (snd (rdfull n s)) = []"

interpretation br: byte_source br_ReadFull br_rest
proof
  fix n r
  assume "n \<le> length (br_rest r)"
  then show "fst (br_ReadFull n r) = Inr (take n (br_rest r)) \<and>
             br_rest (snd (br_ReadFull n r)) = drop n (br_rest r)"
    by (auto simp: br_ReadFull_def br_rest_def Let_def min_def add.commute)
next
  fix n r
  assume "length (br_rest r) < n"
  then show "fst (br_ReadFull n r) = Inl (if br_rest r = [] then EOF else UnexpectedEOF) \<and>
             br_rest (snd (br_ReadFull n r)) = []"
    by (auto simp: br_ReadFull_def br_rest_def Let_def min_def)
qed

lemma tcp_ReadFull_enough:
  "n \<le> length (concat cs) \<Longrightarrow>
     fst (tcp_ReadFull n cs) = Inr (take n (concat cs)) \<and>
     concat (snd (tcp_ReadFull n cs)) = drop n (concat cs)"
proof (induction n cs rule: tcp_ReadFull.induct)
  case (3 n c cs)
  show ?case
  proof (cases "Suc n < length c")
    case False
    with 3 have ih: "fst (tcp_ReadFull (Suc n - length c) cs) = Inr (take (Suc n - length c) (concat cs))"
        "concat (snd (tcp_ReadFull (Suc n - length c) cs)) = drop (Suc n - length c) (concat cs)"
      by auto
    with False show ?thesis by (auto split: prod.splits)
  qed auto
qed auto

lemma tcp_ReadFull_short:
  "length (concat cs) < n \<Longrightarrow>
     fst (tcp_ReadFull n cs) = Inl (if concat cs = [] then EOF else UnexpectedEOF) \<and>
     concat (snd (tcp_ReadFull n cs)) = []"
proof (induction n cs rule: tcp_ReadFull.induct)
  case (3 n c cs)
  then have "length c \<le> n" by simp
  with 3 have ih: "fst (tcp_ReadFull (Suc n - length c) cs) = Inl (if concat cs = [] then EOF else UnexpectedEOF)"
      "concat (snd (tcp_ReadFull (Suc n - length c) cs)) = []"
    by auto
  with \<open>length c \<le> n\<close> show ?case
    by (cases "concat cs = []") (auto simp del: concat_eq_Nil_conv split: prod.splits)
qed auto

interpretation tcp: byte_source tcp_ReadFull concat
  by unfold_locales (rule tcp_ReadFull_enough tcp_ReadFull_short, assumption)+

section \<open>Frames\<close>

definition MaxFrameSize :: int where
  "MaxFrameSize = 10 * 1024 * 1024"

definition EncodeFrame :: "byte list \<Rightarrow> byte list" where
  "EncodeFrame payload = be32 (len32 payload) @ payload"

definition frame_range_error :: go_error where
  "frame_range_error = Err ''frame length out of range''"

definition ReadFrame ::
  "(nat \<Rightarrow> 's \<Rightarrow> (go_error + byte list) \<times> 's) \<Rightarrow> 's \<Rightarrow> (go_error + byte list) \<times> 's" where
  "ReadFrame rdfull r =
     (case rdfull 4 r of
        (Inl err, r1) \<Rightarrow> (Inl err, r1)
      | (Inr lenBuf, r1) \<Rightarrow>
          (let len = uint (of_be32 lenBuf) in
           if len < 0 \<or> len > MaxFrameSize then (Inl frame_range_error, r1)
           else rdfull (nat len) r1))"

definition WriteFrame :: "byte list \<Rightarrow> byte list \<Rightarrow> byte list" where
  "WriteFrame w payload = w @ EncodeFrame payload"

text \<open>A frame as a function of the bytes of the source alone.\<close>

definition frame_of_stream :: "byte list \<Rightarrow> (go_error + byte list) \<times> byte list" where
  "frame_of_stream bs =
     (if length bs < 4 then (Inl (if bs = [] then EOF else UnexpectedEOF), [])
      else let len = unat (of_be32 (take 4 bs)); rest = drop 4 bs in
        if int len > MaxFrameSize then (Inl frame_range_error, rest)
        else if length rest < len then (Inl (if rest = [] then EOF else UnexpectedEOF), [])
        else (Inr (take len rest), drop len rest))"

context byte_source
begin

lemma rdfull_cases:
  "rdfull n s =
     (if n \<le> length (stream s) then (Inr (take n (stream s)), snd (rdfull n s))
      else (Inl (if stream s = [] then EOF else UnexpectedEOF), snd (rdfull n s)))"
  using rdfull_enough [of n s] rdfull_short [of s n] by (cases "rdfull n s") auto

lemma stream_rdfull: "stream (snd (rdfull n s)) = drop n (stream s)"
  using rdfull_enough [of n s] rdfull_short [of s n] by (cases "n \<le> length (stream s)") auto

text \<open>The frame read and the bytes left depend on the source's bytes only.\<close>

lemma ReadFrame_stream:
  "fst (ReadFrame rdfull s) = fst (frame_of_stream (stream s))"
  "stream (snd (ReadFrame rdfull s)) = snd (frame_of_stream (stream s))"
proof -
  define s1 where "s1 = snd (rdfull 4 s)"
  have s1: "stream s1 = drop 4 (stream s)" by (simp add: s1_def stream_rdfull)
  have r4: "rdfull 4 s =
      (if 4 \<le> length (stream s) then (Inr (take 4 (stream s)), s1)
       else (Inl (if stream s = [] then EOF else UnexpectedEOF), s1))"
    by (subst rdfull_cases) (simp add: s1_def)
  define l where "l = unat (of_be32 (take 4 (stream s)))"
  define s2 where "s2 = snd (rdfull l s1)"
  have s2: "stream s2 = drop l (drop 4 (stream s))" by (simp add: s2_def stream_rdfull s1)
  have rl: "rdfull l s1 =
      (if l \<le> length (stream s1) then (Inr (take l (stream s1)), s2)
       else (Inl (if stream s1 = [] then EOF else UnexpectedEOF), s2))"
    by (subst rdfull_cases) (simp add: s2_def)
  have l: "uint (of_be32 (take 4 (stream s))) = int l" by (simp add: l_def)
  show "fst (ReadFrame rdfull s) = fst (frame_of_stream (stream s))"
    by (auto simp: ReadFrame_def frame_of_stream_def r4 rl l s1 Let_def simp flip: l_def)
  show "stream (snd (ReadFrame rdfull s)) = snd (frame_of_stream (stream s))"
    by (auto simp: ReadFrame_def frame_of_stream_def r4 rl l s1 s2 Let_def simp flip: l_def)
qed

end

lemma frame_of_stream_EncodeFrame:
  assumes "int (length p) \<le> MaxFrameSize"
  shows "frame_of_stream (EncodeFrame p @ rest) = (Inr p, rest)"
proof -
  have "length p < 2 ^ 32" using assms by (simp add: MaxFrameSize_def)
  with assms show ?thesis by (simp add: frame_of_stream_def EncodeFrame_def Let_def)
qed

text \<open>
  The read loop of a connection: read frames until the source reports an error. The fuel is
  the number of bytes held, and each frame consumes at least its prefix.
\<close>

fun read_frames :: "nat \<Rightarrow> byte list \<Rightarrow> byte list list \<times> go_error option" where
  "read_frames 0 bs = ([], None)"
| "read_frames (Suc fuel) bs =
     (case frame_of_stream bs of
        (Inl e, _) \<Rightarrow> ([], Some e)
      | (Inr p, rest) \<Rightarrow> (case read_frames fuel rest of (ps, e) \<Rightarrow> (p # ps, e)))"

lemma frame_of_stream_shorter:
  "frame_of_stream bs = (Inr p, rest) \<Longrightarrow> length rest < length bs"
  by (auto simp: frame_of_stream_def Let_def split: if_splits)

lemma read_frames_enough:
  "length bs < fuel \<Longrightarrow> \<exists>e. snd (read_frames fuel bs) = Some e"
proof (induction fuel arbitrary: bs)
  case (Suc fuel)
  show ?case
  proof (cases "frame_of_stream bs")
    case (Pair r rest)
    show ?thesis
    proof (cases r)
      case (Inr p)
      with Pair have "length rest < fuel"
        using frame_of_stream_shorter [of bs p rest] Suc.prems by simp
      with Suc.IH obtain e where "snd (read_frames fuel rest) = Some e" by blast
      with Pair Inr show ?thesis by (auto split: prod.splits)
    qed (simp add: Pair)
  qed
qed simp

lemma read_frames_all:
  assumes "list_all (\<lambda>p. int (length p) \<le> MaxFrameSize) ps" "length ps < fuel"
  shows "read_frames fuel (concat (List.map EncodeFrame ps)) = (ps, Some EOF)"
  using assms
proof (induction ps arbitrary: fuel)
  case Nil
  then show ?case by (cases fuel) (auto simp: frame_of_stream_def)
next
  case (Cons p ps)
  then obtain f where "fuel = Suc f" by (cases fuel) auto
  with Cons show ?case by (simp add: frame_of_stream_EncodeFrame)
qed

text \<open>
  C23: whatever way TCP cuts the bytes into chunks, \<open>ReadFrame\<close> returns the payload that
  \<open>EncodeFrame\<close> wrote and leaves exactly the bytes behind it, for every payload up to
  \<open>MaxFrameSize\<close>.
\<close>

theorem ReadFrame_EncodeFrame_chunked:
  assumes "int (length p) \<le> MaxFrameSize" "concat cs = EncodeFrame p @ rest"
  shows "fst (ReadFrame tcp_ReadFull cs) = Inr p \<and> concat (snd (ReadFrame tcp_ReadFull cs)) = rest"
  using assms by (simp add: tcp.ReadFrame_stream frame_of_stream_EncodeFrame)

theorem ReadFrame_EncodeFrame_chunked_witness:
  "fst (ReadFrame tcp_ReadFull [[0, 0], [0], [2, 7], [9, 1]]) = Inr [7, 9] \<and>
   concat (snd (ReadFrame tcp_ReadFull [[0, 0], [0], [2, 7], [9, 1]])) = [1]"
  by (rule ReadFrame_EncodeFrame_chunked)
    (simp_all add: MaxFrameSize_def EncodeFrame_def be32_def len32_def)

end
