(* ===== verification/RouteMessage.thy ===== *)
theory RouteMessage
  imports Framing
begin

text \<open>
  \<open>internal/core/types.go\<close> and \<open>internal/core/route_message.go\<close>: the message types, the data
  types that travel between nodes, and the codec of a route message. The Go enumeration
  \<open>RouteMessageType\<close> is open: any \<open>int32\<close> is a value of it, so it is a 32-bit word here.
\<close>

section \<open>Message types\<close>

type_synonym RouteMessageType = "32 word"

definition RouteMessageTypeHeartBeat :: RouteMessageType where "RouteMessageTypeHeartBeat = 0"
definition RouteMessageTypeMessageData :: RouteMessageType where "RouteMessageTypeMessageData = 1"
definition RouteMessageTypeRemoveRouteNode :: RouteMessageType where
  "RouteMessageTypeRemoveRouteNode = 2"
definition RouteMessageTypeRpcRequest :: RouteMessageType where "RouteMessageTypeRpcRequest = 3"
definition RouteMessageTypeRpcResponse :: RouteMessageType where "RouteMessageTypeRpcResponse = 4"
definition RouteMessageTypeSystemError :: RouteMessageType where "RouteMessageTypeSystemError = 5"

lemmas message_types =
  RouteMessageTypeHeartBeat_def RouteMessageTypeMessageData_def
  RouteMessageTypeRemoveRouteNode_def RouteMessageTypeRpcRequest_def
  RouteMessageTypeRpcResponse_def RouteMessageTypeSystemError_def

definition RouteMessageType_String :: "RouteMessageType \<Rightarrow> gostring" where
  "RouteMessageType_String t =
     (if t = RouteMessageTypeHeartBeat then ''HeartBeat''
      else if t = RouteMessageTypeMessageData then ''MessageData''
      else if t = RouteMessageTypeRemoveRouteNode then ''RemoveRouteNode''
      else if t = RouteMessageTypeRpcRequest then ''RpcRequest''
      else if t = RouteMessageTypeRpcResponse then ''RpcResponse''
      else if t = RouteMessageTypeSystemError then ''SystemError''
      else ''Unknown('' @ Itoa (sint t) @ '')'')"

definition RouteMessageTypeFromOrdinal :: "32 word \<Rightarrow> RouteMessageType option" where
  "RouteMessageTypeFromOrdinal v =
     (if sint v < 0 \<or> sint v > sint RouteMessageTypeSystemError then None else Some v)"

lemma RouteMessageTypeFromOrdinal_idem:
  "RouteMessageTypeFromOrdinal v = Some t \<Longrightarrow> t = v \<and> RouteMessageTypeFromOrdinal t = Some t"
  by (auto simp: RouteMessageTypeFromOrdinal_def split: if_splits)

section \<open>Data types\<close>

record RouteMessage =
  FromRouteId :: gostring
  ToRouteId :: gostring
  MessageType :: "RouteMessageType option"
  Data :: "gostring option"

record RouteNode =
  node_RouterId :: gostring
  node_HostForRpc :: gostring
  node_PortForRpc :: int

text \<open>A slice field is \<open>None\<close> for Go's nil slice, which JSON tells from the empty one.\<close>

record RpcStubMetadata =
  stub_PacketId :: int
  stub_Description :: gostring
  stub_ClassName :: gostring
  stub_MethodName :: gostring
  stub_ParameterTypes :: "gostring list option"
  stub_ParameterNames :: "gostring list option"
  stub_ParameterDescriptions :: "gostring list option"
  stub_ParameterExampleJson :: "gostring list option"

record RpcServerInfo =
  info_Host :: gostring
  info_Port :: int
  info_Stubs :: "RpcStubMetadata list option"

section \<open>Encoding\<close>

definition writeInt32 :: "byte list \<Rightarrow> 32 word \<Rightarrow> byte list" where
  "writeInt32 w v = w @ be32 v"

text \<open>\<open>m\<close> is \<open>None\<close> for the nil receiver. Writes to a \<open>bytes.Buffer\<close> do not fail.\<close>

definition EncodePayload :: "RouteMessage option \<Rightarrow> go_error + byte list" where
  "EncodePayload m = (case m of
      None \<Rightarrow> Inl (Err ''RouteMessage is nil'')
    | Some m \<Rightarrow>
        let fromBytes = bytes_of (FromRouteId m);
            toBytes = bytes_of (ToRouteId m);
            dataBytes = (case Data m of None \<Rightarrow> [] | Some d \<Rightarrow> bytes_of d);
            buf = writeInt32 [] (len32 fromBytes);
            buf = buf @ fromBytes;
            buf = writeInt32 buf (len32 toBytes);
            buf = buf @ toBytes;
            buf = (case MessageType m of None \<Rightarrow> writeInt32 buf (-1) | Some t \<Rightarrow> writeInt32 buf t);
            buf = (case Data m of None \<Rightarrow> writeInt32 buf (-1)
                   | Some _ \<Rightarrow> writeInt32 buf (len32 dataBytes) @ dataBytes)
        in Inr buf)"

section \<open>Decoding\<close>

definition readInt32 :: "bytes_reader \<Rightarrow> (go_error + 32 word) \<times> bytes_reader" where
  "readInt32 r = (case br_ReadFull 4 r of
      (Inl err, r') \<Rightarrow> (Inl err, r')
    | (Inr b, r') \<Rightarrow> (Inr (of_be32 b), r'))"

text \<open>The check for an extra length prefix at the front of the payload.\<close>

definition skip_extra_prefix :: "bytes_reader \<Rightarrow> bytes_reader" where
  "skip_extra_prefix reader =
     (if br_Len reader \<ge> 4 then
        let peek = br_i reader in
        (case readInt32 reader of
           (Inr possibleLen, reader1) \<Rightarrow>
             if sint possibleLen = br_Len reader1 - 4 then reader1 else reader1\<lparr>br_i := peek\<rparr>
         | (Inl _, reader1) \<Rightarrow> reader1\<lparr>br_i := peek\<rparr>)
      else reader)"

definition decode_fields :: "bytes_reader \<Rightarrow> go_error + RouteMessage" where
  "decode_fields reader =
     (case readInt32 reader of
        (Inl _, _) \<Rightarrow> Inl (Err ''invalid fromRouteId length'')
      | (Inr fromLen, reader) \<Rightarrow>
     if sint fromLen < 0 then Inl (Err ''invalid fromRouteId length'') else
     (case br_ReadFull (nat (sint fromLen)) reader of
        (Inl err, _) \<Rightarrow> Inl err
      | (Inr fromBytes, reader) \<Rightarrow>
     (case readInt32 reader of
        (Inl _, _) \<Rightarrow> Inl (Err ''invalid toRouteId length'')
      | (Inr toLen, reader) \<Rightarrow>
     if sint toLen < 0 then Inl (Err ''invalid toRouteId length'') else
     (case br_ReadFull (nat (sint toLen)) reader of
        (Inl err, _) \<Rightarrow> Inl err
      | (Inr toBytes, reader) \<Rightarrow>
     (case readInt32 reader of
        (Inl err, _) \<Rightarrow> Inl err
      | (Inr ordinal, reader) \<Rightarrow>
     (let msgType = (if sint ordinal \<ge> 0 then RouteMessageTypeFromOrdinal ordinal else None) in
     (case readInt32 reader of
        (Inl err, _) \<Rightarrow> Inl err
      | (Inr dataLen, reader) \<Rightarrow>
     if sint dataLen \<ge> 0 then
       (case br_ReadFull (nat (sint dataLen)) reader of
          (Inl err, _) \<Rightarrow> Inl err
        | (Inr dBytes, _) \<Rightarrow>
            Inr \<lparr>FromRouteId = string_of fromBytes, ToRouteId = string_of toBytes,
                 MessageType = msgType, Data = Some (string_of dBytes)\<rparr>)
     else Inr \<lparr>FromRouteId = string_of fromBytes, ToRouteId = string_of toBytes,
               MessageType = msgType, Data = None\<rparr>)))))))"

definition DecodeRouteMessagePayload :: "byte list \<Rightarrow> go_error + RouteMessage" where
  "DecodeRouteMessagePayload payload =
     (if payload = [] then Inl (Err ''empty payload'')
      else decode_fields (skip_extra_prefix (br_new payload)))"

section \<open>Reading from a reader that holds known bytes\<close>

named_theorems reads \<open>what a read returns when the bytes ahead are known\<close>

lemma br_rest_new [simp]: "br_rest (br_new b) = b"
  by (simp add: br_rest_def br_new_def)

lemma br_ReadFull_append:
  assumes "br_rest r = xs @ ys"
  obtains r' where "br_ReadFull (length xs) r = (Inr xs, r')" "br_rest r' = ys"
proof -
  have "fst (br_ReadFull (length xs) r) = Inr xs" "br_rest (snd (br_ReadFull (length xs) r)) = ys"
    using br.rdfull_enough [of "length xs" r] assms by auto
  then show ?thesis using that by (cases "br_ReadFull (length xs) r") auto
qed

lemma readInt32_append:
  assumes "br_rest r = be32 v @ ys"
  obtains r' where "readInt32 r = (Inr v, r')" "br_rest r' = ys"
proof -
  obtain r' where "br_ReadFull (length (be32 v)) r = (Inr (be32 v), r')" "br_rest r' = ys"
    using br_ReadFull_append [OF assms] by blast
  then show ?thesis using that by (auto simp: readInt32_def)
qed

lemma readInt32_short: "length (br_rest r) < 4 \<Longrightarrow> \<exists>e r'. readInt32 r = (Inl e, r')"
  using br.rdfull_short [of r 4] by (cases "br_ReadFull 4 r") (auto simp: readInt32_def)

lemma br_ReadFull_br_s [simp]: "br_s (snd (br_ReadFull n r)) = br_s r"
  by (simp add: br_ReadFull_def Let_def)

lemma readInt32_br_s: "readInt32 r = (res, r') \<Longrightarrow> br_s r' = br_s r"
  using br_ReadFull_br_s [of 4 r]
  by (cases "br_ReadFull 4 r"; cases "fst (br_ReadFull 4 r)") (auto simp: readInt32_def)

text \<open>The prefix check as a function of the payload.\<close>

lemma br_new_simps [simp]: "br_Len (br_new b) = int (length b)" "br_i (br_new b) = 0"
  "br_s (br_new b) = b"
  by (simp_all add: br_Len_def br_new_def br_rest_def)

lemma readInt32_new:
  assumes "4 \<le> length b"
  obtains r where "readInt32 (br_new b) = (Inr (of_be32 (take 4 b)), r)"
    "br_rest r = drop 4 b" "br_rest (r\<lparr>br_i := 0\<rparr>) = b"
proof -
  obtain res r where p: "br_ReadFull 4 (br_new b) = (res, r)" by force
  then have "res = Inr (take 4 b)" "br_rest r = drop 4 b" "br_s r = b"
    using br.rdfull_enough [of 4 "br_new b"] br_ReadFull_br_s [of 4 "br_new b"] assms
    by auto
  with p that show ?thesis by (auto simp: readInt32_def br_rest_def)
qed

lemma br_rest_skip_extra_prefix:
  "br_rest (skip_extra_prefix (br_new b)) =
     (if length b \<ge> 4 \<and> sint (of_be32 (take 4 b)) = int (length b) - 8 then drop 4 b else b)"
proof (cases "length b \<ge> 4")
  case True
  obtain r where r: "readInt32 (br_new b) = (Inr (of_be32 (take 4 b)), r)"
    "br_rest r = drop 4 b" "br_rest (r\<lparr>br_i := 0\<rparr>) = b"
    using readInt32_new [OF True] by blast
  have "br_Len r = int (length b) - 4" using True by (simp add: br_Len_def r(2))
  with True show ?thesis by (auto simp: skip_extra_prefix_def r Let_def)
next
  case False
  then show ?thesis by (simp add: skip_extra_prefix_def)
qed

section \<open>Round trip\<close>

definition fits_int32 :: "RouteMessage \<Rightarrow> bool" where
  "fits_int32 m \<longleftrightarrow> length (FromRouteId m) < 2 ^ 31 \<and> length (ToRouteId m) < 2 ^ 31 \<and>
     (case Data m of None \<Rightarrow> True | Some d \<Rightarrow> length d < 2 ^ 31)"

text \<open>What a receiver sees of a message: a type outside the known six is lost.\<close>

definition known_type :: "RouteMessageType option \<Rightarrow> RouteMessageType option" where
  "known_type t = (case t of None \<Rightarrow> None | Some v \<Rightarrow> RouteMessageTypeFromOrdinal v)"

definition as_received :: "RouteMessage \<Rightarrow> RouteMessage" where
  "as_received m = m\<lparr>MessageType := known_type (MessageType m)\<rparr>"

definition type_word :: "RouteMessageType option \<Rightarrow> 32 word" where
  "type_word t = (case t of None \<Rightarrow> -1 | Some v \<Rightarrow> v)"

definition payload_of :: "RouteMessage \<Rightarrow> byte list" where
  "payload_of m =
     be32 (len32 (FromRouteId m)) @ bytes_of (FromRouteId m) @
     be32 (len32 (ToRouteId m)) @ bytes_of (ToRouteId m) @
     be32 (type_word (MessageType m)) @
     (case Data m of None \<Rightarrow> be32 (-1) | Some d \<Rightarrow> be32 (len32 d) @ bytes_of d)"

lemma len32_bytes_of [simp]: "len32 (bytes_of s) = len32 s"
  by (simp add: len32_def)

lemma EncodePayload_Some [simp]: "EncodePayload (Some m) = Inr (payload_of m)"
  by (auto simp: EncodePayload_def payload_of_def writeInt32_def type_word_def Let_def
      split: option.splits)

lemma known_type_word:
  "(if sint (type_word t) \<ge> 0 then RouteMessageTypeFromOrdinal (type_word t) else None) = known_type t"
  by (auto simp: type_word_def known_type_def RouteMessageTypeFromOrdinal_def split: option.splits)

lemma length_payload_of:
  "length (payload_of m) =
     16 + length (FromRouteId m) + length (ToRouteId m) +
     (case Data m of None \<Rightarrow> 0 | Some d \<Rightarrow> length d)"
  by (auto simp: payload_of_def split: option.splits)

lemma decode_fields_payload_of:
  assumes "fits_int32 m" "br_rest r = payload_of m @ rest"
  shows "decode_fields r = Inr (as_received m)"
proof -
  let ?f = "FromRouteId m" and ?t = "ToRouteId m" and ?d = "Data m"
  let ?tail = "case ?d of None \<Rightarrow> be32 (-1) | Some d \<Rightarrow> be32 (len32 d) @ bytes_of d"
  from assms(2) obtain r1 where 1: "readInt32 r = (Inr (len32 ?f), r1)"
    "br_rest r1 = bytes_of ?f @ be32 (len32 ?t) @ bytes_of ?t @
       be32 (type_word (MessageType m)) @ ?tail @ rest"
    by (auto simp: payload_of_def elim: readInt32_append)
  obtain r2 where 2: "br_ReadFull (length ?f) r1 = (Inr (bytes_of ?f), r2)"
    "br_rest r2 = be32 (len32 ?t) @ bytes_of ?t @ be32 (type_word (MessageType m)) @ ?tail @ rest"
    using br_ReadFull_append [OF 1(2)] by auto
  obtain r3 where 3: "readInt32 r2 = (Inr (len32 ?t), r3)"
    "br_rest r3 = bytes_of ?t @ be32 (type_word (MessageType m)) @ ?tail @ rest"
    using readInt32_append [OF 2(2)] by auto
  obtain r4 where 4: "br_ReadFull (length ?t) r3 = (Inr (bytes_of ?t), r4)"
    "br_rest r4 = be32 (type_word (MessageType m)) @ ?tail @ rest"
    using br_ReadFull_append [OF 3(2)] by auto
  obtain r5 where 5: "readInt32 r4 = (Inr (type_word (MessageType m)), r5)"
    "br_rest r5 = ?tail @ rest"
    using readInt32_append [OF 4(2)] by auto
  note front = 1(1) 2(1) 3(1) 4(1) 5(1)
  show ?thesis
  proof (cases ?d)
    case None
    with 5 obtain r6 where 6: "readInt32 r5 = (Inr (-1), r6)"
      by (auto elim: readInt32_append)
    show ?thesis
      using assms(1) by (simp add: decode_fields_def front 6 None fits_int32_def Let_def
          known_type_word as_received_def)
  next
    case (Some d)
    with 5 obtain r6 where 6: "readInt32 r5 = (Inr (len32 d), r6)" "br_rest r6 = bytes_of d @ rest"
      by (auto elim: readInt32_append)
    obtain r7 where 7: "br_ReadFull (length d) r6 = (Inr (bytes_of d), r7)"
      using br_ReadFull_append [OF 6(2)] by auto
    show ?thesis
      using assms(1) by (simp add: decode_fields_def front 6(1) 7 Some fits_int32_def Let_def
          known_type_word as_received_def)
  qed
qed

lemma take_4_payload_of: "of_be32 (take 4 (payload_of m)) = len32 (FromRouteId m)"
  by (simp add: payload_of_def)

lemma sint_len32_le: "sint (len32 xs) \<le> int (length xs)"
proof -
  have "- (2 ^ 31) \<le> uint (len32 xs)"
    using unsigned_greater_eq [of "len32 xs"] by (rule order.trans [rotated]) simp
  then have "sint (len32 xs) \<le> uint (len32 xs)"
    by (simp add: sint_uint signed_take_bit_int_less_eq_self_iff)
  also have "uint (len32 xs) \<le> int (length xs)"
    by (simp add: len32_def unsigned_of_nat take_bit_int_less_eq_self_iff)
  finally show ?thesis .
qed

text \<open>The prefix check never fires on a payload the encoder wrote.\<close>

lemma skip_extra_prefix_payload_of:
  "br_rest (skip_extra_prefix (br_new (payload_of m))) = payload_of m"
proof -
  have "sint (len32 (FromRouteId m)) \<noteq> int (length (payload_of m)) - 8"
    using sint_len32_le [of "FromRouteId m"] by (simp add: length_payload_of)
  then show ?thesis by (simp add: br_rest_skip_extra_prefix take_4_payload_of)
qed

lemma Decode_payload_of:
  assumes "fits_int32 m"
  shows "DecodeRouteMessagePayload (payload_of m) = Inr (as_received m)"
proof -
  have "payload_of m \<noteq> []" using length_payload_of [of m] by auto
  with assms show ?thesis
    by (simp add: DecodeRouteMessagePayload_def decode_fields_payload_of [where rest = "[]"]
        skip_extra_prefix_payload_of)
qed

text \<open>What was decoded fits, and its type is known: it would be received as it is.\<close>

lemma br_ReadFull_length: "br_ReadFull n r = (Inr b, r') \<Longrightarrow> length b = n"
  using br.rdfull_enough [of n r] br.rdfull_short [of r n] by (cases "n \<le> length (br_rest r)") auto

lemma br_ReadFull_rest:
  "br_ReadFull n r = (Inr b, r') \<Longrightarrow> length (br_rest r) = n + length (br_rest r')"
  using br.rdfull_enough [of n r] br.rdfull_short [of r n] by (cases "n \<le> length (br_rest r)") auto

lemma readInt32_rest: "readInt32 r = (Inr v, r') \<Longrightarrow> length (br_rest r) = 4 + length (br_rest r')"
  using br_ReadFull_rest [of 4 r]
  by (cases "br_ReadFull 4 r"; cases "fst (br_ReadFull 4 r)") (auto simp: readInt32_def)

lemma length_read_int32: "br_ReadFull (nat (sint (w :: 32 word))) r = (Inr b, r') \<Longrightarrow> length b < 2 ^ 31"
  using br_ReadFull_length [of "nat (sint w)" r b r'] sint_lt [of w] by simp

lemma Inr_result: "(case p of (Inl e, r) \<Rightarrow> f e r | (Inr b, r) \<Rightarrow> g b r) = Inr m \<Longrightarrow>
    (\<And>e r. \<exists>e'. f e r = Inl e') \<Longrightarrow> \<exists>b r. p = (Inr b, r) \<and> g b r = Inr m"
  by (cases p; cases "fst p") (auto, metis Inl_Inr_False)

lemma decode_fields_fits:
  assumes "decode_fields r = Inr m"
  shows "fits_int32 m \<and> as_received m = m \<and> length (payload_of m) \<le> length (br_rest r)"
proof -
  note d = assms [unfolded decode_fields_def]
  obtain fl r1 where 1: "readInt32 r = (Inr fl, r1)"
    using Inr_result [OF d] by auto
  obtain fb r2 where 2: "br_ReadFull (nat (sint fl)) r1 = (Inr fb, r2)" "\<not> sint fl < 0"
    using Inr_result [OF d] by (cases "br_ReadFull (nat (sint fl)) r1"; cases "fst (br_ReadFull (nat (sint fl)) r1)")
      (auto simp: 1 split: if_split_asm)
  note d = d [unfolded 1 prod.case sum.case if_not_P [OF 2(2)] 2(1)]
  obtain tl r3 where 3: "readInt32 r2 = (Inr tl, r3)"
    using Inr_result [OF d] by auto
  obtain tb r4 where 4: "br_ReadFull (nat (sint tl)) r3 = (Inr tb, r4)" "\<not> sint tl < 0"
    using d by (cases "br_ReadFull (nat (sint tl)) r3"; cases "fst (br_ReadFull (nat (sint tl)) r3)")
      (auto simp: 3 split: if_split_asm)
  note d = d [unfolded 3 prod.case sum.case if_not_P [OF 4(2)] 4(1)]
  obtain ord r5 where 5: "readInt32 r4 = (Inr ord, r5)"
    using Inr_result [OF d] by auto
  note d = d [unfolded 5 prod.case sum.case Let_def]
  obtain dl r6 where 6: "readInt32 r5 = (Inr dl, r6)"
    using Inr_result [OF d] by auto
  note d = d [unfolded 6 prod.case sum.case]
  have rest: "length (br_rest r) = 16 + length fb + length tb + length (br_rest r6)"
    using readInt32_rest [OF 1] br_ReadFull_rest [OF 2(1)] br_ReadFull_length [OF 2(1)]
      readInt32_rest [OF 3] br_ReadFull_rest [OF 4(1)] br_ReadFull_length [OF 4(1)]
      readInt32_rest [OF 5] readInt32_rest [OF 6] by linarith
  have len: "length fb < 2 ^ 31" "length tb < 2 ^ 31"
    using 2(1) 4(1) by (auto dest: length_read_int32)
  have ty: "known_type (if sint ord \<ge> 0 then RouteMessageTypeFromOrdinal ord else None) =
      (if sint ord \<ge> 0 then RouteMessageTypeFromOrdinal ord else None)"
    by (auto simp: known_type_def RouteMessageTypeFromOrdinal_def)
  show ?thesis
  proof (cases "sint dl \<ge> 0")
    case True
    then obtain db r7 where 7: "br_ReadFull (nat (sint dl)) r6 = (Inr db, r7)"
      using d by (cases "br_ReadFull (nat (sint dl)) r6"; cases "fst (br_ReadFull (nat (sint dl)) r6)") auto
    have "length db < 2 ^ 31" using 7 by (rule length_read_int32)
    moreover have "length db \<le> length (br_rest r6)"
      using br_ReadFull_rest [OF 7] br_ReadFull_length [OF 7] by simp
    ultimately show ?thesis
      using d True len ty rest by (auto simp: 7 fits_int32_def as_received_def length_payload_of)
  next
    case False
    with d len ty rest show ?thesis by (auto simp: fits_int32_def as_received_def length_payload_of)
  qed
qed

lemma Decode_fits:
  assumes "DecodeRouteMessagePayload b = Inr m"
  shows "fits_int32 m \<and> as_received m = m \<and> length (payload_of m) \<le> length b"
proof -
  have "length (br_rest (skip_extra_prefix (br_new b))) \<le> length b"
    by (simp add: br_rest_skip_extra_prefix)
  with assms show ?thesis
    using decode_fields_fits [of "skip_extra_prefix (br_new b)" m]
    by (auto simp: DecodeRouteMessagePayload_def split: if_splits)
qed

lemma Decode_payload_again:
  "DecodeRouteMessagePayload b = Inr m \<Longrightarrow> DecodeRouteMessagePayload (payload_of m) = Inr m"
  using Decode_fits [of b m] Decode_payload_of [of m] by simp

text \<open>
  C22: decoding what \<open>EncodePayload\<close> produced returns the message, for all route ids and data
  that fit a 32-bit length; only a message type outside the six known ones becomes nil.
\<close>

theorem Decode_EncodePayload:
  assumes "fits_int32 m" "EncodePayload (Some m) = Inr payload"
  shows "DecodeRouteMessagePayload payload = Inr (as_received m)"
  using assms by (auto simp: Decode_payload_of)

definition sample_message :: RouteMessage where
  "sample_message = \<lparr>FromRouteId = ''a'', ToRouteId = ''b'',
     MessageType = Some RouteMessageTypeRpcRequest, Data = Some ''x''\<rparr>"

theorem Decode_EncodePayload_witness:
  "DecodeRouteMessagePayload (payload_of sample_message) = Inr sample_message"
proof -
  have "DecodeRouteMessagePayload (payload_of sample_message) = Inr (as_received sample_message)"
    by (rule Decode_EncodePayload) (simp_all add: fits_int32_def sample_message_def)
  then show ?thesis
    by (simp add: as_received_def sample_message_def known_type_def RouteMessageTypeFromOrdinal_def
        message_types)
qed

text \<open>
  The compatibility path for an extra length prefix does not recognise one. A payload
  that the encoder wrote, put behind its own 4-byte length, is rejected: the check compares
  the prefix with the rest less four bytes more, so the prefix is read as the length of the
  sender's id.
\<close>

theorem Decode_extra_prefix_rejected:
  assumes "length (payload_of m) < 2 ^ 31"
  shows "DecodeRouteMessagePayload (be32 (len32 (payload_of m)) @ payload_of m) =
           Inl (Err ''invalid toRouteId length'')"
proof -
  let ?p = "payload_of m" and ?b = "be32 (len32 (payload_of m)) @ payload_of m"
  have rest: "br_rest (skip_extra_prefix (br_new ?b)) = ?b"
    using assms by (simp add: br_rest_skip_extra_prefix)
  then obtain r1 where 1: "readInt32 (skip_extra_prefix (br_new ?b)) = (Inr (len32 ?p), r1)"
    "br_rest r1 = ?p @ []"
    by (auto elim: readInt32_append)
  obtain r2 where 2: "br_ReadFull (length ?p) r1 = (Inr ?p, r2)" "br_rest r2 = []"
    using br_ReadFull_append [OF 1(2)] by auto
  obtain e r3 where 3: "readInt32 r2 = (Inl e, r3)"
    using readInt32_short [of r2] 2(2) by auto
  have "?b \<noteq> []" by (metis length_be32 Nil_is_append_conv list.size(3) zero_neq_numeral)
  with assms show ?thesis
    by (simp add: DecodeRouteMessagePayload_def decode_fields_def 1(1) 2(1) 3)
qed

theorem Decode_extra_prefix_rejected_witness:
  "DecodeRouteMessagePayload (be32 18 @ payload_of (sample_message\<lparr>Data := None\<rparr>)) =
     Inl (Err ''invalid toRouteId length'')"
proof -
  have len: "length (payload_of (sample_message\<lparr>Data := None\<rparr>)) = 18"
    by (simp add: length_payload_of sample_message_def)
  then show ?thesis
    using Decode_extra_prefix_rejected [of "sample_message\<lparr>Data := None\<rparr>"] by (simp add: len32_def)
qed

end
