(* ===== verification/GoJson.thy ===== *)
theory GoJson
  imports GoStrings
begin

text \<open>
  The part of Go's \<open>encoding/json\<close> the router uses: \<open>Marshal\<close> of values built from objects,
  arrays, strings, integers and booleans, and \<open>Unmarshal\<close> with Go's grammar, escapes and
  field matching. A number keeps its literal. Printing and parsing are inverse
  (\<open>json_parse_print\<close>), which the wire data types build on. Bytes from 0x80 on pass through a
  string unchanged, as they do for valid UTF-8 without U+2028 and U+2029.
\<close>

section \<open>Values and printing\<close>

datatype json =
    JNull
  | JBool bool
  | JNum gostring
  | JStr gostring
  | JArr "json list"
  | JObj "(gostring \<times> json) list"

definition hex_digit :: "nat \<Rightarrow> char" where
  "hex_digit n = (if n < 10 then char_of (48 + n) else char_of (87 + n))"

definition escape_char :: "char \<Rightarrow> gostring" where
  "escape_char c =
     (let n = (of_char c :: nat) in
      if n = 34 \<or> n = 92 then [CHR 0x5C, c]
      else if n = 8 then [CHR 0x5C, CHR ''b'']
      else if n = 12 then [CHR 0x5C, CHR ''f'']
      else if n = 10 then [CHR 0x5C, CHR ''n'']
      else if n = 13 then [CHR 0x5C, CHR ''r'']
      else if n = 9 then [CHR 0x5C, CHR ''t'']
      else if n < 32 \<or> n = 60 \<or> n = 62 \<or> n = 38
      then [CHR 0x5C, CHR ''u'', CHR ''0'', CHR ''0'', hex_digit (n div 16), hex_digit (n mod 16)]
      else [c])"

definition quote :: "gostring \<Rightarrow> gostring" where
  "quote s = CHR 0x22 # concat (List.map escape_char s) @ [CHR 0x22]"

fun json_print :: "json \<Rightarrow> gostring" where
  "json_print JNull = ''null''"
| "json_print (JBool b) = (if b then ''true'' else ''false'')"
| "json_print (JNum n) = n"
| "json_print (JStr s) = quote s"
| "json_print (JArr vs) = ''['' @ Join (List.map json_print vs) '','' @ '']''"
| "json_print (JObj ms) =
     CHR 0x7B # Join (List.map (\<lambda>(k, v). quote k @ '':'' @ json_print v) ms) '','' @ [CHR 0x7D]"

section \<open>Tokens\<close>

datatype jtoken =
    TLBrack | TRBrack | TLBrace | TRBrace | TComma | TColon
  | TNull | TBool bool | TNum gostring | TStr gostring

text \<open>\<open>-?(0|[1-9][0-9]*)(.[0-9]+)?([eE][+-]?[0-9]+)?\<close>\<close>

definition valid_exponent :: "gostring \<Rightarrow> bool" where
  "valid_exponent r =
     (if HasPrefix r ''e'' \<or> HasPrefix r ''E''
      then let t = tl r; u = (if HasPrefix t ''+'' \<or> HasPrefix t ''-'' then tl t else t)
           in u \<noteq> [] \<and> list_all is_digit u
      else r = [])"

definition valid_number :: "gostring \<Rightarrow> bool" where
  "valid_number s =
     (let s1 = (if HasPrefix s ''-'' then tl s else s);
          ip = takeWhile is_digit s1;
          r1 = dropWhile is_digit s1;
          ip_ok = (ip \<noteq> [] \<and> (hd ip = CHR ''0'' \<longrightarrow> length ip = 1));
          (fr_ok, r2) =
            (if HasPrefix r1 ''.''
             then (takeWhile is_digit (tl r1) \<noteq> [], dropWhile is_digit (tl r1))
             else (True, r1))
      in ip_ok \<and> fr_ok \<and> valid_exponent r2)"

definition number_char :: "char \<Rightarrow> bool" where
  "number_char c \<longleftrightarrow> is_digit c \<or> c \<in> set ''+-.eE''"

definition json_space :: "char \<Rightarrow> bool" where
  "json_space c \<longleftrightarrow> c \<in> {CHR 0x20, CHR 0x09, CHR 0x0A, CHR 0x0D}"

text \<open>The units of a string literal: plain bytes, and code units from \<open>\uXXXX\<close> escapes.\<close>

datatype junit = UByte char | UCode nat

definition utf8_encode :: "nat \<Rightarrow> gostring" where
  "utf8_encode n =
     (if n < 128 then [char_of n]
      else if n < 2048 then [char_of (192 + n div 64), char_of (128 + n mod 64)]
      else if n < 65536 then
        [char_of (224 + n div 4096), char_of (128 + n div 64 mod 64), char_of (128 + n mod 64)]
      else [char_of (240 + n div 262144), char_of (128 + n div 4096 mod 64),
            char_of (128 + n div 64 mod 64), char_of (128 + n mod 64)])"

definition high_surrogate :: "nat \<Rightarrow> bool" where
  "high_surrogate n \<longleftrightarrow> 55296 \<le> n \<and> n < 56320"

definition low_surrogate :: "nat \<Rightarrow> bool" where
  "low_surrogate n \<longleftrightarrow> 56320 \<le> n \<and> n < 57344"

text \<open>A surrogate pair is one character, a lone surrogate is U+FFFD.\<close>

fun units_bytes :: "junit list \<Rightarrow> gostring" where
  "units_bytes [] = []"
| "units_bytes (UByte c # us) = c # units_bytes us"
| "units_bytes (UCode n # UCode m # us) =
     (if high_surrogate n \<and> low_surrogate m
      then utf8_encode ((n - 55296) * 1024 + (m - 56320) + 65536) @ units_bytes us
      else utf8_encode (if high_surrogate n \<or> low_surrogate n then 65533 else n) @
           units_bytes (UCode m # us))"
| "units_bytes (UCode n # us) =
     utf8_encode (if high_surrogate n \<or> low_surrogate n then 65533 else n) @ units_bytes us"

definition hex_value :: "char \<Rightarrow> nat option" where
  "hex_value c =
     (let n = (of_char c :: nat) in
      if 48 \<le> n \<and> n \<le> 57 then Some (n - 48)
      else if 97 \<le> n \<and> n \<le> 102 then Some (n - 87)
      else if 65 \<le> n \<and> n \<le> 70 then Some (n - 55)
      else None)"

definition unescape_char :: "char \<Rightarrow> char option" where
  "unescape_char c =
     (if c = CHR 0x22 \<or> c = CHR 0x5C \<or> c = CHR ''/'' then Some c
      else if c = CHR ''b'' then Some (CHR 0x08)
      else if c = CHR ''f'' then Some (CHR 0x0C)
      else if c = CHR ''n'' then Some (CHR 0x0A)
      else if c = CHR ''r'' then Some (CHR 0x0D)
      else if c = CHR ''t'' then Some (CHR 0x09)
      else None)"

text \<open>
  The scanner, one character at a time. \<open>LNum\<close>, \<open>LStr\<close> and \<open>LHex\<close> carry what has been read of
  the token (newest unit first), \<open>LLit\<close> what is still expected of a literal.
\<close>

datatype lmode =
    LNone
  | LNum gostring
  | LStr "junit list"
  | LEsc "junit list"
  | LHex "junit list" nat nat
  | LLit gostring jtoken

definition punct :: "char \<Rightarrow> jtoken option" where
  "punct c =
     (if c = CHR ''['' then Some TLBrack else if c = CHR '']'' then Some TRBrack
      else if c = CHR 0x7B then Some TLBrace else if c = CHR 0x7D then Some TRBrace
      else if c = CHR '','' then Some TComma else if c = CHR '':'' then Some TColon else None)"

text \<open>The mode after the first character of a token, and the token if that was all of it.\<close>

definition lex_start :: "char \<Rightarrow> (jtoken option \<times> lmode) option" where
  "lex_start c =
     (if json_space c then Some (None, LNone)
      else if punct c \<noteq> None then Some (punct c, LNone)
      else if c = CHR 0x22 then Some (None, LStr [])
      else if c = CHR ''-'' \<or> is_digit c then Some (None, LNum [c])
      else if c = CHR ''t'' then Some (None, LLit ''rue'' (TBool True))
      else if c = CHR ''f'' then Some (None, LLit ''alse'' (TBool False))
      else if c = CHR ''n'' then Some (None, LLit ''ull'' TNull)
      else None)"

fun emit :: "jtoken option \<Rightarrow> jtoken list \<Rightarrow> jtoken list" where
  "emit None = (\<lambda>ts. ts)"
| "emit (Some t) = (#) t"

fun lex :: "lmode \<Rightarrow> gostring \<Rightarrow> jtoken list option" where
  "lex LNone [] = Some []"
| "lex (LNum acc) [] = (if valid_number (rev acc) then Some [TNum (rev acc)] else None)"
| "lex _ [] = None"
| "lex LNone (c # cs) =
     (case lex_start c of None \<Rightarrow> None | Some (t, m) \<Rightarrow> map_option (emit t) (lex m cs))"
| "lex (LNum acc) (c # cs) =
     (if number_char c then lex (LNum (c # acc)) cs
      else if valid_number (rev acc) then
        (case lex_start c of None \<Rightarrow> None
         | Some (t, m) \<Rightarrow> map_option (\<lambda>ts. TNum (rev acc) # emit t ts) (lex m cs))
      else None)"
| "lex (LStr us) (c # cs) =
     (if c = CHR 0x22 then map_option ((#) (TStr (units_bytes (rev us)))) (lex LNone cs)
      else if c = CHR 0x5C then lex (LEsc us) cs
      else if (of_char c :: nat) < 32 then None
      else lex (LStr (UByte c # us)) cs)"
| "lex (LEsc us) (c # cs) =
     (if c = CHR ''u'' then lex (LHex us 4 0) cs
      else (case unescape_char c of None \<Rightarrow> None | Some d \<Rightarrow> lex (LStr (UByte d # us)) cs))"
| "lex (LHex us k v) (c # cs) =
     (case hex_value c of None \<Rightarrow> None
      | Some d \<Rightarrow> if k \<le> 1 then lex (LStr (UCode (16 * v + d) # us)) cs
                  else lex (LHex us (k - 1) (16 * v + d)) cs)"
| "lex (LLit exp t) (c # cs) =
     (case exp of [] \<Rightarrow> None
      | e # es \<Rightarrow> if c \<noteq> e then None
                   else if es = [] then map_option ((#) t) (lex LNone cs)
                   else lex (LLit es t) cs)"

section \<open>Grammar\<close>

text \<open>
  The parser reads tokens with a stack of open arrays and objects, so it needs no fuel. Each
  context holds the elements read so far, newest first.
\<close>

datatype jctx = CArr "json list" | CObj "(gostring \<times> json) list" gostring

datatype pstate =
    WantValue "jctx list"
  | ArrFirst "jctx list"
  | ArrNext "json list" "jctx list"
  | ObjFirst "jctx list"
  | ObjKey "(gostring \<times> json) list" "jctx list"
  | ObjColon "(gostring \<times> json) list" gostring "jctx list"
  | ObjNext "(gostring \<times> json) list" "jctx list"
  | Finished json

fun deliver :: "json \<Rightarrow> jctx list \<Rightarrow> pstate" where
  "deliver v [] = Finished v"
| "deliver v (CArr vs # cs) = ArrNext (v # vs) cs"
| "deliver v (CObj ms k # cs) = ObjNext ((k, v) # ms) cs"

fun feed_value :: "jtoken \<Rightarrow> jctx list \<Rightarrow> pstate option" where
  "feed_value TNull cs = Some (deliver JNull cs)"
| "feed_value (TBool b) cs = Some (deliver (JBool b) cs)"
| "feed_value (TNum n) cs = Some (deliver (JNum n) cs)"
| "feed_value (TStr s) cs = Some (deliver (JStr s) cs)"
| "feed_value TLBrack cs = Some (ArrFirst cs)"
| "feed_value TLBrace cs = Some (ObjFirst cs)"
| "feed_value _ cs = None"

fun feed :: "jtoken \<Rightarrow> pstate \<Rightarrow> pstate option" where
  "feed t (WantValue cs) = feed_value t cs"
| "feed t (ArrFirst cs) =
     (if t = TRBrack then Some (deliver (JArr []) cs) else feed_value t (CArr [] # cs))"
| "feed t (ArrNext vs cs) =
     (if t = TComma then Some (WantValue (CArr vs # cs))
      else if t = TRBrack then Some (deliver (JArr (rev vs)) cs) else None)"
| "feed t (ObjFirst cs) =
     (case t of TRBrace \<Rightarrow> Some (deliver (JObj []) cs)
      | TStr k \<Rightarrow> Some (ObjColon [] k cs) | _ \<Rightarrow> None)"
| "feed t (ObjKey ms cs) = (case t of TStr k \<Rightarrow> Some (ObjColon ms k cs) | _ \<Rightarrow> None)"
| "feed t (ObjColon ms k cs) = (if t = TColon then Some (WantValue (CObj ms k # cs)) else None)"
| "feed t (ObjNext ms cs) =
     (if t = TComma then Some (ObjKey ms cs)
      else if t = TRBrace then Some (deliver (JObj (rev ms)) cs) else None)"
| "feed t (Finished v) = None"

fun parse_tokens :: "jtoken list \<Rightarrow> pstate \<Rightarrow> pstate option" where
  "parse_tokens [] st = Some st"
| "parse_tokens (t # ts) st = (case feed t st of None \<Rightarrow> None | Some st' \<Rightarrow> parse_tokens ts st')"

definition json_parse :: "gostring \<Rightarrow> json option" where
  "json_parse s =
     (case lex LNone s of None \<Rightarrow> None
      | Some ts \<Rightarrow> (case parse_tokens ts (WantValue []) of Some (Finished v) \<Rightarrow> Some v | _ \<Rightarrow> None))"

text \<open>
  \<open>json.NewDecoder(r).Decode\<close> reads the first value of the input only: the shortest prefix
  that is a value. (A number at the top level may end early here, which no struct tells.)
\<close>

definition json_parse_first :: "gostring \<Rightarrow> json option" where
  "json_parse_first s =
     (case List.map_filter (\<lambda>n. json_parse (take n s)) [0..<Suc (length s)] of
        [] \<Rightarrow> None | v # _ \<Rightarrow> Some v)"

section \<open>Parsing what was printed\<close>

fun wf_json :: "json \<Rightarrow> bool" where
  "wf_json (JNum n) = valid_number n"
| "wf_json (JArr vs) = list_all wf_json vs"
| "wf_json (JObj ms) = list_all (\<lambda>(k, v). wf_json v) ms"
| "wf_json _ = True"

fun commas :: "jtoken list list \<Rightarrow> jtoken list" where
  "commas [] = []"
| "commas [ts] = ts"
| "commas (ts # us # tss) = ts @ TComma # commas (us # tss)"

fun tokens_of :: "json \<Rightarrow> jtoken list" where
  "tokens_of JNull = [TNull]"
| "tokens_of (JBool b) = [TBool b]"
| "tokens_of (JNum n) = [TNum n]"
| "tokens_of (JStr s) = [TStr s]"
| "tokens_of (JArr vs) = TLBrack # commas (List.map tokens_of vs) @ [TRBrack]"
| "tokens_of (JObj ms) =
     TLBrace # commas (List.map (\<lambda>(k, v). TStr k # TColon # tokens_of v) ms) @ [TRBrace]"

lemma parse_tokens_append:
  "parse_tokens (ts @ us) st =
     (case parse_tokens ts st of None \<Rightarrow> None | Some st' \<Rightarrow> parse_tokens us st')"
  by (induction ts arbitrary: st) (auto split: option.splits)

text \<open>A value that starts where \<open>st\<close> awaits one ends in the state that has it.\<close>

definition reads_value :: "json \<Rightarrow> bool" where
  "reads_value v \<longleftrightarrow>
     (\<forall>cs. parse_tokens (tokens_of v) (WantValue cs) = Some (deliver v cs)) \<and>
     (\<exists>t ts. tokens_of v = t # ts \<and> t \<noteq> TRBrack)"

lemma reads_arr:
  assumes "\<And>v. v \<in> set vs \<Longrightarrow> reads_value v"
  shows "vs \<noteq> [] \<Longrightarrow> parse_tokens (commas (List.map tokens_of vs)) (WantValue (CArr acc # cs)) =
           Some (ArrNext (rev vs @ acc) cs)"
  using assms
proof (induction vs arbitrary: acc)
  case (Cons v vs)
  then show ?case
    by (cases vs) (auto simp: reads_value_def parse_tokens_append)
qed simp

lemma reads_obj:
  assumes "\<And>k v. (k, v) \<in> set ms \<Longrightarrow> reads_value v"
  shows "ms \<noteq> [] \<Longrightarrow>
     parse_tokens (commas (List.map (\<lambda>(k, v). TStr k # TColon # tokens_of v) ms)) (ObjKey acc cs) =
       Some (ObjNext (rev ms @ acc) cs)"
  using assms
proof (induction ms arbitrary: acc)
  case (Cons m ms)
  obtain k v where m: "m = (k, v)" by force
  with Cons.prems have v: "parse_tokens (tokens_of v) (WantValue cs) = Some (deliver v cs)" for cs
    by (auto simp: reads_value_def)
  show ?case
  proof (cases ms)
    case Nil
    with m v show ?thesis by simp
  next
    case (Cons m' ms')
    with m v Cons.IH Cons.prems show ?thesis by (auto simp: parse_tokens_append)
  qed
qed simp

lemma feed_first_elem:
  "t \<noteq> TRBrack \<Longrightarrow> feed t (ArrFirst cs) = feed t (WantValue (CArr [] # cs))"
  by simp

lemma reads_value_all: "reads_value v"
proof (induction v)
  case (JArr vs)
  show ?case
  proof (cases vs)
    case Nil
    then show ?thesis by (simp add: reads_value_def)
  next
    case (Cons v vs')
    with JArr have "reads_value v" by simp
    then obtain t ts' where "tokens_of v = t # ts'" "t \<noteq> TRBrack"
      unfolding reads_value_def by blast
    with Cons obtain ts where t: "commas (List.map tokens_of vs) = t # ts" "t \<noteq> TRBrack"
      by (cases vs') auto
    have "parse_tokens (t # ts) (WantValue (CArr [] # cs)) = Some (ArrNext (rev vs) cs)" for cs
      using reads_arr [of vs "[]" cs] JArr Cons t(1) by simp
    then have "parse_tokens (commas (List.map tokens_of vs)) (ArrFirst cs) = Some (ArrNext (rev vs) cs)"
      for cs using t by simp
    then show ?thesis by (simp add: reads_value_def parse_tokens_append)
  qed
next
  case (JObj ms)
  show ?case
  proof (cases ms)
    case Nil
    then show ?thesis by (simp add: reads_value_def)
  next
    case (Cons m ms')
    have *: "parse_tokens (commas (List.map (\<lambda>(k, v). TStr k # TColon # tokens_of v) ms))
        (ObjKey [] cs) = Some (ObjNext (rev ms) cs)" for cs
      using reads_obj [of ms "[]" cs] JObj Cons by (auto simp: prod_set_defs)
    obtain k ts where "commas (List.map (\<lambda>(k, v). TStr k # TColon # tokens_of v) ms) = TStr k # ts"
      using Cons by (cases m; cases ms') auto
    with * show ?thesis by (simp add: reads_value_def parse_tokens_append)
  qed
qed (simp_all add: reads_value_def)

lemma parse_tokens_of: "parse_tokens (tokens_of v) (WantValue cs) = Some (deliver v cs)"
  using reads_value_all [of v] by (simp add: reads_value_def)

text \<open>Scanning a printed string literal gives back its bytes.\<close>

definition unit_of :: "char \<Rightarrow> junit" where
  "unit_of c =
     (let n = (of_char c :: nat) in
      if (n < 32 \<and> n \<notin> {8, 9, 10, 12, 13}) \<or> n = 60 \<or> n = 62 \<or> n = 38 then UCode n else UByte c)"

lemma units_bytes_unit_of: "units_bytes (List.map unit_of s) = s"
proof -
  have step: "units_bytes (UCode n # us) = char_of n # units_bytes us" if "n < 128" for n us
    using that by (cases us rule: units_bytes.cases)
      (auto simp: high_surrogate_def low_surrogate_def utf8_encode_def)
  show ?thesis
  proof (induction s)
    case (Cons c s)
    show ?case
    proof (cases "unit_of c")
      case (UByte d)
      then have "d = c" by (auto simp: unit_of_def Let_def split: if_splits)
      with UByte Cons show ?thesis by simp
    next
      case (UCode n)
      then have "n = of_char c" "n < 128" by (auto simp: unit_of_def Let_def split: if_splits)
      with UCode Cons step [of n] show ?thesis by simp
    qed
  qed simp
qed

lemma hex_value_hex_digit: "n < 16 \<Longrightarrow> hex_value (hex_digit n) = Some n"
  by (auto simp: hex_value_def hex_digit_def Let_def)

lemma lex_escape_char: "lex (LStr us) (escape_char c @ cs) = lex (LStr (unit_of c # us)) cs"
proof -
  define n where "n = (of_char c :: nat)"
  have c: "c = char_of n" by (simp add: n_def)
  have n: "n < 256" by (simp add: n_def)
  have zero: "hex_value (CHR ''0'') = Some 0" by (simp add: hex_value_def)
  consider "n \<in> {34, 92, 8, 12, 10, 13, 9}"
    | "n < 32 \<and> n \<notin> {8, 9, 10, 12, 13} \<or> n = 60 \<or> n = 62 \<or> n = 38"
    | "32 \<le> n" "n \<notin> {34, 92, 60, 62, 38}"
    by (cases "n < 32") auto
  then show ?thesis
  proof cases
    case 1
    then have "c \<in> {CHR 0x22, CHR 0x5C, CHR 0x08, CHR 0x0C, CHR 0x0A, CHR 0x0D, CHR 0x09}"
      unfolding insert_iff empty_iff by (simp flip: of_char_eq_iff [where 'a = nat] n_def) 
    then show ?thesis
      by (elim insertE emptyE) (simp_all add: escape_char_def unit_of_def unescape_char_def)
  next
    case 2
    then have "escape_char c = [CHR 0x5C, CHR ''u'', CHR ''0'', CHR ''0'', hex_digit (n div 16), hex_digit (n mod 16)]"
      "unit_of c = UCode n"
      by (auto simp: escape_char_def unit_of_def Let_def simp flip: n_def)
    moreover have "hex_value (hex_digit (n mod 16)) = Some (n mod 16)"
      "hex_value (hex_digit (n div 16)) = Some (n div 16)"
      using n by (auto intro!: hex_value_hex_digit)
    ultimately show ?thesis by (simp add: zero unescape_char_def)
  next
    case 3
    then have "escape_char c = [c]" "unit_of c = UByte c"
      by (auto simp: escape_char_def unit_of_def Let_def simp flip: n_def)
    moreover have "c \<noteq> CHR 0x22" "c \<noteq> CHR 0x5C"
      using 3 by (auto simp: n_def)
    ultimately show ?thesis using 3 by (simp flip: n_def)
  qed
qed

lemma lex_quote:
  "lex LNone (quote s @ rest) = map_option ((#) (TStr s)) (lex LNone rest)"
proof -
  have "lex (LStr us) (concat (List.map escape_char s) @ CHR 0x22 # rest) =
      map_option ((#) (TStr (units_bytes (rev us @ List.map unit_of s)))) (lex LNone rest)" for us
    by (induction s arbitrary: us) (simp_all add: lex_escape_char)
  from this [of "[]"] show ?thesis
    by (simp add: quote_def lex_start_def json_space_def punct_def units_bytes_unit_of
        option.map_comp comp_def)
qed

text \<open>Where a number may end: at the end of the input or before a character no number has.\<close>

definition number_ends :: "gostring \<Rightarrow> bool" where
  "number_ends rest \<longleftrightarrow> (case rest of [] \<Rightarrow> True | c # _ \<Rightarrow> \<not> number_char c)"

lemma lex_LNum:
  assumes "list_all number_char n" "valid_number (rev acc @ n)" "number_ends rest"
  shows "lex (LNum acc) (n @ rest) = map_option ((#) (TNum (rev acc @ n))) (lex LNone rest)"
  using assms
proof (induction n arbitrary: acc)
  case Nil
  then show ?case
    by (cases rest) (auto simp: number_ends_def option.map_comp comp_def split: option.splits)
qed simp

lemma takeWhile_dropWhile_number:
  "list_all number_char (takeWhile is_digit s)"
  by (auto simp: list_all_iff number_char_def dest: set_takeWhileD)

lemma valid_number_chars:
  assumes "valid_number n"
  shows "list_all number_char n" and "\<exists>c cs. n = c # cs \<and> (c = CHR ''-'' \<or> is_digit c)"
proof -
  have split: "s = takeWhile is_digit s @ dropWhile is_digit s" for s by simp
  have dig: "list_all is_digit s \<Longrightarrow> list_all number_char s" for s
    by (auto simp: list_all_iff number_char_def)
  have tail: "list_all number_char r" if "valid_exponent r" for r
    using that dig
    by (cases r; cases "tl r") (auto simp: valid_exponent_def number_char_def Let_def split: if_splits)
  define s1 where "s1 = (if HasPrefix n ''-'' then tl n else n)"
  define r1 where "r1 = dropWhile is_digit s1"
  define r2 where "r2 = (if HasPrefix r1 ''.'' then dropWhile is_digit (tl r1) else r1)"
  note unfolded = assms [unfolded valid_number_def Let_def, folded s1_def, folded r1_def]
  have ip: "takeWhile is_digit s1 \<noteq> []" using unfolded by auto
  have "valid_exponent r2"
    using unfolded by (cases "HasPrefix r1 ''.''") (simp_all add: r2_def)
  then have "list_all number_char r2" by (rule tail)
  have "list_all number_char r1"
  proof (cases "HasPrefix r1 ''.''")
    case True
    then have "r1 = CHR ''.'' # tl r1" by (auto simp: HasPrefix_iff)
    moreover have "list_all number_char (tl r1)"
      using \<open>list_all number_char r2\<close> True split [of "tl r1"] takeWhile_dropWhile_number [of "tl r1"]
      by (metis list_all_append r2_def)
    moreover have "number_char (CHR ''.'')" by (simp add: number_char_def)
    ultimately show ?thesis by (metis list.pred_inject(2))
  next
    case False
    with \<open>list_all number_char r2\<close> show ?thesis by (simp add: r2_def)
  qed
  then have s1: "list_all number_char s1"
    using split [of s1] takeWhile_dropWhile_number [of s1] by (metis list_all_append r1_def)
  show "list_all number_char n"
  proof (cases "HasPrefix n ''-''")
    case True
    then have "n = CHR ''-'' # s1" by (auto simp: HasPrefix_iff s1_def)
    with s1 show ?thesis by (simp add: number_char_def)
  next
    case False
    with s1 show ?thesis by (simp add: s1_def)
  qed
  show "\<exists>c cs. n = c # cs \<and> (c = CHR ''-'' \<or> is_digit c)"
    using ip by (cases n; cases s1) (auto simp: s1_def split: if_splits)
qed

lemma lex_start_number:
  assumes "c = CHR ''-'' \<or> is_digit c"
  shows "lex_start c = Some (None, LNum [c])"
proof -
  define n where "n = (of_char c :: nat)"
  have "n = 45 \<or> 48 \<le> n \<and> n \<le> 57"
    using assms by (auto simp: n_def is_digit_def)
  then have "c \<notin> {CHR 0x20, CHR 0x09, CHR 0x0A, CHR 0x0D}" "c \<noteq> CHR 0x22" "c \<noteq> CHR ''[''"
    "c \<noteq> CHR '']''" "c \<noteq> CHR 0x7B" "c \<noteq> CHR 0x7D" "c \<noteq> CHR '',''" "c \<noteq> CHR '':''"
    by (auto simp: n_def)
  then have "\<not> json_space c" "punct c = None" "c \<noteq> CHR 0x22"
    by (simp_all add: json_space_def punct_def)
  with assms show ?thesis by (simp add: lex_start_def)
qed

lemma lex_number:
  assumes "valid_number n" "number_ends rest"
  shows "lex LNone (n @ rest) = map_option ((#) (TNum n)) (lex LNone rest)"
proof -
  obtain c cs where n: "n = c # cs" "c = CHR ''-'' \<or> is_digit c"
    using valid_number_chars(2) [OF assms(1)] by blast
  have "lex LNone (n @ rest) = lex (LNum [c]) (cs @ rest)"
    using n by (simp add: lex_start_number option.map_ident)
  also have "\<dots> = map_option ((#) (TNum (rev [c] @ cs))) (lex LNone rest)"
    using assms valid_number_chars(1) [OF assms(1)] n(1) by (intro lex_LNum) auto
  finally show ?thesis using n(1) by simp
qed

lemma lex_punct [simp]:
  "lex LNone (CHR ''['' # cs) = map_option ((#) TLBrack) (lex LNone cs)"
  "lex LNone (CHR '']'' # cs) = map_option ((#) TRBrack) (lex LNone cs)"
  "lex LNone (CHR 0x7B # cs) = map_option ((#) TLBrace) (lex LNone cs)"
  "lex LNone (CHR 0x7D # cs) = map_option ((#) TRBrace) (lex LNone cs)"
  "lex LNone (CHR '','' # cs) = map_option ((#) TComma) (lex LNone cs)"
  "lex LNone (CHR '':'' # cs) = map_option ((#) TColon) (lex LNone cs)"
  by (simp_all add: lex_start_def json_space_def punct_def option.map_ident)

lemma number_ends_simps [simp]:
  "number_ends []" "number_ends (CHR '','' # cs)" "number_ends (CHR '']'' # cs)"
  "number_ends (CHR 0x7D # cs)"
  by (simp_all add: number_ends_def number_char_def is_digit_def)

declare lex.simps(7) [simp del]

definition lexes_to :: "gostring \<Rightarrow> jtoken list \<Rightarrow> bool" where
  "lexes_to s ts \<longleftrightarrow>
     (\<forall>rest. number_ends rest \<longrightarrow> lex LNone (s @ rest) = map_option ((@) ts) (lex LNone rest))"

lemma lexes_toI:
  "(\<And>rest. number_ends rest \<Longrightarrow> lex LNone (s @ rest) = map_option ((@) ts) (lex LNone rest)) \<Longrightarrow>
     lexes_to s ts"
  by (simp add: lexes_to_def)

lemma lexes_join:
  assumes "\<And>x. x \<in> set xs \<Longrightarrow> lexes_to (f x) (g x)" "number_ends rest"
  shows "lex LNone (Join (List.map f xs) '','' @ rest) =
           map_option ((@) (commas (List.map g xs))) (lex LNone rest)"
  using assms(1)
proof (induction xs)
  case (Cons x xs)
  show ?case
  proof (cases xs)
    case Nil
    with Cons.prems assms(2) show ?thesis by (simp add: lexes_to_def)
  next
    case (Cons y ys)
    have x: "lex LNone (f x @ r) = map_option ((@) (g x)) (lex LNone r)" if "number_ends r" for r
      using Cons.prems [of x] that by (simp add: lexes_to_def)
    have "lex LNone (f x @ '','' @ Join (List.map f xs) '','' @ rest) =
        map_option ((@) (g x @ TComma # commas (List.map g xs))) (lex LNone rest)"
      using Cons.IH Cons.prems by (cases "lex LNone rest") (simp_all add: x)
    with Cons show ?thesis by (cases "lex LNone rest") simp_all
  qed
qed (cases "lex LNone rest"; simp)

lemma append_single [simp]: "(@) [t] = (#) t"
  by (rule ext) simp

lemma lexes_to_print: "wf_json v \<Longrightarrow> lexes_to (json_print v) (tokens_of v)"
proof (induction v)
  case (JArr vs)
  then have "lexes_to (json_print w) (tokens_of w)" if "w \<in> set vs" for w
    using that by (auto simp: list_all_iff)
  note arr = lexes_join [where f = json_print and g = tokens_of, OF this]
  show ?case
  proof (rule lexes_toI)
    fix rest
    show "lex LNone (json_print (JArr vs) @ rest) =
        map_option ((@) (tokens_of (JArr vs))) (lex LNone rest)"
      by (cases "lex LNone rest") (simp_all add: arr)
  qed
next
  case (JObj ms)
  have "lexes_to (quote k @ CHR '':'' # json_print v) (TStr k # TColon # tokens_of v)"
    if "(k, v) \<in> set ms" for k v
  proof -
    have "lexes_to (json_print v) (tokens_of v)"
      using JObj that by (auto simp: list_all_iff prod_set_defs)
    then have "lex LNone (json_print v @ rest) = map_option ((@) (tokens_of v)) (lex LNone rest)"
      if "number_ends rest" for rest using that by (simp add: lexes_to_def)
    then show ?thesis
      by (intro lexes_toI) (simp add: lex_quote option.map_comp comp_def fun_eq_iff
          cong: option.map_cong)
  qed
  then have "lexes_to ((\<lambda>(k, v). quote k @ CHR '':'' # json_print v) m)
      ((\<lambda>(k, v). TStr k # TColon # tokens_of v) m)" if "m \<in> set ms" for m
    using that by (cases m) simp
  note obj = lexes_join [where f = "\<lambda>(k, v). quote k @ CHR '':'' # json_print v" and
      g = "\<lambda>(k, v). TStr k # TColon # tokens_of v", OF this]
  show ?case
  proof (rule lexes_toI)
    fix rest
    show "lex LNone (json_print (JObj ms) @ rest) =
        map_option ((@) (tokens_of (JObj ms))) (lex LNone rest)"
      by (cases "lex LNone rest") (simp_all add: obj)
  qed
qed (simp_all add: lexes_to_def lex_number lex_quote lex.simps(7) lex_start_def json_space_def punct_def
      option.map_comp comp_def option.map_ident is_digit_def)

theorem json_parse_print [simp]: "wf_json v \<Longrightarrow> json_parse (json_print v) = Some v"
  using lexes_to_print [of v]
  by (auto simp: lexes_to_def json_parse_def parse_tokens_of dest!: spec [where x = "[]"])

text \<open>The decimal literal of an integer is a JSON number.\<close>

lemma hd_nat_digits_zero: "hd (nat_digits n) = CHR ''0'' \<Longrightarrow> n = 0"
proof (induction n rule: nat_digits.induct)
  case (1 n)
  show ?case
  proof (cases "n < 10")
    case True
    then have "(of_char (char_of (48 + n)) :: nat) = 48 + n" by simp
    with True "1.prems" show ?thesis by (auto simp: nat_digits.simps [of n])
  next
    case False
    with 1 have "n div 10 = 0" by (simp add: nat_digits.simps [of n])
    with False show ?thesis by simp
  qed
qed

lemma valid_number_Itoa [simp]: "valid_number (Itoa i)"
proof -
  have all: "takeWhile is_digit (nat_digits n) = nat_digits n" for n
    using nat_digits_digits [of n] by (simp add: list_all_iff takeWhile_eq_all_conv)
  have none: "dropWhile is_digit (nat_digits n) = []" for n
    by (metis all append_self_conv takeWhile_dropWhile_id)
  have zero: "hd (nat_digits n) = CHR ''0'' \<Longrightarrow> length (nat_digits n) = Suc 0" for n
    using hd_nat_digits_zero [of n] by (auto simp: nat_digits.simps [of 0])
  show ?thesis
    using zero by (simp add: valid_number_def Itoa_def Let_def all none valid_exponent_def
        nat_digits_digits [unfolded list_all_iff])
qed

end
