(* ===== verification/Dto.thy ===== *)
theory Dto
  imports RouteMessage GoJson
begin

text \<open>
  The JSON forms of the structs that travel over the wire: the tagged structs of
  \<open>internal/core/types.go\<close> and \<open>internal/rpc/dto.go\<close>. Encoding writes the fields in the order
  of the struct; decoding follows \<open>encoding/json\<close>: a field is found by its name, else by its
  name up to case, \<open>null\<close> leaves a value alone, a mismatch is an error but does not stop the
  other fields. The locale \<open>json_codec\<close> is what a typed message promises its users.
\<close>

section \<open>Decoding structs\<close>

type_synonym 'r field = "'r \<Rightarrow> json \<Rightarrow> 'r \<times> bool"

definition string_field :: "((gostring \<Rightarrow> gostring) \<Rightarrow> 'r \<Rightarrow> 'r) \<Rightarrow> 'r field" where
  "string_field upd r v =
     (case v of JStr s \<Rightarrow> (upd (\<lambda>_. s) r, True) | JNull \<Rightarrow> (r, True) | _ \<Rightarrow> (r, False))"

definition bool_field :: "((bool \<Rightarrow> bool) \<Rightarrow> 'r \<Rightarrow> 'r) \<Rightarrow> 'r field" where
  "bool_field upd r v =
     (case v of JBool b \<Rightarrow> (upd (\<lambda>_. b) r, True) | JNull \<Rightarrow> (r, True) | _ \<Rightarrow> (r, False))"

definition int_field :: "((int \<Rightarrow> int) \<Rightarrow> 'r \<Rightarrow> 'r) \<Rightarrow> 'r field" where
  "int_field upd r v =
     (case v of
        JNum n \<Rightarrow> (case Atoi n of Some i \<Rightarrow> (upd (\<lambda>_. i) r, True) | None \<Rightarrow> (r, False))
      | JNull \<Rightarrow> (r, True) | _ \<Rightarrow> (r, False))"

text \<open>A slice: \<open>null\<close> is the nil slice; every element is decoded into a zero value.\<close>

definition decode_slice :: "(json \<Rightarrow> 'a \<times> bool) \<Rightarrow> json \<Rightarrow> 'a list option \<times> bool" where
  "decode_slice dec v =
     (case v of
        JArr vs \<Rightarrow> (Some (List.map (fst \<circ> dec) vs), list_all (snd \<circ> dec) vs)
      | JNull \<Rightarrow> (None, True) | _ \<Rightarrow> (None, False))"

definition slice_field ::
  "(json \<Rightarrow> 'a \<times> bool) \<Rightarrow> (('a list option \<Rightarrow> 'a list option) \<Rightarrow> 'r \<Rightarrow> 'r) \<Rightarrow> 'r field" where
  "slice_field dec upd r v =
     (case v of
        JArr _ \<Rightarrow> (upd (\<lambda>_. fst (decode_slice dec v)) r, snd (decode_slice dec v))
      | JNull \<Rightarrow> (upd (\<lambda>_. None) r, True) | _ \<Rightarrow> (r, False))"

definition decode_string :: "json \<Rightarrow> gostring \<times> bool" where
  "decode_string v = (case v of JStr s \<Rightarrow> (s, True) | JNull \<Rightarrow> ([], True) | _ \<Rightarrow> ([], False))"

definition find_field :: "(gostring \<times> 'r field) list \<Rightarrow> gostring \<Rightarrow> 'r field option" where
  "find_field fs k =
     (case map_of fs k of Some f \<Rightarrow> Some f
      | None \<Rightarrow> map_option snd (find (\<lambda>(n, _). EqualFold n k) fs))"

definition decode_struct :: "(gostring \<times> 'r field) list \<Rightarrow> 'r \<Rightarrow> json \<Rightarrow> 'r \<times> bool" where
  "decode_struct fs zero v =
     (case v of
        JObj ms \<Rightarrow>
          foldl (\<lambda>(r, ok) (k, x). case find_field fs k of None \<Rightarrow> (r, ok)
                 | Some f \<Rightarrow> (case f r x of (r', ok') \<Rightarrow> (r', ok \<and> ok'))) (zero, True) ms
      | JNull \<Rightarrow> (zero, True) | _ \<Rightarrow> (zero, False))"

lemma decode_struct_inv:
  assumes "P zero" and "\<And>n f r v. (n, f) \<in> set fs \<Longrightarrow> P r \<Longrightarrow> P (fst (f r v))"
  shows "P (fst (decode_struct fs zero v))"
proof -
  have field: "\<exists>n. (n, f) \<in> set fs" if "find_field fs k = Some f" for k f
    using that
    by (auto simp: find_field_def find_Some_iff split: option.splits dest: map_of_SomeD)
      (metis nth_mem)
  have "P (fst (foldl (\<lambda>(r, ok) (k, x). case find_field fs k of None \<Rightarrow> (r, ok)
      | Some f \<Rightarrow> (case f r x of (r', ok') \<Rightarrow> (r', ok \<and> ok'))) (r, b) ms))" if "P r" for ms r b
    using that
  proof (induction ms arbitrary: r b)
    case (Cons m ms)
    obtain k x where m: "m = (k, x)" by (cases m)
    show ?case
    proof (cases "find_field fs k")
      case (Some f)
      then obtain n where "(n, f) \<in> set fs" using field by blast
      then have "P (fst (f r x))" using assms(2) Cons.prems by blast
      with Cons.IH show ?thesis by (cases "f r x") (simp add: m Some)
    qed (use Cons in \<open>simp add: m\<close>)
  qed simp
  with assms(1) show ?thesis by (auto simp: decode_struct_def split: json.splits)
qed

lemma int64_range_0 [simp]: "int64_range 0"
  by (simp add: int64_range_def)

lemma Atoi_range [dest]: "Atoi s = Some i \<Longrightarrow> int64_range i"
  by (auto simp: Atoi_def Let_def split: if_splits)

definition Marshal :: "('a \<Rightarrow> json) \<Rightarrow> 'a \<Rightarrow> gostring" where
  "Marshal enc x = json_print (enc x)"

text \<open>\<open>json.Unmarshal\<close> into a zero value: the value and whether the error is nil.\<close>

definition Unmarshal :: "(json \<Rightarrow> 'a \<times> bool) \<Rightarrow> 'a \<Rightarrow> gostring \<Rightarrow> 'a \<times> bool" where
  "Unmarshal dec zero s = (case json_parse s of None \<Rightarrow> (zero, False) | Some v \<Rightarrow> dec v)"

section \<open>The interface of a typed message\<close>

locale json_codec =
  fixes enc :: "'a \<Rightarrow> json" and dec :: "json \<Rightarrow> 'a \<times> bool" and ok :: "'a \<Rightarrow> bool"
  assumes enc_wf: "ok x \<Longrightarrow> wf_json (enc x)"
    and dec_enc: "ok x \<Longrightarrow> dec (enc x) = (x, True)"
begin

lemma Unmarshal_Marshal [simp]: "ok x \<Longrightarrow> Unmarshal dec zero (Marshal enc x) = (x, True)"
  by (simp add: Unmarshal_def Marshal_def enc_wf dec_enc)

lemma Marshal_inject: "ok x \<Longrightarrow> ok y \<Longrightarrow> Marshal enc x = Marshal enc y \<Longrightarrow> x = y"
  by (metis Unmarshal_Marshal prod.inject)

lemma decode_slice_enc:
  "list_all ok xs \<Longrightarrow> decode_slice dec (JArr (List.map enc xs)) = (Some xs, True)"
  by (induction xs) (auto simp: decode_slice_def dec_enc)

lemma wf_slice: "list_all ok xs \<Longrightarrow> wf_json (JArr (List.map enc xs))"
  by (induction xs) (auto simp: enc_wf)

end

text \<open>A slice of coded values is coded too; \<open>None\<close> is the nil slice.\<close>

definition enc_slice :: "('a \<Rightarrow> json) \<Rightarrow> 'a list option \<Rightarrow> json" where
  "enc_slice enc xs = (case xs of None \<Rightarrow> JNull | Some xs \<Rightarrow> JArr (List.map enc xs))"

definition slice_ok :: "('a \<Rightarrow> bool) \<Rightarrow> 'a list option \<Rightarrow> bool" where
  "slice_ok ok xs = (case xs of None \<Rightarrow> True | Some xs \<Rightarrow> list_all ok xs)"

context json_codec
begin

lemma slice_codec: "json_codec (enc_slice enc) (decode_slice dec) (slice_ok ok)"
proof
  fix xs :: "'a list option"
  assume xs: "slice_ok ok xs"
  show "wf_json (enc_slice enc xs)"
    using xs wf_slice by (cases xs) (simp_all add: enc_slice_def slice_ok_def)
  show "decode_slice dec (enc_slice enc xs) = (xs, True)"
    using xs decode_slice_enc
    by (cases xs) (simp_all add: enc_slice_def slice_ok_def decode_slice_def)
qed

end

lemma slice_field_enc [simp]:
  "decode_slice dec (enc_slice enc xs) = (xs, True) \<Longrightarrow>
     slice_field dec upd r (enc_slice enc xs) = (upd (\<lambda>_. xs) r, True)"
  by (cases xs) (auto simp: slice_field_def enc_slice_def decode_slice_def)

lemma field_simps_json [simp]:
  "string_field upd r (JStr s) = (upd (\<lambda>_. s) r, True)"
  "bool_field updb r (JBool b) = (updb (\<lambda>_. b) r, True)"
  by (simp_all add: string_field_def bool_field_def)

lemma int_field_Itoa [simp]:
  "int64_range i \<Longrightarrow> int_field upd r (JNum (Itoa i)) = (upd (\<lambda>_. i) r, True)"
  by (simp add: int_field_def)

interpretation str: json_codec JStr decode_string "\<lambda>_. True"
  by unfold_locales (simp_all add: decode_string_def)

interpretation strs: json_codec "enc_slice JStr" "decode_slice decode_string" "slice_ok (\<lambda>_. True)"
  by (rule str.slice_codec)

section \<open>Structs of package core\<close>

definition json_RouteNode :: "RouteNode \<Rightarrow> json" where
  "json_RouteNode n = JObj
     [(''routerId'', JStr (node_RouterId n)),
      (''hostForRpc'', JStr (node_HostForRpc n)),
      (''portForRpc'', JNum (Itoa (node_PortForRpc n)))]"

definition zero_RouteNode :: RouteNode where
  "zero_RouteNode = \<lparr>node_RouterId = [], node_HostForRpc = [], node_PortForRpc = 0\<rparr>"

definition decode_RouteNode :: "json \<Rightarrow> RouteNode \<times> bool" where
  "decode_RouteNode = decode_struct
     [(''routerId'', string_field node_RouterId_update),
      (''hostForRpc'', string_field node_HostForRpc_update),
      (''portForRpc'', int_field node_PortForRpc_update)] zero_RouteNode"

definition RouteNode_ok :: "RouteNode \<Rightarrow> bool" where
  "RouteNode_ok n \<longleftrightarrow> int64_range (node_PortForRpc n)"

interpretation node: json_codec json_RouteNode decode_RouteNode RouteNode_ok
  by unfold_locales
    (simp_all add: json_RouteNode_def RouteNode_ok_def decode_RouteNode_def decode_struct_def
      find_field_def zero_RouteNode_def)

interpretation nodes: json_codec "enc_slice json_RouteNode" "decode_slice decode_RouteNode"
    "slice_ok RouteNode_ok"
  by (rule node.slice_codec)

definition json_RpcStubMetadata :: "RpcStubMetadata \<Rightarrow> json" where
  "json_RpcStubMetadata s = JObj
     [(''packetId'', JNum (Itoa (stub_PacketId s))),
      (''description'', JStr (stub_Description s)),
      (''className'', JStr (stub_ClassName s)),
      (''methodName'', JStr (stub_MethodName s)),
      (''parameterTypes'', enc_slice JStr (stub_ParameterTypes s)),
      (''parameterNames'', enc_slice JStr (stub_ParameterNames s)),
      (''parameterDescriptions'', enc_slice JStr (stub_ParameterDescriptions s)),
      (''parameterExampleJson'', enc_slice JStr (stub_ParameterExampleJson s))]"

definition zero_RpcStubMetadata :: RpcStubMetadata where
  "zero_RpcStubMetadata =
     \<lparr>stub_PacketId = 0, stub_Description = [], stub_ClassName = [], stub_MethodName = [],
      stub_ParameterTypes = None, stub_ParameterNames = None,
      stub_ParameterDescriptions = None, stub_ParameterExampleJson = None\<rparr>"

definition decode_RpcStubMetadata :: "json \<Rightarrow> RpcStubMetadata \<times> bool" where
  "decode_RpcStubMetadata = decode_struct
     [(''packetId'', int_field stub_PacketId_update),
      (''description'', string_field stub_Description_update),
      (''className'', string_field stub_ClassName_update),
      (''methodName'', string_field stub_MethodName_update),
      (''parameterTypes'', slice_field decode_string stub_ParameterTypes_update),
      (''parameterNames'', slice_field decode_string stub_ParameterNames_update),
      (''parameterDescriptions'', slice_field decode_string stub_ParameterDescriptions_update),
      (''parameterExampleJson'', slice_field decode_string stub_ParameterExampleJson_update)]
     zero_RpcStubMetadata"

definition RpcStubMetadata_ok :: "RpcStubMetadata \<Rightarrow> bool" where
  "RpcStubMetadata_ok s \<longleftrightarrow> int64_range (stub_PacketId s)"

lemma slice_ok_True [simp]: "slice_ok (\<lambda>_. True) xs"
  by (cases xs) (simp_all add: slice_ok_def list.pred_True)

lemma strings_codec [simp]:
  "decode_slice decode_string (enc_slice JStr xs) = (xs, True)" "wf_json (enc_slice JStr xs)"
  by (rule strs.dec_enc strs.enc_wf, simp)+

interpretation stub: json_codec json_RpcStubMetadata decode_RpcStubMetadata RpcStubMetadata_ok
  by unfold_locales
    (simp_all add: json_RpcStubMetadata_def RpcStubMetadata_ok_def decode_RpcStubMetadata_def
      decode_struct_def find_field_def zero_RpcStubMetadata_def)

interpretation stubs: json_codec "enc_slice json_RpcStubMetadata"
    "decode_slice decode_RpcStubMetadata" "slice_ok RpcStubMetadata_ok"
  by (rule stub.slice_codec)

definition json_RpcServerInfo :: "RpcServerInfo \<Rightarrow> json" where
  "json_RpcServerInfo i = JObj
     [(''host'', JStr (info_Host i)), (''port'', JNum (Itoa (info_Port i))),
      (''stubs'', enc_slice json_RpcStubMetadata (info_Stubs i))]"

definition zero_RpcServerInfo :: RpcServerInfo where
  "zero_RpcServerInfo = \<lparr>info_Host = [], info_Port = 0, info_Stubs = None\<rparr>"

definition decode_RpcServerInfo :: "json \<Rightarrow> RpcServerInfo \<times> bool" where
  "decode_RpcServerInfo = decode_struct
     [(''host'', string_field info_Host_update), (''port'', int_field info_Port_update),
      (''stubs'', slice_field decode_RpcStubMetadata info_Stubs_update)] zero_RpcServerInfo"

definition RpcServerInfo_ok :: "RpcServerInfo \<Rightarrow> bool" where
  "RpcServerInfo_ok i \<longleftrightarrow> int64_range (info_Port i) \<and> slice_ok RpcStubMetadata_ok (info_Stubs i)"

interpretation info: json_codec json_RpcServerInfo decode_RpcServerInfo RpcServerInfo_ok
  by unfold_locales
    (simp_all add: json_RpcServerInfo_def RpcServerInfo_ok_def decode_RpcServerInfo_def
      decode_struct_def find_field_def zero_RpcServerInfo_def stubs.enc_wf stubs.dec_enc)

text \<open>What was decoded is in range, whatever the text said.\<close>

lemma decoded_RpcStubMetadata_ok: "RpcStubMetadata_ok (fst (decode_RpcStubMetadata v))"
  unfolding decode_RpcStubMetadata_def
  by (rule decode_struct_inv)
    (auto simp: RpcStubMetadata_ok_def zero_RpcStubMetadata_def string_field_def int_field_def
      slice_field_def split: json.splits option.splits)

lemma decoded_RpcServerInfo_ok: "RpcServerInfo_ok (fst (decode_RpcServerInfo v))"
  unfolding decode_RpcServerInfo_def
  by (rule decode_struct_inv)
    (auto simp: RpcServerInfo_ok_def zero_RpcServerInfo_def string_field_def int_field_def
      slice_field_def decode_slice_def slice_ok_def list_all_iff decoded_RpcStubMetadata_ok
      split: json.splits option.splits)

lemma Unmarshal_RpcServerInfo_ok:
  "RpcServerInfo_ok (fst (Unmarshal decode_RpcServerInfo zero_RpcServerInfo d))"
proof (cases "json_parse d")
  case None
  then show ?thesis
    by (simp add: Unmarshal_def zero_RpcServerInfo_def RpcServerInfo_ok_def slice_ok_def)
next
  case (Some v)
  with decoded_RpcServerInfo_ok [of v] show ?thesis by (simp add: Unmarshal_def)
qed

section \<open>Structs of package rpc\<close>

record RpcRequest =
  req_FromRouteId :: gostring
  req_ToRouteId :: gostring
  req_RpcUid :: gostring
  req_StartTimeMs :: int
  req_PacketId :: int
  req_MethodArgsJsonList :: "gostring list option"

record RpcResponse =
  resp_RpcUid :: gostring
  resp_ErrorFlag :: bool
  resp_ErrorMsg :: gostring
  resp_StartTimeMs :: int
  resp_PacketId :: int
  resp_ResultValueStr :: gostring

definition json_RpcRequest :: "RpcRequest \<Rightarrow> json" where
  "json_RpcRequest q = JObj
     [(''fromRouteId'', JStr (req_FromRouteId q)), (''toRouteId'', JStr (req_ToRouteId q)),
      (''rpcUid'', JStr (req_RpcUid q)), (''startTimeMs'', JNum (Itoa (req_StartTimeMs q))),
      (''packetId'', JNum (Itoa (req_PacketId q))),
      (''methodArgsJsonList'', enc_slice JStr (req_MethodArgsJsonList q))]"

definition zero_RpcRequest :: RpcRequest where
  "zero_RpcRequest = \<lparr>req_FromRouteId = [], req_ToRouteId = [], req_RpcUid = [],
     req_StartTimeMs = 0, req_PacketId = 0, req_MethodArgsJsonList = None\<rparr>"

definition decode_RpcRequest :: "json \<Rightarrow> RpcRequest \<times> bool" where
  "decode_RpcRequest = decode_struct
     [(''fromRouteId'', string_field req_FromRouteId_update),
      (''toRouteId'', string_field req_ToRouteId_update),
      (''rpcUid'', string_field req_RpcUid_update),
      (''startTimeMs'', int_field req_StartTimeMs_update),
      (''packetId'', int_field req_PacketId_update),
      (''methodArgsJsonList'', slice_field decode_string req_MethodArgsJsonList_update)]
     zero_RpcRequest"

definition RpcRequest_ok :: "RpcRequest \<Rightarrow> bool" where
  "RpcRequest_ok q \<longleftrightarrow> int64_range (req_StartTimeMs q) \<and> int64_range (req_PacketId q)"

interpretation req: json_codec json_RpcRequest decode_RpcRequest RpcRequest_ok
  by unfold_locales
    (simp_all add: json_RpcRequest_def RpcRequest_ok_def decode_RpcRequest_def decode_struct_def
      find_field_def zero_RpcRequest_def)

definition json_RpcResponse :: "RpcResponse \<Rightarrow> json" where
  "json_RpcResponse p = JObj
     [(''rpcUid'', JStr (resp_RpcUid p)), (''errorFlag'', JBool (resp_ErrorFlag p)),
      (''errorMsg'', JStr (resp_ErrorMsg p)),
      (''startTimeMs'', JNum (Itoa (resp_StartTimeMs p))),
      (''packetId'', JNum (Itoa (resp_PacketId p))),
      (''resultValueStr'', JStr (resp_ResultValueStr p))]"

definition zero_RpcResponse :: RpcResponse where
  "zero_RpcResponse = \<lparr>resp_RpcUid = [], resp_ErrorFlag = False, resp_ErrorMsg = [],
     resp_StartTimeMs = 0, resp_PacketId = 0, resp_ResultValueStr = []\<rparr>"

definition decode_RpcResponse :: "json \<Rightarrow> RpcResponse \<times> bool" where
  "decode_RpcResponse = decode_struct
     [(''rpcUid'', string_field resp_RpcUid_update),
      (''errorFlag'', bool_field resp_ErrorFlag_update),
      (''errorMsg'', string_field resp_ErrorMsg_update),
      (''startTimeMs'', int_field resp_StartTimeMs_update),
      (''packetId'', int_field resp_PacketId_update),
      (''resultValueStr'', string_field resp_ResultValueStr_update)] zero_RpcResponse"

definition RpcResponse_ok :: "RpcResponse \<Rightarrow> bool" where
  "RpcResponse_ok p \<longleftrightarrow> int64_range (resp_StartTimeMs p) \<and> int64_range (resp_PacketId p)"

interpretation resp: json_codec json_RpcResponse decode_RpcResponse RpcResponse_ok
  by unfold_locales
    (simp_all add: json_RpcResponse_def RpcResponse_ok_def decode_RpcResponse_def
      decode_struct_def find_field_def zero_RpcResponse_def)

end
