(* ===== verification/Sessions.thy ===== *)
theory Sessions
  imports Dto
begin

text \<open>
  \<open>internal/VirtualRouterServer/session.go\<close> and \<open>session_manager.go\<close>: the sessions of the
  connected nodes and the operations on their table, each the body of one critical section of
  the manager's mutex. A TCP connection of the router is a number; the network holds, per
  connection, the peer's address, the bytes the router wrote and whether the router closed it.
  Times are milliseconds (\<open>UnixMilli\<close>).
\<close>

section \<open>Connections\<close>

type_synonym conn = nat

record network =
  net_addr :: "conn \<Rightarrow> gostring"
  net_out :: "conn \<Rightarrow> byte list"
  net_closed :: "conn \<Rightarrow> bool"

text \<open>A write to a closed connection fails and delivers nothing; its error is returned.\<close>

definition conn_Write :: "conn \<Rightarrow> byte list \<Rightarrow> network \<Rightarrow> go_error option \<times> network" where
  "conn_Write c b net =
     (if net_closed net c then (Some (Err ''use of closed network connection''), net)
      else (None, net\<lparr>net_out := (net_out net)(c := net_out net c @ b)\<rparr>))"

definition conn_Close :: "conn \<Rightarrow> network \<Rightarrow> network" where
  "conn_Close c net = net\<lparr>net_closed := (net_closed net)(c := True)\<rparr>"

section \<open>Sessions\<close>

record RouterSession =
  sess_RouterId :: gostring
  sess_Conn :: conn
  sess_RpcServerInfo :: RpcServerInfo
  sess_lastHeartbeat :: int
  sess_closed :: bool

definition RefreshHeartbeat :: "int \<Rightarrow> RouterSession \<Rightarrow> RouterSession" where
  "RefreshHeartbeat now s = s\<lparr>sess_lastHeartbeat := now\<rparr>"

definition NewRouterSession :: "gostring \<Rightarrow> conn \<Rightarrow> RpcServerInfo \<Rightarrow> int \<Rightarrow> RouterSession" where
  "NewRouterSession routeId c info now =
     RefreshHeartbeat now
       \<lparr>sess_RouterId = routeId, sess_Conn = c, sess_RpcServerInfo = info,
        sess_lastHeartbeat = 0, sess_closed = False\<rparr>"

definition IsActive :: "RouterSession \<Rightarrow> bool" where
  "IsActive s \<longleftrightarrow> \<not> sess_closed s"

definition MarkClosed :: "RouterSession \<Rightarrow> RouterSession" where
  "MarkClosed s = s\<lparr>sess_closed := True\<rparr>"

definition RemoteAddrStr :: "network \<Rightarrow> RouterSession \<Rightarrow> gostring" where
  "RemoteAddrStr net s = net_addr net (sess_Conn s)"

definition WriteRouteMessage ::
  "RouterSession \<Rightarrow> RouteMessage \<Rightarrow> network \<Rightarrow> go_error option \<times> network" where
  "WriteRouteMessage s msg net =
     (case EncodePayload (Some msg) of
        Inl err \<Rightarrow> (Some err, net)
      | Inr payload \<Rightarrow> conn_Write (sess_Conn s) (EncodeFrame payload) net)"

definition WritePayload :: "RouterSession \<Rightarrow> byte list \<Rightarrow> network \<Rightarrow> go_error option \<times> network" where
  "WritePayload s payload net = conn_Write (sess_Conn s) (EncodeFrame payload) net"

text \<open>The bytes of a message on the wire.\<close>

definition wire :: "RouteMessage \<Rightarrow> byte list" where
  "wire m = EncodeFrame (payload_of m)"

lemma WriteRouteMessage_wire:
  "WriteRouteMessage s m net = conn_Write (sess_Conn s) (wire m) net"
  by (simp add: WriteRouteMessage_def wire_def)

section \<open>The session table\<close>

type_synonym session_map = "gostring \<rightharpoonup> RouterSession"

definition sessionTimeout :: int where
  "sessionTimeout = 30 * 1000"

definition exists_bytes :: gostring where \<comment> \<open>"already exists", in the server's language\<close>
  "exists_bytes = [CHR 0xE5, CHR 0xB7, CHR 0xB2, CHR 0xE7, CHR 0xBB, CHR 0x8F, CHR 0xE5, CHR 0xAD,
     CHR 0x98, CHR 0xE5, CHR 0x9C, CHR 0xA8]"

definition conflict_error :: "gostring \<Rightarrow> gostring" where
  "conflict_error routeId =
     ''RouterId '' @ [CHR 0x27] @ routeId @ [CHR 0x27] @ '' '' @ exists_bytes @ ''! '' @
     [CHR 0xE8, CHR 0xAF, CHR 0xB7, CHR 0xE4, CHR 0xBF, CHR 0xAE, CHR 0xE6, CHR 0x94, CHR 0xB9,
      CHR 0xE6, CHR 0x82, CHR 0xA8, CHR 0xE7, CHR 0x9A, CHR 0x84] @ '' routerId '' @
     [CHR 0xE9, CHR 0x85, CHR 0x8D, CHR 0xE7, CHR 0xBD, CHR 0xAE] @ ''.''"

definition UpsertSession ::
  "network \<Rightarrow> session_map \<Rightarrow> gostring \<Rightarrow> RouterSession \<Rightarrow> int \<Rightarrow>
     (go_error + RouterSession) \<times> session_map" where
  "UpsertSession net m routeId session now =
     (case m routeId of
        Some old \<Rightarrow>
          if IsActive old then
            if RemoteAddrStr net old = RemoteAddrStr net session then
              (let old' = RefreshHeartbeat now old in (Inr old', m(routeId \<mapsto> old')))
            else (Inl (Err (conflict_error routeId)), m)
          else (Inr session, m(routeId \<mapsto> session))
      | None \<Rightarrow> (Inr session, m(routeId \<mapsto> session)))"

text \<open>The loop of \<open>RemoveSessions\<close> under the write lock: (table, network, removed ids).\<close>

fun remove_loop ::
  "gostring list \<Rightarrow> session_map \<Rightarrow> network \<Rightarrow> gostring list \<Rightarrow> session_map \<times> network \<times> gostring list"
where
  "remove_loop [] m net removed = (m, net, removed)"
| "remove_loop (routeId # routeIds) m net removed =
     (case m routeId of
        None \<Rightarrow> remove_loop routeIds m net removed
      | Some session \<Rightarrow>
          remove_loop routeIds (m(routeId := None)) (conn_Close (sess_Conn session) net)
            (removed @ [routeId]))"

definition remove_message :: "gostring list \<Rightarrow> RouterSession \<Rightarrow> RouteMessage" where
  "remove_message removed alive =
     \<lparr>FromRouteId = sess_RouterId alive, ToRouteId = sess_RouterId alive,
      MessageType = Some RouteMessageTypeRemoveRouteNode,
      Data = Some (Marshal (enc_slice JStr) (Some removed))\<rparr>"

fun notify_loop :: "gostring list \<Rightarrow> RouterSession list \<Rightarrow> network \<Rightarrow> network" where
  "notify_loop removed [] net = net"
| "notify_loop removed (alive # rest) net =
     notify_loop removed rest (snd (WriteRouteMessage alive (remove_message removed alive) net))"

text \<open>\<open>ks\<close> is the order in which the range over the remaining sessions visits them.\<close>

definition RemoveSessions ::
  "gostring list \<Rightarrow> gostring list \<Rightarrow> session_map \<times> network \<Rightarrow> session_map \<times> network" where
  "RemoveSessions ks routeIds st =
     (case remove_loop routeIds (fst st) (snd st) [] of
        (m, net, removed) \<Rightarrow>
          if removed = [] then (m, net)
          else (m, notify_loop removed (List.map snd (range_map ks m)) net))"

definition RemoveSession ::
  "gostring list \<Rightarrow> gostring \<Rightarrow> session_map \<times> network \<Rightarrow> session_map \<times> network" where
  "RemoveSession ks routeId = RemoveSessions ks [routeId]"

text \<open>
  \<open>checkHeartbeat\<close> takes the lock twice: once to collect the sessions that are late, once, in
  \<open>RemoveSessions\<close>, to remove them. Other operations may run in between.
\<close>

definition collect_offline :: "gostring list \<Rightarrow> int \<Rightarrow> session_map \<Rightarrow> gostring list" where
  "collect_offline ks now m =
     (let cutoff = now - sessionTimeout in
      List.map fst (filter (\<lambda>(routeId, session). sess_lastHeartbeat session < cutoff) (range_map ks m)))"

definition remove_offline ::
  "gostring list \<Rightarrow> gostring list \<Rightarrow> session_map \<times> network \<Rightarrow> session_map \<times> network" where
  "remove_offline ks offline st = (if offline \<noteq> [] then RemoveSessions ks offline st else st)"

definition GetSession :: "session_map \<Rightarrow> gostring \<Rightarrow> RouterSession option" where
  "GetSession m routeId = m routeId"

definition GetAllRouteNodeList :: "gostring list \<Rightarrow> session_map \<Rightarrow> RouteNode list" where
  "GetAllRouteNodeList ks m =
     List.map (\<lambda>(_, s). \<lparr>node_RouterId = sess_RouterId s,
        node_HostForRpc = info_Host (sess_RpcServerInfo s),
        node_PortForRpc = info_Port (sess_RpcServerInfo s)\<rparr>) (range_map ks m)"

definition RefreshSession :: "gostring \<Rightarrow> int \<Rightarrow> session_map \<Rightarrow> session_map" where
  "RefreshSession routeId now m =
     (case m routeId of None \<Rightarrow> m | Some s \<Rightarrow> m(routeId \<mapsto> RefreshHeartbeat now s))"

subsection \<open>Snapshots for the monitor\<close>

record RouterSessionSnapshot =
  snap_RouterId :: gostring
  snap_HostForRpc :: gostring
  snap_PortForRpc :: int
  snap_LastHeartbeatMs :: int
  snap_RemoteAddr :: gostring
  snap_RemoteIP :: gostring
  snap_RemotePort :: int
  snap_StubCount :: nat

text \<open>
  \<open>net.SplitHostPort\<close>: host and port around the last colon; an IPv6 host stands in brackets,
  and a host without brackets has no colon of its own.
\<close>

definition SplitHostPort :: "gostring \<Rightarrow> (gostring \<times> gostring) option" where
  "SplitHostPort hp =
     (let i = LastIndex hp '':'' in
      if i < 0 then None
      else
        let host = take (nat i) hp; port = drop (nat i + 1) hp in
        if HasPrefix host ''['' then
          (if host \<noteq> [] \<and> last host = CHR '']'' \<and> length host \<ge> 2
              \<and> \<not> Contains (butlast (tl host)) '']'' \<and> \<not> Contains (butlast (tl host)) ''[''
              \<and> \<not> Contains port ''['' \<and> \<not> Contains port '']''
           then Some (butlast (tl host), port) else None)
        else if Contains host '':'' \<or> Contains host ''['' \<or> Contains host '']''
             \<or> Contains port ''['' \<or> Contains port '']'' then None
        else Some (host, port))"

definition GetAllSessionSnapshots ::
  "network \<Rightarrow> gostring list \<Rightarrow> session_map \<Rightarrow> RouterSessionSnapshot list" where
  "GetAllSessionSnapshots net ks m =
     List.map (\<lambda>(_, s).
       let remoteAddr = RemoteAddrStr net s;
           (remoteIP, remotePort) =
             (case SplitHostPort remoteAddr of
                None \<Rightarrow> ([], 0)
              | Some (host, portStr) \<Rightarrow> (host, case Atoi portStr of None \<Rightarrow> 0 | Some p \<Rightarrow> p))
       in \<lparr>snap_RouterId = sess_RouterId s, snap_HostForRpc = info_Host (sess_RpcServerInfo s),
           snap_PortForRpc = info_Port (sess_RpcServerInfo s),
           snap_LastHeartbeatMs = sess_lastHeartbeat s, snap_RemoteAddr = remoteAddr,
           snap_RemoteIP = remoteIP, snap_RemotePort = remotePort,
           snap_StubCount = (case info_Stubs (sess_RpcServerInfo s) of None \<Rightarrow> 0 | Some ss \<Rightarrow> length ss)\<rparr>)
     (range_map ks m)"

section \<open>What the operations do\<close>

lemma conn_Write_out:
  "net_out (snd (conn_Write c b net)) d =
     (if d = c \<and> \<not> net_closed net c then net_out net d @ b else net_out net d)"
  by (simp add: conn_Write_def)

lemma conn_Write_frame [frame_rules, simp]:
  "net_closed (snd (conn_Write c b net)) = net_closed net"
  "net_addr (snd (conn_Write c b net)) = net_addr net"
  by (simp_all add: conn_Write_def)

lemma conn_Close_frame [frame_rules, simp]:
  "net_out (conn_Close c net) = net_out net" "net_addr (conn_Close c net) = net_addr net"
  "net_closed (conn_Close c net) d = (d = c \<or> net_closed net d)"
  by (simp_all add: conn_Close_def)

text \<open>The ids of a list that are in the table, each at its first occurrence.\<close>

fun present :: "gostring list \<Rightarrow> session_map \<Rightarrow> gostring list" where
  "present [] m = []"
| "present (k # ks) m = (case m k of None \<Rightarrow> present ks m | Some _ \<Rightarrow> k # present ks (m(k := None)))"

definition closed_by_remove :: "gostring list \<Rightarrow> session_map \<Rightarrow> conn \<Rightarrow> bool" where
  "closed_by_remove ids m c \<longleftrightarrow> (\<exists>k s. k \<in> set ids \<and> m k = Some s \<and> sess_Conn s = c)"

lemma set_present: "set (present ks m) = set ks \<inter> dom m"
  by (induction ks arbitrary: m) (auto split: option.splits if_splits)

lemma distinct_present: "distinct (present ks m)"
  by (induction ks arbitrary: m) (auto simp: set_present split: option.splits)

lemma remove_loop_result:
  "remove_loop ids m net removed = (m', net', removed') \<Longrightarrow>
     m' = (\<lambda>k. if k \<in> set ids then None else m k) \<and> removed' = removed @ present ids m \<and>
     net_out net' = net_out net \<and> net_addr net' = net_addr net \<and>
     net_closed net' = (\<lambda>c. net_closed net c \<or> closed_by_remove ids m c)"
proof (induction ids m net removed arbitrary: m' net' removed' rule: remove_loop.induct)
  case (2 k ks m net removed)
  show ?case
  proof (cases "m k")
    case None
    with "2.prems" have run: "remove_loop ks m net removed = (m', net', removed')" by simp
    have "closed_by_remove (k # ks) m = closed_by_remove ks m"
      using None by (auto simp: closed_by_remove_def fun_eq_iff)
    with None "2.IH"(1) [OF None run] show ?thesis by (auto simp: fun_eq_iff)
  next
    case (Some s)
    with "2.prems" have run: "remove_loop ks (m(k := None)) (conn_Close (sess_Conn s) net)
        (removed @ [k]) = (m', net', removed')" by simp
    note ih = "2.IH"(2) [OF Some run]
    have "closed_by_remove (k # ks) m c \<longleftrightarrow>
        c = sess_Conn s \<or> closed_by_remove ks (m(k := None)) c" for c
    proof
      assume "closed_by_remove (k # ks) m c"
      then obtain k' s' where k': "k' \<in> set (k # ks)" "m k' = Some s'" "sess_Conn s' = c"
        unfolding closed_by_remove_def by blast
      show "c = sess_Conn s \<or> closed_by_remove ks (m(k := None)) c"
      proof (cases "k' = k")
        case True
        with k' Some show ?thesis by simp
      next
        case False
        with k' have "k' \<in> set ks \<and> (m(k := None)) k' = Some s' \<and> sess_Conn s' = c" by simp
        then show ?thesis unfolding closed_by_remove_def by blast
      qed
    next
      assume "c = sess_Conn s \<or> closed_by_remove ks (m(k := None)) c"
      then show "closed_by_remove (k # ks) m c"
      proof
        assume "closed_by_remove ks (m(k := None)) c"
        then obtain k' s' where k': "k' \<in> set ks" "(m(k := None)) k' = Some s'" "sess_Conn s' = c"
          unfolding closed_by_remove_def by blast
        then have "k' \<in> set (k # ks) \<and> m k' = Some s' \<and> sess_Conn s' = c" by (auto split: if_splits)
        then show ?thesis unfolding closed_by_remove_def by blast
      qed (use Some in \<open>auto simp: closed_by_remove_def\<close>)
    qed
    with ih Some show ?thesis by (auto simp: fun_eq_iff fun_upd_def)
  qed
qed (auto simp: closed_by_remove_def)

lemma notify_loop_frame [frame_rules, simp]:
  "net_closed (notify_loop removed ss net) = net_closed net"
  "net_addr (notify_loop removed ss net) = net_addr net"
  by (induction ss arbitrary: net) (simp_all add: WriteRouteMessage_wire)

lemma notify_loop_out:
  "net_out (notify_loop removed ss net) c = net_out net c @
     (if net_closed net c then []
      else concat (List.map (\<lambda>s. wire (remove_message removed s)) (filter (\<lambda>s. sess_Conn s = c) ss)))"
  by (induction ss arbitrary: net) (auto simp: WriteRouteMessage_wire conn_Write_out)

text \<open>Removal as one equation per part of the state.\<close>

lemma RemoveSessions_map:
  "fst (RemoveSessions ks ids st) = (\<lambda>k. if k \<in> set ids then None else fst st k)"
  using remove_loop_result [of ids "fst st" "snd st" "[]"]
  by (cases "remove_loop ids (fst st) (snd st) []") (auto simp: RemoveSessions_def)

lemma RemoveSessions_closed:
  "net_closed (snd (RemoveSessions ks ids st)) c \<longleftrightarrow>
     net_closed (snd st) c \<or> closed_by_remove ids (fst st) c"
  using remove_loop_result [of ids "fst st" "snd st" "[]"]
  by (cases "remove_loop ids (fst st) (snd st) []") (auto simp: RemoveSessions_def)

lemma RemoveSessions_addr [frame_rules, simp]:
  "net_addr (snd (RemoveSessions ks ids st)) = net_addr (snd st)"
  using remove_loop_result [of ids "fst st" "snd st" "[]"]
  by (cases "remove_loop ids (fst st) (snd st) []") (auto simp: RemoveSessions_def)

lemma RemoveSessions_out:
  fixes st :: "session_map \<times> network" and ids :: "gostring list"
  defines "m' \<equiv> \<lambda>k. if k \<in> set ids then None else fst st k"
  shows "net_out (snd (RemoveSessions ks ids st)) c = net_out (snd st) c @
     (if net_closed (snd st) c \<or> closed_by_remove ids (fst st) c \<or> present ids (fst st) = [] then []
      else concat (List.map (\<lambda>s. wire (remove_message (present ids (fst st)) s))
             (filter (\<lambda>s. sess_Conn s = c) (List.map snd (range_map ks m')))))"
  using remove_loop_result [of ids "fst st" "snd st" "[]"]
  by (cases "remove_loop ids (fst st) (snd st) []")
    (auto simp: RemoveSessions_def notify_loop_out m'_def)

section \<open>The table's invariant\<close>

definition session_ok :: "gostring \<Rightarrow> RouterSession \<Rightarrow> bool" where
  "session_ok k s \<longleftrightarrow> sess_RouterId s = k \<and> IsActive s \<and> RpcServerInfo_ok (sess_RpcServerInfo s)"

definition sessions_ok :: "session_map \<Rightarrow> bool" where
  "sessions_ok m \<longleftrightarrow> finite (dom m) \<and> (\<forall>k s. m k = Some s \<longrightarrow> session_ok k s)"

lemma sessions_okD: "sessions_ok m \<Longrightarrow> m k = Some s \<Longrightarrow>
     sess_RouterId s = k \<and> IsActive s \<and> RpcServerInfo_ok (sess_RpcServerInfo s)"
  by (simp add: sessions_ok_def session_ok_def)

lemma sessions_ok_empty [simp]: "sessions_ok Map.empty"
  by (simp add: sessions_ok_def)

lemma sessions_ok_update:
  "sessions_ok m \<Longrightarrow> session_ok k s \<Longrightarrow> sessions_ok (m(k \<mapsto> s))"
  by (simp add: sessions_ok_def)

lemma IsActive_NewRouterSession [simp]:
  "IsActive (NewRouterSession k c info now)"
  "sess_RouterId (NewRouterSession k c info now) = k"
  "sess_Conn (NewRouterSession k c info now) = c"
  "sess_lastHeartbeat (NewRouterSession k c info now) = now"
  "sess_RpcServerInfo (NewRouterSession k c info now) = info"
  by (simp_all add: NewRouterSession_def RefreshHeartbeat_def IsActive_def)

lemma session_ok_NewRouterSession [simp]:
  "session_ok k (NewRouterSession k' c info now) \<longleftrightarrow> k = k' \<and> RpcServerInfo_ok info"
  by (auto simp: session_ok_def)

lemma RefreshHeartbeat_NewRouterSession [simp]:
  "RefreshHeartbeat now (NewRouterSession k c info now) = NewRouterSession k c info now"
  by (simp add: RefreshHeartbeat_def NewRouterSession_def)

lemma RefreshHeartbeat_frame [frame_rules, simp]:
  "sess_RouterId (RefreshHeartbeat now s) = sess_RouterId s"
  "sess_Conn (RefreshHeartbeat now s) = sess_Conn s"
  "sess_RpcServerInfo (RefreshHeartbeat now s) = sess_RpcServerInfo s"
  "IsActive (RefreshHeartbeat now s) = IsActive s"
  "RemoteAddrStr net (RefreshHeartbeat now s) = RemoteAddrStr net s"
  "sess_lastHeartbeat (RefreshHeartbeat now s) = now"
  by (simp_all add: RefreshHeartbeat_def IsActive_def RemoteAddrStr_def)

lemma sessions_ok_Upsert:
  assumes "sessions_ok m" "session_ok k s"
  shows "sessions_ok (snd (UpsertSession net m k s now))"
  using assms sessions_okD [OF assms(1)]
  by (auto simp: UpsertSession_def session_ok_def Let_def split: option.splits intro!: sessions_ok_update)

lemma sessions_ok_Remove:
  "sessions_ok (fst st) \<Longrightarrow> sessions_ok (fst (RemoveSessions ks ids st))"
proof -
  assume ok: "sessions_ok (fst st)"
  have "dom (fst (RemoveSessions ks ids st)) \<subseteq> dom (fst st)"
    by (auto simp: RemoveSessions_map split: if_splits)
  with ok have "finite (dom (fst (RemoveSessions ks ids st)))"
    by (meson finite_subset sessions_ok_def)
  with ok show ?thesis by (auto simp: RemoveSessions_map sessions_ok_def split: if_splits)
qed

section \<open>The table as a registry\<close>

text \<open>
  What the server's handlers rely on. An entry is claimed by the session that first took the
  id; a later claim keeps the owner or fails, and only a removal that names the id frees it.
\<close>

locale session_registry =
  fixes get :: "'st \<Rightarrow> gostring \<Rightarrow> RouterSession option"
    and upsert :: "'st \<Rightarrow> gostring \<Rightarrow> RouterSession \<Rightarrow> int \<Rightarrow> (go_error + RouterSession) \<times> 'st"
    and remove :: "gostring list \<Rightarrow> gostring list \<Rightarrow> 'st \<Rightarrow> 'st"
    and inv :: "'st \<Rightarrow> bool"
  assumes upsert_other: "k' \<noteq> k \<Longrightarrow> get (snd (upsert st k s now)) k' = get st k'"
    and upsert_free: "get st k = None \<Longrightarrow>
          fst (upsert st k s now) = Inr s \<and> get (snd (upsert st k s now)) k = Some s"
    and upsert_taken: "inv st \<Longrightarrow> get st k = Some old \<Longrightarrow>
          \<exists>new. get (snd (upsert st k s now)) k = Some new \<and> sess_Conn new = sess_Conn old"
    and remove_get: "get (remove ks ids st) k = (if k \<in> set ids then None else get st k)"
    and upsert_inv: "inv st \<Longrightarrow> session_ok k s \<Longrightarrow> inv (snd (upsert st k s now))"
    and remove_inv: "inv st \<Longrightarrow> inv (remove ks ids st)"

datatype registry_op = OpUpsert gostring RouterSession int | OpRemove "gostring list" "gostring list"

text \<open>Only a removal naming \<open>k\<close> can end \<open>k\<close>'s session.\<close>

fun frees :: "gostring \<Rightarrow> registry_op \<Rightarrow> bool" where
  "frees k (OpUpsert _ _ _) = False"
| "frees k (OpRemove ks ids) = (k \<in> set ids)"

fun op_ok :: "registry_op \<Rightarrow> bool" where
  "op_ok (OpUpsert k s _) = session_ok k s"
| "op_ok (OpRemove _ _) = True"

fun apply_op ::
  "('st \<Rightarrow> gostring \<Rightarrow> RouterSession \<Rightarrow> int \<Rightarrow> (go_error + RouterSession) \<times> 'st) \<Rightarrow>
   (gostring list \<Rightarrow> gostring list \<Rightarrow> 'st \<Rightarrow> 'st) \<Rightarrow> registry_op \<Rightarrow> 'st \<Rightarrow> 'st" where
  "apply_op upsert remove (OpUpsert k s now) st = snd (upsert st k s now)"
| "apply_op upsert remove (OpRemove ks ids) st = remove ks ids st"

context session_registry
begin

lemma run_inv: "inv st \<Longrightarrow> list_all op_ok ops \<Longrightarrow> inv (fold (apply_op upsert remove) ops st)"
proof (induction ops arbitrary: st)
  case (Cons op ops)
  then have "inv (apply_op upsert remove op st)"
    by (cases op) (auto intro: upsert_inv remove_inv)
  with Cons show ?case by simp
qed simp

lemma owner_kept:
  assumes "inv st" "get st k = Some s" "list_all op_ok ops" "list_all (\<lambda>op. \<not> frees k op) ops"
  shows "\<exists>s'. get (fold (apply_op upsert remove) ops st) k = Some s' \<and> sess_Conn s' = sess_Conn s"
  using assms
proof (induction ops arbitrary: st s)
  case (Cons op ops)
  let ?st = "apply_op upsert remove op st"
  have inv: "inv ?st" using Cons.prems by (cases op) (auto intro: upsert_inv remove_inv)
  have "\<exists>s1. get ?st k = Some s1 \<and> sess_Conn s1 = sess_Conn s"
  proof (cases op)
    case (OpUpsert k' s' now)
    then show ?thesis
      using Cons.prems upsert_taken [of st k s s' now] upsert_other [of k k' st s' now]
      by (cases "k' = k") auto
  next
    case (OpRemove ks ids)
    with Cons.prems show ?thesis by (auto simp: remove_get)
  qed
  then obtain s1 where s1: "get ?st k = Some s1" "sess_Conn s1 = sess_Conn s" by blast
  obtain s2 where "get (fold (apply_op upsert remove) ops ?st) k = Some s2" "sess_Conn s2 = sess_Conn s1"
    using Cons.IH [OF inv s1(1)] Cons.prems(3,4) by auto
  with s1(2) show ?case by auto
qed auto

end

type_synonym session_state = "session_map \<times> network"

definition upsert_state ::
  "session_state \<Rightarrow> gostring \<Rightarrow> RouterSession \<Rightarrow> int \<Rightarrow> (go_error + RouterSession) \<times> session_state" where
  "upsert_state st k s now =
     (case UpsertSession (snd st) (fst st) k s now of (r, m) \<Rightarrow> (r, (m, snd st)))"

interpretation registry: session_registry "\<lambda>st. GetSession (fst st)" upsert_state RemoveSessions
    "\<lambda>st. sessions_ok (fst st)"
proof
  fix st :: session_state and k k' :: gostring and s now
  assume "k' \<noteq> k"
  then show "GetSession (fst (snd (upsert_state st k s now))) k' = GetSession (fst st) k'"
    by (auto simp: upsert_state_def UpsertSession_def GetSession_def Let_def split: option.splits)
next
  fix st :: session_state and k :: gostring and s now
  assume "GetSession (fst st) k = None"
  then show "fst (upsert_state st k s now) = Inr s \<and>
      GetSession (fst (snd (upsert_state st k s now))) k = Some s"
    by (simp add: upsert_state_def UpsertSession_def GetSession_def)
next
  fix st :: session_state and k :: gostring and old s now
  assume "sessions_ok (fst st)" "GetSession (fst st) k = Some old"
  then show "\<exists>new. GetSession (fst (snd (upsert_state st k s now))) k = Some new \<and>
      sess_Conn new = sess_Conn old"
    by (auto simp: upsert_state_def UpsertSession_def GetSession_def Let_def sessions_ok_def session_ok_def)
next
  fix st :: session_state and ks ids and k :: gostring
  show "GetSession (fst (RemoveSessions ks ids st)) k =
      (if k \<in> set ids then None else GetSession (fst st) k)"
    by (simp add: GetSession_def RemoveSessions_map)
next
  fix st :: session_state and k s now
  assume "sessions_ok (fst st)" "session_ok k s"
  then show "sessions_ok (fst (snd (upsert_state st k s now)))"
    using sessions_ok_Upsert [of "fst st" k s "snd st" now]
    by (auto simp: upsert_state_def split: prod.splits)
next
  fix st :: session_state and ks ids
  assume "sessions_ok (fst st)"
  then show "sessions_ok (fst (RemoveSessions ks ids st))" by (rule sessions_ok_Remove)
qed

end
