(* ===== verification/RouterStats.thy ===== *)
theory RouterStats
  imports GoStrings "HOL-Library.Multiset"
begin

text \<open>
  The statistics of \<open>internal/VirtualRouterServer/server.go\<close>: per-router RPC counters with a
  sliding window of one minute, their ranking, and the request window. Counters are \<open>uint64\<close>;
  times are milliseconds.
\<close>

section \<open>State\<close>

record routerRPCStats =
  rs_RouterID :: gostring
  rs_IncomingTotal :: "64 word"
  rs_OutgoingTotal :: "64 word"
  rs_LastMinuteHits :: "int list"

record RouterRPCSnapshot =
  rank_RouterID :: gostring
  rank_IncomingTotal :: "64 word"
  rank_OutgoingTotal :: "64 word"
  rank_Total :: "64 word"
  rank_PerMinute :: nat

type_synonym stats_map = "gostring \<rightharpoonup> routerRPCStats"

section \<open>The sliding window\<close>

text \<open>The loop of \<open>pruneLastMinute\<close> advances \<open>idx\<close> over the hits before the cutoff.\<close>

function prune_idx :: "int list \<Rightarrow> int \<Rightarrow> nat \<Rightarrow> nat" where
  "prune_idx list cutoff idx =
     (if idx < length list \<and> list ! idx < cutoff then prune_idx list cutoff (idx + 1) else idx)"
  by pat_completeness auto
termination
  by (relation "measure (\<lambda>(list, cutoff, idx). length list - idx)") auto

declare prune_idx.simps [simp del]

definition pruneLastMinute :: "int list \<Rightarrow> int \<Rightarrow> int list" where
  "pruneLastMinute list nowMs =
     (if length list = 0 then list
      else
        let cutoff = nowMs - 60 * 1000; idx = prune_idx list cutoff 0 in
        if idx = 0 then list
        else if idx \<ge> length list then take 0 list
        else drop idx list)"

lemma prune_idx_takeWhile:
  "idx \<le> length list \<Longrightarrow>
     prune_idx list cutoff idx = idx + length (takeWhile (\<lambda>t. t < cutoff) (drop idx list))"
proof (induction list cutoff idx rule: prune_idx.induct)
  case (1 list cutoff idx)
  show ?case
  proof (cases "idx < length list \<and> list ! idx < cutoff")
    case True
    then have "drop idx list = list ! idx # drop (Suc idx) list"
      by (simp add: Cons_nth_drop_Suc)
    with 1 True show ?thesis by (simp add: prune_idx.simps [of list cutoff idx])
  next
  case False
    then have "takeWhile (\<lambda>t. t < cutoff) (drop idx list) = []"
      by (cases "idx < length list") (auto simp flip: Cons_nth_drop_Suc)
    moreover have "prune_idx list cutoff idx = idx"
      unfolding prune_idx.simps [of list cutoff idx] using False by (rule if_not_P)
    ultimately show ?thesis by simp
  qed
qed

lemma prune_idx_0: "prune_idx list cutoff 0 = length (takeWhile (\<lambda>t. t < cutoff) list)"
  using prune_idx_takeWhile [of 0 list cutoff] by simp

lemma prune_dropWhile: "pruneLastMinute list now = dropWhile (\<lambda>t. t < now - 60000) list"
  unfolding pruneLastMinute_def Let_def prune_idx_0 dropWhile_eq_drop by auto

lemma dropWhile_filter_sorted:
  "sorted (xs :: int list) \<Longrightarrow> dropWhile (\<lambda>t. t < c) xs = filter (\<lambda>t. c \<le> t) xs"
proof (induction xs)
  case (Cons x xs)
  then show ?case
    by (cases "x < c") (auto intro!: filter_True [symmetric])
qed simp

lemma prune_sorted:
  "sorted list \<Longrightarrow> pruneLastMinute list now = filter (\<lambda>t. now - 60000 \<le> t) list"
  by (simp add: prune_dropWhile dropWhile_filter_sorted)

lemma prune_suffix: "\<exists>xs. list = xs @ pruneLastMinute list now"
  unfolding prune_dropWhile by (metis takeWhile_dropWhile_id)

section \<open>Recording\<close>

definition ensureRouterRPCStats :: "stats_map \<Rightarrow> gostring \<Rightarrow> routerRPCStats \<times> stats_map" where
  "ensureRouterRPCStats m routerID =
     (case m routerID of
        Some item \<Rightarrow> (item, m)
      | None \<Rightarrow>
          (let item = \<lparr>rs_RouterID = routerID, rs_IncomingTotal = 0, rs_OutgoingTotal = 0,
                       rs_LastMinuteHits = []\<rparr>
           in (item, m(routerID \<mapsto> item))))"

definition record_hit :: "int \<Rightarrow> int list \<Rightarrow> int list" where
  "record_hit now hits = pruneLastMinute (hits @ [now]) now"

definition recordRouterRPC :: "int \<Rightarrow> gostring \<Rightarrow> gostring \<Rightarrow> stats_map \<Rightarrow> stats_map" where
  "recordRouterRPC now fromRouteID toRouteID m =
     (let m1 = (if fromRouteID \<noteq> [] then
                  (case ensureRouterRPCStats m fromRouteID of (outgoing, m') \<Rightarrow>
                     m'(fromRouteID \<mapsto> outgoing\<lparr>
                          rs_OutgoingTotal := rs_OutgoingTotal outgoing + 1,
                          rs_LastMinuteHits := record_hit now (rs_LastMinuteHits outgoing)\<rparr>))
                else m)
      in (if toRouteID \<noteq> [] then
            (case ensureRouterRPCStats m1 toRouteID of (incoming, m') \<Rightarrow>
               m'(toRouteID \<mapsto> incoming\<lparr>
                    rs_IncomingTotal := rs_IncomingTotal incoming + 1,
                    rs_LastMinuteHits := record_hit now (rs_LastMinuteHits incoming)\<rparr>))
          else m1))"

definition recordRequestHit :: "int \<Rightarrow> int list \<Rightarrow> int list" where
  "recordRequestHit now requestHits = pruneLastMinute (requestHits @ [now]) now"

definition RequestsPerMinute :: "int \<Rightarrow> int list \<Rightarrow> nat \<times> int list" where
  "RequestsPerMinute now requestHits =
     (let requestHits = pruneLastMinute requestHits now in (length requestHits, requestHits))"

section \<open>Ranking\<close>

text \<open>Byte-wise order of Go strings.\<close>

fun string_less :: "gostring \<Rightarrow> gostring \<Rightarrow> bool" where
  "string_less [] t = (t \<noteq> [])"
| "string_less (c # s) [] = False"
| "string_less (c # s) (d # t) =
     (let m = (of_char c :: nat); n = of_char d in m < n \<or> (m = n \<and> string_less s t))"

lemma string_less_irrefl [simp]: "\<not> string_less s s"
  by (induction s) auto

lemma string_less_trans: "string_less s t \<Longrightarrow> string_less t u \<Longrightarrow> string_less s u"
proof (induction s t arbitrary: u rule: string_less.induct)
  case (1 t)
  then show ?case by (cases t; cases u) auto
next
  case (3 c s d t)
  then show ?case by (cases u) (auto simp: Let_def)
qed simp

lemma string_less_total: "s \<noteq> t \<Longrightarrow> string_less s t \<or> string_less t s"
  by (induction s t rule: string_less.induct) (auto simp: Let_def)

text \<open>The comparison function given to \<open>sort.Slice\<close>.\<close>

definition rank_less :: "RouterRPCSnapshot \<Rightarrow> RouterRPCSnapshot \<Rightarrow> bool" where
  "rank_less a b =
     (if rank_PerMinute a = rank_PerMinute b then
        if rank_Total a = rank_Total b then string_less (rank_RouterID a) (rank_RouterID b)
        else rank_Total a > rank_Total b
      else rank_PerMinute a > rank_PerMinute b)"

text \<open>
  The key the ranking sorts by, as a type of its own with a linear order, so that the
  library's sorting applies to it.
\<close>

datatype rank_key = RankKey (key_per_minute: nat) (key_total: "64 word") (key_id: gostring)

definition rank_key_of :: "RouterRPCSnapshot \<Rightarrow> rank_key" where
  "rank_key_of a = RankKey (rank_PerMinute a) (rank_Total a) (rank_RouterID a)"

instantiation rank_key :: linorder
begin

definition less_rank_key :: "rank_key \<Rightarrow> rank_key \<Rightarrow> bool" where
  "less_rank_key a b =
     (if key_per_minute a = key_per_minute b then
        if key_total a = key_total b then string_less (key_id a) (key_id b)
        else key_total b < key_total a
      else key_per_minute b < key_per_minute a)"

definition less_eq_rank_key :: "rank_key \<Rightarrow> rank_key \<Rightarrow> bool" where
  "less_eq_rank_key a b = (a = b \<or> a < b)"

instance
proof
  fix a b c :: rank_key
  have irrefl: "\<not> x < x" for x :: rank_key by (simp add: less_rank_key_def)
  have trans: "x < y \<Longrightarrow> y < z \<Longrightarrow> x < z" for x y z :: rank_key
    by (auto simp: less_rank_key_def split: if_splits dest: string_less_trans)
  have total: "x = y \<or> x < y \<or> y < x" for x y :: rank_key
    by (cases x; cases y) (auto simp: less_rank_key_def dest: string_less_total)
  show "a < b \<longleftrightarrow> a \<le> b \<and> \<not> b \<le> a"
    using irrefl trans by (auto simp: less_eq_rank_key_def)
  show "a \<le> a" by (simp add: less_eq_rank_key_def)
  show "a \<le> b \<Longrightarrow> b \<le> c \<Longrightarrow> a \<le> c"
    using trans by (auto simp: less_eq_rank_key_def)
  show "a \<le> b \<Longrightarrow> b \<le> a \<Longrightarrow> a = b"
    using irrefl trans by (auto simp: less_eq_rank_key_def)
  show "a \<le> b \<or> b \<le> a"
    using total by (auto simp: less_eq_rank_key_def)
qed

end

lemma rank_less_key: "rank_less a b \<longleftrightarrow> rank_key_of a < rank_key_of b"
  by (simp add: rank_less_def less_rank_key_def rank_key_of_def)

text \<open>\<open>sort.Slice\<close>, by insertion with the comparison function.\<close>

fun insert_by :: "('a \<Rightarrow> 'a \<Rightarrow> bool) \<Rightarrow> 'a \<Rightarrow> 'a list \<Rightarrow> 'a list" where
  "insert_by lt x [] = [x]"
| "insert_by lt x (y # ys) = (if lt y x then y # insert_by lt x ys else x # y # ys)"

definition sort_Slice :: "('a \<Rightarrow> 'a \<Rightarrow> bool) \<Rightarrow> 'a list \<Rightarrow> 'a list" where
  "sort_Slice lt xs = foldr (insert_by lt) xs []"

definition snapshot_of :: "routerRPCStats \<Rightarrow> RouterRPCSnapshot" where
  "snapshot_of item =
     \<lparr>rank_RouterID = rs_RouterID item, rank_IncomingTotal = rs_IncomingTotal item,
      rank_OutgoingTotal = rs_OutgoingTotal item,
      rank_Total = rs_IncomingTotal item + rs_OutgoingTotal item,
      rank_PerMinute = length (rs_LastMinuteHits item)\<rparr>"

text \<open>
  The loop over the table prunes every entry that matches the keyword and collects its
  snapshot; \<open>ks\<close> is the visiting order.
\<close>

fun rank_loop ::
  "int \<Rightarrow> gostring \<Rightarrow> gostring list \<Rightarrow> stats_map \<Rightarrow> RouterRPCSnapshot list \<Rightarrow>
     RouterRPCSnapshot list \<times> stats_map" where
  "rank_loop now lowerKeyword [] m result = (result, m)"
| "rank_loop now lowerKeyword (k # ks) m result =
     (case m k of
        None \<Rightarrow> rank_loop now lowerKeyword ks m result
      | Some item \<Rightarrow>
          if lowerKeyword \<noteq> [] \<and> \<not> Contains (ToLower (rs_RouterID item)) lowerKeyword
          then rank_loop now lowerKeyword ks m result
          else
            let item = item\<lparr>rs_LastMinuteHits := pruneLastMinute (rs_LastMinuteHits item) now\<rparr>
            in rank_loop now lowerKeyword ks (m(k \<mapsto> item)) (result @ [snapshot_of item]))"

definition clamp_limit :: "int \<Rightarrow> int" where
  "clamp_limit limit = (let limit = (if limit \<le> 0 then 50 else limit) in if limit > 500 then 500 else limit)"

definition RouterRPCStats ::
  "gostring list \<Rightarrow> int \<Rightarrow> gostring \<Rightarrow> int \<Rightarrow> stats_map \<Rightarrow> RouterRPCSnapshot list \<times> stats_map" where
  "RouterRPCStats ks now keyword limit m =
     (let limit = clamp_limit limit;
          lowerKeyword = ToLower (TrimSpace keyword)
      in case rank_loop now lowerKeyword ks m [] of
           (result, m') \<Rightarrow>
             let result = sort_Slice rank_less result in
             (if int (length result) > limit then take (nat limit) result else result, m'))"


section \<open>The counters against the history of requests\<close>

text \<open>
  The history a table stands for: the \<open>recordRouterRPC\<close> calls made so far, oldest first, as
  (time, sender, target). \<open>rpc_hits r\<close> lists the times a router took part in, \<open>rpc_out\<close> and
  \<open>rpc_in\<close> count the requests it sent and was sent.
\<close>

type_synonym rpc_event = "int \<times> gostring \<times> gostring"

definition run_rpcs :: "rpc_event list \<Rightarrow> stats_map" where
  "run_rpcs trace = fold (\<lambda>(now, f, t). recordRouterRPC now f t) trace Map.empty"

definition event_hits :: "gostring \<Rightarrow> rpc_event \<Rightarrow> int list" where
  "event_hits r e = (case e of (now, f, t) \<Rightarrow>
     (if f = r then [now] else []) @ (if t = r then [now] else []))"

definition rpc_hits :: "gostring \<Rightarrow> rpc_event list \<Rightarrow> int list" where
  "rpc_hits r trace = concat (map (event_hits r) trace)"

definition rpc_out :: "gostring \<Rightarrow> rpc_event list \<Rightarrow> nat" where
  "rpc_out r trace = length (filter (\<lambda>(_, f, _). f = r) trace)"

definition rpc_in :: "gostring \<Rightarrow> rpc_event list \<Rightarrow> nat" where
  "rpc_in r trace = length (filter (\<lambda>(_, _, t). t = r) trace)"

definition window :: "int \<Rightarrow> int list \<Rightarrow> int list" where
  "window now hits = filter (\<lambda>t. now - 60000 \<le> t) hits"

text \<open>
  An entry stands for a history when its counters agree and its hits are some window of the
  history's: the window of the last call that touched it.
\<close>

definition entry_of :: "gostring \<Rightarrow> rpc_event list \<Rightarrow> routerRPCStats option \<Rightarrow> bool" where
  "entry_of r trace opt =
     (case opt of
        None \<Rightarrow> rpc_out r trace = 0 \<and> rpc_in r trace = 0
      | Some item \<Rightarrow>
          rs_RouterID item = r \<and> 0 < rpc_out r trace + rpc_in r trace \<and>
          rs_OutgoingTotal item = of_nat (rpc_out r trace) \<and>
          rs_IncomingTotal item = of_nat (rpc_in r trace) \<and>
          (\<exists>last \<in> fst ` set trace. rs_LastMinuteHits item = window last (rpc_hits r trace)))"

lemma rpc_snoc [simp]:
  "rpc_hits r (trace @ [e]) = rpc_hits r trace @ event_hits r e"
  "rpc_out r (trace @ [(now, f, t)]) = rpc_out r trace + (if f = r then 1 else 0)"
  "rpc_in r (trace @ [(now, f, t)]) = rpc_in r trace + (if t = r then 1 else 0)"
  by (simp_all add: rpc_hits_def rpc_out_def rpc_in_def)

lemma rpc_Nil [simp]: "rpc_hits r [] = []" "rpc_out r [] = 0" "rpc_in r [] = 0"
  by (simp_all add: rpc_hits_def rpc_out_def rpc_in_def)

lemma rpc_hits_times: "set (rpc_hits r trace) \<subseteq> fst ` set trace"
  by (force simp: rpc_hits_def event_hits_def split: prod.splits if_splits)

lemma sorted_rpc_hits: "sorted (map fst trace) \<Longrightarrow> sorted (rpc_hits r trace)"
proof (induction trace rule: rev_induct)
  case (snoc e trace)
  from snoc.prems have "\<forall>t \<in> set (rpc_hits r trace). t \<le> fst e"
    using rpc_hits_times [of r trace] by (auto simp: sorted_append)
  with snoc show ?case
    by (cases e) (auto simp: sorted_append event_hits_def)
qed simp

lemma rpc_no_hits: "rpc_out r trace = 0 \<Longrightarrow> rpc_in r trace = 0 \<Longrightarrow> rpc_hits r trace = []"
  by (auto simp: rpc_hits_def rpc_out_def rpc_in_def event_hits_def filter_empty_conv
      split: prod.splits)

lemma window_window: "a \<le> b \<Longrightarrow> window b (window a hits) = window b hits"
  by (auto simp: window_def intro!: filter_cong)

lemma window_append [simp]: "window now (xs @ ys) = window now xs @ window now ys"
  by (simp add: window_def)

lemma window_now [simp]: "window now (now # xs) = now # window now xs" "window now [] = []"
  by (simp_all add: window_def)

lemma sorted_window: "sorted hits \<Longrightarrow> sorted (window now hits)"
  by (simp add: window_def sorted_wrt_filter)

lemma prune_window: "sorted hits \<Longrightarrow> pruneLastMinute hits now = window now hits"
  by (simp add: prune_sorted window_def)

lemma record_hit_window:
  "sorted (hits @ [now]) \<Longrightarrow> record_hit now hits = window now hits @ [now]"
  by (simp add: record_hit_def prune_window)


text \<open>One call, seen from one router: each side it appears on counts once.\<close>

definition entry_or_fresh :: "gostring \<Rightarrow> routerRPCStats option \<Rightarrow> routerRPCStats" where
  "entry_or_fresh r opt =
     (case opt of Some item \<Rightarrow> item
      | None \<Rightarrow> \<lparr>rs_RouterID = r, rs_IncomingTotal = 0, rs_OutgoingTotal = 0, rs_LastMinuteHits = []\<rparr>)"

definition count_out :: "int \<Rightarrow> routerRPCStats \<Rightarrow> routerRPCStats" where
  "count_out now item = item\<lparr>rs_OutgoingTotal := rs_OutgoingTotal item + 1,
     rs_LastMinuteHits := record_hit now (rs_LastMinuteHits item)\<rparr>"

definition count_in :: "int \<Rightarrow> routerRPCStats \<Rightarrow> routerRPCStats" where
  "count_in now item = item\<lparr>rs_IncomingTotal := rs_IncomingTotal item + 1,
     rs_LastMinuteHits := record_hit now (rs_LastMinuteHits item)\<rparr>"

lemma recordRouterRPC_at:
  assumes "r \<noteq> []"
  shows "recordRouterRPC now f t m r =
     (if f = r \<and> t = r then Some (count_in now (count_out now (entry_or_fresh r (m r))))
      else if f = r then Some (count_out now (entry_or_fresh r (m r)))
      else if t = r then Some (count_in now (entry_or_fresh r (m r)))
      else m r)"
  using assms
  by (auto simp: recordRouterRPC_def ensureRouterRPCStats_def entry_or_fresh_def count_out_def
      count_in_def Let_def split: option.splits)

lemma entry_step:
  assumes entry: "entry_of r trace opt" and sorted: "sorted (map fst (trace @ [(now, f, t)]))"
    and r: "f = r \<or> t = r"
  shows "entry_of r (trace @ [(now, f, t)])
     (if f = r \<and> t = r then Some (count_in now (count_out now (entry_or_fresh r opt)))
      else if f = r then Some (count_out now (entry_or_fresh r opt))
      else Some (count_in now (entry_or_fresh r opt)))"
proof -
  define hits where "hits = rpc_hits r trace"
  have s: "sorted hits" "\<forall>x \<in> set hits. x \<le> now"
    using sorted rpc_hits_times [of r trace]
    by (auto simp: hits_def sorted_append intro: sorted_rpc_hits)
  have sw: "sorted (window a hits @ [now])" for a
    using s by (auto simp: sorted_append sorted_window) (auto simp: window_def)
  have rec: "record_hit now (window a hits) = window now hits @ [now]" if "a \<le> now" for a
    using record_hit_window [OF sw] window_window [OF that] by simp
  have rec2: "record_hit now (window now hits @ [now]) = window now hits @ [now, now]"
    using sw [of now] by (subst record_hit_window) (auto simp: window_window sorted_append)
  have rec0: "record_hit now [] = [now]" by (subst record_hit_window) simp_all
  have rec1: "record_hit now [now] = [now, now]" by (subst record_hit_window) simp_all
  show ?thesis
  proof (cases opt)
    case None
    with entry have z: "rpc_out r trace = 0" "rpc_in r trace = 0" "hits = []"
      by (auto simp: entry_of_def hits_def rpc_no_hits)
    with None r show ?thesis
      by (auto simp: entry_of_def entry_or_fresh_def count_out_def count_in_def event_hits_def
          rec0 rec1 hits_def)
  next
    case (Some item)
    with entry obtain last where
      it: "rs_RouterID item = r" "rs_OutgoingTotal item = of_nat (rpc_out r trace)"
        "rs_IncomingTotal item = of_nat (rpc_in r trace)" "last \<in> fst ` set trace"
        "rs_LastMinuteHits item = window last hits"
      by (auto simp: entry_of_def hits_def)
    from it(4) sorted have le: "last \<le> now" by (auto simp: sorted_append)
    show ?thesis
      using it r Some
      by (auto simp: entry_of_def entry_or_fresh_def count_out_def count_in_def event_hits_def
          rec [OF le] rec2 hits_def [symmetric])
  qed
qed

lemma entry_run_rpcs:
  assumes "r \<noteq> []" and "sorted (map fst trace)"
  shows "entry_of r trace (run_rpcs trace r)"
  using assms(2)
proof (induction trace rule: rev_induct)
  case Nil
  then show ?case by (simp add: entry_of_def run_rpcs_def)
next
  case (snoc e trace)
  obtain now f t where e: "e = (now, f, t)" by (cases e)
  have IH: "entry_of r trace (run_rpcs trace r)"
    using snoc by (simp add: sorted_append)
  have run: "run_rpcs (trace @ [e]) r = recordRouterRPC now f t (run_rpcs trace) r"
    by (simp add: run_rpcs_def e)
  show ?case
  proof (cases "f = r \<or> t = r")
    case True
    with entry_step [OF IH, of now f t] snoc.prems show ?thesis
      by (auto simp: e run [unfolded e] recordRouterRPC_at [OF assms(1)])
  next
    case False
    with IH show ?thesis
      by (auto simp: e run [unfolded e] recordRouterRPC_at [OF assms(1)] entry_of_def event_hits_def
          split: option.splits)
  qed
qed


section \<open>The ranking\<close>

text \<open>What a matching entry contributes, and the entries that match.\<close>

definition pruned :: "int \<Rightarrow> routerRPCStats \<Rightarrow> routerRPCStats" where
  "pruned now item = item\<lparr>rs_LastMinuteHits := pruneLastMinute (rs_LastMinuteHits item) now\<rparr>"

definition matches :: "gostring \<Rightarrow> routerRPCStats \<Rightarrow> bool" where
  "matches kw item = (kw = [] \<or> Contains (ToLower (rs_RouterID item)) kw)"

lemma rank_loop_append:
  "distinct ks \<Longrightarrow> rank_loop now kw ks m acc =
     (acc @ [snapshot_of (pruned now item). (k, item) \<leftarrow> range_map ks m, matches kw item],
      \<lambda>k. case m k of
            Some item \<Rightarrow> if k \<in> set ks \<and> matches kw item then Some (pruned now item) else Some item
          | None \<Rightarrow> None)"
proof (induction ks arbitrary: m acc)
  case Nil
  then show ?case by (auto split: option.splits)
next
  case (Cons k ks)
  then have k: "k \<notin> set ks" and d: "distinct ks" by simp_all
  have same: "range_map ks (m(k \<mapsto> v)) = range_map ks m" for v
    using k by (simp add: range_map_def List.map_filter_def cong: map_cong filter_cong)
      (auto intro!: map_cong filter_cong)
  show ?case
  proof (cases "m k")
    case None
    with k show ?thesis by (auto simp: Cons.IH [OF d] split: option.splits)
  next
    case (Some item)
    have "rank_loop now kw (k # ks) m acc =
        (if matches kw item
         then rank_loop now kw ks (m(k \<mapsto> pruned now item)) (acc @ [snapshot_of (pruned now item)])
         else rank_loop now kw ks m acc)"
      by (simp add: Some matches_def pruned_def Let_def)
    then show ?thesis
      unfolding Cons.IH [OF d] same using k Some by (auto split: option.splits)
  qed
qed

lemma insert_by_set [simp]: "mset (insert_by lt x xs) = add_mset x (mset xs)"
  by (induction xs) auto

lemma sort_Slice_mset [simp]: "mset (sort_Slice lt xs) = mset xs"
  unfolding sort_Slice_def by (induction xs) auto

lemma set_sort_Slice [simp]: "set (sort_Slice lt xs) = set xs"
  by (metis set_mset_mset sort_Slice_mset)

lemma distinct_sort_Slice [simp]: "distinct (sort_Slice lt xs) = distinct xs"
  by (metis mset_eq_imp_distinct_iff sort_Slice_mset)

lemma length_sort_Slice [simp]: "length (sort_Slice lt xs) = length xs"
  by (metis size_mset sort_Slice_mset)

text \<open>Sorting by the ranking's comparison is sorting by its key.\<close>

lemma insert_by_rank: "map rank_key_of (insert_by rank_less x xs) = insort (rank_key_of x) (map rank_key_of xs)"
  by (induction xs) (auto simp: rank_less_key)

lemma sort_Slice_rank: "map rank_key_of (sort_Slice rank_less xs) = sort (map rank_key_of xs)"
  unfolding sort_Slice_def by (induction xs) (simp_all add: insert_by_rank)

lemma sorted_rank:
  assumes "distinct (map rank_key_of xs)"
  shows "sorted_wrt rank_less (sort_Slice rank_less xs)"
proof -
  have "sorted_wrt (<) (map rank_key_of (sort_Slice rank_less xs))"
    using assms by (simp add: sort_Slice_rank strict_sorted_iff)
  moreover have "rank_less = (\<lambda>x y. rank_key_of x < rank_key_of y)"
    by (simp add: fun_eq_iff rank_less_key)
  ultimately show ?thesis by (simp add: sorted_wrt_map)
qed

text \<open>The table keeps every entry under its own name.\<close>

definition stats_ok :: "stats_map \<Rightarrow> bool" where
  "stats_ok m = (\<forall>k item. m k = Some item \<longrightarrow> rs_RouterID item = k)"

lemma stats_ok_recordRouterRPC: "stats_ok m \<Longrightarrow> stats_ok (recordRouterRPC now f t m)"
  by (auto simp: stats_ok_def recordRouterRPC_def ensureRouterRPCStats_def Let_def
      split: option.splits if_splits)

lemma stats_ok_run_rpcs: "stats_ok (run_rpcs trace)"
proof (induction trace rule: rev_induct)
  case Nil
  then show ?case by (simp add: run_rpcs_def stats_ok_def)
next
  case (snoc e trace)
  then show ?case by (cases e) (simp add: run_rpcs_def stats_ok_recordRouterRPC)
qed

definition rank_all :: "gostring list \<Rightarrow> int \<Rightarrow> gostring \<Rightarrow> stats_map \<Rightarrow> RouterRPCSnapshot list" where
  "rank_all ks now kw m =
     [snapshot_of (pruned now item). (k, item) \<leftarrow> range_map ks m, matches kw item]"

lemma distinct_rank_all:
  assumes "stats_ok m" and "enumerates ks m"
  shows "distinct (map rank_key_of (rank_all ks now kw m))"
proof -
  have ids: "map rank_RouterID (rank_all ks now kw m) =
      map fst (filter (\<lambda>(k, item). matches kw item) (range_map ks m))"
    if "distinct ks" for ks
    using assms(1) that unfolding rank_all_def
    by (induction ks) (auto simp: snapshot_of_def pruned_def stats_ok_def split: option.splits)
  have "distinct (map fst (range_map ks m))"
    using assms(2) range_map_enumerates(1) [OF assms(2)] by (simp add: enumerates_def)
  then have "distinct (map rank_RouterID (rank_all ks now kw m))"
    using assms(2) by (simp add: ids enumerates_def distinct_map_filter)
  then have "distinct (map (key_id \<circ> rank_key_of) (rank_all ks now kw m))"
    by (simp add: rank_key_of_def comp_def)
  then show ?thesis by (simp add: distinct_map comp_def inj_on_def)
qed

lemma clamp_limit_bounds: "1 \<le> clamp_limit limit" "clamp_limit limit \<le> 500"
  by (auto simp: clamp_limit_def)

lemma RouterRPCStats_take:
  "distinct ks \<Longrightarrow> fst (RouterRPCStats ks now keyword limit m) =
     take (nat (clamp_limit limit))
       (sort_Slice rank_less (rank_all ks now (ToLower (TrimSpace keyword)) m))"
  unfolding RouterRPCStats_def rank_all_def
  using clamp_limit_bounds [of limit] by (auto simp: rank_loop_append Let_def)


lemma set_rank_all:
  "enumerates ks m \<Longrightarrow>
     set (rank_all ks now kw m) =
       {snapshot_of (pruned now item) | k item. m k = Some item \<and> matches kw item}"
  by (fastforce simp: rank_all_def enumerates_def split: if_splits)

lemma run_rpcs_empty_name: "run_rpcs trace [] = None"
proof (induction trace rule: rev_induct)
  case (snoc e trace)
  then show ?case
    by (cases e) (auto simp: run_rpcs_def recordRouterRPC_def ensureRouterRPCStats_def Let_def
        split: option.splits)
qed (simp add: run_rpcs_def)

lemma run_rpcs_entry:
  assumes "run_rpcs trace k = Some item" and "sorted (map fst trace @ [now])"
  shows "rs_RouterID item = k" "k \<noteq> []"
    "rs_OutgoingTotal item = of_nat (rpc_out k trace)"
    "rs_IncomingTotal item = of_nat (rpc_in k trace)"
    "rs_LastMinuteHits (pruned now item) = window now (rpc_hits k trace)"
proof -
  show k: "k \<noteq> []" using assms(1) run_rpcs_empty_name by fastforce
  have sorted: "sorted (map fst trace)" using assms(2) by (simp add: sorted_append)
  obtain last where it: "rs_RouterID item = k" "rs_OutgoingTotal item = of_nat (rpc_out k trace)"
    "rs_IncomingTotal item = of_nat (rpc_in k trace)" "last \<in> fst ` set trace"
    "rs_LastMinuteHits item = window last (rpc_hits k trace)"
    using entry_run_rpcs [OF k sorted] assms(1) by (auto simp: entry_of_def)
  then show "rs_RouterID item = k" "rs_OutgoingTotal item = of_nat (rpc_out k trace)"
    "rs_IncomingTotal item = of_nat (rpc_in k trace)" by simp_all
  have "last \<le> now" using it(4) assms(2) by (auto simp: sorted_append)
  then show "rs_LastMinuteHits (pruned now item) = window now (rpc_hits k trace)"
    using sorted_rpc_hits [OF sorted]
    by (simp add: pruned_def it(5) prune_window sorted_window window_window)
qed

section \<open>Properties\<close>

text \<open>
  C24: every row of the ranking is right about its router: \<open>perMinute\<close> counts exactly the
  requests it sent or was sent in the minute before the query, the totals count (modulo
  \<open>2\<^sup>64\<close>) all it ever sent and was sent, however often the sliding window was pruned on the way.
  The clock does not run backwards.
\<close>

theorem RouterRPCStats_counts:
  assumes "sorted (map fst trace @ [now])"
    and "enumerates ks (run_rpcs trace)"
    and "row \<in> set (fst (RouterRPCStats ks now keyword limit (run_rpcs trace)))"
  shows "rank_PerMinute row = length (window now (rpc_hits (rank_RouterID row) trace)) \<and>
         rank_OutgoingTotal row = of_nat (rpc_out (rank_RouterID row) trace) \<and>
         rank_IncomingTotal row = of_nat (rpc_in (rank_RouterID row) trace) \<and>
         rank_Total row =
           of_nat (rpc_out (rank_RouterID row) trace + rpc_in (rank_RouterID row) trace)"
proof -
  have "distinct ks" using assms(2) by (simp add: enumerates_def)
  then have "row \<in> set (rank_all ks now (ToLower (TrimSpace keyword)) (run_rpcs trace))"
    using assms(3) by (auto simp: RouterRPCStats_take dest: in_set_takeD)
  then obtain k item where "run_rpcs trace k = Some item" "row = snapshot_of (pruned now item)"
    by (auto simp: set_rank_all [OF assms(2)])
  with run_rpcs_entry [OF _ assms(1)] show ?thesis
    by (simp add: snapshot_of_def) (simp add: pruned_def)
qed

text \<open>A request from a to b at 0 and one from b to c at 70 s, seen at 80 s.\<close>

definition sample_trace :: "rpc_event list" where
  "sample_trace = [(0, ''a'', ''b''), (70000, ''b'', ''c'')]"

lemma dom_run_rpcs: "dom (run_rpcs trace) = (\<Union>(now, f, t) \<in> set trace. {f, t}) - {[]}"
proof (induction trace rule: rev_induct)
  case (snoc e trace)
  obtain now f t where e: "e = (now, f, t)" by (cases e)
  have "r \<in> dom (run_rpcs (trace @ [e])) \<longleftrightarrow> r \<in> dom (run_rpcs trace) \<union> ({f, t} - {[]})" for r
  proof (cases "r = []")
    case True
    then show ?thesis using run_rpcs_empty_name by (auto simp: domIff)
  next
    case False
    then show ?thesis
      by (simp add: run_rpcs_def e recordRouterRPC_at [OF False] domIff)
  qed
  then have "dom (run_rpcs (trace @ [e])) = dom (run_rpcs trace) \<union> ({f, t} - {[]})" by blast
  then show ?case unfolding snoc.IH by (auto simp: e)
qed (simp add: run_rpcs_def)

lemma sample_enumerates: "enumerates [''a'', ''b'', ''c''] (run_rpcs sample_trace)"
  by (auto simp: enumerates_def dom_run_rpcs sample_trace_def)

lemma all_rows:
  assumes "enumerates ks m" and "length ks \<le> 50" and "k \<in> set ks"
  shows "\<exists>item. m k = Some item \<and>
    snapshot_of (pruned now item) \<in> set (fst (RouterRPCStats ks now [] 0 m))"
proof -
  have "length (rank_all ks now [] m) \<le> 50"
    using assms(2) length_range_map [OF assms(1)] assms(1)
    by (simp add: rank_all_def matches_def enumerates_def comp_def sum_list_triv split_def
        length_concat) (metis assms(1) distinct_card enumerates_def)
  then have "set (fst (RouterRPCStats ks now [] 0 m)) = set (rank_all ks now [] m)"
    using assms(1) by (simp add: RouterRPCStats_take enumerates_def clamp_limit_def ToLower_def)
  with set_rank_all [OF assms(1), of now "[]"] assms show ?thesis
    by (auto simp: matches_def enumerates_def)
qed

theorem RouterRPCStats_counts_witness:
  "\<exists>row \<in> set (fst (RouterRPCStats [''a'', ''b'', ''c''] 80000 [] 0 (run_rpcs sample_trace))).
     rank_RouterID row = ''b'' \<and> rank_PerMinute row = 1 \<and> rank_Total row = 2"
proof -
  let ?rows = "fst (RouterRPCStats [''a'', ''b'', ''c''] 80000 [] 0 (run_rpcs sample_trace))"
  obtain item where item: "run_rpcs sample_trace ''b'' = Some item"
    and row: "snapshot_of (pruned 80000 item) \<in> set ?rows"
    using all_rows [OF sample_enumerates, of "''b''" 80000] by auto
  have sorted: "sorted (map fst sample_trace @ [80000])" by (simp add: sample_trace_def)
  have "rank_RouterID (snapshot_of (pruned 80000 item)) = ''b''"
    using run_rpcs_entry(1) [OF item sorted] by (simp add: snapshot_of_def pruned_def)
  with RouterRPCStats_counts [OF sorted sample_enumerates row] row show ?thesis
    by (force simp: sample_trace_def rpc_hits_def rpc_out_def rpc_in_def event_hits_def window_def)
qed

text \<open>
  C25: the ranking is the top of the matching routers. It holds at most the clamped limit of
  them (never more than 500), in the strict order busiest first, then by total, then by name,
  and every matching router left out ranks below all that are shown.
\<close>

theorem RouterRPCStats_top:
  assumes "enumerates ks (run_rpcs trace)"
  shows "let rows = fst (RouterRPCStats ks now keyword limit (run_rpcs trace));
             kw = ToLower (TrimSpace keyword);
             candidates = {snapshot_of (pruned now item) | k item.
               run_rpcs trace k = Some item \<and> matches kw item}
         in sorted_wrt rank_less rows \<and> set rows \<subseteq> candidates \<and>
            length rows = min (nat (clamp_limit limit)) (card candidates) \<and> length rows \<le> 500 \<and>
            (\<forall>x \<in> set rows. \<forall>y \<in> candidates - set rows. rank_less x y)"
proof -
  define kw where "kw = ToLower (TrimSpace keyword)"
  define all where "all = rank_all ks now kw (run_rpcs trace)"
  define n where "n = nat (clamp_limit limit)"
  have d: "distinct (map rank_key_of all)"
    unfolding all_def using stats_ok_run_rpcs assms by (rule distinct_rank_all)
  have rows: "fst (RouterRPCStats ks now keyword limit (run_rpcs trace)) =
      take n (sort_Slice rank_less all)"
    using assms by (simp add: RouterRPCStats_take enumerates_def all_def n_def kw_def)
  have sorted: "sorted_wrt rank_less (take n (sort_Slice rank_less all) @ drop n (sort_Slice rank_less all))"
    using sorted_rank [OF d] by simp
  have set: "set all = {snapshot_of (pruned now item) | k item.
      run_rpcs trace k = Some item \<and> matches kw item}"
    unfolding all_def by (rule set_rank_all [OF assms])
  have card: "card (set all) = length all"
    using d by (simp add: distinct_map distinct_card)
  have split: "set all - set (take n (sort_Slice rank_less all)) \<subseteq> set (drop n (sort_Slice rank_less all))"
    by (metis Diff_subset_conv append_take_drop_id set_append set_sort_Slice subset_refl)
  have "n \<le> 500" using clamp_limit_bounds [of limit] by (simp add: n_def)
  moreover have "set (take n (sort_Slice rank_less all)) \<subseteq> set all"
    by (metis set_sort_Slice set_take_subset)
  ultimately show ?thesis
    using sorted split
    unfolding Let_def rows kw_def [symmetric] set [symmetric] card n_def [symmetric] sorted_wrt_append
    by (auto simp: min_def)
qed

theorem RouterRPCStats_top_witness:
  "length (fst (RouterRPCStats [''a'', ''b'', ''c''] 80000 [] 2 (run_rpcs sample_trace))) \<le> 500 \<and>
   sorted_wrt rank_less (fst (RouterRPCStats [''a'', ''b'', ''c''] 80000 [] 2 (run_rpcs sample_trace)))"
  using RouterRPCStats_top [OF sample_enumerates, of 80000 "[]" 2] by (simp add: Let_def)

end
