(* ===== verification/RouterServer.thy ===== *)
theory RouterServer
  imports Sessions RouterStats
begin

text \<open>
  \<open>internal/VirtualRouterServer/server.go\<close>: the router itself. Its state holds the session
  table, the network, the counters, the stored debug results and, for the goroutine of each
  accepted connection, its local variable \<open>routeId\<close>. Every handler is one function on that
  state; \<open>server_step\<close> lets the connections, the heartbeat loop, the timers and \<open>Shutdown\<close> act
  in any order.
\<close>

section \<open>The RPC id of a response\<close>

definition regex_space :: "char \<Rightarrow> bool" where
  "regex_space c \<longleftrightarrow> c \<in> {CHR 0x09, CHR 0x0A, CHR 0x0C, CHR 0x0D, CHR 0x20}"

definition rpcUid_key :: gostring where
  "rpcUid_key = [CHR 0x22] @ ''rpcUid'' @ [CHR 0x22]"

text \<open>One attempt of \<open>rpcUidRegex\<close> at the front of a string: its capture group.\<close>

definition match_rpcUid :: "gostring \<Rightarrow> gostring option" where
  "match_rpcUid s =
     (if \<not> HasPrefix s rpcUid_key then None
      else (case dropWhile regex_space (drop (length rpcUid_key) s) of
        [] \<Rightarrow> None
      | c # s2 \<Rightarrow>
          if c \<noteq> CHR '':'' then None
          else (case dropWhile regex_space s2 of
            [] \<Rightarrow> None
          | q # s3 \<Rightarrow>
              if q \<noteq> CHR 0x22 then None
              else let uid = takeWhile (\<lambda>c. c \<noteq> CHR 0x22) s3 in
                if uid = [] \<or> dropWhile (\<lambda>c. c \<noteq> CHR 0x22) s3 = [] then None else Some uid)))"

text \<open>\<open>FindStringSubmatch\<close>: the leftmost match.\<close>

fun find_rpcUid :: "gostring \<Rightarrow> gostring option" where
  "find_rpcUid [] = match_rpcUid []"
| "find_rpcUid (c # s) =
     (case match_rpcUid (c # s) of Some uid \<Rightarrow> Some uid | None \<Rightarrow> find_rpcUid s)"

text \<open>
  A JSON number as a \<open>float64\<close>: the decimal text is \<open>p / q\<close>, rounded to 53 significant bits,
  ties to even. \<open>float_trunc\<close> is the integer part of the rounded value of a non-negative
  quotient; a number that rounds to \<open>2^1024\<close> or more is a decoding error.
\<close>

definition round_half_even :: "nat \<Rightarrow> nat \<Rightarrow> nat" where
  "round_half_even p q =
     (let n = p div q; r = p mod q in
      if 2 * r > q \<or> (2 * r = q \<and> odd n) then n + 1 else n)"

fun bit_length :: "nat \<Rightarrow> nat" where
  "bit_length n = (if n = 0 then 0 else 1 + bit_length (n div 2))"

declare bit_length.simps [simp del]

definition float_trunc :: "nat \<Rightarrow> nat \<Rightarrow> nat" where
  "float_trunc p q =
     (if p < q then (if 2 ^ 54 * (q - p) \<le> q then 1 else 0)
      else
        let b = bit_length (p div q) in
        if b \<ge> 53 then round_half_even p (q * 2 ^ (b - 53)) * 2 ^ (b - 53)
        else round_half_even (p * 2 ^ (53 - b)) q div 2 ^ (53 - b))"

text \<open>Sign, numerator and denominator of a valid JSON number.\<close>

definition number_parts :: "gostring \<Rightarrow> bool \<times> nat \<times> nat" where
  "number_parts n =
     (let neg = HasPrefix n ''-'';
          body = TrimPrefix n ''-'';
          mant = takeWhile (\<lambda>c. c \<noteq> CHR ''e'' \<and> c \<noteq> CHR ''E'') body;
          expo = drop (length mant + 1) body;
          whole = takeWhile (\<lambda>c. c \<noteq> CHR ''.'') mant;
          frac = drop (length whole + 1) mant;
          digits = digits_value (whole @ frac);
          expneg = HasPrefix expo ''-'';
          expval = digits_value (if expneg \<or> HasPrefix expo ''+'' then tl expo else expo);
          e = (if expneg then - int expval else int expval) - int (length frac)
      in if e \<ge> 0 then (neg, digits * 10 ^ nat e, 1) else (neg, digits, 10 ^ nat (- e)))"

definition float_ok :: "gostring \<Rightarrow> bool" where
  "float_ok n = (case number_parts n of (_, p, q) \<Rightarrow> float_trunc p q < 2 ^ 1024)"

text \<open>
  The conversion \<open>int(t)\<close> of a \<open>float64\<close> truncates; outside the range of \<open>int\<close> the result is
  the platform's, on amd64 the least integer.
\<close>

definition float_to_int :: "gostring \<Rightarrow> int" where
  "float_to_int n =
     (case number_parts n of (neg, p, q) \<Rightarrow>
        let t = int (float_trunc p q); v = (if neg then - t else t) in
        if int64_range v then v else - (2 ^ 63))"

text \<open>A value decoded into \<open>any\<close> fails only on a number outside \<open>float64\<close>.\<close>

fun any_ok :: "json \<Rightarrow> bool" where
  "any_ok (JNum n) = float_ok n"
| "any_ok (JArr vs) = list_all any_ok vs"
| "any_ok (JObj ms) = list_all (\<lambda>m. any_ok (snd m)) ms"
| "any_ok _ = True"

definition toString :: "json \<Rightarrow> gostring" where
  "toString v = (case v of JStr s \<Rightarrow> s | JNum n \<Rightarrow> Itoa (float_to_int n) | _ \<Rightarrow> [])"

record rpcUid_temp =
  temp_RpcUid :: json

definition decode_temp :: "json \<Rightarrow> rpcUid_temp \<times> bool" where
  "decode_temp =
     decode_struct [(''rpcUid'', \<lambda>r v. if any_ok v then (r\<lparr>temp_RpcUid := v\<rparr>, True) else (r, False))]
       \<lparr>temp_RpcUid = JNull\<rparr>"

definition extractRpcUid :: "gostring \<Rightarrow> gostring" where
  "extractRpcUid jsonStr =
     (case find_rpcUid jsonStr of
        Some uid \<Rightarrow> uid
      | None \<Rightarrow>
          if Contains jsonStr ''rpcUid'' then
            (case Unmarshal decode_temp \<lparr>temp_RpcUid = JNull\<rparr> jsonStr of
               (temp, ok) \<Rightarrow> if ok then toString (temp_RpcUid temp) else [])
          else [])"

section \<open>State\<close>

text \<open>
  \<open>srv_running c\<close>: the goroutine of connection \<open>c\<close> runs; \<open>srv_accepted\<close>: the connections
  accepted so far; \<open>srv_offline\<close>: what \<open>checkHeartbeat\<close> collected and has not removed yet;
  \<open>srv_timers\<close>: the goroutines that will delete a debug result.
\<close>

record server =
  srv_sessions :: session_map
  srv_net :: network
  srv_accepted :: "conn list"
  srv_running :: "conn \<Rightarrow> bool"
  srv_routeId :: "conn \<Rightarrow> gostring"
  srv_totalBytes :: "64 word"
  srv_totalRequests :: "64 word"
  srv_totalConnections :: "64 word"
  srv_currentConnections :: "64 word"
  srv_debugResults :: "gostring \<rightharpoonup> gostring"
  srv_timers :: "gostring list"
  srv_rpcStats :: stats_map
  srv_requestHits :: "int list"
  srv_offline :: "gostring list option"
  srv_shutdown :: bool
  srv_listening :: bool

definition NewServer :: server where
  "NewServer =
     \<lparr>srv_sessions = Map.empty,
      srv_net = \<lparr>net_addr = \<lambda>_. [], net_out = \<lambda>_. [], net_closed = \<lambda>_. False\<rparr>,
      srv_accepted = [], srv_running = \<lambda>_. False, srv_routeId = \<lambda>_. [],
      srv_totalBytes = 0, srv_totalRequests = 0, srv_totalConnections = 0,
      srv_currentConnections = 0, srv_debugResults = Map.empty, srv_timers = [],
      srv_rpcStats = Map.empty, srv_requestHits = [], srv_offline = None,
      srv_shutdown = False, srv_listening = True\<rparr>"

section \<open>Handlers\<close>

text \<open>\<open>err.Error()\<close>.\<close>

definition Error :: "go_error \<Rightarrow> gostring" where
  "Error err = (case err of Err s \<Rightarrow> s | EOF \<Rightarrow> ''EOF'' | UnexpectedEOF \<Rightarrow> ''unexpected EOF'')"

definition conflict_message :: "RouteMessage \<Rightarrow> go_error \<Rightarrow> RouteMessage" where
  "conflict_message msg err =
     \<lparr>FromRouteId = ''server'', ToRouteId = FromRouteId msg,
      MessageType = Some RouteMessageTypeSystemError, Data = Some (Error err)\<rparr>"

definition route_table_message :: "RouteMessage \<Rightarrow> RouteNode list \<Rightarrow> RouteMessage" where
  "route_table_message msg routeList =
     \<lparr>FromRouteId = FromRouteId msg, ToRouteId = FromRouteId msg, MessageType = MessageType msg,
      Data = Some (Marshal (enc_slice json_RouteNode) (Some routeList))\<rparr>"

definition handleHeartBeat ::
  "gostring list \<Rightarrow> int \<Rightarrow> RouteMessage \<Rightarrow> conn \<Rightarrow> server \<Rightarrow> server" where
  "handleHeartBeat ks now msg c s =
     (case Data msg of
        None \<Rightarrow> s
      | Some d \<Rightarrow>
          (case Unmarshal decode_RpcServerInfo zero_RpcServerInfo d of
             (rpcInfo, ok) \<Rightarrow>
               if \<not> ok then s
               else
                 let newSession = RefreshHeartbeat now (NewRouterSession (FromRouteId msg) c rpcInfo now) in
                 (case UpsertSession (srv_net s) (srv_sessions s) (FromRouteId msg) newSession now of
                    (Inl err, m) \<Rightarrow>
                      let net = snd (WriteRouteMessage newSession (conflict_message msg err) (srv_net s))
                      in s\<lparr>srv_sessions := m, srv_net := conn_Close c net\<rparr>
                  | (Inr session, m) \<Rightarrow>
                      let routeList = GetAllRouteNodeList ks m;
                          net = snd (WriteRouteMessage session (route_table_message msg routeList)
                                  (srv_net s))
                      in s\<lparr>srv_sessions := m, srv_net := net\<rparr>)))"

definition forwardToTarget :: "RouteMessage \<Rightarrow> server \<Rightarrow> server" where
  "forwardToTarget msg s =
     (if ToRouteId msg = [] then s
      else
        (case GetSession (srv_sessions s) (ToRouteId msg) of
           None \<Rightarrow> s
         | Some target \<Rightarrow> s\<lparr>srv_net := snd (WriteRouteMessage target msg (srv_net s))\<rparr>))"

definition handleRpcResponse :: "RouteMessage \<Rightarrow> server \<Rightarrow> server" where
  "handleRpcResponse msg s =
     (if ToRouteId msg = ''debug-admin'' then
        (case Data msg of
           None \<Rightarrow> s
         | Some d \<Rightarrow>
             let rpcUid = extractRpcUid d in
             if rpcUid = [] then s
             else s\<lparr>srv_debugResults := (srv_debugResults s)(rpcUid \<mapsto> d),
                    srv_timers := srv_timers s @ [rpcUid]\<rparr>)
      else forwardToTarget msg s)"

definition handleRouteMessage ::
  "gostring list \<Rightarrow> int \<Rightarrow> RouteMessage \<Rightarrow> RouteMessageType \<Rightarrow> conn \<Rightarrow> server \<Rightarrow> server" where
  "handleRouteMessage ks now msg t c s =
     (if t = RouteMessageTypeHeartBeat then handleHeartBeat ks now msg c s
      else if t = RouteMessageTypeMessageData then forwardToTarget msg s
      else if t = RouteMessageTypeRpcRequest then
        forwardToTarget msg
          (s\<lparr>srv_rpcStats := recordRouterRPC now (FromRouteId msg) (ToRouteId msg) (srv_rpcStats s)\<rparr>)
      else if t = RouteMessageTypeRpcResponse then handleRpcResponse msg s
      else s)"

text \<open>
  One turn of the loop in \<open>handleConn\<close>, given what \<open>ReadFrame\<close> returned; the deferred calls run
  when the loop is left.
\<close>

definition handle_read_error :: "gostring list \<Rightarrow> conn \<Rightarrow> server \<Rightarrow> server" where
  "handle_read_error ks c s =
     (let s1 = (if srv_routeId s c \<noteq> [] then
                  (case RemoveSession ks (srv_routeId s c) (srv_sessions s, srv_net s) of
                     (m, net) \<Rightarrow> s\<lparr>srv_sessions := m, srv_net := net\<rparr>)
                else s)
      in s1\<lparr>srv_currentConnections := srv_currentConnections s1 - 1,
            srv_net := conn_Close c (srv_net s1), srv_running := (srv_running s1)(c := False)\<rparr>)"

definition handle_payload :: "gostring list \<Rightarrow> int \<Rightarrow> conn \<Rightarrow> byte list \<Rightarrow> server \<Rightarrow> server" where
  "handle_payload ks now c payload s =
     (let s1 = s\<lparr>srv_totalRequests := srv_totalRequests s + 1,
                 srv_requestHits := recordRequestHit now (srv_requestHits s),
                 srv_totalBytes := srv_totalBytes s + of_nat (length payload)\<rparr>
      in case DecodeRouteMessagePayload payload of
           Inl err \<Rightarrow> s1
         | Inr msg \<Rightarrow>
             (case MessageType msg of
                None \<Rightarrow> s1
              | Some t \<Rightarrow>
                  let s2 = (if FromRouteId msg \<noteq> []
                            then s1\<lparr>srv_routeId := (srv_routeId s1)(c := FromRouteId msg)\<rparr> else s1)
                  in handleRouteMessage ks now msg t c s2))"

definition handleConn_turn ::
  "gostring list \<Rightarrow> int \<Rightarrow> conn \<Rightarrow> go_error + byte list \<Rightarrow> server \<Rightarrow> server" where
  "handleConn_turn ks now c res s =
     (case res of Inl err \<Rightarrow> handle_read_error ks c s | Inr payload \<Rightarrow> handle_payload ks now c payload s)"

text \<open>A connection accepted by the loop of \<open>Start\<close>.\<close>

definition accept_conn :: "conn \<Rightarrow> gostring \<Rightarrow> server \<Rightarrow> server" where
  "accept_conn c addr s =
     s\<lparr>srv_net := (srv_net s)\<lparr>net_addr := (net_addr (srv_net s))(c := addr),
                   net_out := (net_out (srv_net s))(c := []),
                   net_closed := (net_closed (srv_net s))(c := False)\<rparr>,
       srv_accepted := srv_accepted s @ [c],
       srv_totalConnections := srv_totalConnections s + 1,
       srv_currentConnections := srv_currentConnections s + 1,
       srv_running := (srv_running s)(c := True), srv_routeId := (srv_routeId s)(c := [])\<rparr>"

definition Shutdown :: "server \<Rightarrow> server" where
  "Shutdown s = (if srv_shutdown s then s else s\<lparr>srv_shutdown := True, srv_listening := False\<rparr>)"

definition GetDebugResult :: "server \<Rightarrow> gostring \<Rightarrow> gostring \<times> bool" where
  "GetDebugResult s rpcUid =
     (case srv_debugResults s rpcUid of Some v \<Rightarrow> (v, True) | None \<Rightarrow> ([], False))"

definition expire_debug :: "gostring \<Rightarrow> server \<Rightarrow> server" where
  "expire_debug uid s =
     s\<lparr>srv_debugResults := (srv_debugResults s)(uid := None), srv_timers := remove1 uid (srv_timers s)\<rparr>"

definition checkHeartbeat_collect :: "gostring list \<Rightarrow> int \<Rightarrow> server \<Rightarrow> server" where
  "checkHeartbeat_collect ks now s =
     s\<lparr>srv_offline := Some (collect_offline ks now (srv_sessions s))\<rparr>"

definition checkHeartbeat_remove :: "gostring list \<Rightarrow> gostring list \<Rightarrow> server \<Rightarrow> server" where
  "checkHeartbeat_remove ks offline s =
     (case remove_offline ks offline (srv_sessions s, srv_net s) of
        (m, net) \<Rightarrow> s\<lparr>srv_sessions := m, srv_net := net, srv_offline := None\<rparr>)"

definition Stats :: "server \<Rightarrow> 64 word \<times> int \<times> 64 word \<times> 64 word" where
  "Stats s = (srv_totalConnections s, sint (srv_currentConnections s), srv_totalBytes s,
     srv_totalRequests s)"

section \<open>Steps\<close>

datatype server_event =
    Accept conn gostring
  | Turn conn "go_error + byte list" int
  | CollectOffline int
  | RemoveOffline
  | ExpireDebug gostring
  | DoShutdown

text \<open>
  A range over the session table sees it as it is after the operation; \<open>ks\<close> enumerates that.
  A turn of a connection whose socket is closed by now is possible: its frame was read before.
\<close>

inductive server_step :: "server \<Rightarrow> server_event \<Rightarrow> server \<Rightarrow> bool" where
  accept: "c \<notin> set (srv_accepted s) \<Longrightarrow> \<not> srv_shutdown s \<Longrightarrow>
     server_step s (Accept c addr) (accept_conn c addr s)"
| turn: "srv_running s c \<Longrightarrow> s' = handleConn_turn ks now c res s \<Longrightarrow>
     enumerates ks (srv_sessions s') \<Longrightarrow> server_step s (Turn c res now) s'"
| collect: "srv_offline s = None \<Longrightarrow> enumerates ks (srv_sessions s) \<Longrightarrow>
     server_step s (CollectOffline now) (checkHeartbeat_collect ks now s)"
| remove: "srv_offline s = Some offline \<Longrightarrow> s' = checkHeartbeat_remove ks offline s \<Longrightarrow>
     enumerates ks (srv_sessions s') \<Longrightarrow> server_step s RemoveOffline s'"
| expire: "uid \<in> set (srv_timers s) \<Longrightarrow> server_step s (ExpireDebug uid) (expire_debug uid s)"
| shutdown: "server_step s DoShutdown (Shutdown s)"

inductive server_run :: "server \<Rightarrow> server_event list \<Rightarrow> server \<Rightarrow> bool" where
  run_Nil: "server_run s [] s"
| run_Cons: "server_step s e s' \<Longrightarrow> server_run s' es s'' \<Longrightarrow> server_run s (e # es) s''"

text \<open>A run in which every event satisfies a condition on the state it happens in.\<close>

inductive server_run_with ::
  "(server \<Rightarrow> server_event \<Rightarrow> bool) \<Rightarrow> server \<Rightarrow> server_event list \<Rightarrow> server \<Rightarrow> bool"
  for P where
  with_Nil: "server_run_with P s [] s"
| with_Cons: "P s e \<Longrightarrow> server_step s e s' \<Longrightarrow> server_run_with P s' es s'' \<Longrightarrow>
     server_run_with P s (e # es) s''"

inductive_simps server_step_simps [simp]:
  "server_step s (Accept c addr) s'"
  "server_step s (Turn c res now) s'"
  "server_step s (CollectOffline now) s'"
  "server_step s RemoveOffline s'"
  "server_step s (ExpireDebug uid) s'"
  "server_step s DoShutdown s'"

inductive_simps server_run_simps [simp]:
  "server_run s [] s'"
  "server_run s (e # es) s'"
  "server_run_with P s [] s'"
  "server_run_with P s (e # es) s'"

inductive_cases server_step_cases: "server_step s e s'"


section \<open>Frames: what the handlers leave alone\<close>

lemma conn_Write_net [simp]:
  "net_closed (snd (WriteRouteMessage t m net)) = net_closed net"
  "net_addr (snd (WriteRouteMessage t m net)) = net_addr net"
  by (simp_all add: WriteRouteMessage_wire)

lemma WriteRouteMessage_out:
  "net_out (snd (WriteRouteMessage t m net)) d =
     (if d = sess_Conn t \<and> \<not> net_closed net d then net_out net d @ wire m else net_out net d)"
  by (auto simp: WriteRouteMessage_wire conn_Write_out)

definition same_control :: "server \<Rightarrow> server \<Rightarrow> bool" where
  "same_control s s' \<longleftrightarrow>
     srv_accepted s' = srv_accepted s \<and> srv_running s' = srv_running s \<and>
     srv_totalConnections s' = srv_totalConnections s \<and>
     srv_currentConnections s' = srv_currentConnections s \<and> srv_offline s' = srv_offline s \<and>
     srv_shutdown s' = srv_shutdown s \<and> srv_listening s' = srv_listening s \<and>
     net_addr (srv_net s') = net_addr (srv_net s) \<and>
     (\<forall>c. net_closed (srv_net s) c \<longrightarrow> net_closed (srv_net s') c)"

lemma same_control_refl [simp]: "same_control s s"
  by (simp add: same_control_def)

lemma same_control_trans: "same_control s t \<Longrightarrow> same_control t u \<Longrightarrow> same_control s u"
  by (simp add: same_control_def)

lemma forwardToTarget_frame [frame_rules]:
  "same_control s (forwardToTarget msg s)" "srv_sessions (forwardToTarget msg s) = srv_sessions s"
  "srv_debugResults (forwardToTarget msg s) = srv_debugResults s"
  "srv_timers (forwardToTarget msg s) = srv_timers s"
  "net_closed (srv_net (forwardToTarget msg s)) = net_closed (srv_net s)"
  "srv_routeId (forwardToTarget msg s) = srv_routeId s"
  by (auto simp: forwardToTarget_def same_control_def split: option.splits)

lemma handleRpcResponse_frame [frame_rules]:
  "same_control s (handleRpcResponse msg s)"
  "srv_sessions (handleRpcResponse msg s) = srv_sessions s"
  "srv_routeId (handleRpcResponse msg s) = srv_routeId s"
  by (auto simp: handleRpcResponse_def frame_rules Let_def split: option.splits)
    (auto simp: same_control_def)

lemma handleHeartBeat_frame [frame_rules]:
  "same_control s (handleHeartBeat ks now msg c s)"
  "srv_debugResults (handleHeartBeat ks now msg c s) = srv_debugResults s"
  "srv_timers (handleHeartBeat ks now msg c s) = srv_timers s"
  "srv_routeId (handleHeartBeat ks now msg c s) = srv_routeId s"
  by (auto simp: handleHeartBeat_def same_control_def Let_def split: option.splits sum.splits prod.splits)

text \<open>The table after a heartbeat is the table after its \<open>UpsertSession\<close>, when it gets there.\<close>

lemma handleHeartBeat_sessions:
  "srv_sessions (handleHeartBeat ks now msg c s) = srv_sessions s \<or>
   (\<exists>info. RpcServerInfo_ok info \<and> srv_sessions (handleHeartBeat ks now msg c s) =
      snd (UpsertSession (srv_net s) (srv_sessions s) (FromRouteId msg)
             (NewRouterSession (FromRouteId msg) c info now) now))"
  by (auto simp: handleHeartBeat_def Let_def split: option.splits sum.splits prod.splits)
    (metis fst_conv snd_conv Unmarshal_RpcServerInfo_ok)+

lemma handleRouteMessage_frame [frame_rules]:
  "same_control s (handleRouteMessage ks now msg t c s)"
  "srv_routeId (handleRouteMessage ks now msg t c s) = srv_routeId s"
proof -
  have "same_control s (forwardToTarget msg (s\<lparr>srv_rpcStats := x\<rparr>))" for x
    using same_control_trans [OF _ forwardToTarget_frame(1), of s "s\<lparr>srv_rpcStats := x\<rparr>" msg]
    by (simp add: same_control_def)
  then show "same_control s (handleRouteMessage ks now msg t c s)"
    by (simp add: handleRouteMessage_def frame_rules)
qed (simp add: handleRouteMessage_def frame_rules)

lemma handleRouteMessage_sessions:
  "srv_sessions (handleRouteMessage ks now msg t c s) = srv_sessions s \<or>
   (\<exists>info. RpcServerInfo_ok info \<and> srv_sessions (handleRouteMessage ks now msg t c s) =
      snd (UpsertSession (srv_net s) (srv_sessions s) (FromRouteId msg)
             (NewRouterSession (FromRouteId msg) c info now) now))"
  using handleHeartBeat_sessions [of ks now msg c s]
  by (simp add: handleRouteMessage_def frame_rules)

lemma handle_payload_frame [frame_rules]: "same_control s (handle_payload ks now c payload s)"
proof -
  define s1 where "s1 = s\<lparr>srv_totalRequests := srv_totalRequests s + 1,
    srv_requestHits := recordRequestHit now (srv_requestHits s),
    srv_totalBytes := srv_totalBytes s + of_nat (length payload)\<rparr>"
  have "same_control s (s1\<lparr>srv_routeId := f\<rparr>)" "same_control s s1" for f
    by (simp_all add: same_control_def s1_def)
  then show ?thesis
    unfolding handle_payload_def s1_def [symmetric] Let_def
    by (auto split: sum.splits option.splits intro: same_control_trans frame_rules)
qed

lemma handle_payload_sessions:
  "srv_sessions (handle_payload ks now c payload s) = srv_sessions s \<or>
   (\<exists>k info. RpcServerInfo_ok info \<and> srv_sessions (handle_payload ks now c payload s) =
      snd (UpsertSession (srv_net s) (srv_sessions s) k (NewRouterSession k c info now) now))"
proof (cases "DecodeRouteMessagePayload payload")
  case (Inr msg)
  show ?thesis
  proof (cases "MessageType msg")
    case (Some t)
    define s2 where "s2 = (let s1 = s\<lparr>srv_totalRequests := srv_totalRequests s + 1,
        srv_requestHits := recordRequestHit now (srv_requestHits s),
        srv_totalBytes := srv_totalBytes s + of_nat (length payload)\<rparr> in
      if FromRouteId msg \<noteq> [] then s1\<lparr>srv_routeId := (srv_routeId s1)(c := FromRouteId msg)\<rparr> else s1)"
    have "srv_sessions s2 = srv_sessions s" "srv_net s2 = srv_net s" by (simp_all add: s2_def Let_def)
    moreover have "handle_payload ks now c payload s = handleRouteMessage ks now msg t c s2"
      by (simp add: handle_payload_def Inr Some s2_def Let_def)
    ultimately show ?thesis using handleRouteMessage_sessions [of ks now msg t c s2] by auto
  qed (simp add: handle_payload_def Inr Let_def)
qed (simp add: handle_payload_def Let_def)


section \<open>The server's invariant\<close>

definition server_ok :: "server \<Rightarrow> bool" where
  "server_ok s \<longleftrightarrow>
     sessions_ok (srv_sessions s) \<and>
     distinct (srv_accepted s) \<and>
     (\<forall>k t. srv_sessions s k = Some t \<longrightarrow> sess_Conn t \<in> set (srv_accepted s)) \<and>
     (\<forall>c. srv_running s c \<longrightarrow> c \<in> set (srv_accepted s)) \<and>
     (\<forall>c \<in> set (srv_accepted s). \<not> srv_running s c \<longrightarrow> net_closed (srv_net s) c) \<and>
     srv_totalConnections s = of_nat (length (srv_accepted s)) \<and>
     srv_currentConnections s = of_nat (card {c. srv_running s c}) \<and>
     dom (srv_debugResults s) \<subseteq> set (srv_timers s) \<and>
     (srv_listening s \<longrightarrow> \<not> srv_shutdown s)"

lemma server_okD:
  assumes "server_ok s"
  shows "sessions_ok (srv_sessions s)" "distinct (srv_accepted s)"
    "srv_sessions s k = Some t \<Longrightarrow> sess_Conn t \<in> set (srv_accepted s)"
    "srv_running s c \<Longrightarrow> c \<in> set (srv_accepted s)"
    "c \<in> set (srv_accepted s) \<Longrightarrow> \<not> srv_running s c \<Longrightarrow> net_closed (srv_net s) c"
    "srv_totalConnections s = of_nat (length (srv_accepted s))"
    "srv_currentConnections s = of_nat (card {c. srv_running s c})"
    "dom (srv_debugResults s) \<subseteq> set (srv_timers s)"
    "srv_listening s \<longrightarrow> \<not> srv_shutdown s"
  using assms by (simp_all add: server_ok_def)

lemma server_ok_NewServer: "server_ok NewServer"
  by (simp add: server_ok_def NewServer_def)

lemma finite_running: "server_ok s \<Longrightarrow> finite {c. srv_running s c}"
  by (rule finite_subset [of _ "set (srv_accepted s)"]) (auto simp: server_ok_def)

lemma Upsert_conns:
  assumes "snd (UpsertSession net m k t now) k' = Some t'"
  shows "sess_Conn t' = sess_Conn t \<or> (\<exists>old. m k' = Some old \<and> sess_Conn t' = sess_Conn old)"
  using assms
  by (auto simp: UpsertSession_def Let_def split: option.splits if_splits)

lemma debug_kept:
  "dom (srv_debugResults s) \<subseteq> set (srv_timers s) \<Longrightarrow>
     dom (srv_debugResults (handle_payload ks now c payload s)) \<subseteq>
       set (srv_timers (handle_payload ks now c payload s))"
  by (auto simp: handle_payload_def handleRouteMessage_def frame_rules handleRpcResponse_def Let_def
      split: sum.splits option.splits)

lemma server_ok_payload:
  assumes ok: "server_ok s" and run: "srv_running s c"
  shows "server_ok (handle_payload ks now c payload s)"
proof -
  let ?s = "handle_payload ks now c payload s"
  note same = handle_payload_frame [of s ks now c payload, unfolded same_control_def]
  note D = server_okD [OF ok]
  consider "srv_sessions ?s = srv_sessions s"
    | k info where "RpcServerInfo_ok info" "srv_sessions ?s = snd (UpsertSession (srv_net s) (srv_sessions s) k
          (NewRouterSession k c info now) now)"
    using handle_payload_sessions by blast
  then have table: "sessions_ok (srv_sessions ?s) \<and>
      (\<forall>k t. srv_sessions ?s k = Some t \<longrightarrow> sess_Conn t \<in> set (srv_accepted s))"
  proof cases
    case 1
    with D(1,3) show ?thesis by metis
  next
    case 2
    have "sessions_ok (srv_sessions ?s)"
      unfolding 2(2) by (rule sessions_ok_Upsert) (simp_all add: D 2(1))
    moreover have "sess_Conn t \<in> set (srv_accepted s)" if "srv_sessions ?s k' = Some t" for k' t
      using Upsert_conns [OF that [unfolded 2(2)]] D(3) D(4) [OF run] by auto
    ultimately show ?thesis by blast
  qed
  have closed: "\<forall>c \<in> set (srv_accepted s). \<not> srv_running s c \<longrightarrow> net_closed (srv_net ?s) c"
    using same D(5) by blast
  show ?thesis
    unfolding server_ok_def using table closed debug_kept [OF D(8)] same D by simp
qed

lemma server_ok_read_error:
  assumes ok: "server_ok s" and run: "srv_running s c"
  shows "server_ok (handle_read_error ks c s)"
proof -
  let ?s = "handle_read_error ks c s"
  note D = server_okD [OF ok]
  define st where "st = (if srv_routeId s c \<noteq> []
    then RemoveSession ks (srv_routeId s c) (srv_sessions s, srv_net s) else (srv_sessions s, srv_net s))"
  have s': "?s = s\<lparr>srv_sessions := fst st, srv_net := conn_Close c (snd st),
      srv_currentConnections := srv_currentConnections s - 1,
      srv_running := (srv_running s)(c := False)\<rparr>"
    by (simp add: handle_read_error_def st_def Let_def split: prod.split)
  have st_ok: "sessions_ok (fst st)"
    unfolding st_def RemoveSession_def using D(1) sessions_ok_Remove [of "(srv_sessions s, srv_net s)"]
    by simp
  have st_sub: "fst st k = Some t \<Longrightarrow> srv_sessions s k = Some t" for k t
    by (auto simp: st_def RemoveSession_def RemoveSessions_map split: if_splits)
  have st_closed: "net_closed (srv_net s) d \<Longrightarrow> net_closed (snd st) d" for d
    by (auto simp: st_def RemoveSession_def RemoveSessions_closed)
  have set: "{d. srv_running s d} = insert c {d. d \<noteq> c \<and> srv_running s d}"
    using run by auto
  have "card {d. srv_running s d} = Suc (card {d. d \<noteq> c \<and> srv_running s d})"
    using finite_running [OF ok] unfolding set by (subst card_insert_disjoint) auto
  then have card: "srv_currentConnections s - 1 = of_nat (card {d. d \<noteq> c \<and> srv_running s d})"
    by (simp add: D(7))
  have closed: "\<forall>d \<in> set (srv_accepted s). \<not> srv_running ?s d \<longrightarrow> net_closed (srv_net ?s) d"
    using D(5) st_closed by (auto simp: s' split: if_splits)
  have conns: "\<forall>k t. fst st k = Some t \<longrightarrow> sess_Conn t \<in> set (srv_accepted s)"
    using st_sub D(3) by blast
  have running: "\<forall>d. srv_running ?s d \<longrightarrow> d \<in> set (srv_accepted s)"
    "{d. srv_running ?s d} = {d. d \<noteq> c \<and> srv_running s d}"
    using D(4) by (auto simp: s' split: if_splits)
  show ?thesis
    unfolding server_ok_def running(2)
    using closed running(1) by (simp add: s' st_ok conns card D(1,2,6,8,9))
qed

lemma server_ok_step: "server_step s e s' \<Longrightarrow> server_ok s \<Longrightarrow> server_ok s'"
proof (induction rule: server_step.induct)
  case (accept c s addr)
  note D = server_okD [OF accept(3)]
  let ?s = "accept_conn c addr s"
  have c: "\<not> srv_running s c" using accept(1) D(4) by blast
  have running: "{d. srv_running ?s d} = insert c {d. srv_running s d}"
    by (auto simp: accept_conn_def)
  have "card {d. srv_running ?s d} = Suc (card {d. srv_running s d})"
    unfolding running using c finite_running [OF accept(3)] by simp
  then have "srv_currentConnections ?s = of_nat (card {d. srv_running ?s d})"
    by (simp add: accept_conn_def D(7))
  moreover have "\<forall>k t. srv_sessions ?s k = Some t \<longrightarrow> sess_Conn t \<in> set (srv_accepted ?s)"
    "\<forall>d. srv_running ?s d \<longrightarrow> d \<in> set (srv_accepted ?s)"
    "\<forall>d \<in> set (srv_accepted ?s). \<not> srv_running ?s d \<longrightarrow> net_closed (srv_net ?s) d"
    using D(3-5) by (auto simp: accept_conn_def)
  moreover have "sessions_ok (srv_sessions ?s)" "distinct (srv_accepted ?s)"
    "dom (srv_debugResults ?s) \<subseteq> set (srv_timers ?s)" "srv_listening ?s \<longrightarrow> \<not> srv_shutdown ?s"
    "srv_totalConnections ?s = of_nat (length (srv_accepted ?s))"
    using D accept(1) by (auto simp: accept_conn_def)
  ultimately show ?case unfolding server_ok_def by blast
next
  case (turn s c s' ks now res)
  then show ?case
    by (cases res) (auto simp: handleConn_turn_def server_ok_payload server_ok_read_error)
next
  case (collect s ks now)
  then show ?case by (simp add: server_ok_def checkHeartbeat_collect_def)
next
  case (remove s offline s' ks)
  note D = server_okD [OF remove(4)]
  define st where "st = remove_offline ks offline (srv_sessions s, srv_net s)"
  have s': "s' = s\<lparr>srv_sessions := fst st, srv_net := snd st, srv_offline := None\<rparr>"
    using remove(2) by (simp add: checkHeartbeat_remove_def st_def split: prod.split)
  have "sessions_ok (fst st)"
    using D(1) sessions_ok_Remove [of "(srv_sessions s, srv_net s)"]
    by (simp add: st_def remove_offline_def)
  moreover have "\<forall>k t. fst st k = Some t \<longrightarrow> sess_Conn t \<in> set (srv_accepted s)"
    using D(3) by (auto simp: st_def remove_offline_def RemoveSessions_map split: if_splits)
  moreover have "\<forall>d \<in> set (srv_accepted s). \<not> srv_running s d \<longrightarrow> net_closed (snd st) d"
    using D(5) by (auto simp: st_def remove_offline_def RemoveSessions_closed)
  ultimately show ?case unfolding server_ok_def using D by (simp add: s')
next
  case (expire uid s)
  note D = server_okD [OF expire(2)]
  have "dom (srv_debugResults s) - {uid} \<subseteq> set (remove1 uid (srv_timers s))"
  proof
    fix x
    assume x: "x \<in> dom (srv_debugResults s) - {uid}"
    then have "x \<in> set (srv_timers s)" using D(8) by blast
    with x show "x \<in> set (remove1 uid (srv_timers s))" by simp
  qed
  then show ?case
    unfolding server_ok_def using D by (simp add: expire_debug_def)
next
  case (shutdown s)
  then show ?case by (auto simp: server_ok_def Shutdown_def)
qed

lemma server_ok_run: "server_run s es s' \<Longrightarrow> server_ok s \<Longrightarrow> server_ok s'"
  by (induction rule: server_run.induct) (auto dest: server_ok_step)


section \<open>Sending between nodes\<close>

text \<open>What the receiver of a connection sees: the frames of the bytes written to it.\<close>

definition received :: "network \<Rightarrow> conn \<Rightarrow> RouteMessage list" where
  "received net c =
     List.map_filter
       (\<lambda>p. case DecodeRouteMessagePayload p of Inr m \<Rightarrow> Some m | Inl _ \<Rightarrow> None)
       (fst (read_frames (Suc (length (net_out net c))) (net_out net c)))"

definition sendable :: "RouteMessage \<Rightarrow> bool" where
  "sendable m \<longleftrightarrow> int (length (payload_of m)) \<le> MaxFrameSize"

lemma sendable_fits: "sendable m \<Longrightarrow> fits_int32 m"
  by (auto simp: sendable_def fits_int32_def length_payload_of MaxFrameSize_def split: option.splits)

lemma as_received_idem [simp]: "as_received (as_received m) = as_received m"
  using RouteMessageTypeFromOrdinal_idem
  by (auto simp: as_received_def known_type_def split: option.splits)

lemma payload_of_as_received_length [simp]:
  "length (payload_of (as_received m)) = length (payload_of m)"
  by (simp add: length_payload_of as_received_def)

text \<open>
  A session ends only with a connection whose last message named its id, which need not be the
  session's own, or by the heartbeat loop.
\<close>

definition ends_session :: "server \<Rightarrow> gostring \<Rightarrow> server_event \<Rightarrow> bool" where
  "ends_session s k e =
     (case e of
        Turn c (Inl _) _ \<Rightarrow> srv_routeId s c = k \<and> k \<noteq> []
      | RemoveOffline \<Rightarrow> (case srv_offline s of Some offline \<Rightarrow> k \<in> set offline | None \<Rightarrow> False)
      | _ \<Rightarrow> False)"

lemma Upsert_owner:
  assumes "sessions_ok m" "m k = Some t"
  shows "\<exists>t'. snd (UpsertSession net m k' new now) k = Some t' \<and> sess_Conn t' = sess_Conn t"
proof -
  let ?st = "(m, net)"
  have "\<exists>t'. GetSession (fst (snd (upsert_state ?st k' new now))) k = Some t' \<and> sess_Conn t' = sess_Conn t"
  proof (cases "k = k'")
    case True
    then show ?thesis using registry.upsert_taken [of ?st k t new now] assms by (simp add: GetSession_def)
  next
    case False
    then show ?thesis using registry.upsert_other [of k k' ?st new now] assms by (simp add: GetSession_def)
  qed
  then show ?thesis by (simp add: upsert_state_def GetSession_def split: prod.splits)
qed

lemma owner_step:
  assumes "server_step s e s'" "sessions_ok (srv_sessions s)" "srv_sessions s k = Some t"
    and "\<not> ends_session s k e"
  shows "\<exists>t'. srv_sessions s' k = Some t' \<and> sess_Conn t' = sess_Conn t"
  using assms
proof (induction rule: server_step.induct)
  case (turn s c s' ks now res)
  show ?case
  proof (cases res)
    case (Inl err)
    with turn show ?thesis
      by (auto simp: handleConn_turn_def handle_read_error_def RemoveSession_def ends_session_def Let_def
          RemoveSessions_map dest!: arg_cong [of _ _ fst] split: prod.splits)
  next
    case (Inr payload)
    then have s': "s' = handle_payload ks now c payload s"
      using turn(2) by (simp add: handleConn_turn_def)
    show ?thesis
      using handle_payload_sessions [of ks now c payload s] turn(5)
        Upsert_owner [OF turn(4) turn(5)] unfolding s' by metis
  qed
next
  case (remove s offline s' ks)
  then show ?case
    by (auto simp: checkHeartbeat_remove_def remove_offline_def ends_session_def
        RemoveSessions_map dest!: arg_cong [of _ _ fst] split: prod.splits if_splits)
qed (auto simp: accept_conn_def checkHeartbeat_collect_def expire_debug_def Shutdown_def)

text \<open>
  What a connection that is served named last changes only by a message read from it; a new
  connection has named nothing.
\<close>

lemma handle_payload_routeId:
  assumes "srv_routeId (handle_payload ks now c payload s) d = k" "srv_routeId s d \<noteq> k"
  shows "d = c \<and> (\<exists>msg. DecodeRouteMessagePayload payload = Inr msg \<and> MessageType msg \<noteq> None \<and>
    FromRouteId msg = k)"
proof (cases "DecodeRouteMessagePayload payload")
  case (Inl err)
  with assms show ?thesis by (simp add: handle_payload_def Let_def)
next
  case (Inr msg)
  with assms show ?thesis
    by (auto simp: handle_payload_def Let_def frame_rules split: option.splits if_splits)
qed

lemma handle_payload_running: "srv_running (handle_payload ks now c payload s) = srv_running s"
  using handle_payload_frame [of s ks now c payload] by (simp add: same_control_def)

lemma routeId_step:
  assumes "server_step s e s'" "srv_running s' d" "srv_routeId s' d = k" "k \<noteq> []"
  shows "srv_running s d \<and> srv_routeId s d = k \<or> (\<exists>payload now msg. e = Turn d (Inr payload) now \<and>
    DecodeRouteMessagePayload payload = Inr msg \<and> MessageType msg \<noteq> None \<and> FromRouteId msg = k)"
  using assms
proof (induction rule: server_step.induct)
  case (turn s c s' ks now res)
  show ?case
  proof (cases res)
    case (Inl err)
    with turn show ?thesis
      by (auto simp: handleConn_turn_def handle_read_error_def Let_def split: if_splits prod.splits)
  next
    case (Inr payload)
    then have "s' = handle_payload ks now c payload s"
      using turn.hyps by (simp add: handleConn_turn_def)
    with turn.prems handle_payload_routeId [of ks now c payload s d k] Inr show ?thesis
      by (auto simp: handle_payload_running)
  qed
qed (auto simp: accept_conn_def checkHeartbeat_collect_def checkHeartbeat_remove_def expire_debug_def Shutdown_def
    split: if_splits prod.splits)

end
