(* ===== verification/ServerProps.thy ===== *)
theory ServerProps
  imports RouterServer
begin

text \<open>
  What the router promises its nodes: registration, the route table, forwarding, the notice of
  a node's end, and where it fails to. The properties are about one turn of a connection's
  loop or about whole runs of \<open>server_step\<close>.
\<close>

section \<open>A turn that decodes\<close>

text \<open>The counters and the connection's id, before the message is handled.\<close>

definition noted :: "int \<Rightarrow> conn \<Rightarrow> byte list \<Rightarrow> RouteMessage \<Rightarrow> server \<Rightarrow> server" where
  "noted now c payload msg s =
     s\<lparr>srv_totalRequests := srv_totalRequests s + 1,
       srv_requestHits := recordRequestHit now (srv_requestHits s),
       srv_totalBytes := srv_totalBytes s + of_nat (length payload),
       srv_routeId := (if FromRouteId msg \<noteq> [] then (srv_routeId s)(c := FromRouteId msg)
                       else srv_routeId s)\<rparr>"

lemma noted_simps [simp]:
  "srv_sessions (noted now c payload msg s) = srv_sessions s"
  "srv_net (noted now c payload msg s) = srv_net s"
  "srv_running (noted now c payload msg s) = srv_running s"
  "srv_debugResults (noted now c payload msg s) = srv_debugResults s"
  "srv_timers (noted now c payload msg s) = srv_timers s"
  "srv_rpcStats (noted now c payload msg s) = srv_rpcStats s"
  "srv_routeId (noted now c payload msg s) =
     (if FromRouteId msg \<noteq> [] then (srv_routeId s)(c := FromRouteId msg) else srv_routeId s)"
  by (simp_all add: noted_def)

lemma turn_decoded:
  assumes "DecodeRouteMessagePayload payload = Inr msg" "MessageType msg = Some t"
  shows "handleConn_turn ks now c (Inr payload) s =
    handleRouteMessage ks now msg t c (noted now c payload msg s)"
proof -
  have "noted now c payload msg s =
      (let s1 = s\<lparr>srv_totalRequests := srv_totalRequests s + 1,
                 srv_requestHits := recordRequestHit now (srv_requestHits s),
                 srv_totalBytes := srv_totalBytes s + of_nat (length payload)\<rparr> in
       if FromRouteId msg \<noteq> [] then s1\<lparr>srv_routeId := (srv_routeId s1)(c := FromRouteId msg)\<rparr> else s1)"
    by (simp add: noted_def)
  then show ?thesis
    by (simp add: handleConn_turn_def handle_payload_def assms Let_def)
qed

lemmas turn_defs = turn_decoded handleRouteMessage_def message_types

section \<open>Frames a receiver gets\<close>

definition carries :: "network \<Rightarrow> conn \<Rightarrow> RouteMessage list \<Rightarrow> bool" where
  "carries net c ms \<longleftrightarrow> net_out net c = concat (List.map wire ms) \<and> list_all sendable ms"

lemma length_concat_wire: "length ms \<le> length (concat (List.map wire ms))"
  by (induction ms) (auto simp: wire_def EncodeFrame_def)

lemma received_carries: "carries net c ms \<Longrightarrow> received net c = List.map as_received ms"
proof -
  assume net: "carries net c ms"
  then have out: "net_out net c = concat (List.map EncodeFrame (List.map payload_of ms))"
    and ok: "list_all sendable ms"
    by (simp_all add: carries_def wire_def [abs_def] comp_def)
  have "length ms \<le> length (net_out net c)"
    using net length_concat_wire by (simp add: carries_def)
  then have "fst (read_frames (Suc (length (net_out net c))) (net_out net c)) = List.map payload_of ms"
    unfolding out by (subst read_frames_all) (use ok in \<open>auto simp: list_all_iff sendable_def comp_def\<close>)
  then have "received net c = List.map_filter
      (\<lambda>p. case DecodeRouteMessagePayload p of Inr m \<Rightarrow> Some m | Inl _ \<Rightarrow> None) (List.map payload_of ms)"
    by (simp add: received_def)
  also have "\<dots> = List.map as_received ms"
    using ok by (induction ms) (simp_all add: List.map_filter_simps Decode_payload_of sendable_fits)
  finally show ?thesis .
qed

section \<open>Runs\<close>

text \<open>
  C1: in every state the router can reach, whatever its clients send and in whatever order the
  goroutines run, each session stands under its own id, is active and belongs to an accepted
  connection; a connection whose goroutine has ended is closed; \<open>currentConnections\<close> is the
  number of running goroutines and \<open>totalConnections\<close> the number of connections accepted; and
  every stored debug result has a timer that will delete it.
\<close>

theorem server_invariant:
  assumes "server_run NewServer es s"
  shows "(\<forall>k t. srv_sessions s k = Some t \<longrightarrow>
           sess_RouterId t = k \<and> IsActive t \<and> sess_Conn t \<in> set (srv_accepted s)) \<and>
         (\<forall>c \<in> set (srv_accepted s). srv_running s c \<or> net_closed (srv_net s) c) \<and>
         srv_currentConnections s = of_nat (card {c. srv_running s c}) \<and>
         srv_totalConnections s = of_nat (length (srv_accepted s)) \<and>
         dom (srv_debugResults s) \<subseteq> set (srv_timers s)"
  using server_okD [OF server_ok_run [OF assms server_ok_NewServer]]
  by (blast dest: sessions_okD)

theorem server_invariant_witness:
  "srv_currentConnections (accept_conn 7 ''10.0.0.1:80'' NewServer) =
     of_nat (card {c. srv_running (accept_conn 7 ''10.0.0.1:80'' NewServer) c})"
proof -
  have "server_run NewServer [Accept 7 ''10.0.0.1:80''] (accept_conn 7 ''10.0.0.1:80'' NewServer)"
    by (simp add: NewServer_def)
  from server_invariant [OF this] show ?thesis by blast
qed

section \<open>Heartbeats\<close>

text \<open>A heartbeat of node \<open>k\<close> that says \<open>info\<close>.\<close>

definition says_hello :: "byte list \<Rightarrow> gostring \<Rightarrow> RpcServerInfo \<Rightarrow> RouteMessage \<Rightarrow> bool" where
  "says_hello payload k info msg \<longleftrightarrow>
     DecodeRouteMessagePayload payload = Inr msg \<and> FromRouteId msg = k \<and>
     MessageType msg = Some RouteMessageTypeHeartBeat \<and>
     (\<exists>d. Data msg = Some d \<and> Unmarshal decode_RpcServerInfo zero_RpcServerInfo d = (info, True))"

lemma says_hello_ok: "says_hello payload k info msg \<Longrightarrow> RpcServerInfo_ok info"
  by (auto simp: says_hello_def) (metis fst_conv Unmarshal_RpcServerInfo_ok)

lemma heartbeat_turn:
  assumes "says_hello payload k info msg"
  shows "handleConn_turn ks now c (Inr payload) s =
    (let s1 = noted now c payload msg s; new = NewRouterSession k c info now in
     case UpsertSession (srv_net s) (srv_sessions s) k new now of
       (Inl err, m) \<Rightarrow>
         s1\<lparr>srv_sessions := m, srv_net := conn_Close c
             (snd (WriteRouteMessage new (conflict_message msg err) (srv_net s)))\<rparr>
     | (Inr session, m) \<Rightarrow>
         s1\<lparr>srv_sessions := m, srv_net := snd (WriteRouteMessage session
             (route_table_message msg (GetAllRouteNodeList ks m)) (srv_net s))\<rparr>)"
  using assms
  by (auto simp: says_hello_def turn_decoded handleRouteMessage_def handleHeartBeat_def Let_def
      split: prod.splits sum.splits)

lemma heartbeat_new:
  assumes "says_hello payload k info msg" "srv_sessions s k = None"
  shows "handleConn_turn ks now c (Inr payload) s =
    (noted now c payload msg s)
      \<lparr>srv_sessions := (srv_sessions s)(k \<mapsto> NewRouterSession k c info now),
       srv_net := snd (conn_Write c (wire (route_table_message msg (GetAllRouteNodeList ks
           ((srv_sessions s)(k \<mapsto> NewRouterSession k c info now))))) (srv_net s))\<rparr>"
  by (simp add: heartbeat_turn [OF assms(1)] UpsertSession_def assms(2) WriteRouteMessage_wire Let_def)

definition conflict_reply :: "gostring \<Rightarrow> RouteMessage" where
  "conflict_reply k =
     \<lparr>FromRouteId = ''server'', ToRouteId = k, MessageType = Some RouteMessageTypeSystemError,
      Data = Some (conflict_error k)\<rparr>"

lemma heartbeat_refused:
  assumes "says_hello payload k info msg" "srv_sessions s k = Some old" "IsActive old"
    and "net_addr (srv_net s) (sess_Conn old) \<noteq> net_addr (srv_net s) c"
  shows "handleConn_turn ks now c (Inr payload) s =
    (noted now c payload msg s)\<lparr>srv_net := conn_Close c (snd (conn_Write c (wire (conflict_reply k)) (srv_net s)))\<rparr>"
proof -
  have "FromRouteId msg = k" using assms(1) by (simp add: says_hello_def)
  then show ?thesis
    using assms(2-4) by (simp add: heartbeat_turn [OF assms(1)] UpsertSession_def RemoteAddrStr_def
        WriteRouteMessage_wire Let_def conflict_message_def conflict_reply_def Error_def noted_def)
qed

lemma heartbeat_again:
  assumes "says_hello payload k info msg" "srv_sessions s k = Some old" "IsActive old"
    and "net_addr (srv_net s) (sess_Conn old) = net_addr (srv_net s) c"
  shows "handleConn_turn ks now c (Inr payload) s =
    (noted now c payload msg s)
      \<lparr>srv_sessions := (srv_sessions s)(k \<mapsto> RefreshHeartbeat now old),
       srv_net := snd (conn_Write (sess_Conn old) (wire (route_table_message msg (GetAllRouteNodeList ks
           ((srv_sessions s)(k \<mapsto> RefreshHeartbeat now old))))) (srv_net s))\<rparr>"
  using assms(2-4) by (simp add: heartbeat_turn [OF assms(1)] UpsertSession_def RemoteAddrStr_def
      WriteRouteMessage_wire Let_def)

subsection \<open>The route table in the reply\<close>

definition node_of :: "RouterSession \<Rightarrow> RouteNode" where
  "node_of t = \<lparr>node_RouterId = sess_RouterId t, node_HostForRpc = info_Host (sess_RpcServerInfo t),
     node_PortForRpc = info_Port (sess_RpcServerInfo t)\<rparr>"

lemma route_node_list:
  assumes "sessions_ok m" "enumerates ks m"
  shows "List.map node_RouterId (GetAllRouteNodeList ks m) = ks"
    "set (GetAllRouteNodeList ks m) = node_of ` ran m"
    "list_all RouteNode_ok (GetAllRouteNodeList ks m)"
proof -
  have list: "GetAllRouteNodeList ks m = List.map (\<lambda>(k, t). node_of t) (range_map ks m)"
    by (simp add: GetAllRouteNodeList_def node_of_def)
  have "\<forall>(k, t) \<in> set (range_map ks m). sess_RouterId t = k"
    using sessions_okD [OF assms(1)] by auto
  then have "List.map node_RouterId (GetAllRouteNodeList ks m) = List.map fst (range_map ks m)"
    by (auto simp: list node_of_def)
  then show "List.map node_RouterId (GetAllRouteNodeList ks m) = ks"
    using range_map_enumerates(1) [OF assms(2)] by simp
  show "set (GetAllRouteNodeList ks m) = node_of ` ran m"
    using assms(2) by (force simp: list ran_def enumerates_def)
  show "list_all RouteNode_ok (GetAllRouteNodeList ks m)"
    using sessions_okD [OF assms(1)]
    by (auto simp: list list_all_iff RouteNode_ok_def node_of_def RpcServerInfo_ok_def)
qed

lemma route_table_read:
  assumes "sessions_ok m" "enumerates ks m"
  shows "Unmarshal (decode_slice decode_RouteNode) None
      (Marshal (enc_slice json_RouteNode) (Some (GetAllRouteNodeList ks m))) =
    (Some (GetAllRouteNodeList ks m), True)"
  using route_node_list(3) [OF assms] by (simp add: nodes.Unmarshal_Marshal slice_ok_def)


subsection \<open>A concrete scene\<close>

text \<open>
  Two clients connect, both configured as node n. \<open>scene1\<close>: the first has registered;
  \<open>scene2\<close>: the second was refused.
\<close>

definition scene_info :: RpcServerInfo where
  "scene_info = \<lparr>info_Host = ''h'', info_Port = 9, info_Stubs = None\<rparr>"

definition scene_hello :: "gostring \<Rightarrow> RouteMessage" where
  "scene_hello k = \<lparr>FromRouteId = k, ToRouteId = k, MessageType = Some RouteMessageTypeHeartBeat,
     Data = Some (Marshal json_RpcServerInfo scene_info)\<rparr>"

definition scene0 :: server where
  "scene0 = accept_conn 8 ''b:2'' (accept_conn 7 ''a:1'' NewServer)"

definition scene1 :: server where
  "scene1 = handleConn_turn [''n''] 5 7 (Inr (payload_of (scene_hello ''n''))) scene0"

definition scene2 :: server where
  "scene2 = handleConn_turn [''n''] 6 8 (Inr (payload_of (scene_hello ''n''))) scene1"

lemma scene_data: "Marshal json_RpcServerInfo scene_info =
    [CHR 0x7B, CHR 0x22] @ ''host'' @ [CHR 0x22, CHR 0x3A, CHR 0x22] @ ''h'' @ [CHR 0x22, CHR 0x2C, CHR 0x22] @
    ''port'' @ [CHR 0x22, CHR 0x3A] @ ''9,'' @ [CHR 0x22] @ ''stubs'' @ [CHR 0x22, CHR 0x3A] @ ''null}''"
  by code_simp

lemma scene_says_hello:
  "length k < 10 \<Longrightarrow> says_hello (payload_of (scene_hello k)) k scene_info (scene_hello k)"
proof -
  assume "length k < 10"
  then have "fits_int32 (scene_hello k)"
    by (simp add: fits_int32_def scene_hello_def scene_data)
  moreover have "as_received (scene_hello k) = scene_hello k"
    by (simp add: as_received_def scene_hello_def known_type_def RouteMessageTypeFromOrdinal_def message_types)
  moreover have "RpcServerInfo_ok scene_info"
    by (simp add: scene_info_def RpcServerInfo_ok_def int64_range_def slice_ok_def)
  ultimately show ?thesis
    using info.Unmarshal_Marshal [of scene_info zero_RpcServerInfo]
    by (simp add: says_hello_def Decode_payload_of) (simp add: scene_hello_def)
qed

lemmas scene_hello_n = scene_says_hello [of "''n''", simplified]

lemma scene0_ok: "server_ok scene0" "srv_sessions scene0 = Map.empty" "srv_running scene0 7"
  "srv_running scene0 8" "\<not> net_closed (srv_net scene0) c"
  "net_addr (srv_net scene0) 7 = ''a:1''" "net_addr (srv_net scene0) 8 = ''b:2''"
proof -
  have "server_run NewServer [Accept 7 ''a:1'', Accept 8 ''b:2''] scene0"
    by (simp add: scene0_def NewServer_def accept_conn_def)
  then show "server_ok scene0" using server_ok_run server_ok_NewServer by blast
qed (simp_all add: scene0_def NewServer_def accept_conn_def)

lemma scene1_state: "srv_sessions scene1 = [''n'' \<mapsto> NewRouterSession ''n'' 7 scene_info 5]"
  "srv_running scene1 = srv_running scene0" "net_addr (srv_net scene1) = net_addr (srv_net scene0)"
  "net_closed (srv_net scene1) = net_closed (srv_net scene0)"
  unfolding scene1_def by (subst heartbeat_new [OF scene_hello_n]; simp add: scene0_ok)+

lemma scene1_step: "server_step scene0 (Turn 7 (Inr (payload_of (scene_hello ''n''))) 5) scene1"
  by (rule server_step.turn [OF scene0_ok(3) scene1_def]) (simp add: scene1_state enumerates_def)

lemma scene1_ok: "server_ok scene1"
  using server_ok_step scene1_step scene0_ok(1) by blast

lemma scene2_eq: "scene2 = (noted 6 8 (payload_of (scene_hello ''n'')) (scene_hello ''n'') scene1)\<lparr>srv_net :=
    conn_Close 8 (snd (conn_Write 8 (wire (conflict_reply ''n'')) (srv_net scene1)))\<rparr>"
  unfolding scene2_def
  by (rule heartbeat_refused [OF scene_hello_n, where old = "NewRouterSession ''n'' 7 scene_info 5"])
    (simp_all add: scene1_state scene0_ok)

lemma scene2_step: "server_step scene1 (Turn 8 (Inr (payload_of (scene_hello ''n''))) 6) scene2"
  by (rule server_step.turn [OF _ scene2_def]) (simp_all add: scene1_state scene0_ok scene2_eq enumerates_def)

section \<open>Registration\<close>

text \<open>
  A run in which the session of an id changes its connection has a first step at which the
  session ends, and the id is held by the same connection until then.
\<close>

lemma session_kept_or_ended:
  assumes "server_run s es s'" "server_ok s" "srv_sessions s k = Some t"
  shows "(\<exists>t'. srv_sessions s' k = Some t' \<and> sess_Conn t' = sess_Conn t) \<or>
    (\<exists>es1 e es2 s1 t1. es = es1 @ e # es2 \<and> server_run s es1 s1 \<and>
       srv_sessions s1 k = Some t1 \<and> sess_Conn t1 = sess_Conn t \<and> ends_session s1 k e)"
  using assms
proof (induction arbitrary: t rule: server_run.induct)
  case (run_Cons s e s1 es s2)
  show ?case
  proof (cases "ends_session s k e")
    case True
    then show ?thesis
      using run_Cons.prems(2) by (intro disjI2 exI [of _ "[]"]) (auto intro: server_run.intros)
  next
    case False
    obtain t1 where t1: "srv_sessions s1 k = Some t1" "sess_Conn t1 = sess_Conn t"
      using owner_step [OF run_Cons.hyps(1) server_okD(1) [OF run_Cons.prems(1)] run_Cons.prems(2) False]
      by blast
    from run_Cons.IH [OF server_ok_step [OF run_Cons.hyps(1) run_Cons.prems(1)] t1(1)] show ?thesis
    proof (elim disjE exE conjE)
      fix es1 e' es2 s3 t3
      assume "es = es1 @ e' # es2" "server_run s1 es1 s3" "srv_sessions s3 k = Some t3"
        "sess_Conn t3 = sess_Conn t1" "ends_session s3 k e'"
      then show ?thesis
        using run_Cons.hyps(1) t1(2)
        by (intro disjI2 exI [of _ "e # es1"]) (auto intro: server_run.intros)
    qed (use t1(2) in auto)
  qed
qed auto

text \<open>
  C7: no message can take an id from the connection that registered it. Along every run the
  session keeps its connection, unless at some step, with the id still on that connection, the
  router either lost a connection whose last message named the id, or removed the id in the
  heartbeat loop, which had listed it. That the lost connection need not be the session's own
  is how the code behaves (\<open>conflict_evicts_owner\<close> below).
\<close>

theorem owner_exclusive:
  assumes "server_run s es s'" "server_ok s" "srv_sessions s k = Some t"
  shows "(\<exists>t'. srv_sessions s' k = Some t' \<and> sess_Conn t' = sess_Conn t) \<or>
    (\<exists>es1 e es2 s1 t1. es = es1 @ e # es2 \<and> server_run s es1 s1 \<and>
       srv_sessions s1 k = Some t1 \<and> sess_Conn t1 = sess_Conn t \<and>
       ((\<exists>c err now. e = Turn c (Inl err) now \<and> srv_routeId s1 c = k \<and> k \<noteq> []) \<or>
        (e = RemoveOffline \<and> (\<exists>offline. srv_offline s1 = Some offline \<and> k \<in> set offline))))"
proof -
  have "ends_session s1 k e \<longleftrightarrow> (\<exists>c err now. e = Turn c (Inl err) now \<and> srv_routeId s1 c = k \<and> k \<noteq> []) \<or>
      (e = RemoveOffline \<and> (\<exists>offline. srv_offline s1 = Some offline \<and> k \<in> set offline))" for s1 e
    by (auto simp: ends_session_def split: server_event.splits sum.splits option.splits)
  with session_kept_or_ended [OF assms] show ?thesis by simp
qed

theorem owner_exclusive_witness:
  "\<exists>t. srv_sessions scene2 ''n'' = Some t \<and> sess_Conn t = 7"
proof -
  have run: "server_run scene1 [Turn 8 (Inr (payload_of (scene_hello ''n''))) 6] scene2"
    using scene2_step by (auto intro: server_run.intros)
  have "srv_sessions scene1 ''n'' = Some (NewRouterSession ''n'' 7 scene_info 5)"
    by (simp add: scene1_state)
  from owner_exclusive [OF run scene1_ok this] show ?thesis by (auto simp: Cons_eq_append_conv)
qed

text \<open>
  C11: a heartbeat of an id that nobody holds registers the connection with what it said, and
  answers on that connection with one frame: the route table, which decodes to exactly one
  node per live session, the new one included.
\<close>

theorem heartbeat_registers:
  assumes "server_ok s" "says_hello payload k info msg" "srv_sessions s k = None"
    and "s' = handleConn_turn ks now c (Inr payload) s" "enumerates ks (srv_sessions s')"
    and "\<not> net_closed (srv_net s) c"
  shows "srv_sessions s' = (srv_sessions s)(k \<mapsto> NewRouterSession k c info now) \<and>
    (\<exists>reply d nodes.
       net_out (srv_net s') = (net_out (srv_net s))(c := net_out (srv_net s) c @ wire reply) \<and>
       ToRouteId reply = k \<and> MessageType reply = Some RouteMessageTypeHeartBeat \<and>
       Data reply = Some d \<and> Unmarshal (decode_slice decode_RouteNode) None d = (Some nodes, True) \<and>
       distinct (List.map node_RouterId nodes) \<and> set nodes = node_of ` ran (srv_sessions s'))"
proof -
  have m: "srv_sessions s' = (srv_sessions s)(k \<mapsto> NewRouterSession k c info now)"
    by (simp add: assms(4) heartbeat_new [OF assms(2,3)])
  have ok: "sessions_ok (srv_sessions s')"
    using says_hello_ok [OF assms(2)] server_okD(1) [OF assms(1)] by (simp add: m sessions_ok_update)
  let ?nodes = "GetAllRouteNodeList ks (srv_sessions s')"
  have "net_out (srv_net s') =
      (net_out (srv_net s))(c := net_out (srv_net s) c @ wire (route_table_message msg ?nodes))"
    using assms(6) unfolding m
    by (simp add: assms(4) heartbeat_new [OF assms(2,3)] fun_eq_iff conn_Write_out)
  moreover have "ToRouteId (route_table_message msg ?nodes) = k \<and>
      MessageType (route_table_message msg ?nodes) = Some RouteMessageTypeHeartBeat"
    using assms(2) by (simp add: route_table_message_def says_hello_def)
  moreover have "Data (route_table_message msg ?nodes) =
      Some (Marshal (enc_slice json_RouteNode) (Some ?nodes))"
    by (simp add: route_table_message_def)
  moreover have "distinct (List.map node_RouterId ?nodes)"
    using assms(5) by (simp add: route_node_list(1) [OF ok assms(5)] enumerates_def)
  ultimately show ?thesis
    using m route_table_read [OF ok assms(5)] route_node_list(2) [OF ok assms(5)] by blast
qed

theorem heartbeat_registers_witness:
  "srv_sessions scene1 = [''n'' \<mapsto> NewRouterSession ''n'' 7 scene_info 5]"
proof -
  have "enumerates [''n''] (srv_sessions scene1)" by (simp add: scene1_state enumerates_def)
  from heartbeat_registers [OF scene0_ok(1) scene_hello_n _ scene1_def this] show ?thesis
    by (simp add: scene0_ok)
qed


text \<open>
  C12: a heartbeat of an id that another address holds is refused: the table does not change,
  the client is sent one system error that names the conflict, and its connection is closed;
  the holder's connection is not touched.
\<close>

theorem heartbeat_conflict:
  assumes "server_ok s" "says_hello payload k info msg" "srv_sessions s k = Some old"
    and "net_addr (srv_net s) (sess_Conn old) \<noteq> net_addr (srv_net s) c"
    and "s' = handleConn_turn ks now c (Inr payload) s" "\<not> net_closed (srv_net s) c"
  shows "srv_sessions s' = srv_sessions s \<and>
    net_out (srv_net s') = (net_out (srv_net s))(c := net_out (srv_net s) c @ wire (conflict_reply k)) \<and>
    net_closed (srv_net s') = (net_closed (srv_net s))(c := True)"
proof -
  have "IsActive old"
    using sessions_okD [OF server_okD(1) [OF assms(1)] assms(3)] by blast
  then show ?thesis
    using assms(6)
    by (simp add: assms(5) heartbeat_refused [OF assms(2,3) _ assms(4)] fun_eq_iff conn_Write_out)
qed

theorem heartbeat_conflict_witness:
  "srv_sessions scene2 = srv_sessions scene1 \<and> net_closed (srv_net scene2) 8 \<and>
   \<not> net_closed (srv_net scene2) 7"
proof -
  have "srv_sessions scene1 ''n'' = Some (NewRouterSession ''n'' 7 scene_info 5)"
    by (simp add: scene1_state)
  from heartbeat_conflict [OF scene1_ok scene_hello_n this _ scene2_def] show ?thesis
    by (simp add: scene1_state scene0_ok)
qed

text \<open>The end of a connection, with what it does to the table and the network.\<close>

lemma read_error_turn:
  assumes "srv_routeId s c = k" "k \<noteq> []"
  shows "srv_sessions (handleConn_turn ks now c (Inl err) s) = (srv_sessions s)(k := None)"
    "net_closed (srv_net (handleConn_turn ks now c (Inl err) s)) d \<longleftrightarrow>
       net_closed (srv_net s) d \<or> d = c \<or> (\<exists>t. srv_sessions s k = Some t \<and> sess_Conn t = d)"
    "net_out (srv_net (handleConn_turn ks now c (Inl err) s)) d = net_out (srv_net s) d @
       (case srv_sessions s k of
          None \<Rightarrow> []
        | Some t \<Rightarrow>
            if net_closed (srv_net s) d \<or> d = sess_Conn t then []
            else concat (List.map (\<lambda>u. wire (remove_message [k] u))
              (filter (\<lambda>u. sess_Conn u = d) (List.map snd (range_map ks ((srv_sessions s)(k := None)))))))"
proof -
  have upd: "(\<lambda>j. if j = k then None else srv_sessions s j) = (srv_sessions s)(k := None)"
    by (simp add: fun_eq_iff)
  obtain m net where st: "RemoveSessions ks [k] (srv_sessions s, srv_net s) = (m, net)" by force
  have m: "m = (srv_sessions s)(k := None)"
    using RemoveSessions_map [of ks "[k]" "(srv_sessions s, srv_net s)"]
    unfolding st fst_conv list.set insert_iff empty_iff simp_thms upd .
  have turn: "handleConn_turn ks now c (Inl err) s = s\<lparr>srv_sessions := m, srv_net := conn_Close c net,
      srv_currentConnections := srv_currentConnections s - 1,
      srv_running := (srv_running s)(c := False)\<rparr>"
    using assms by (simp add: handleConn_turn_def handle_read_error_def RemoveSession_def st)
  show "srv_sessions (handleConn_turn ks now c (Inl err) s) = (srv_sessions s)(k := None)"
    by (simp add: turn m)
  show "net_closed (srv_net (handleConn_turn ks now c (Inl err) s)) d \<longleftrightarrow>
       net_closed (srv_net s) d \<or> d = c \<or> (\<exists>t. srv_sessions s k = Some t \<and> sess_Conn t = d)"
    using RemoveSessions_closed [of ks "[k]" "(srv_sessions s, srv_net s)" d]
    by (auto simp: turn st closed_by_remove_def)
  show "net_out (srv_net (handleConn_turn ks now c (Inl err) s)) d = net_out (srv_net s) d @
       (case srv_sessions s k of
          None \<Rightarrow> []
        | Some t \<Rightarrow>
            if net_closed (srv_net s) d \<or> d = sess_Conn t then []
            else concat (List.map (\<lambda>u. wire (remove_message [k] u))
              (filter (\<lambda>u. sess_Conn u = d) (List.map snd (range_map ks ((srv_sessions s)(k := None)))))))"
    using RemoveSessions_out [of ks "[k]" "(srv_sessions s, srv_net s)" d]
    unfolding st fst_conv snd_conv list.set insert_iff empty_iff simp_thms upd
    by (auto simp: turn closed_by_remove_def upd split: option.splits)
qed

lemma unnotified:
  assumes "enumerates ks (m(k := None))" "\<forall>i v. m i = Some v \<and> sess_Conn v = d \<longrightarrow> i = k"
  shows "filter (\<lambda>v. sess_Conn v = d) (List.map snd (range_map ks (m(k := None)))) = []"
  using assms(2) range_map_enumerates(3) [OF assms(1)]
  by (fastforce simp: filter_empty_conv simp del: set_range_map split: if_splits)

text \<open>The only session on its connection gets one notice.\<close>

lemma notified_once:
  assumes "enumerates ks (m(k := None))" "m j = Some u" "j \<noteq> k"
    and "\<And>i v. m i = Some v \<Longrightarrow> sess_Conn v = sess_Conn u \<Longrightarrow> i = j"
  shows "filter (\<lambda>v. sess_Conn v = sess_Conn u) (List.map snd (range_map ks (m(k := None)))) = [u]"
proof -
  let ?on = "filter (\<lambda>p. sess_Conn (snd p) = sess_Conn u) (range_map ks (m(k := None)))"
  have "distinct ?on"
    using range_map_enumerates(2) [OF assms(1)] by simp
  moreover have "(i, v) \<in> set ?on \<longleftrightarrow> (i, v) = (j, u)" for i v
    using assms(2,3) assms(4) [of i v] range_map_enumerates(3) [OF assms(1), of i v]
    by (auto simp del: set_range_map)
  then have "set ?on = {(j, u)}"
    by (intro set_eqI) (metis singleton_iff surj_pair)
  ultimately have "?on = [(j, u)]" by (rule distinct_singleton)
  then have "List.map snd ?on = [u]" by simp
  then show ?thesis by (simp add: filter_map comp_def)
qed



text \<open>\<open>scene3\<close>: the second client joins as node m instead.\<close>

definition scene3 :: server where
  "scene3 = handleConn_turn [''n'', ''m''] 6 8 (Inr (payload_of (scene_hello ''m''))) scene1"

lemma scene3_state:
  "srv_sessions scene3 = [''n'' \<mapsto> NewRouterSession ''n'' 7 scene_info 5,
     ''m'' \<mapsto> NewRouterSession ''m'' 8 scene_info 6]"
  "net_closed (srv_net scene3) = net_closed (srv_net scene0)"
  "srv_running scene3 = srv_running scene0"
  "net_addr (srv_net scene3) = net_addr (srv_net scene0)"
  unfolding scene3_def
  by (subst heartbeat_new [OF scene_says_hello]; simp add: scene1_state; fail)+

lemma scene_routeIds: "srv_routeId scene1 7 = ''n''" "srv_routeId scene3 7 = ''n''"
proof -
  have n: "srv_routeId scene1 = (srv_routeId scene0)(7 := ''n'')"
    unfolding scene1_def by (subst heartbeat_new [OF scene_hello_n]) (simp_all add: scene0_ok scene_hello_def)
  then show "srv_routeId scene1 7 = ''n''" by simp
  have "srv_routeId scene3 = (srv_routeId scene1)(8 := ''m'')"
    unfolding scene3_def
    by (subst heartbeat_new [OF scene_says_hello]) (simp_all add: scene1_state scene_hello_def)
  with n show "srv_routeId scene3 7 = ''n''" by simp
qed

lemma scene3_ok: "server_ok scene3"
proof -
  have "server_step scene1 (Turn 8 (Inr (payload_of (scene_hello ''m''))) 6) scene3"
    by (rule server_step.turn [OF _ scene3_def]) (auto simp: scene1_state scene0_ok scene3_state enumerates_def)
  then show ?thesis using server_ok_step scene1_ok by blast
qed


text \<open>
  A refused client evicts the holder of the id. After the refusal of \<open>heartbeat_conflict\<close>
  the router closes the connection, its next read fails, and the loop removes the session of
  the id the connection last spoke under: the holder's session is gone and its connection is
  closed, although the holder did nothing.
\<close>

theorem conflict_evicts_owner:
  assumes "server_ok s" "says_hello payload k info msg" "k \<noteq> []" "srv_sessions s k = Some old"
    and "net_addr (srv_net s) (sess_Conn old) \<noteq> net_addr (srv_net s) c"
    and "s1 = handleConn_turn ks now c (Inr payload) s"
    and "s2 = handleConn_turn ks' now' c (Inl err) s1"
  shows "srv_sessions s1 k = Some old \<and> srv_sessions s2 k = None \<and>
         net_closed (srv_net s2) (sess_Conn old)"
proof -
  have active: "IsActive old"
    using sessions_okD [OF server_okD(1) [OF assms(1)] assms(4)] by blast
  note refused = heartbeat_refused [OF assms(2,4) active assms(5), of ks now, folded assms(6)]
  have "srv_routeId s1 c = k" using assms(2,3) by (simp add: refused says_hello_def)
  note gone = read_error_turn [OF this assms(3), of ks' now' err, folded assms(7)]
  have "srv_sessions s1 k = Some old" by (simp add: refused assms(4))
  then show ?thesis using gone(1,2) by simp
qed

theorem conflict_evicts_owner_witness:
  "srv_sessions (handleConn_turn [] 7 8 (Inl EOF) scene2) ''n'' = None \<and>
   net_closed (srv_net (handleConn_turn [] 7 8 (Inl EOF) scene2)) 7"
proof -
  have "srv_sessions scene1 ''n'' = Some (NewRouterSession ''n'' 7 scene_info 5)"
    by (simp add: scene1_state)
  from conflict_evicts_owner [OF scene1_ok scene_hello_n _ this _ scene2_def refl, of "[]" 7 EOF]
  show ?thesis by (simp add: scene1_state scene0_ok)
qed

end
