(* ===== verification/ServerRouting.thy ===== *)
theory ServerRouting
  imports ServerProps
begin

text \<open>
  Forwarding between nodes, the heartbeat loop and the debug results of the router.
\<close>

section \<open>Forwarding\<close>

text \<open>The messages the router passes on, and where to.\<close>

definition forwarded :: "RouteMessage \<Rightarrow> bool" where
  "forwarded msg \<longleftrightarrow>
     MessageType msg = Some RouteMessageTypeMessageData \<or>
     MessageType msg = Some RouteMessageTypeRpcRequest \<or>
     MessageType msg = Some RouteMessageTypeRpcResponse \<and> ToRouteId msg \<noteq> ''debug-admin''"

definition route_target :: "server \<Rightarrow> RouteMessage \<Rightarrow> RouterSession option" where
  "route_target s msg = (if ToRouteId msg = [] then None else srv_sessions s (ToRouteId msg))"

lemma forward_turn:
  assumes "DecodeRouteMessagePayload payload = Inr msg" "forwarded msg"
  shows "srv_sessions (handleConn_turn ks now c (Inr payload) s) = srv_sessions s \<and>
    srv_net (handleConn_turn ks now c (Inr payload) s) =
      (case route_target s msg of None \<Rightarrow> srv_net s
       | Some t \<Rightarrow> snd (conn_Write (sess_Conn t) (wire msg) (srv_net s)))"
  using assms
  by (auto simp: forwarded_def turn_defs handleRpcResponse_def forwardToTarget_def route_target_def
      GetSession_def WriteRouteMessage_wire split: option.splits)

text \<open>
  C10: a data message, RPC request or RPC response is passed on to the connection of the
  session its target id names, once, as a frame that decodes to the same message, and to
  nobody else; with no such session, or none named, nothing is written. The table does not
  change and no connection is closed.
\<close>

theorem forward_exact:
  assumes "DecodeRouteMessagePayload payload = Inr msg" "forwarded msg"
    and "s' = handleConn_turn ks now c (Inr payload) s"
  shows "srv_sessions s' = srv_sessions s \<and> net_closed (srv_net s') = net_closed (srv_net s) \<and>
    (\<forall>d. net_out (srv_net s') d = net_out (srv_net s) d @
       (if (\<exists>t. route_target s msg = Some t \<and> sess_Conn t = d) \<and> \<not> net_closed (srv_net s) d
        then wire msg else [])) \<and>
    wire msg = EncodeFrame (payload_of msg) \<and> DecodeRouteMessagePayload (payload_of msg) = Inr msg"
  using forward_turn [OF assms(1,2), of ks now c s, folded assms(3)]
    Decode_payload_again [OF assms(1)]
  by (auto simp: wire_def conn_Write_out split: option.splits)

definition scene_call :: RouteMessage where
  "scene_call = \<lparr>FromRouteId = ''n'', ToRouteId = ''m'', MessageType = Some RouteMessageTypeRpcRequest,
     Data = Some ''{}''\<rparr>"

lemma scene_call_decodes: "DecodeRouteMessagePayload (payload_of scene_call) = Inr scene_call"
proof -
  have "fits_int32 scene_call" by (simp add: fits_int32_def scene_call_def)
  moreover have "as_received scene_call = scene_call"
    by (simp add: as_received_def scene_call_def known_type_def RouteMessageTypeFromOrdinal_def message_types)
  ultimately show ?thesis by (simp add: Decode_payload_of)
qed

lemma scene_call_target: "forwarded scene_call"
  "route_target scene3 scene_call = Some (NewRouterSession ''m'' 8 scene_info 6)"
  by (simp_all add: forwarded_def route_target_def scene_call_def scene3_state)

theorem forward_exact_witness:
  "net_out (srv_net (handleConn_turn [] 9 7 (Inr (payload_of scene_call)) scene3)) 8 =
     net_out (srv_net scene3) 8 @ wire scene_call"
  using forward_exact [OF scene_call_decodes scene_call_target(1) refl, of "[]" 9 7 scene3]
  by (simp add: scene_call_target(2) scene3_state scene0_ok)

text \<open>
  End to end, framing included: when the bytes the router wrote to the target so far are
  whole frames of messages, a client that reads the connection receives, after what it
  received before, the forwarded message, for every frame the router accepts.
\<close>

theorem forward_received:
  assumes "DecodeRouteMessagePayload payload = Inr msg" "forwarded msg"
    and "int (length payload) \<le> MaxFrameSize"
    and "route_target s msg = Some t" "\<not> net_closed (srv_net s) (sess_Conn t)"
    and "carries (srv_net s) (sess_Conn t) ms"
  shows "received (srv_net (handleConn_turn ks now c (Inr payload) s)) (sess_Conn t) =
    received (srv_net s) (sess_Conn t) @ [msg]"
proof -
  have "sendable msg"
    using Decode_fits [OF assms(1)] assms(3) by (simp add: sendable_def)
  then have "carries (srv_net (handleConn_turn ks now c (Inr payload) s)) (sess_Conn t) (ms @ [msg])"
    using forward_turn [OF assms(1,2), of ks now c s] assms(4-6)
    by (simp add: carries_def conn_Write_out)
  then show ?thesis
    using received_carries [OF assms(6)] received_carries Decode_fits [OF assms(1)] by fastforce
qed


lemma scene3_out: "net_out (srv_net scene3) 8 =
  wire (route_table_message (scene_hello ''m'') (GetAllRouteNodeList [''n'', ''m''] (srv_sessions scene3)))"
proof -
  have "net_out (srv_net scene1) 8 = []"
    unfolding scene1_def
    by (subst heartbeat_new [OF scene_hello_n])
      (simp_all add: scene0_ok conn_Write_out, simp add: scene0_def accept_conn_def)
  then show ?thesis
    unfolding scene3_state(1) unfolding scene3_def
    by (subst heartbeat_new [OF scene_says_hello])
      (simp_all add: scene1_state scene0_ok conn_Write_out fun_upd_twist)
qed

lemma scene3_reply_size: "length (Marshal (enc_slice json_RouteNode)
    (Some (GetAllRouteNodeList [''n'', ''m''] (srv_sessions scene3)))) < 1000"
  unfolding scene3_state(1) by code_simp

theorem forward_received_witness:
  "received (srv_net (handleConn_turn [] 9 7 (Inr (payload_of scene_call)) scene3)) 8 =
     received (srv_net scene3) 8 @ [scene_call]"
proof -
  let ?m = "route_table_message (scene_hello ''m'') (GetAllRouteNodeList [''n'', ''m''] (srv_sessions scene3))"
  have "sendable ?m"
    using scene3_reply_size
    by (simp add: sendable_def length_payload_of route_table_message_def scene_hello_def MaxFrameSize_def)
  then have "carries (srv_net scene3) 8 [?m]"
    by (simp add: carries_def scene3_out)
  moreover have "int (length (payload_of scene_call)) \<le> MaxFrameSize"
    by (simp add: length_payload_of scene_call_def MaxFrameSize_def)
  ultimately show ?thesis
    using forward_received [OF scene_call_decodes scene_call_target(1) _ scene_call_target(2)]
    by (simp add: scene3_state scene0_ok)
qed


section \<open>The heartbeat loop\<close>

lemma collect_offline_iff:
  "enumerates ks m \<Longrightarrow> k \<in> set (collect_offline ks now m) \<longleftrightarrow>
     (\<exists>t. m k = Some t \<and> sess_lastHeartbeat t < now - sessionTimeout)"
  by (force simp: collect_offline_def enumerates_def Let_def)

lemma checkHeartbeat_remove_sessions:
  "srv_sessions (checkHeartbeat_remove ks offline s) =
     (\<lambda>k. if k \<in> set offline then None else srv_sessions s k)"
  using RemoveSessions_map [of ks offline "(srv_sessions s, srv_net s)"]
  by (auto simp: checkHeartbeat_remove_def remove_offline_def split: prod.splits)

text \<open>
  C21: a pass of the heartbeat loop that nothing interrupts removes exactly the sessions whose
  last heartbeat is more than 30 s old.
\<close>

theorem checkHeartbeat_exact:
  assumes "enumerates ks (srv_sessions s)" "s1 = checkHeartbeat_collect ks now s"
    and "srv_offline s1 = Some offline" "s2 = checkHeartbeat_remove ks' offline s1"
  shows "srv_sessions s2 = (\<lambda>k. case srv_sessions s k of None \<Rightarrow> None
    | Some t \<Rightarrow> if sess_lastHeartbeat t < now - 30000 then None else Some t)"
proof -
  have "offline = collect_offline ks now (srv_sessions s)" "srv_sessions s1 = srv_sessions s"
    using assms(2,3) by (simp_all add: checkHeartbeat_collect_def)
  then show ?thesis
    using collect_offline_iff [OF assms(1)]
    by (auto simp: assms(4) checkHeartbeat_remove_sessions fun_eq_iff sessionTimeout_def
        split: option.splits)
qed

theorem checkHeartbeat_exact_witness:
  "srv_sessions (checkHeartbeat_remove [''m''] [''n''] (checkHeartbeat_collect [''n'', ''m''] 30006 scene3)) ''m''
     = Some (NewRouterSession ''m'' 8 scene_info 6)"
proof -
  have "enumerates [''n'', ''m''] (srv_sessions scene3)"
    by (auto simp: enumerates_def scene3_state)
  moreover have "srv_offline (checkHeartbeat_collect [''n'', ''m''] 30006 scene3) = Some [''n'']"
    by (simp add: checkHeartbeat_collect_def collect_offline_def scene3_state sessionTimeout_def Let_def)
  ultimately show ?thesis
    using checkHeartbeat_exact [OF _ refl, of "[''n'', ''m'']" scene3 30006 "[''n'']" _ "[''m'']"]
    by (simp add: scene3_state)
qed

text \<open>
  The node with id \<open>k\<close> on connection \<open>c0\<close>: its connection lives and each pass of the loop finds
  its last heartbeat at most 30 s old; and no other connection sends a message in its name.
\<close>

definition punctual :: "gostring \<Rightarrow> conn \<Rightarrow> server \<Rightarrow> server_event \<Rightarrow> bool" where
  "punctual k c0 s e =
     (case e of
        Turn c (Inl _) _ \<Rightarrow> c \<noteq> c0
      | CollectOffline now \<Rightarrow>
          (case srv_sessions s k of None \<Rightarrow> True | Some t \<Rightarrow> now - 30000 \<le> sess_lastHeartbeat t)
      | _ \<Rightarrow> True)"

definition names_only :: "gostring \<Rightarrow> conn \<Rightarrow> server_event \<Rightarrow> bool" where
  "names_only k c0 e =
     (case e of
        Turn c (Inr payload) _ \<Rightarrow>
          (case DecodeRouteMessagePayload payload of
             Inl _ \<Rightarrow> True
           | Inr msg \<Rightarrow> FromRouteId msg = k \<longrightarrow> c = c0)
      | _ \<Rightarrow> True)"

definition not_pending :: "gostring \<Rightarrow> server \<Rightarrow> bool" where
  "not_pending k s = (case srv_offline s of None \<Rightarrow> True | Some offline \<Rightarrow> k \<notin> set offline)"

definition named_only :: "gostring \<Rightarrow> conn \<Rightarrow> server \<Rightarrow> bool" where
  "named_only k c0 s \<longleftrightarrow> (\<forall>c. srv_running s c \<and> srv_routeId s c = k \<longrightarrow> c = c0)"

lemma payload_offline [simp]: "srv_offline (handle_payload ks now c payload s) = srv_offline s"
  using handle_payload_frame [of s ks now c payload] by (simp add: same_control_def)

lemma read_error_offline [simp]: "srv_offline (handle_read_error ks c s) = srv_offline s"
  by (simp add: handle_read_error_def Let_def split: prod.split)

lemma not_pending_step:
  assumes "server_step s e s'" "punctual k c0 s e" "not_pending k s"
  shows "not_pending k s'"
  using assms
proof (induction rule: server_step.induct)
  case (turn s c s' ks now res)
  then show ?case by (cases res) (simp_all add: handleConn_turn_def not_pending_def)
next
  case (collect s ks now)
  then show ?case
    by (auto simp: not_pending_def checkHeartbeat_collect_def collect_offline_iff punctual_def
        sessionTimeout_def split: option.splits)
qed (auto simp: not_pending_def accept_conn_def checkHeartbeat_remove_def expire_debug_def Shutdown_def
    split: prod.splits)

lemma named_only_step:
  assumes "server_step s e s'" "names_only k c0 e" "named_only k c0 s" "k \<noteq> []"
  shows "named_only k c0 s'"
  using assms(2,3) routeId_step [OF assms(1) _ _ assms(4)]
  by (fastforce simp: named_only_def names_only_def)

lemma punctual_keeps:
  assumes "server_step s e s'" "punctual k c0 s e" "not_pending k s" "named_only k c0 s"
  shows "\<not> ends_session s k e"
  using assms
  by (cases rule: server_step.cases)
    (auto simp: punctual_def not_pending_def named_only_def ends_session_def split: sum.splits option.splits)

text \<open>
  C14: a node that sends its heartbeats in time is not dropped as long as no one else uses its
  id: along any run in which its connection is not lost, each pass of the loop finds its last
  heartbeat at most 30 s old, and no other connection sends a message in its name or did so
  before as its last, its session stays on its connection. Without the last condition a client
  that was refused the id evicts the node when it leaves (\<open>conflict_evicts_owner\<close>).
\<close>

theorem punctual_node_kept:
  assumes "server_run_with (\<lambda>s e. punctual k (sess_Conn t) s e \<and> names_only k (sess_Conn t) e) s es s'"
    and "server_ok s" "not_pending k s" "srv_sessions s k = Some t" "k \<noteq> []"
    and "\<forall>c. srv_running s c \<and> srv_routeId s c = k \<longrightarrow> c = sess_Conn t"
  shows "\<exists>t'. srv_sessions s' k = Some t' \<and> sess_Conn t' = sess_Conn t"
proof -
  define c0 where "c0 = sess_Conn t"
  have "\<exists>t'. srv_sessions s' k = Some t' \<and> sess_Conn t' = c0"
    if "server_run_with (\<lambda>s e. punctual k c0 s e \<and> names_only k c0 e) s es s'" "server_ok s"
      "not_pending k s" "\<exists>t. srv_sessions s k = Some t \<and> sess_Conn t = c0" "named_only k c0 s" for s
    using that
  proof (induction rule: server_run_with.induct)
    case (with_Cons s e s1 es s2)
    have "\<not> ends_session s k e"
      using punctual_keeps [OF with_Cons.hyps(2)] with_Cons.hyps(1) with_Cons.prems(2,4) by blast
    then have "\<exists>t. srv_sessions s1 k = Some t \<and> sess_Conn t = c0"
      using owner_step [OF with_Cons.hyps(2) server_okD(1) [OF with_Cons.prems(1)]] with_Cons.prems(3)
      by fastforce
    with with_Cons show ?case
      using server_ok_step not_pending_step named_only_step [OF _ _ _ assms(5)] by blast
  qed
  then show ?thesis
    using assms by (simp add: c0_def named_only_def)
qed

theorem punctual_node_kept_witness:
  "\<exists>t. srv_sessions (checkHeartbeat_collect [''n''] 30005 scene1) ''n'' = Some t \<and> sess_Conn t = 7"
proof -
  have off: "srv_offline scene1 = None"
    unfolding scene1_def by (simp add: handleConn_turn_def scene0_def accept_conn_def NewServer_def)
  let ?t = "NewRouterSession ''n'' 7 scene_info 5"
  have "server_step scene1 (CollectOffline 30005) (checkHeartbeat_collect [''n''] 30005 scene1)"
    by (rule server_step.collect [OF off]) (simp add: scene1_state enumerates_def)
  then have run: "server_run_with (\<lambda>s e. punctual ''n'' (sess_Conn ?t) s e \<and> names_only ''n'' (sess_Conn ?t) e)
      scene1 [CollectOffline 30005] (checkHeartbeat_collect [''n''] 30005 scene1)"
    by (intro server_run_with.intros) (simp_all add: punctual_def names_only_def scene1_state)
  have "\<forall>c. srv_running scene1 c \<and> srv_routeId scene1 c = ''n'' \<longrightarrow> c = sess_Conn ?t"
  proof (intro allI impI)
    fix c assume "srv_running scene1 c \<and> srv_routeId scene1 c = ''n''"
    then show "c = sess_Conn ?t"
      using routeId_step [OF scene1_step, of c "''n''"]
      by (auto simp: scene0_def accept_conn_def NewServer_def split: if_splits)
  qed
  from punctual_node_kept [OF run scene1_ok _ _ _ this] show ?thesis
    by (simp add: not_pending_def off scene1_state)
qed

text \<open>
  But a heartbeat that arrives between the two critical sections of a pass comes too late.
  Once a session was found late, every run leads to its removal at the next step of the loop,
  even when the node has sent a heartbeat since and its session is fresh.
\<close>

theorem stale_removal:
  assumes "srv_sessions s k = Some t" "sess_lastHeartbeat t < now - 30000"
    and "enumerates ks (srv_sessions s)" "srv_offline s = None"
    and "server_run_with (\<lambda>_ e. e \<noteq> RemoveOffline) (checkHeartbeat_collect ks now s) es s1"
    and "server_step s1 RemoveOffline s2"
  shows "srv_sessions s2 k = None"
proof -
  define offline where "offline = collect_offline ks now (srv_sessions s)"
  have k: "k \<in> set offline"
    using assms(1,2) by (simp add: offline_def collect_offline_iff [OF assms(3)] sessionTimeout_def)
  have keep: "server_step u e u' \<Longrightarrow> e \<noteq> RemoveOffline \<Longrightarrow> srv_offline u = Some offline \<Longrightarrow>
      srv_offline u' = Some offline" for u e u'
  proof (induction rule: server_step.induct)
    case (turn s c s' ks now res)
    then show ?case by (cases res) (simp_all add: handleConn_turn_def)
  qed (auto simp: accept_conn_def expire_debug_def Shutdown_def)
  have run: "server_run_with (\<lambda>_ e. e \<noteq> RemoveOffline) u es u' \<Longrightarrow> srv_offline u = Some offline \<Longrightarrow>
      srv_offline u' = Some offline" for u es u'
    by (induction rule: server_run_with.induct) (auto dest: keep)
  have "srv_offline s1 = Some offline"
    using run [OF assms(5)] by (simp add: checkHeartbeat_collect_def offline_def)
  with assms(6) k show ?thesis by (auto simp: checkHeartbeat_remove_sessions)
qed


text \<open>The pass finds node n late at 40 s; its heartbeat comes at 40.001 s.\<close>

definition scene_late :: server where
  "scene_late = checkHeartbeat_collect [''n''] 40000 scene1"

definition scene_fresh :: server where
  "scene_fresh = handleConn_turn [''n''] 40001 7 (Inr (payload_of (scene_hello ''n''))) scene_late"

lemma scene_late_state: "srv_sessions scene_late = [''n'' \<mapsto> NewRouterSession ''n'' 7 scene_info 5]"
  "srv_running scene_late 7" "srv_net scene_late = srv_net scene1" "srv_offline scene_late = Some [''n'']"
  by (simp_all add: scene_late_def checkHeartbeat_collect_def scene1_state scene0_ok collect_offline_def
      sessionTimeout_def)

lemma scene_fresh_state: "srv_sessions scene_fresh =
    [''n'' \<mapsto> RefreshHeartbeat 40001 (NewRouterSession ''n'' 7 scene_info 5)]"
  "srv_offline scene_fresh = Some [''n'']"
  unfolding scene_fresh_def
  by (subst heartbeat_again [OF scene_hello_n, where old = "NewRouterSession ''n'' 7 scene_info 5"],
      simp_all add: scene_late_state noted_def)+

theorem stale_removal_witness:
  "sess_lastHeartbeat (the (srv_sessions scene_fresh ''n'')) = 40001 \<and>
   srv_sessions (checkHeartbeat_remove [] [''n''] scene_fresh) ''n'' = None"
proof -
  let ?e = "Turn 7 (Inr (payload_of (scene_hello ''n''))) 40001"
  have off: "srv_offline scene1 = None"
    unfolding scene1_def by (simp add: handleConn_turn_def scene0_def accept_conn_def NewServer_def)
  have "server_step scene_late ?e scene_fresh"
    by (rule server_step.turn [OF scene_late_state(2) scene_fresh_def])
      (simp add: scene_fresh_state enumerates_def)
  then have run: "server_run_with (\<lambda>_ e. e \<noteq> RemoveOffline) scene_late [?e] scene_fresh"
    by (intro server_run_with.intros) simp_all
  have rem: "server_step scene_fresh RemoveOffline (checkHeartbeat_remove [] [''n''] scene_fresh)"
    by (rule server_step.remove [OF scene_fresh_state(2) refl])
      (auto simp: checkHeartbeat_remove_sessions scene_fresh_state enumerates_def split: if_splits)
  have "srv_sessions scene1 ''n'' = Some (NewRouterSession ''n'' 7 scene_info 5)"
    by (simp add: scene1_state)
  from stale_removal [OF this _ _ off run [unfolded scene_late_def] rem]
  show ?thesis by (simp add: scene1_state enumerates_def scene_fresh_state)
qed

text \<open>
  A later heartbeat of a registered node refreshes its time and answers with the route
  table, but what it says about the node's RPC server is not stored: host, port and stubs
  stay those of the first heartbeat.
\<close>

theorem heartbeat_keeps_first_info:
  assumes "server_ok s" "says_hello payload k info msg" "srv_sessions s k = Some old"
    and "sess_Conn old = c" "s' = handleConn_turn ks now c (Inr payload) s"
  shows "srv_sessions s' = (srv_sessions s)(k \<mapsto> old\<lparr>sess_lastHeartbeat := now\<rparr>)"
proof -
  have "IsActive old"
    using sessions_okD [OF server_okD(1) [OF assms(1)] assms(3)] by blast
  with assms(3,4) show ?thesis
    by (simp add: assms(5) heartbeat_again [OF assms(2,3)] RefreshHeartbeat_def)
qed

theorem heartbeat_keeps_first_info_witness:
  "sess_RpcServerInfo (the (srv_sessions (handleConn_turn [''n''] 9 7
     (Inr (payload_of (scene_hello ''n''))) scene1) ''n'')) = scene_info"
proof -
  have "srv_sessions scene1 ''n'' = Some (NewRouterSession ''n'' 7 scene_info 5)"
    by (simp add: scene1_state)
  from heartbeat_keeps_first_info [OF scene1_ok scene_hello_n this _ refl, of 7 "[''n'']" 9]
  show ?thesis by simp
qed

section \<open>Debug results\<close>

text \<open>A string whose bytes JSON writes as they are.\<close>

definition plain :: "gostring \<Rightarrow> bool" where
  "plain s \<longleftrightarrow> list_all (\<lambda>c. escape_char c = [c] \<and> c \<noteq> CHR 0x22) s"

lemma quote_plain: "plain s \<Longrightarrow> quote s = [CHR 0x22] @ s @ [CHR 0x22]"
proof -
  assume "plain s"
  then have "concat (List.map escape_char s) = s"
    by (induction s) (auto simp: plain_def)
  then show ?thesis by (simp add: quote_def)
qed

lemma match_rpcUid_field:
  assumes "plain uid" "uid \<noteq> []"
  shows "match_rpcUid (quote ''rpcUid'' @ '':'' @ quote uid @ rest) = Some uid"
proof -
  have "quote ''rpcUid'' = rpcUid_key"
    by (subst quote_plain) (simp_all add: plain_def escape_char_def rpcUid_key_def)
  moreover have "\<forall>c \<in> set uid. c \<noteq> CHR 0x22" using assms(1) by (simp add: plain_def list_all_iff)
  ultimately show ?thesis
    using assms(2)
    by (simp add: match_rpcUid_def quote_plain [OF assms(1)] regex_space_def takeWhile_append2 dropWhile_append2)
qed


lemma extract_response:
  assumes "plain (resp_RpcUid p)" "resp_RpcUid p \<noteq> []"
  shows "extractRpcUid (Marshal json_RpcResponse p) = resp_RpcUid p"
proof -
  obtain rest where "Marshal json_RpcResponse p =
      CHR 0x7B # quote ''rpcUid'' @ '':'' @ quote (resp_RpcUid p) @ rest"
    by (simp add: Marshal_def json_RpcResponse_def)
  moreover have "match_rpcUid (CHR 0x7B # x) = None" for x
    by (simp add: match_rpcUid_def rpcUid_key_def)
  moreover have "find_rpcUid (quote ''rpcUid'' @ '':'' @ quote (resp_RpcUid p) @ rest) = Some (resp_RpcUid p)"
    using match_rpcUid_field [OF assms, of rest] by (simp add: quote_def)
  ultimately show ?thesis by (simp add: extractRpcUid_def)
qed

lemma debug_response_kept:
  assumes "DecodeRouteMessagePayload payload = Inr msg"
    and "MessageType msg = Some RouteMessageTypeRpcResponse" "ToRouteId msg = ''debug-admin''"
    and "Data msg = Some (Marshal json_RpcResponse p)" "plain (resp_RpcUid p)" "resp_RpcUid p \<noteq> []"
    and "s' = handleConn_turn ks now c (Inr payload) s"
  shows "GetDebugResult s' (resp_RpcUid p) = (Marshal json_RpcResponse p, True) \<and>
    srv_timers s' = srv_timers s @ [resp_RpcUid p] \<and> srv_net s' = srv_net s \<and>
    srv_sessions s' = srv_sessions s"
proof -
  have "s' = handleRpcResponse msg (noted now c payload msg s)"
    using assms(1,2) by (simp add: assms(7) turn_defs)
  then show ?thesis
    by (simp add: handleRpcResponse_def assms(3-6) extract_response GetDebugResult_def Let_def)
qed

text \<open>
  An RPC response addressed to the console is kept under its RPC id, for every id that
  JSON writes without escapes: afterwards \<open>GetDebugResult\<close> returns the response's text, a timer
  will delete it, and nothing is sent to any node.
\<close>

theorem debug_response_stored:
  assumes "DecodeRouteMessagePayload payload = Inr msg"
    and "MessageType msg = Some RouteMessageTypeRpcResponse" "ToRouteId msg = ''debug-admin''"
    and "Data msg = Some (Marshal json_RpcResponse p)" "plain (resp_RpcUid p)" "resp_RpcUid p \<noteq> []"
    and "s' = handleConn_turn ks now c (Inr payload) s"
  shows "GetDebugResult s' (resp_RpcUid p) = (Marshal json_RpcResponse p, True) \<and>
    srv_timers s' = srv_timers s @ [resp_RpcUid p] \<and> srv_net s' = srv_net s \<and>
    srv_sessions s' = srv_sessions s"
  using assms by (rule debug_response_kept)

definition scene_result :: RpcResponse where
  "scene_result = \<lparr>resp_RpcUid = ''u1'', resp_ErrorFlag = False, resp_ErrorMsg = [],
     resp_StartTimeMs = 1, resp_PacketId = 2, resp_ResultValueStr = ''3''\<rparr>"

definition scene_result_message :: RouteMessage where
  "scene_result_message = \<lparr>FromRouteId = ''n'', ToRouteId = ''debug-admin'',
     MessageType = Some RouteMessageTypeRpcResponse, Data = Some (Marshal json_RpcResponse scene_result)\<rparr>"

lemma scene_result_size: "length (Marshal json_RpcResponse scene_result) < 1000"
  by code_simp

theorem debug_response_stored_witness:
  "GetDebugResult (handleConn_turn [] 9 7 (Inr (payload_of scene_result_message)) scene1) ''u1'' =
     (Marshal json_RpcResponse scene_result, True)"
proof -
  have "fits_int32 scene_result_message"
    using scene_result_size by (simp add: fits_int32_def scene_result_message_def)
  moreover have "as_received scene_result_message = scene_result_message"
    by (simp add: as_received_def scene_result_message_def known_type_def
        RouteMessageTypeFromOrdinal_def message_types)
  ultimately have dec: "DecodeRouteMessagePayload (payload_of scene_result_message) = Inr scene_result_message"
    by (simp add: Decode_payload_of)
  have msg: "MessageType scene_result_message = Some RouteMessageTypeRpcResponse"
    "ToRouteId scene_result_message = ''debug-admin''"
    "Data scene_result_message = Some (Marshal json_RpcResponse scene_result)"
    by (simp_all add: scene_result_message_def)
  have uid: "plain (resp_RpcUid scene_result)" "resp_RpcUid scene_result \<noteq> []"
    by (simp_all add: plain_def escape_char_def scene_result_def)
  have "resp_RpcUid scene_result = ''u1''" by (simp add: scene_result_def)
  with debug_response_stored [OF dec msg uid refl, of "[]" 9 7 scene1] show ?thesis by metis
qed

text \<open>Numbers as ids: the JSON fallback behind the regular expression.\<close>

lemma find_rpcUid_no_quote: "CHR 0x22 \<notin> set s \<Longrightarrow> find_rpcUid s = None"
  by (induction s) (auto simp: match_rpcUid_def rpcUid_key_def)

lemma bit_length_le: "n < 2 ^ b \<Longrightarrow> bit_length n \<le> b"
proof (induction b arbitrary: n)
  case 0
  then show ?case by (simp add: bit_length.simps)
next
  case (Suc b)
  then have "bit_length (n div 2) \<le> b" by (simp add: less_mult_imp_div_less mult.commute)
  then show ?case by (simp add: bit_length.simps [of n])
qed

lemma round_half_even_exact [simp]: "0 < q \<Longrightarrow> round_half_even (n * q) q = n"
  by (simp add: round_half_even_def)

lemma float_trunc_int: "0 < n \<Longrightarrow> n < 2 ^ 53 \<Longrightarrow> float_trunc n 1 = n"
  using bit_length_le [of n 53] round_half_even_exact [of 1 "n * 2 ^ (53 - bit_length n)"]
    round_half_even_exact [of 1 n]
  by (auto simp: float_trunc_def Let_def)

lemma float_trunc_0: "float_trunc 0 1 = 0"
  by (simp add: float_trunc_def)

lemma number_parts_Itoa: "number_parts (Itoa i) = (i < 0, nat \<bar>i\<bar>, 1)"
proof -
  have other: "\<not> is_digit c \<Longrightarrow> c \<notin> set (nat_digits n)" for c n
    using nat_digits_digits [of n] by (auto simp: list_all_iff)
  have "CHR ''e'' \<notin> set (nat_digits n)" "CHR ''E'' \<notin> set (nat_digits n)"
    "CHR ''.'' \<notin> set (nat_digits n)" for n
    by (rule other; simp add: is_digit_def)+
  then have no_e: "takeWhile (\<lambda>c. c \<noteq> CHR ''e'' \<and> c \<noteq> CHR ''E'') (nat_digits n) = nat_digits n"
    and no_dot: "takeWhile (\<lambda>c. c \<noteq> CHR ''.'') (nat_digits n) = nat_digits n" for n
    unfolding takeWhile_eq_all_conv by metis+
  show ?thesis
    by (auto simp: number_parts_def Itoa_def TrimPrefix_def no_e no_dot Let_def)
      (simp_all add: digits_value_def)
qed

lemma float_Itoa:
  assumes "\<bar>i\<bar> < 2 ^ 53"
  shows "float_to_int (Itoa i) = i" "float_ok (Itoa i)"
proof -
  have "float_trunc (nat \<bar>i\<bar>) 1 = nat \<bar>i\<bar>"
    using assms float_trunc_int [of "nat \<bar>i\<bar>"] float_trunc_0 by (cases "i = 0") (auto simp: nat_less_iff)
  then show "float_to_int (Itoa i) = i" "float_ok (Itoa i)"
    using assms by (auto simp: float_to_int_def float_ok_def number_parts_Itoa int64_range_def Let_def nat_less_iff)
qed


lemma Itoa_chars: "c \<in> set (Itoa i) \<Longrightarrow> is_digit c \<or> c = CHR ''-''"
  using nat_digits_digits by (auto simp: Itoa_def list_all_iff split: if_splits)

lemma Itoa_Cons: "\<exists>c s. Itoa i = c # s \<and> (is_digit c \<or> c = CHR ''-'')"
  using Itoa_chars [of "hd (Itoa i)" i] by (cases "Itoa i") (auto simp: Itoa_def split: if_splits)

lemma find_rpcUid_number:
  "find_rpcUid (CHR 0x7B # rpcUid_key @ '':'' @ Itoa i @ ''}'') = None"
proof -
  obtain c s where i: "Itoa i = c # s" and c: "is_digit c \<or> c = CHR ''-''" using Itoa_Cons by blast
  have c': "\<not> regex_space c" "c \<noteq> CHR 0x22" using c by (auto simp: regex_space_def is_digit_def)
  have "CHR 0x22 \<notin> set (Itoa i)" using Itoa_chars [of "CHR 0x22" i] by (auto simp: is_digit_def)
  then have rest: "find_rpcUid (CHR '':'' # Itoa i @ ''}'') = None"
    by (intro find_rpcUid_no_quote) simp
  have first: "match_rpcUid (rpcUid_key @ CHR '':'' # Itoa i @ ''}'') = None"
    using c' by (simp add: match_rpcUid_def i regex_space_def)
  have other: "match_rpcUid (d # t) = None" if "\<not> HasPrefix (d # t) [CHR 0x22, CHR ''r'']" for d t
    using that by (cases t) (auto simp: match_rpcUid_def rpcUid_key_def)
  show ?thesis
    using rest first [unfolded rpcUid_key_def] by (simp add: rpcUid_key_def other)
qed

text \<open>
  A numeric RPC id is found too, by the JSON fallback: for every integer below \<open>2\<^sup>53\<close> in
  absolute value, which \<open>float64\<close> holds exactly, the id is its decimal text.
\<close>

theorem extractRpcUid_number:
  assumes "\<bar>i\<bar> < 2 ^ 53"
  shows "extractRpcUid (json_print (JObj [(''rpcUid'', JNum (Itoa i))])) = Itoa i"
proof -
  have "quote ''rpcUid'' = rpcUid_key"
    by (subst quote_plain) (simp_all add: plain_def escape_char_def rpcUid_key_def)
  then have printed: "json_print (JObj [(''rpcUid'', JNum (Itoa i))]) =
      CHR 0x7B # rpcUid_key @ '':'' @ Itoa i @ ''}''" by simp
  have "Contains ([CHR 0x7B, CHR 0x22] @ ''rpcUid'' @ ([CHR 0x22] @ '':'' @ Itoa i @ ''}'')) ''rpcUid''"
    by (rule ContainsI)
  then have has: "Contains (json_print (JObj [(''rpcUid'', JNum (Itoa i))])) ''rpcUid''"
    unfolding printed by (simp add: rpcUid_key_def)
  have "json_parse (json_print (JObj [(''rpcUid'', JNum (Itoa i))])) = Some (JObj [(''rpcUid'', JNum (Itoa i))])"
    by (rule json_parse_print) simp
  then have "Unmarshal decode_temp \<lparr>temp_RpcUid = JNull\<rparr> (json_print (JObj [(''rpcUid'', JNum (Itoa i))])) =
      (\<lparr>temp_RpcUid = JNum (Itoa i)\<rparr>, True)"
    by (simp add: Unmarshal_def decode_temp_def decode_struct_def find_field_def float_Itoa [OF assms])
  moreover have "find_rpcUid (json_print (JObj [(''rpcUid'', JNum (Itoa i))])) = None"
    unfolding printed by (rule find_rpcUid_number)
  ultimately show ?thesis
    using has unfolding extractRpcUid_def by (simp add: toString_def float_Itoa [OF assms])
qed

theorem extractRpcUid_number_witness:
  "extractRpcUid (json_print (JObj [(''rpcUid'', JNum (Itoa 42))])) = Itoa 42"
  by (rule extractRpcUid_number) simp

end
