(* ===== verification/RouterSpec.thy ===== *)
theory RouterSpec
  imports ServerRouting
begin

text \<open>
  What the router is for its nodes, without bytes, locks, clocks and counters: a register of
  nodes and a mailbox per connection. The theory states that as a machine on whole messages, the
  hub, and proves that every run of the router is a run of the hub: the bytes written on a
  connection are the frames of its mailbox. An end-to-end property of the hub, that a node
  gets what was sent to it in order, then holds of the router's bytes.
\<close>

section \<open>The hub\<close>

record hub =
  hub_members :: "gostring \<rightharpoonup> conn \<times> RouteNode"
  hub_addr :: "conn \<Rightarrow> gostring"
  hub_name :: "conn \<Rightarrow> gostring" \<comment> \<open>the id a connection last spoke under\<close>
  hub_gone :: "conn \<Rightarrow> bool"
  hub_mail :: "conn \<Rightarrow> RouteMessage list"

definition hub_new :: hub where
  "hub_new = \<lparr>hub_members = Map.empty, hub_addr = \<lambda>_. [], hub_name = \<lambda>_. [], hub_gone = \<lambda>_. False,
     hub_mail = \<lambda>_. []\<rparr>"

datatype hub_event =
    Join conn gostring
  | Hello conn RouteMessage gostring int \<comment> \<open>with the host and port announced\<close>
  | Post conn RouteMessage
  | Speak conn gostring
  | Leave conn
  | Expel "gostring list"
  | Quiet

definition post :: "conn \<Rightarrow> RouteMessage \<Rightarrow> hub \<Rightarrow> hub" where
  "post d m h = (if hub_gone h d then h else h\<lparr>hub_mail := (hub_mail h)(d := hub_mail h d @ [m])\<rparr>)"

definition speak :: "conn \<Rightarrow> gostring \<Rightarrow> hub \<Rightarrow> hub" where
  "speak c k h = (if k = [] then h else h\<lparr>hub_name := (hub_name h)(c := k)\<rparr>)"

definition hang_up :: "conn \<Rightarrow> hub \<Rightarrow> hub" where
  "hang_up c h = h\<lparr>hub_gone := (hub_gone h)(c := True)\<rparr>"

text \<open>\<open>ks\<close> lists the members in the order in which the table shows them.\<close>

definition hub_table :: "gostring list \<Rightarrow> hub \<Rightarrow> RouteNode list" where
  "hub_table ks h = List.map (\<lambda>(_, _, n). n) (range_map ks (hub_members h))"

definition hello :: "gostring list \<Rightarrow> conn \<Rightarrow> RouteMessage \<Rightarrow> gostring \<Rightarrow> int \<Rightarrow> hub \<Rightarrow> hub" where
  "hello ks c m host port h =
     (let k = FromRouteId m in
      case hub_members h k of
        None \<Rightarrow>
          let node = \<lparr>node_RouterId = k, node_HostForRpc = host, node_PortForRpc = port\<rparr>;
              h1 = h\<lparr>hub_members := (hub_members h)(k \<mapsto> (c, node))\<rparr>
          in post c (route_table_message m (hub_table ks h1)) h1
      | Some (d, _) \<Rightarrow>
          if hub_addr h d = hub_addr h c then post d (route_table_message m (hub_table ks h)) h
          else hang_up c (post c (conflict_reply k) h))"

definition pass_on :: "RouteMessage \<Rightarrow> hub \<Rightarrow> hub" where
  "pass_on m h =
     (if ToRouteId m = [] then h
      else (case hub_members h (ToRouteId m) of None \<Rightarrow> h | Some (d, _) \<Rightarrow> post d m h))"

text \<open>The members among some ids, each once, and the notice that tells member \<open>k\<close> that they are gone.\<close>

fun listed :: "gostring list \<Rightarrow> (gostring \<rightharpoonup> 'a) \<Rightarrow> gostring list" where
  "listed [] m = []"
| "listed (k # ks) m = (case m k of None \<Rightarrow> listed ks m | Some _ \<Rightarrow> k # listed ks (m(k := None)))"

definition notice :: "gostring list \<Rightarrow> gostring \<Rightarrow> RouteMessage" where
  "notice removed k =
     \<lparr>FromRouteId = k, ToRouteId = k, MessageType = Some RouteMessageTypeRemoveRouteNode,
      Data = Some (Marshal (enc_slice JStr) (Some removed))\<rparr>"

definition expel :: "gostring list \<Rightarrow> gostring list \<Rightarrow> hub \<Rightarrow> hub" where
  "expel ks ids h =
     (let removed = listed ids (hub_members h);
          rest = (\<lambda>k. if k \<in> set ids then None else hub_members h k);
          gone = (\<lambda>d. hub_gone h d \<or> (\<exists>k n. k \<in> set ids \<and> hub_members h k = Some (d, n)));
          h1 = h\<lparr>hub_members := rest, hub_gone := gone\<rparr>
      in if removed = [] then h1
         else fold (\<lambda>(k, d, _). post d (notice removed k)) (range_map ks rest) h1)"

fun hub_do :: "gostring list \<Rightarrow> hub_event \<Rightarrow> hub \<Rightarrow> hub" where
  "hub_do ks (Join c addr) h =
     h\<lparr>hub_addr := (hub_addr h)(c := addr), hub_name := (hub_name h)(c := []),
       hub_gone := (hub_gone h)(c := False), hub_mail := (hub_mail h)(c := [])\<rparr>"
| "hub_do ks (Hello c m host port) h = hello ks c m host port (speak c (FromRouteId m) h)"
| "hub_do ks (Post c m) h = pass_on m (speak c (FromRouteId m) h)"
| "hub_do ks (Speak c k) h = speak c k h"
| "hub_do ks (Leave c) h = hang_up c (if hub_name h c = [] then h else expel ks [hub_name h c] h)"
| "hub_do ks (Expel ids) h = expel ks ids h"
| "hub_do ks Quiet h = h"

inductive hub_run :: "hub \<Rightarrow> hub_event list \<Rightarrow> hub \<Rightarrow> bool" where
  hub_Nil: "hub_run h [] h"
| hub_Cons: "h1 = hub_do ks e h \<Longrightarrow> enumerates ks (hub_members h1) \<Longrightarrow> hub_run h1 es h2 \<Longrightarrow>
     hub_run h (e # es) h2"

section \<open>The hub's event in an event of the router\<close>

definition said :: "conn \<Rightarrow> RouteMessage \<Rightarrow> hub_event" where
  "said c m =
     (if MessageType m = Some RouteMessageTypeHeartBeat then
        (case Data m of
           None \<Rightarrow> Speak c (FromRouteId m)
         | Some d \<Rightarrow>
             (case Unmarshal decode_RpcServerInfo zero_RpcServerInfo d of (info, ok) \<Rightarrow>
                if ok then Hello c m (info_Host info) (info_Port info) else Speak c (FromRouteId m)))
      else if forwarded m then Post c m
      else Speak c (FromRouteId m))"

definition hub_event_of :: "server \<Rightarrow> server_event \<Rightarrow> hub_event" where
  "hub_event_of s e =
     (case e of
        Accept c addr \<Rightarrow> Join c addr
      | Turn c (Inl _) _ \<Rightarrow> Leave c
      | Turn c (Inr payload) _ \<Rightarrow>
          (case DecodeRouteMessagePayload payload of
             Inl _ \<Rightarrow> Quiet
           | Inr m \<Rightarrow> if MessageType m = None then Quiet else said c m)
      | RemoveOffline \<Rightarrow> (case srv_offline s of None \<Rightarrow> Quiet | Some offline \<Rightarrow> Expel offline)
      | _ \<Rightarrow> Quiet)"

text \<open>The router's state implements the hub's: same register, and each mailbox as frames.\<close>

definition implements :: "server \<Rightarrow> hub \<Rightarrow> bool" where
  "implements s h \<longleftrightarrow>
     hub_members h = (\<lambda>k. map_option (\<lambda>t. (sess_Conn t, node_of t)) (srv_sessions s k)) \<and>
     hub_addr h = net_addr (srv_net s) \<and> hub_name h = srv_routeId s \<and>
     hub_gone h = net_closed (srv_net s) \<and>
     (\<forall>c. net_out (srv_net s) c = concat (List.map wire (hub_mail h c)))"

lemma implementsD:
  assumes "implements s h"
  shows "hub_members h k = map_option (\<lambda>t. (sess_Conn t, node_of t)) (srv_sessions s k)"
    "hub_addr h = net_addr (srv_net s)" "hub_name h = srv_routeId s" "hub_gone h = net_closed (srv_net s)"
    "net_out (srv_net s) c = concat (List.map wire (hub_mail h c))"
  using assms by (simp_all add: implements_def)

lemma implements_new: "implements NewServer hub_new"
  by (simp add: implements_def NewServer_def hub_new_def)

section \<open>Each operation of the router is the hub's\<close>

lemma post_simps [simp]:
  "hub_members (post d m h) = hub_members h" "hub_addr (post d m h) = hub_addr h"
  "hub_name (post d m h) = hub_name h" "hub_gone (post d m h) = hub_gone h"
  "hub_mail (post d m h) c = hub_mail h c @ (if c = d \<and> \<not> hub_gone h d then [m] else [])"
  by (simp_all add: post_def)

lemma speak_simps [simp]:
  "hub_members (speak c k h) = hub_members h" "hub_addr (speak c k h) = hub_addr h"
  "hub_gone (speak c k h) = hub_gone h" "hub_mail (speak c k h) = hub_mail h"
  "hub_name (speak c k h) = (if k = [] then hub_name h else (hub_name h)(c := k))"
  by (simp_all add: speak_def)

lemma hang_up_simps [simp]:
  "hub_members (hang_up c h) = hub_members h" "hub_addr (hang_up c h) = hub_addr h"
  "hub_name (hang_up c h) = hub_name h" "hub_mail (hang_up c h) = hub_mail h"
  "hub_gone (hang_up c h) = (hub_gone h)(c := True)"
  by (simp_all add: hang_up_def)

lemma range_map_option:
  "range_map ks (\<lambda>k. map_option f (m k)) = List.map (\<lambda>(k, v). (k, f v)) (range_map ks m)"
  by (induction ks) (auto split: option.split)

lemma hub_table_eq:
  assumes "hub_members h = (\<lambda>k. map_option (\<lambda>t. (sess_Conn t, node_of t)) (m k))"
  shows "hub_table ks h = GetAllRouteNodeList ks m"
  by (simp add: hub_table_def assms range_map_option GetAllRouteNodeList_def node_of_def comp_def case_prod_beta)

lemma listed_present: "listed ids (\<lambda>k. map_option f (m k)) = present ids m"
proof (induction ids arbitrary: m)
  case (Cons k ids)
  have upd: "(\<lambda>j. map_option f (m j))(k := None) = (\<lambda>j. map_option f ((m(k := None)) j))" by auto
  show ?case by (simp add: upd Cons.IH split: option.split del: fun_upd_apply)
qed simp

lemma fold_post [simp]:
  "hub_members (fold (\<lambda>(k, d, _). post d (f k)) xs h) = hub_members h"
  "hub_addr (fold (\<lambda>(k, d, _). post d (f k)) xs h) = hub_addr h"
  "hub_name (fold (\<lambda>(k, d, _). post d (f k)) xs h) = hub_name h"
  "hub_gone (fold (\<lambda>(k, d, _). post d (f k)) xs h) = hub_gone h"
  "hub_mail (fold (\<lambda>(k, d, _). post d (f k)) xs h) c = hub_mail h c @
     (if hub_gone h c then [] else List.map (\<lambda>(k, _). f k) (filter (\<lambda>(_, d, _). d = c) xs))"
  by (induction xs arbitrary: h) auto

lemma remove_message_notice: "remove_message removed t = notice removed (sess_RouterId t)"
  by (simp add: remove_message_def notice_def)

lemma expel_simps:
  fixes h :: hub and ids :: "gostring list"
  defines "rest \<equiv> \<lambda>k. if k \<in> set ids then None else hub_members h k"
    and "gone \<equiv> \<lambda>d. hub_gone h d \<or> (\<exists>k n. k \<in> set ids \<and> hub_members h k = Some (d, n))"
  shows "hub_members (expel ks ids h) = rest" "hub_addr (expel ks ids h) = hub_addr h"
    "hub_name (expel ks ids h) = hub_name h" "hub_gone (expel ks ids h) = gone"
    "hub_mail (expel ks ids h) c = hub_mail h c @
       (if gone c \<or> listed ids (hub_members h) = [] then []
        else List.map (\<lambda>(k, _). notice (listed ids (hub_members h)) k)
          (filter (\<lambda>(_, d, _). d = c) (range_map ks rest)))"
  by (auto simp: expel_def Let_def rest_def gone_def)

text \<open>The part of the state that the hub does not see may change.\<close>

lemma implements_cong:
  assumes "implements s h" "srv_sessions s' = srv_sessions s" "srv_net s' = srv_net s"
    and "srv_routeId s' = srv_routeId s"
  shows "implements s' h"
  using assms by (simp add: implements_def)

lemma implements_noted:
  "implements s h \<Longrightarrow> implements (noted now c payload m s) (speak c (FromRouteId m) h)"
  by (simp add: implements_def)

lemma implements_RemoveSessions:
  assumes "implements s h" "sessions_ok (srv_sessions s)"
    and "(m, net) = RemoveSessions ks ids (srv_sessions s, srv_net s)"
  shows "implements (s\<lparr>srv_sessions := m, srv_net := net\<rparr>) (expel ks ids h)"
proof -
  note I = implementsD [OF assms(1)]
  let ?f = "\<lambda>t. (sess_Conn t, node_of t)"
  have m: "m = (\<lambda>k. if k \<in> set ids then None else srv_sessions s k)"
    using RemoveSessions_map [of ks ids "(srv_sessions s, srv_net s)"] unfolding assms(3) [symmetric] fst_conv .
  have members: "hub_members h = (\<lambda>k. map_option ?f (srv_sessions s k))" by (rule ext) (rule I(1))
  have rest: "(\<lambda>k. if k \<in> set ids then None else hub_members h k) = (\<lambda>k. map_option ?f (m k))"
    by (simp add: m members fun_eq_iff)
  have gone: "(\<exists>k n. k \<in> set ids \<and> hub_members h k = Some (d, n)) \<longleftrightarrow> closed_by_remove ids (srv_sessions s) d" for d
    by (auto simp: members closed_by_remove_def)
  have listed: "listed ids (hub_members h) = present ids (srv_sessions s)"
    by (simp only: members listed_present)
  have mail: "List.map wire (List.map (\<lambda>(k, _). notice r k) (filter (\<lambda>(_, d, _). d = c) (range_map ks (\<lambda>k. map_option ?f (m k))))) =
      List.map (\<lambda>t. wire (remove_message r t)) (filter (\<lambda>t. sess_Conn t = c) (List.map snd (range_map ks m)))" for r c
  proof -
    have id: "sess_RouterId t = k" if "m k = Some t" for k t
      using that sessions_okD [OF assms(2)] by (auto simp: m split: if_splits)
    show ?thesis
      by (auto simp: range_map_option filter_map comp_def case_prod_beta remove_message_notice id
          intro!: map_cong)
  qed
  have out: "net_out net c = concat (List.map wire (hub_mail (expel ks ids h) c))" for c
  proof -
    define none where "none \<longleftrightarrow> net_closed (srv_net s) c \<or> closed_by_remove ids (srv_sessions s) c \<or>
      present ids (srv_sessions s) = []"
    have "net_out net c = net_out (srv_net s) c @ (if none then [] else
        concat (List.map (\<lambda>t. wire (remove_message (present ids (srv_sessions s)) t))
          (filter (\<lambda>t. sess_Conn t = c) (List.map snd (range_map ks m)))))"
      using RemoveSessions_out [of ks ids "(srv_sessions s, srv_net s)" c]
      unfolding assms(3) [symmetric] fst_conv snd_conv m [symmetric] none_def .
    moreover have "hub_mail (expel ks ids h) c = hub_mail h c @ (if none then [] else
        List.map (\<lambda>(k, _). notice (present ids (srv_sessions s)) k)
          (filter (\<lambda>(_, d, _). d = c) (range_map ks (\<lambda>k. map_option ?f (m k)))))"
      unfolding expel_simps(5) rest gone I(4) listed none_def by simp
    ultimately show ?thesis by (cases none) (simp_all add: I(5) mail del: map_map)
  qed
  have "hub_gone (expel ks ids h) = net_closed net"
    unfolding expel_simps(4) gone I(4)
    using RemoveSessions_closed [of ks ids "(srv_sessions s, srv_net s)"]
    by (simp add: assms(3) [symmetric] fun_eq_iff)
  moreover have "hub_members (expel ks ids h) = (\<lambda>k. map_option ?f (m k))"
    unfolding expel_simps(1) rest ..
  ultimately show ?thesis
    using out RemoveSessions_addr [of ks ids "(srv_sessions s, srv_net s)"]
    by (simp add: implements_def expel_simps(2,3) I(2,3) assms(3) [symmetric])
qed

lemma implements_leave:
  assumes "implements s h" "sessions_ok (srv_sessions s)"
  shows "implements (handleConn_turn ks now c (Inl err) s) (hub_do ks (Leave c) h)"
proof -
  note I = implementsD [OF assms(1)]
  obtain m net where st: "RemoveSessions ks [srv_routeId s c] (srv_sessions s, srv_net s) = (m, net)" by force
  define s1 where "s1 = (if srv_routeId s c = [] then s else s\<lparr>srv_sessions := m, srv_net := net\<rparr>)"
  define h1 where "h1 = (if hub_name h c = [] then h else expel ks [hub_name h c] h)"
  have "implements s1 h1"
    using implements_RemoveSessions [OF assms st [symmetric]] assms(1)
    by (simp add: s1_def h1_def I(3))
  moreover have "handleConn_turn ks now c (Inl err) s = s1\<lparr>srv_currentConnections := srv_currentConnections s1 - 1,
      srv_net := conn_Close c (srv_net s1), srv_running := (srv_running s1)(c := False)\<rparr>"
    by (simp add: handleConn_turn_def handle_read_error_def RemoveSession_def st s1_def Let_def)
  moreover have "hub_do ks (Leave c) h = hang_up c h1" by (simp add: h1_def)
  ultimately show ?thesis by (simp add: implements_def conn_Close_def)
qed

lemma implements_expel:
  assumes "implements s h" "sessions_ok (srv_sessions s)"
  shows "implements (checkHeartbeat_remove ks offline s) (expel ks offline h)"
proof (cases "offline = []")
  case True
  have "expel ks [] h = h" by (simp add: expel_def)
  with True assms(1) show ?thesis
    by (simp add: checkHeartbeat_remove_def remove_offline_def implements_def)
next
  case False
  obtain m net where st: "RemoveSessions ks offline (srv_sessions s, srv_net s) = (m, net)" by force
  have "implements (s\<lparr>srv_sessions := m, srv_net := net\<rparr>) (expel ks offline h)"
    by (rule implements_RemoveSessions [OF assms st [symmetric]])
  then show ?thesis
    using False by (simp add: checkHeartbeat_remove_def remove_offline_def st implements_def)
qed

lemma implements_write:
  assumes "implements s h"
  shows "implements (s\<lparr>srv_net := snd (conn_Write d (wire m) (srv_net s))\<rparr>) (post d m h)"
  using assms by (auto simp: implements_def conn_Write_out)

lemma implements_forward:
  assumes "implements s h"
  shows "implements (forwardToTarget m s) (pass_on m h)"
  using implements_write [OF assms] assms implementsD(1) [OF assms, of "ToRouteId m"]
  by (auto simp: forwardToTarget_def pass_on_def GetSession_def WriteRouteMessage_wire split: option.splits)

lemma implements_hello:
  assumes "implements s h" "sessions_ok (srv_sessions s)" "says_hello payload k info m"
  shows "implements (handleConn_turn ks now c (Inr payload) s)
    (hub_do ks (Hello c m (info_Host info) (info_Port info)) h)"
proof -
  let ?s = "noted now c payload m s" and ?h = "speak c (FromRouteId m) h"
  have k: "FromRouteId m = k" using assms(3) by (simp add: says_hello_def)
  note I = implementsD [OF assms(1)] and J = implements_noted [OF assms(1), of now c payload m]
  show ?thesis
  proof (cases "srv_sessions s k")
    case None
    let ?new = "NewRouterSession k c info now"
    let ?s1 = "?s\<lparr>srv_sessions := (srv_sessions s)(k \<mapsto> ?new)\<rparr>"
      and ?h1 = "?h\<lparr>hub_members := (hub_members ?h)(k \<mapsto> (c, node_of ?new))\<rparr>"
    have 1: "implements ?s1 ?h1" using J by (auto simp: implements_def)
    have "hub_table ks ?h1 = GetAllRouteNodeList ks ((srv_sessions s)(k \<mapsto> ?new))"
      by (rule hub_table_eq) (simp add: fun_eq_iff I(1))
    with implements_write [OF 1, of c] None show ?thesis
      by (simp add: heartbeat_new [OF assms(3) None] hello_def k I(1) node_of_def Let_def)
  next
    case (Some old)
    have old: "IsActive old" using sessions_okD [OF assms(2) Some] by simp
    show ?thesis
    proof (cases "net_addr (srv_net s) (sess_Conn old) = net_addr (srv_net s) c")
      case True
      let ?s1 = "?s\<lparr>srv_sessions := (srv_sessions s)(k \<mapsto> RefreshHeartbeat now old)\<rparr>"
      have same: "map_option (\<lambda>t. (sess_Conn t, node_of t)) (((srv_sessions s)(k \<mapsto> RefreshHeartbeat now old)) j) =
          hub_members h j" for j
        using Some by (simp add: I(1) node_of_def)
      have 1: "implements ?s1 ?h" using J by (simp add: implements_def same [unfolded fun_upd_apply])
      have "hub_table ks ?h = GetAllRouteNodeList ks ((srv_sessions s)(k \<mapsto> RefreshHeartbeat now old))"
        by (rule hub_table_eq) (simp add: same fun_eq_iff del: fun_upd_apply)
      with implements_write [OF 1, of "sess_Conn old"] True Some show ?thesis
        by (simp add: heartbeat_again [OF assms(3) Some old] hello_def k I(1,2) Let_def)
    next
      case False
      from implements_write [OF J, of c "conflict_reply k"] False Some show ?thesis
        by (simp add: heartbeat_refused [OF assms(3) Some old] hello_def k I(1,2) implements_def conn_Close_def Let_def)
    qed
  qed
qed

section \<open>Every run of the router is a run of the hub\<close>

lemma implements_stats: "implements (s\<lparr>srv_rpcStats := r\<rparr>) h = implements s h"
  by (simp add: implements_def)

lemma implements_said:
  assumes "implements s h" "sessions_ok (srv_sessions s)"
    and "DecodeRouteMessagePayload payload = Inr m" "MessageType m = Some t"
  shows "implements (handleConn_turn ks now c (Inr payload) s) (hub_do ks (said c m) h)"
proof -
  let ?s = "noted now c payload m s" and ?h = "speak c (FromRouteId m) h"
  note J = implements_noted [OF assms(1), of now c payload m]
  note turn = turn_decoded [OF assms(3,4), of ks now c s]
  show ?thesis
  proof (cases "t = RouteMessageTypeHeartBeat")
    case hb: True
    show ?thesis
    proof (cases "\<exists>d info. Data m = Some d \<and> Unmarshal decode_RpcServerInfo zero_RpcServerInfo d = (info, True)")
      case True
      then obtain d info where d: "Data m = Some d" "Unmarshal decode_RpcServerInfo zero_RpcServerInfo d = (info, True)"
        by blast
      then have "says_hello payload (FromRouteId m) info m"
        using assms(3,4) hb by (simp add: says_hello_def)
      from implements_hello [OF assms(1,2) this] d assms(4) hb show ?thesis by (simp add: said_def)
    next
      case False
      then have "handleHeartBeat ks now m c ?s = ?s"
        by (auto simp: handleHeartBeat_def split: option.split prod.split)
      moreover have "said c m = Speak c (FromRouteId m)"
        using False assms(4) hb by (auto simp: said_def split: option.split prod.split)
      ultimately show ?thesis using J by (simp add: turn hb handleRouteMessage_def)
    qed
  next
    case False
    show ?thesis
    proof (cases "forwarded m")
      case True
      have "implements (forwardToTarget m (?s\<lparr>srv_rpcStats := r\<rparr>)) (pass_on m ?h)" for r
        using J by (intro implements_forward) (simp add: implements_stats)
      then have "implements (handleRouteMessage ks now m t c ?s) (pass_on m ?h)"
        using True implements_forward [OF J] False assms(4)
        by (auto simp: forwarded_def handleRouteMessage_def handleRpcResponse_def)
      with True False assms(4) show ?thesis by (simp add: turn said_def)
    next
      case local: False
      have "implements (handleRpcResponse m ?s) ?h" if "ToRouteId m = ''debug-admin''"
        using that J by (simp add: handleRpcResponse_def implements_def Let_def split: option.split)
      then have "implements (handleRouteMessage ks now m t c ?s) ?h"
        using local J False assms(4) by (simp add: handleRouteMessage_def forwarded_def)
      with local False assms(4) show ?thesis by (simp add: turn said_def)
    qed
  qed
qed

lemma enumerates_hub: "implements s h \<Longrightarrow> enumerates ks (hub_members h) \<longleftrightarrow> enumerates ks (srv_sessions s)"
  by (auto simp: implements_def enumerates_def dom_def)

lemma hub_step:
  assumes "server_ok s" "implements s h" "server_step s e s'"
  shows "\<exists>ks. enumerates ks (hub_members (hub_do ks (hub_event_of s e) h)) \<and>
    implements s' (hub_do ks (hub_event_of s e) h)"
proof -
  have ok: "sessions_ok (srv_sessions s)" using assms(1) by (rule server_okD)
  then obtain ks0 where ks0: "enumerates ks0 (srv_sessions s)"
    by (metis enumerates_def sessions_ok_def finite_distinct_list)
  from assms(3) show ?thesis
  proof cases
    case (accept c addr)
    have "implements s' (hub_do ks0 (Join c addr) h)"
      using assms(2) by (simp add: accept implements_def accept_conn_def)
    moreover have "enumerates ks0 (srv_sessions s')" using ks0 by (simp add: accept accept_conn_def)
    ultimately show ?thesis using enumerates_hub by (fastforce simp: accept(1) hub_event_of_def)
  next
    case (turn c ks now res)
    have "implements s' (hub_do ks (hub_event_of s e) h)"
    proof (cases res)
      case (Inl err)
      with implements_leave [OF assms(2) ok] show ?thesis by (simp add: turn hub_event_of_def)
    next
      case (Inr payload)
      show ?thesis
      proof (cases "\<exists>m t. DecodeRouteMessagePayload payload = Inr m \<and> MessageType m = Some t")
        case True
        with Inr implements_said [OF assms(2) ok] show ?thesis by (auto simp: turn hub_event_of_def)
      next
        case False
        then have "hub_event_of s e = Quiet"
          by (auto simp: turn Inr hub_event_of_def split: sum.split)
        moreover have "implements s' h"
          using False by (intro implements_cong [OF assms(2)])
            (auto simp: turn(3) Inr handleConn_turn_def handle_payload_def Let_def split: sum.split option.split)
        ultimately show ?thesis by simp
      qed
    qed
    then show ?thesis using turn(4) enumerates_hub by blast
  next
    case (remove offline ks)
    have "implements s' (hub_do ks (hub_event_of s e) h)"
      using implements_expel [OF assms(2) ok, of ks offline] by (simp add: remove hub_event_of_def)
    then show ?thesis using remove(4) enumerates_hub by blast
  qed (use assms(2) ks0 enumerates_hub [OF assms(2)] in
      \<open>auto simp: hub_event_of_def implements_def checkHeartbeat_collect_def expire_debug_def Shutdown_def\<close>)
qed

lemma hub_simulates:
  assumes "server_run s es s'" "server_ok s" "implements s h"
  shows "\<exists>hes h'. hub_run h hes h' \<and> list_all2 (\<lambda>e he. \<exists>s. he = hub_event_of s e) es hes \<and> implements s' h'"
  using assms
proof (induction arbitrary: h rule: server_run.induct)
  case (run_Nil s)
  then show ?case by (blast intro: hub_run.intros)
next
  case (run_Cons s e s1 es s')
  obtain ks where ks: "enumerates ks (hub_members (hub_do ks (hub_event_of s e) h))"
    "implements s1 (hub_do ks (hub_event_of s e) h)"
    using hub_step [OF run_Cons.prems run_Cons.hyps(1)] by blast
  from run_Cons.IH [OF server_ok_step [OF run_Cons.hyps(1) run_Cons.prems(1)] ks(2)]
  obtain hes h' where "hub_run (hub_do ks (hub_event_of s e) h) hes h'"
    "list_all2 (\<lambda>e he. \<exists>s. he = hub_event_of s e) es hes" "implements s' h'" by blast
  with hub_Cons [OF refl ks(1)] show ?case by (intro exI [of _ "hub_event_of s e # hes"] exI [of _ h']) auto
qed

text \<open>
  C5: the router implements the hub: every run of the router, whatever its clients send, is a run of
  the hub on the messages in those bytes, with the same register of nodes at the end; and the
  bytes on each connection are the frames of its mailbox, so that a client reads exactly that
  mail as long as no message in it exceeds the frame limit.
\<close>

theorem router_refines_hub:
  assumes "server_run NewServer es s"
  shows "\<exists>hes h. hub_run hub_new hes h \<and> list_all2 (\<lambda>e he. \<exists>s. he = hub_event_of s e) es hes \<and>
    hub_members h = (\<lambda>k. map_option (\<lambda>t. (sess_Conn t, node_of t)) (srv_sessions s k)) \<and>
    hub_gone h = net_closed (srv_net s) \<and>
    (\<forall>c. net_out (srv_net s) c = concat (List.map wire (hub_mail h c)) \<and>
       (list_all sendable (hub_mail h c) \<longrightarrow>
          received (srv_net s) c = List.map as_received (hub_mail h c)))"
proof -
  obtain hes h where run: "hub_run hub_new hes h" "list_all2 (\<lambda>e he. \<exists>s. he = hub_event_of s e) es hes"
    and h: "implements s h"
    using hub_simulates [OF assms server_ok_NewServer implements_new] by blast
  then show ?thesis
    using received_carries [of "srv_net s" c "hub_mail h c" for c]
    by (intro exI [of _ hes] exI [of _ h]) (auto simp: implements_def carries_def)
qed

theorem router_refines_hub_witness:
  "\<exists>hes h. hub_run hub_new hes h \<and> length hes = 1 \<and> hub_members h = Map.empty"
proof -
  have "server_run NewServer [Accept 7 ''10.0.0.1:80''] (accept_conn 7 ''10.0.0.1:80'' NewServer)"
    by (simp add: NewServer_def)
  from router_refines_hub [OF this] obtain hes h where "hub_run hub_new hes h"
    "list_all2 (\<lambda>e he. \<exists>s. he = hub_event_of s e) [Accept 7 ''10.0.0.1:80''] hes"
    "hub_members h = (\<lambda>k. map_option (\<lambda>t. (sess_Conn t, node_of t))
       (srv_sessions (accept_conn 7 ''10.0.0.1:80'' NewServer) k))" by blast
  then show ?thesis
    by (intro exI [of _ hes] exI [of _ h]) (auto simp: accept_conn_def NewServer_def dest!: list_all2_lengthD)
qed

section \<open>A node gets its mail in order\<close>

definition serves :: "gostring \<Rightarrow> conn \<Rightarrow> server \<Rightarrow> bool" where
  "serves k d s \<longleftrightarrow> (\<exists>t. srv_sessions s k = Some t \<and> sess_Conn t = d) \<and> \<not> net_closed (srv_net s) d \<and>
     (\<forall>j t. srv_sessions s j = Some t \<and> sess_Conn t = d \<longrightarrow> j = k)"

text \<open>The messages for node \<open>k\<close> that an event brings to the router.\<close>

definition sent_by :: "gostring \<Rightarrow> server_event \<Rightarrow> RouteMessage list" where
  "sent_by k e =
     (case e of
        Turn c (Inr payload) _ \<Rightarrow>
          (case DecodeRouteMessagePayload payload of
             Inl _ \<Rightarrow> []
           | Inr m \<Rightarrow> if forwarded m \<and> ToRouteId m = k then [m] else [])
      | _ \<Rightarrow> [])"

definition sent_to :: "gostring \<Rightarrow> server_event list \<Rightarrow> RouteMessage list" where
  "sent_to k es = concat (List.map (sent_by k) es)"

fun posted :: "gostring \<Rightarrow> hub_event \<Rightarrow> RouteMessage list" where
  "posted k (Post c m) = (if ToRouteId m = k then [m] else [])"
| "posted k _ = []"

fun proper :: "conn \<Rightarrow> hub_event \<Rightarrow> bool" where
  "proper d (Join c addr) = (c \<noteq> d)"
| "proper d (Hello c m host port) = (MessageType m = Some RouteMessageTypeHeartBeat)"
| "proper d (Post c m) = forwarded m"
| "proper d _ = True"

lemma not_forwarded [simp]:
  "\<not> forwarded (notice r k)" "\<not> forwarded (conflict_reply k)"
  "MessageType m = Some RouteMessageTypeHeartBeat \<Longrightarrow> \<not> forwarded (route_table_message m ns)"
  by (simp_all add: forwarded_def notice_def conflict_reply_def route_table_message_def message_types)

lemma expel_mail:
  "\<exists>ms. hub_mail (expel ks ids h) d = hub_mail h d @ ms \<and> filter forwarded ms = []"
  by (auto simp: expel_simps filter_empty_conv)

lemma hello_mail:
  assumes "MessageType m = Some RouteMessageTypeHeartBeat"
  shows "\<exists>ms. hub_mail (hello ks c m host port h) d = hub_mail h d @ ms \<and> filter forwarded ms = []"
proof (cases "hub_members h (FromRouteId m)")
  case None
  then show ?thesis by (simp add: hello_def Let_def assms)
next
  case (Some p)
  then show ?thesis by (cases p) (simp add: hello_def Let_def assms)
qed

lemma hub_mail_grows:
  assumes "proper d he" "hub_members h k = Some (d, n)" "\<not> hub_gone h d" "k \<noteq> []"
    and "\<And>j n. hub_members h j = Some (d, n) \<Longrightarrow> j = k"
  shows "\<exists>ms. hub_mail (hub_do ks he h) d = hub_mail h d @ ms \<and> filter forwarded ms = posted k he"
proof (cases he)
  case (Hello c m host port)
  then show ?thesis using assms(1) hello_mail [of m ks c host port "speak c (FromRouteId m) h" d] by simp
next
  case (Post c m)
  show ?thesis
  proof (cases "ToRouteId m = k")
    case True
    then show ?thesis using Post assms(1-4) by (simp add: pass_on_def)
  next
    case False
    then have "\<not> (\<exists>n. hub_members h (ToRouteId m) = Some (d, n))" using assms(5) by blast
    then show ?thesis using Post False by (cases "hub_members h (ToRouteId m)") (auto simp: pass_on_def)
  qed
next
  case (Leave c)
  then show ?thesis using expel_mail [of ks "[hub_name h c]" h d] by simp
next
  case (Expel ids)
  then show ?thesis using expel_mail [of ks ids h d] by simp
qed (use assms(1) in auto)

lemma said_proper [simp]: "proper d (said c m)"
  by (simp add: said_def split: option.split prod.split)

lemma posted_said: "posted k (said c m) = (if forwarded m \<and> ToRouteId m = k then [m] else [])"
  by (simp add: said_def forwarded_def message_types split: option.split prod.split)

lemma posted_event: "posted k (hub_event_of s e) = sent_by k e"
  by (cases e) (auto simp: hub_event_of_def sent_by_def posted_said forwarded_def split: sum.split option.split)

lemma proper_event:
  assumes "d \<in> set (srv_accepted s)" "server_step s e s'"
  shows "proper d (hub_event_of s e)"
  using assms by (cases e) (auto simp: hub_event_of_def split: sum.split option.split)

lemma mail_step:
  assumes "server_ok s" "implements s h" "serves k d s" "k \<noteq> []" "server_step s e s'"
  shows "\<exists>h' ms. implements s' h' \<and> hub_mail h' d = hub_mail h d @ ms \<and> filter forwarded ms = sent_by k e"
proof -
  obtain ks where ks: "implements s' (hub_do ks (hub_event_of s e) h)"
    using hub_step [OF assms(1,2,5)] by blast
  have members: "hub_members h j = map_option (\<lambda>t. (sess_Conn t, node_of t)) (srv_sessions s j)" for j
    by (rule implementsD(1) [OF assms(2)])
  obtain n where n: "hub_members h k = Some (d, n)" using assms(3) by (auto simp: serves_def members)
  have live: "\<not> hub_gone h d" using assms(3) by (simp add: serves_def implementsD(4) [OF assms(2)])
  have only: "j = k" if "hub_members h j = Some (d, n)" for j n
    using that assms(3) by (auto simp: serves_def members)
  have "d \<in> set (srv_accepted s)" using assms(1,3) by (auto simp: serves_def dest: server_okD(3))
  from hub_mail_grows [OF proper_event [OF this assms(5)] n live assms(4) only]
  have "\<exists>ms. hub_mail (hub_do ks (hub_event_of s e) h) d = hub_mail h d @ ms \<and>
      filter forwarded ms = posted k (hub_event_of s e)" .
  with ks show ?thesis unfolding posted_event by blast
qed

lemma mail_run:
  assumes "server_run_with (\<lambda>s e. serves k d s) s es s'" "server_ok s" "implements s h" "k \<noteq> []"
  shows "\<exists>h' ms. implements s' h' \<and> hub_mail h' d = hub_mail h d @ ms \<and> filter forwarded ms = sent_to k es"
  using assms
proof (induction arbitrary: h rule: server_run_with.induct)
  case (with_Nil s)
  then show ?case by (auto simp: sent_to_def)
next
  case (with_Cons s e s1 es s')
  obtain h1 ms where h1: "implements s1 h1" "hub_mail h1 d = hub_mail h d @ ms" "filter forwarded ms = sent_by k e"
    using mail_step [OF with_Cons.prems(1,2) with_Cons.hyps(1) with_Cons.prems(3) with_Cons.hyps(2)] by blast
  obtain h' ms' where "implements s' h'" "hub_mail h' d = hub_mail h1 d @ ms'" "filter forwarded ms' = sent_to k es"
    using with_Cons.IH [OF server_ok_step [OF with_Cons.hyps(2) with_Cons.prems(1)] h1(1) with_Cons.prems(3)] by blast
  with h1 show ?case by (intro exI [of _ h'] exI [of _ "ms @ ms'"]) (simp add: sent_to_def)
qed

text \<open>
  C4: while a node keeps its connection and its id, and the connection serves no other id, the
  router passes it exactly the data messages, requests and responses that any client sends to
  that id, each once, unchanged and in the order in which they reach the router, between the
  route tables and notices it writes itself.
\<close>

theorem node_receives_in_order:
  assumes "server_run NewServer es0 s" "server_run_with (\<lambda>s e. serves k d s) s es s'" "k \<noteq> []"
  shows "\<exists>ms. net_out (srv_net s') d = net_out (srv_net s) d @ concat (List.map wire ms) \<and>
    filter forwarded ms = sent_to k es \<and>
    (\<forall>old. carries (srv_net s) d old \<longrightarrow> list_all sendable ms \<longrightarrow>
       received (srv_net s') d = received (srv_net s) d @ List.map as_received ms)"
proof -
  have ok: "server_ok s" by (rule server_ok_run [OF assms(1) server_ok_NewServer])
  obtain h where h: "implements s h"
    using hub_simulates [OF assms(1) server_ok_NewServer implements_new] by blast
  obtain h' ms where h': "implements s' h'" "hub_mail h' d = hub_mail h d @ ms" "filter forwarded ms = sent_to k es"
    using mail_run [OF assms(2) ok h assms(3)] by blast
  have out: "net_out (srv_net s') d = net_out (srv_net s) d @ concat (List.map wire ms)"
    using implementsD(5) [OF h, of d] implementsD(5) [OF h'(1), of d] by (simp add: h'(2))
  have "received (srv_net s') d = received (srv_net s) d @ List.map as_received ms"
    if "carries (srv_net s) d old" "list_all sendable ms" for old
  proof -
    have "carries (srv_net s') d (old @ ms)" using that out by (simp add: carries_def)
    then show ?thesis using received_carries [OF that(1)] received_carries by fastforce
  qed
  with out h'(3) show ?thesis by blast
qed

theorem node_receives_in_order_witness:
  "\<exists>ms. net_out (srv_net (handleConn_turn [''n'', ''m''] 9 7 (Inr (payload_of scene_call)) scene3)) 8 =
     net_out (srv_net scene3) 8 @ concat (List.map wire ms) \<and> filter forwarded ms = [scene_call]"
proof -
  let ?e = "Turn 7 (Inr (payload_of scene_call)) 9"
  let ?s = "handleConn_turn [''n'', ''m''] 9 7 (Inr (payload_of scene_call)) scene3"
  have run: "server_run NewServer [Accept 7 ''a:1'', Accept 8 ''b:2'',
      Turn 7 (Inr (payload_of (scene_hello ''n''))) 5, Turn 8 (Inr (payload_of (scene_hello ''m''))) 6] scene3"
  proof -
    have "server_step scene1 (Turn 8 (Inr (payload_of (scene_hello ''m''))) 6) scene3"
      by (rule server_step.turn [OF _ scene3_def]) (auto simp: scene1_state scene0_ok scene3_state enumerates_def)
    then have "server_run scene0 [Turn 7 (Inr (payload_of (scene_hello ''n''))) 5,
        Turn 8 (Inr (payload_of (scene_hello ''m''))) 6] scene3"
      using scene1_step by (auto simp del: server_step_simps)
    moreover have accepts: "server_step NewServer (Accept 7 ''a:1'') (accept_conn 7 ''a:1'' NewServer)"
      "server_step (accept_conn 7 ''a:1'' NewServer) (Accept 8 ''b:2'') scene0"
      by (simp_all add: NewServer_def accept_conn_def scene0_def)
    ultimately show ?thesis using run_Cons [OF accepts(1) run_Cons [OF accepts(2)]] by blast
  qed
  have serves: "serves ''m'' 8 scene3"
    by (auto simp: serves_def scene3_state scene0_ok split: if_splits)
  have "srv_sessions ?s = srv_sessions scene3"
    using forward_turn [OF scene_call_decodes scene_call_target(1)] by blast
  then have "server_step scene3 ?e ?s"
    by (intro server_step.turn [OF _ refl]) (auto simp: scene3_state scene0_ok enumerates_def)
  then have "server_run_with (\<lambda>s e. serves ''m'' 8 s) scene3 [?e] ?s"
    using serves by (simp del: server_step_simps)
  moreover have "sent_to ''m'' [?e] = [scene_call]"
    by (simp add: sent_to_def sent_by_def scene_call_decodes scene_call_target(1)) (simp add: scene_call_def)
  ultimately show ?thesis using node_receives_in_order [OF run] by fastforce
qed

end
