(* ===== verification/AnyJson.thy ===== *)
theory AnyJson
  imports ServerRouting
begin

text \<open>
  JSON values decoded into \<open>any\<close> and written again, as the console's debug calls do: a number
  becomes a \<open>float64\<close> and is printed with the fewest digits that read back as it, an object
  becomes a map and is printed with sorted keys. Also \<open>json.NewDecoder\<close> and maps in answers.
\<close>

section \<open>Numbers\<close>

text \<open>The \<open>float64\<close> nearest to \<open>p / q\<close>, as \<open>m\<close> and \<open>e\<close> with value \<open>m * 2^e\<close> and \<open>m < 2^53\<close>.\<close>

definition at_least_pow2 :: "nat \<Rightarrow> nat \<Rightarrow> int \<Rightarrow> bool" where
  "at_least_pow2 p q b = (if b \<ge> 0 then q * 2 ^ nat b \<le> p else q \<le> p * 2 ^ nat (- b))"

definition float_parts :: "nat \<Rightarrow> nat \<Rightarrow> nat \<times> int" where
  "float_parts p q =
     (if p = 0 then (0, -1074)
      else
        let b = int (bit_length p) - int (bit_length q);
            e = max (-1074) (if at_least_pow2 p q b then b - 52 else b - 53);
            m = (if e \<ge> 0 then round_half_even p (q * 2 ^ nat e) else round_half_even (p * 2 ^ nat (- e)) q)
        in if m = 2 ^ 53 then (2 ^ 52, e + 1) else (m, e))"

text \<open>
  The shortest decimal that reads back as \<open>m * 2^e\<close>, as \<open>t\<close> and \<open>k\<close> with value \<open>t * 10^k\<close>: the number
  is cut after 1, 2, \<dots> digits until rounding it down or up stays between its neighbours'
  midpoints \<open>lower\<close> and \<open>upper\<close>. Everything is counted in units of \<open>2^(e - 2) = un / ud\<close>.
\<close>

definition pow10_num :: "int \<Rightarrow> nat" where
  "pow10_num k = (if k \<ge> 0 then 10 ^ nat k else 1)"

definition decimal_exponent :: "nat \<Rightarrow> nat \<Rightarrow> int" where
  "decimal_exponent p q =
     (if q \<le> p then int (length (nat_digits (p div q)))
      else (case find (\<lambda>j. q \<le> p * 10 ^ j) [1..<326] of None \<Rightarrow> -325 | Some j \<Rightarrow> 1 - int j))"

definition float_unit :: "int \<Rightarrow> nat \<times> nat" where
  "float_unit e = (if e \<ge> 2 then (2 ^ nat (e - 2), 1) else (1, 2 ^ nat (2 - e)))"

definition scaled_value :: "nat \<Rightarrow> int \<Rightarrow> int \<Rightarrow> nat \<Rightarrow> nat \<times> nat" where
  "scaled_value m e d k =
     (case float_unit e of (un, ud) \<Rightarrow> (m * un * pow10_num (int k - d), ud * pow10_num (d - int k)))"

definition cut_digits :: "nat \<Rightarrow> int \<Rightarrow> int \<Rightarrow> nat \<Rightarrow> nat" where
  "cut_digits m e d k = (case scaled_value (4 * m) e d k of (p, q) \<Rightarrow> p div q)"

definition rounds_down :: "nat \<Rightarrow> int \<Rightarrow> int \<Rightarrow> nat \<Rightarrow> bool" where
  "rounds_down m e d k =
     (let lower = (if m = 2 ^ 52 \<and> e > -1074 then 4 * m - 1 else 4 * m - 2) in
      case scaled_value lower e d k of (p, q) \<Rightarrow>
        if even m then p \<le> cut_digits m e d k * q else p < cut_digits m e d k * q)"

definition rounds_up :: "nat \<Rightarrow> int \<Rightarrow> int \<Rightarrow> nat \<Rightarrow> bool" where
  "rounds_up m e d k =
     (case scaled_value (4 * m + 2) e d k of (p, q) \<Rightarrow>
        if even m then (cut_digits m e d k + 1) * q \<le> p else (cut_digits m e d k + 1) * q < p)"

definition shortest :: "nat \<Rightarrow> int \<Rightarrow> nat \<times> int" where
  "shortest m e =
     (if m = 0 then (0, 0) else
      let d = (case float_unit e of (un, ud) \<Rightarrow> decimal_exponent (4 * m * un) ud);
          k = (case find (\<lambda>k. rounds_down m e d k \<or> rounds_up m e d k) [1..<18] of
                 None \<Rightarrow> 17 | Some k \<Rightarrow> k);
          t = (if rounds_down m e d k \<and> rounds_up m e d k
               then case_prod round_half_even (scaled_value (4 * m) e d k)
               else if rounds_up m e d k then cut_digits m e d k + 1 else cut_digits m e d k)
      in (t, d - int k))"

text \<open>Digits without trailing zeros, and the position of the decimal point after them.\<close>

definition strip_zeros :: "gostring \<Rightarrow> gostring" where
  "strip_zeros s = rev (dropWhile (\<lambda>c. c = CHR ''0'') (rev s))"

definition exponent_text :: "int \<Rightarrow> gostring" where
  "exponent_text x = ''e'' @ (if x < 0 then ''-'' else ''+'') @ nat_digits (nat \<bar>x\<bar>)"

text \<open>Exponents start at \<open>e+21\<close> and \<open>e-7\<close>; \<open>e-07\<close> is written \<open>e-7\<close>.\<close>

definition decimal_text :: "nat \<Rightarrow> int \<Rightarrow> gostring" where
  "decimal_text t k =
     (if t = 0 then ''0''
      else
        let ds = nat_digits t; dp = int (length ds) + k; s = strip_zeros ds in
        if dp < -5 \<or> dp \<ge> 22 then
          hd s # (if tl s = [] then [] else CHR ''.'' # tl s) @ exponent_text (dp - 1)
        else if dp \<le> 0 then ''0.'' @ replicate (nat (- dp)) (CHR ''0'') @ s
        else if int (length s) \<le> dp then s @ replicate (nat dp - length s) (CHR ''0'')
        else take (nat dp) s @ ''.'' @ drop (nat dp) s)"

definition float_text :: "gostring \<Rightarrow> gostring" where
  "float_text n =
     (case number_parts n of (neg, p, q) \<Rightarrow>
        (if neg then ''-'' else []) @ case_prod decimal_text (case_prod shortest (float_parts p q)))"

section \<open>Objects\<close>

fun insert_key :: "gostring \<times> 'v \<Rightarrow> (gostring \<times> 'v) list \<Rightarrow> (gostring \<times> 'v) list" where
  "insert_key (k, v) [] = [(k, v)]"
| "insert_key (k, v) ((l, w) # ms) =
     (if k = l then (k, v) # ms
      else if string_less k l then (k, v) # (l, w) # ms
      else (l, w) # insert_key (k, v) ms)"

text \<open>A map with these entries, the last one of a key, in the order in which it is written.\<close>

definition map_entries :: "(gostring \<times> 'v) list \<Rightarrow> (gostring \<times> 'v) list" where
  "map_entries ms = foldl (\<lambda>acc m. insert_key m acc) [] ms"

definition json_map :: "(gostring \<times> json) list \<Rightarrow> json" where
  "json_map kvs = JObj (map_entries kvs)"

text \<open>What \<open>any\<close> holds after decoding, as \<open>Marshal\<close> writes it; a number out of range leaves nil.\<close>

fun any_value :: "json \<Rightarrow> json" where
  "any_value (JNum n) = (if float_ok n then JNum (float_text n) else JNull)"
| "any_value (JArr vs) = JArr (List.map any_value vs)"
| "any_value (JObj ms) = JObj (map_entries (List.map (\<lambda>m. (fst m, any_value (snd m))) ms))"
| "any_value v = v"

definition decode_any :: "json \<Rightarrow> json \<times> bool" where
  "decode_any v = (any_value v, any_ok v)"

section \<open>The first value of a stream\<close>

text \<open>\<open>json.NewDecoder(r).Decode(&x)\<close> with \<open>x\<close> a zero value.\<close>

definition Decode :: "(json \<Rightarrow> 'a \<times> bool) \<Rightarrow> 'a \<Rightarrow> gostring \<Rightarrow> 'a \<times> bool" where
  "Decode dec zero body = (case json_parse_first body of None \<Rightarrow> (zero, False) | Some v \<Rightarrow> dec v)"

section \<open>Integers print as they were read\<close>

lemma bit_length_one [simp]: "bit_length (Suc 0) = Suc 0"
  by (subst bit_length.simps) (simp add: bit_length.simps [of 0])

lemma bit_length_bounds: "0 < n \<Longrightarrow> 0 < bit_length n \<and> 2 ^ (bit_length n - 1) \<le> n \<and> n < 2 ^ bit_length n"
proof (induction n rule: bit_length.induct)
  case (1 n)
  show ?case
  proof (cases "n = 1")
    case True
    then show ?thesis by (simp)
  next
    case False
    then have "0 < n div 2" using "1.prems" by linarith
    with 1 have IH: "0 < bit_length (n div 2)" "2 ^ (bit_length (n div 2) - 1) \<le> n div 2"
      "n div 2 < 2 ^ bit_length (n div 2)" by simp_all
    then obtain b where b: "bit_length (n div 2) = Suc b" using gr0_implies_Suc by blast
    have "bit_length n = Suc (Suc b)" using "1.prems" b by (simp add: bit_length.simps [of n])
    with IH b show ?thesis by simp linarith
  qed
qed

lemma float_parts_int:
  assumes "0 < n" "n < 2 ^ 53"
  shows "\<exists>m e. float_parts n 1 = (m, e) \<and> e \<le> 0 \<and> m = n * 2 ^ nat (- e)"
proof -
  define b where "b = bit_length n - 1"
  note bl = bit_length_bounds [OF assms(1)]
  have le: "b \<le> 52" using bit_length_le [OF assms(2)] by (simp add: b_def)
  have bln: "int (bit_length n) - int (bit_length 1) = int b"
    using bl by (simp add: b_def of_nat_diff)
  have two: "2 ^ b \<le> n" "n < 2 ^ Suc b" using bl by (simp_all add: b_def)
  have "n * 2 ^ (52 - b) < 2 ^ Suc b * 2 ^ (52 - b)" using two by simp
  also have "\<dots> = 2 ^ 53" using le by (simp flip: power_add add: Suc_diff_le)
  finally have lt: "n * 2 ^ (52 - b) < 2 ^ 53" .
  have pow: "at_least_pow2 n 1 (int b)" using two by (simp add: at_least_pow2_def)
  have ex: "round_half_even (n * 2 ^ (52 - b)) 1 = n * 2 ^ (52 - b)"
    using round_half_even_exact [of 1 "n * 2 ^ (52 - b)"] by simp
  have e: "max (- 1074) (int b - 52) = int b - 52" "nat (52 - int b) = 52 - b"
    using le by (simp_all add: max_def nat_diff_distrib)
  show ?thesis
  proof (cases "b = 52")
    case True
    then show ?thesis using assms lt pow round_half_even_exact [of 1 n]
      unfolding float_parts_def bln by (simp add: Let_def)
  next
    case False
    then have "\<not> 0 \<le> int b - 52" using le by simp
    then show ?thesis using assms(1) lt pow ex e
      unfolding float_parts_def bln by (simp add: Let_def)
  qed
qed

lemma length_nat_digits_le: "n < 10 ^ k \<Longrightarrow> 0 < k \<Longrightarrow> length (nat_digits n) \<le> k"
proof (induction k arbitrary: n)
  case (Suc k)
  show ?case
  proof (cases "n < 10")
    case False
    then have "n div 10 < 10 ^ k" using Suc.prems by (simp add: less_mult_imp_div_less mult.commute)
    moreover have "0 < k" using False Suc.prems by (cases k) auto
    ultimately show ?thesis using Suc.IH False by (simp add: nat_digits.simps [of n])
  qed (simp add: nat_digits.simps [of n])
qed simp

lemma zero_char: "char_of (48 :: nat) = CHR ''0''"
  by code_simp

lemma nat_digits_pow: "0 < t \<Longrightarrow> nat_digits (t * 10 ^ k) = nat_digits t @ replicate k (CHR ''0'')"
proof (induction k)
  case (Suc k)
  have ten: "t * 10 ^ Suc k = 10 * (t * 10 ^ k)" by simp
  have "\<not> 10 * (t * 10 ^ k) < 10" using Suc.prems by simp
  then show ?case
    using Suc unfolding ten by (subst nat_digits.simps) (simp add: replicate_append_same zero_char)
qed simp

lemma strip_zeros_decomp: "\<exists>j. s = strip_zeros s @ replicate j (CHR ''0'')"
proof -
  have "rev s = takeWhile (\<lambda>c. c = CHR ''0'') (rev s) @ dropWhile (\<lambda>c. c = CHR ''0'') (rev s)" by simp
  moreover have "takeWhile (\<lambda>c. c = CHR ''0'') (rev s) =
      replicate (length (takeWhile (\<lambda>c. c = CHR ''0'') (rev s))) (CHR ''0'')"
    by (rule replicate_eqI) (auto dest: set_takeWhileD)
  ultimately have "s = rev (dropWhile (\<lambda>c. c = CHR ''0'') (rev s)) @
      replicate (length (takeWhile (\<lambda>c. c = CHR ''0'') (rev s))) (CHR ''0'')"
    by (metis rev_append rev_replicate rev_rev_ident)
  then show ?thesis unfolding strip_zeros_def by blast
qed

lemma decimal_text_int:
  assumes "0 < t" "t * 10 ^ j < 10 ^ 16"
  shows "decimal_text t (int j) = nat_digits (t * 10 ^ j)"
proof -
  obtain r where r: "nat_digits t = strip_zeros (nat_digits t) @ replicate r (CHR ''0'')"
    using strip_zeros_decomp by blast
  have len: "length (nat_digits t) = length (strip_zeros (nat_digits t)) + r"
    by (subst r) simp
  have whole: "nat_digits (t * 10 ^ j) = strip_zeros (nat_digits t) @ replicate (r + j) (CHR ''0'')"
    using assms(1) by (subst nat_digits_pow, simp, subst r) (simp add: replicate_add)
  have "length (nat_digits (t * 10 ^ j)) \<le> 16" using length_nat_digits_le [OF assms(2)] by simp
  then have "length (nat_digits t) + j \<le> 16" by (simp add: whole len)
  moreover have "0 < length (nat_digits t)" by simp
  ultimately show ?thesis
    using assms(1) by (simp add: decimal_text_def whole len Let_def nat_add_distrib flip: of_nat_add)
qed

text \<open>
  An integer below \<open>2 ^ 53\<close> has exponent at most zero: \<open>m = n * 2 ^ -e\<close>. Cutting its \<open>d\<close> digits after
  the \<open>k\<close>-th gives it back only if the rest are zeros, and rounding up never does.
\<close>

lemma int_unit:
  fixes n :: nat
  assumes "e \<le> 0" "m = n * 2 ^ nat (- e)"
  obtains ud where "float_unit e = (1, ud)" "4 \<le> ud" "4 * m = n * ud"
proof -
  have "(2::nat) ^ 2 \<le> 2 ^ nat (2 - e)" using assms(1) by (intro power_increasing) simp_all
  moreover have "nat (2 - e) = nat (- e) + 2" using assms(1) by simp
  ultimately show ?thesis
    using that [of "2 ^ nat (2 - e)"] assms by (simp add: float_unit_def power_add)
qed

lemma int_digits:
  assumes e: "e \<le> 0" "m = n * 2 ^ nat (- e)" and k: "0 < n" "k \<le> d"
  shows "cut_digits m e (int d) k = n div 10 ^ (d - k)"
    "rounds_down m e (int d) k \<longleftrightarrow> n div 10 ^ (d - k) * 10 ^ (d - k) = n"
    "\<not> rounds_up m e (int d) k"
proof -
  obtain ud where unit: "float_unit e = (1, ud)" and ud: "4 \<le> ud" and v: "4 * m = n * ud"
    using int_unit [OF e] .
  define T where "T = (10::nat) ^ (d - k)"
  have scaled: "scaled_value x e (int d) k = (x, ud * T)" for x
    using k(2) by (simp add: scaled_value_def unit pow10_num_def T_def nat_diff_distrib)
  have cut: "cut_digits m e (int d) k = n div T"
    using ud by (simp add: cut_digits_def scaled v mult.commute [of n])
  then show "cut_digits m e (int d) k = n div 10 ^ (d - k)" by (simp add: T_def)
  have "rounds_down m e (int d) k \<longleftrightarrow> n div T * T = n"
  proof (cases "n div T * T = n")
    case True
    then have eq: "n div T * (ud * T) = 4 * m" unfolding v by (metis mult.assoc mult.commute)
    have "0 < m" using v ud k(1) by (cases m) simp_all
    with True show ?thesis by (auto simp: rounds_down_def Let_def scaled cut eq)
  next
    case False
    then have "n div T * T + 1 \<le> n" by (simp add: Suc_le_eq le_neq_implies_less div_times_less_eq_dividend)
    then have "(n div T * T + 1) * ud \<le> n * ud" by (rule mult_right_mono) simp
    then have "n div T * (ud * T) + 4 \<le> n * ud" using ud by (simp add: algebra_simps)
    then have "n div T * (ud * T) + 4 \<le> 4 * m" by (simp only: v)
    with False show ?thesis by (auto simp: rounds_down_def Let_def scaled cut)
  qed
  then show "rounds_down m e (int d) k \<longleftrightarrow> n div 10 ^ (d - k) * 10 ^ (d - k) = n" by (simp add: T_def)
  have "0 < T" by (simp add: T_def)
  then have "n + 1 \<le> (n div T + 1) * T" using dividend_less_div_times [of "T" n] by simp
  then have "(n + 1) * ud \<le> (n div T + 1) * T * ud" by (rule mult_right_mono) simp
  then have "n * ud + 4 \<le> (n div T + 1) * (ud * T)" using ud by (simp add: algebra_simps)
  then show "\<not> rounds_up m e (int d) k" by (simp add: rounds_up_def scaled cut v)
qed

lemma find_upt_le:
  assumes "P d" "0 < d" "d < b"
  obtains k where "find P [1..<b] = Some k" "k \<le> d" "P k"
proof -
  have "d \<in> set [1..<b]" using assms by simp
  then have "find P [1..<b] \<noteq> None" using assms(1) by (auto simp: find_None_iff)
  then obtain k where found: "find P [1..<b] = Some k" by blast
  then obtain i where i: "k = 1 + i" "P k" "\<forall>j < i. \<not> P (1 + j)"
    by (auto simp: find_Some_iff)
  moreover have "k \<le> d"
  proof (rule ccontr)
    assume "\<not> k \<le> d"
    with i(1) assms(2) have "d - 1 < i" by simp
    with i(3) have "\<not> P (1 + (d - 1))" by blast
    with assms(1,2) show False by simp
  qed
  ultimately show ?thesis using that [OF found] by blast
qed

lemma shortest_int:
  assumes n: "0 < n" "n < 2 ^ 53" and e: "e \<le> 0" and m: "m = n * 2 ^ nat (- e)"
  shows "\<exists>t j. shortest m e = (t, int j) \<and> t * 10 ^ j = n"
proof -
  define d where "d = length (nat_digits n)"
  obtain ud where unit: "float_unit e = (1, ud)" and ud: "4 \<le> ud" and v: "4 * m = n * ud"
    using int_unit [OF e m] .
  have dec: "(case float_unit e of (un, ud) \<Rightarrow> decimal_exponent (4 * m * un) ud) = int d"
    using n ud by (simp add: unit decimal_exponent_def v d_def)
  have "n < 10 ^ 16" using n by simp
  then have d16: "0 < d" "d < 18" using length_nat_digits_le [of n 16] by (simp_all add: d_def)
  let ?P = "\<lambda>k. rounds_down m e (int d) k \<or> rounds_up m e (int d) k"
  have "?P d" using int_digits(2) [OF e m n(1) order.refl] by simp
  then obtain k where k: "find ?P [1..<18] = Some k" "k \<le> d" "?P k"
    using find_upt_le [of ?P d 18] d16 by blast
  note digits = int_digits [OF e m n(1) k(2)]
  have "shortest m e = (n div 10 ^ (d - k), int d - int k)"
    unfolding shortest_def dec Let_def k(1) using n m digits by simp
  then have "shortest m e = (n div 10 ^ (d - k), int (d - k))" using k(2) by (simp add: of_nat_diff)
  moreover have "n div 10 ^ (d - k) * 10 ^ (d - k) = n" using k(3) digits by blast
  ultimately show ?thesis by blast
qed

text \<open>Integers of less than 2\<open>^\<close>53 in absolute value are printed as they were read.\<close>

lemma float_text_Itoa:
  assumes "\<bar>i\<bar> < 2 ^ 53"
  shows "float_text (Itoa i) = Itoa i"
proof (cases "i = 0")
  case True
  show ?thesis
    unfolding True float_text_def number_parts_Itoa
    by (simp add: float_parts_def shortest_def decimal_text_def Itoa_def nat_digits.simps [of 0] zero_char)
next
  case False
  let ?n = "nat \<bar>i\<bar>"
  have n: "0 < ?n" "?n < 2 ^ 53" using False assms by (simp_all add: nat_less_iff)
  obtain m e where me: "float_parts ?n 1 = (m, e)" "e \<le> 0" "m = ?n * 2 ^ nat (- e)"
    using float_parts_int [OF n] by blast
  obtain t j where tj: "shortest m e = (t, int j)" "t * 10 ^ j = ?n"
    using shortest_int [OF n me(2,3)] by blast
  have "0 < t" using tj(2) n(1) by (cases t) auto
  then have "decimal_text t (int j) = nat_digits ?n"
    using decimal_text_int [of t j] n(2) tj(2) by simp
  then show ?thesis
    using False unfolding float_text_def number_parts_Itoa prod.case me(1) tj(1) by (simp add: Itoa_def)
qed


section \<open>Maps\<close>

lemma insert_key_new: "k \<notin> fst ` set ms \<Longrightarrow> mset (insert_key (k, v) ms) = add_mset (k, v) (mset ms)"
  by (induction "(k, v)" ms rule: insert_key.induct) auto

definition keys_sorted :: "(gostring \<times> 'v) list \<Rightarrow> bool" where
  "keys_sorted ms \<longleftrightarrow> sorted_wrt string_less (List.map fst ms)"

lemma insert_key_last:
  "sorted_wrt string_less (List.map fst ms @ [k]) \<Longrightarrow> insert_key (k, v) ms = ms @ [(k, v)]"
proof (induction ms)
  case (Cons m ms)
  obtain l w where m: "m = (l, w)" by (cases m)
  have "string_less l k" using Cons.prems m by (simp add: sorted_wrt_append)
  then have "k \<noteq> l" "\<not> string_less k l" using string_less_irrefl string_less_trans by blast+
  with Cons m show ?case by simp
qed simp

lemma map_entries_sorted: "keys_sorted ms \<Longrightarrow> map_entries ms = ms"
proof (induction ms rule: rev_induct)
  case (snoc m ms)
  obtain k v where m: "m = (k, v)" by (cases m)
  have "map_entries ms = ms" using snoc by (simp add: keys_sorted_def sorted_wrt_append)
  then show ?case
    using snoc.prems insert_key_last [of ms k v] by (simp add: map_entries_def keys_sorted_def m)
qed (simp add: map_entries_def)

lemma set_insert_key: "set (insert_key (k, v) ms) \<subseteq> insert (k, v) (set ms)"
  by (induction "(k, v)" ms rule: insert_key.induct) auto

lemma keys_insert_key: "fst ` set (insert_key (k, v) ms) = insert k (fst ` set ms)"
  by (induction "(k, v)" ms rule: insert_key.induct) auto

lemma keys_sorted_insert: "keys_sorted ms \<Longrightarrow> keys_sorted (insert_key (k, v) ms)"
proof (induction "(k, v)" ms rule: insert_key.induct)
  case (2 l w ms)
  consider "k = l" | "k \<noteq> l" "string_less k l" | "k \<noteq> l" "string_less l k"
    using string_less_total by blast
  then show ?case
  proof cases
    case 2
    then show ?thesis using "2.prems" by (auto simp: keys_sorted_def intro: string_less_trans)
  next
    case 3
    then have "\<not> string_less k l" using string_less_irrefl string_less_trans by blast
    with 3 2 show ?thesis
      using keys_insert_key [of k v ms] by (auto simp: keys_sorted_def)
  qed (use 2 in \<open>simp add: keys_sorted_def\<close>)
qed (simp add: keys_sorted_def)

lemma keys_sorted_map_entries: "keys_sorted (map_entries ms)"
proof (induction ms rule: rev_induct)
  case (snoc m ms)
  then show ?case by (cases m) (simp add: map_entries_def keys_sorted_insert)
qed (simp add: map_entries_def keys_sorted_def)

lemma map_of_insert_key: "map_of (insert_key (k, v) ms) l = (if l = k then Some v else map_of ms l)"
  by (induction "(k, v)" ms rule: insert_key.induct) auto

lemma map_of_map_entries: "map_of (map_entries ms) = map_of (rev ms)"
proof (induction ms rule: rev_induct)
  case (snoc m ms)
  then show ?case by (cases m) (simp add: map_entries_def map_of_insert_key fun_eq_iff)
qed (simp add: map_entries_def)

section \<open>Values that survive\<close>

text \<open>Integers that \<open>float64\<close> holds, and objects whose keys are sorted and distinct.\<close>

fun any_exact :: "json \<Rightarrow> bool" where
  "any_exact (JNum n) = (case Atoi n of None \<Rightarrow> False | Some i \<Rightarrow> n = Itoa i \<and> \<bar>i\<bar> < 2 ^ 53)"
| "any_exact (JArr vs) = list_all any_exact vs"
| "any_exact (JObj ms) = (sorted_wrt string_less (List.map fst ms) \<and> list_all (\<lambda>m. any_exact (snd m)) ms)"
| "any_exact v = True"

lemma any_value_exact: "any_exact v \<Longrightarrow> any_value v = v \<and> any_ok v \<and> wf_json v"
proof (induction v)
  case (JNum n)
  then show ?case by (auto simp: float_text_Itoa float_Itoa split: option.splits)
next
  case (JArr vs)
  then show ?case by (auto simp: list_all_iff intro: map_idI)
next
  case (JObj ms)
  have "any_value v = v \<and> any_ok v \<and> wf_json v" if "(k, v) \<in> set ms" for k v
    using JObj that by (auto simp: list_all_iff prod_set_defs)
  note vals = this
  then have "List.map (\<lambda>m. (fst m, any_value (snd m))) ms = ms"
    by (auto intro!: map_idI)
  moreover have "map_entries ms = ms" using JObj.prems by (simp add: map_entries_sorted keys_sorted_def)
  ultimately show ?case using vals by (auto simp: list_all_iff)
qed simp_all

text \<open>The first integer that does not.\<close>

lemma length_nat_digits:
  "length (nat_digits n) = (if n < 10 then 1 else Suc (length (nat_digits (n div 10))))"
  by (subst nat_digits.simps) simp

lemma float_text_rounds: "float_text (Itoa 9007199254740993) = Itoa 9007199254740992"
proof -
  have bl: "bit_length 9007199254740993 = 54" by (simp add: bit_length.simps)
  have parts: "float_parts 9007199254740993 1 = (2 ^ 52, 1)"
    by (simp add: float_parts_def bl at_least_pow2_def round_half_even_def Let_def)
  have d: "decimal_exponent (4 * 2 ^ 52 * 1) 2 = 16" by (simp add: decimal_exponent_def length_nat_digits)
  note unit = scaled_value_def float_unit_def pow10_num_def
  have k: "find (\<lambda>k. rounds_down (2 ^ 52) 1 16 k \<or> rounds_up (2 ^ 52) 1 16 k) [1..<18] = Some 16"
    by (simp add: rounds_down_def rounds_up_def cut_digits_def unit upt_conv_Cons Let_def)
  have at16: "rounds_up (2 ^ 52) 1 16 16" "rounds_down (2 ^ 52) 1 16 16"
      "case_prod round_half_even (scaled_value (4 * 2 ^ 52) 1 16 16) = 9007199254740992"
    by (simp_all add: rounds_up_def rounds_down_def cut_digits_def unit round_half_even_def Let_def)
  have d': "(case float_unit 1 of (un, ud) \<Rightarrow> decimal_exponent (4 * 2 ^ 52 * un) ud) = 16"
    using d by (simp add: float_unit_def)
  have "shortest (2 ^ 52) 1 = (9007199254740992, int 0)"
    unfolding shortest_def d' Let_def k using at16 by simp
  then show ?thesis
    using decimal_text_int [of 9007199254740992 0]
    unfolding float_text_def number_parts_Itoa by (simp add: parts [simplified] Itoa_def)
qed

section \<open>A printed object is read whole\<close>

text \<open>No proper prefix of an object's text is a value, so a decoder reads all of it.\<close>

lemma emit_append [simp]: "emit t (ts @ us) = emit t ts @ us"
  by (cases t) simp_all

lemma lex_start_mode: "lex_start c = Some (t, m) \<Longrightarrow> t = None \<Longrightarrow> m = LNone \<Longrightarrow> json_space c"
  by (auto simp: lex_start_def split: if_splits)

lemma lex_append:
  "lex m p = Some ts \<Longrightarrow>
     lex m (p @ q) = map_option ((@) ts) (lex LNone q) \<or> (ts \<noteq> [] \<and> (\<exists>n. last ts = TNum n))"
proof (induction m p arbitrary: ts rule: lex.induct)
  case (2 acc)
  then show ?case by (auto split: if_splits)
next
  case (4 c cs)
  then obtain t m ts' where t: "lex_start c = Some (t, m)" "lex m cs = Some ts'" "ts = emit t ts'"
    by (auto simp: lex.simps(7) split: option.splits)
  from "4.IH" [OF t(1) refl t(2)] t show ?case
    by (cases "lex LNone q"; cases t) (auto simp: lex.simps(7))
next
  case (5 acc c cs)
  show ?case
  proof (cases "number_char c")
    case True
    with 5 show ?thesis by simp
  next
    case False
    then obtain t m ts' where t: "valid_number (rev acc)" "lex_start c = Some (t, m)" "lex m cs = Some ts'"
        "ts = TNum (rev acc) # emit t ts'"
      using "5.prems" by (auto split: if_splits option.splits)
    from "5.IH"(2) [OF False t(1,2) refl t(3)] t False show ?thesis
      by (cases "lex LNone q"; cases t) auto
  qed
qed (cases "lex LNone q"; force simp: option.map_ident option.map_comp comp_def split: if_splits option.splits list.splits)+

lemma lex_empty: "lex m s = Some [] \<Longrightarrow> m = LNone \<and> list_all json_space s"
proof (induction m s rule: lex.induct)
  case (4 c cs)
  then obtain t m ts where t: "lex_start c = Some (t, m)" "lex m cs = Some ts" "emit t ts = []"
    by (auto simp: lex.simps(7) split: option.splits)
  then have "t = None" "ts = []" by (cases t; simp)+
  with t 4 lex_start_mode show ?case by auto
qed (auto split: if_splits option.splits list.splits)

lemma deliver_not_start [simp]: "deliver v cs \<noteq> WantValue []"
  by (cases "(v, cs)" rule: deliver.cases) auto

lemma feed_not_start: "feed t st \<noteq> Some (WantValue [])"
proof -
  have "feed_value t cs \<noteq> Some (WantValue [])" for cs by (cases t) auto
  then show ?thesis by (cases st) (auto split: jtoken.splits)
qed

lemma parse_not_start: "ts \<noteq> [] \<Longrightarrow> parse_tokens ts st \<noteq> Some (WantValue [])"
proof (induction ts rule: rev_induct)
  case (snoc t ts)
  then show ?case using feed_not_start by (auto simp: parse_tokens_append split: option.splits)
qed simp

lemma feed_number_finished: "feed (TNum n) st = Some (Finished v) \<Longrightarrow> st = WantValue []"
proof -
  have "deliver w cs = Finished v \<Longrightarrow> cs = []" for w cs
    by (cases "(w, cs)" rule: deliver.cases) auto
  then show "feed (TNum n) st = Some (Finished v) \<Longrightarrow> st = WantValue []"
    by (cases st) (auto split: if_splits)
qed

lemma json_parse_proper_prefix:
  assumes "wf_json (JObj ms)" "json_print (JObj ms) = p @ q" "q \<noteq> []"
  shows "json_parse p = None"
proof (rule ccontr)
  assume "json_parse p \<noteq> None"
  then obtain ts v where ts: "lex LNone p = Some ts" "parse_tokens ts (WantValue []) = Some (Finished v)"
    by (auto simp: json_parse_def split: option.splits pstate.splits)
  have "p \<noteq> []" using ts by (cases p) auto
  then obtain p' where p: "p = CHR 0x7B # p'" using assms(2) by (cases p) auto
  have "lex_start (CHR 0x7B) = Some (Some TLBrace, LNone)" by (simp add: lex_start_def json_space_def punct_def)
  then obtain ts' where ts': "ts = TLBrace # ts'" using ts(1) by (auto simp: p lex.simps(7))
  have "\<not> (\<exists>n. last ts = TNum n)"
  proof
    assume "\<exists>n. last ts = TNum n"
    then obtain ts0 n where ts0: "ts = ts0 @ [TNum n]" using ts' by (metis append_butlast_last_id list.distinct(1))
    with ts' have "ts0 \<noteq> []" by (cases ts0) auto
    from ts(2) ts0 obtain st where "parse_tokens ts0 (WantValue []) = Some st" "feed (TNum n) st = Some (Finished v)"
      by (auto simp: parse_tokens_append split: option.splits)
    with feed_number_finished parse_not_start [OF \<open>ts0 \<noteq> []\<close>] show False by blast
  qed
  with lex_append [OF ts(1), of q] have app: "lex LNone (p @ q) = map_option ((@) ts) (lex LNone q)" by blast
  have "lex LNone (p @ q) = Some (tokens_of (JObj ms))"
    using lexes_to_print [OF assms(1), unfolded lexes_to_def, rule_format, of "[]"]
    unfolding assms(2) by (simp del: tokens_of.simps)
  with app have "map_option ((@) ts) (lex LNone q) = Some (tokens_of (JObj ms))" by (simp only:)
  then have "\<exists>us. lex LNone q = Some us \<and> ts @ us = tokens_of (JObj ms)"
    by (simp only: map_option_eq_Some)
  then obtain us where us0: "lex LNone q = Some us \<and> ts @ us = tokens_of (JObj ms)" ..
  note us = us0 [THEN conjunct1] us0 [THEN conjunct2, symmetric]
  have "parse_tokens (ts @ us) (WantValue []) = Some (Finished (JObj ms))"
    using parse_tokens_of [of "JObj ms" "[]"] unfolding us(2) by simp
  then have "us = []" using ts(2) by (cases us) (auto simp: parse_tokens_append)
  with us(1) have "list_all json_space q" using lex_empty by blast
  moreover have "last q = CHR 0x7D" using arg_cong [OF assms(2), of last] assms(3) by simp
  moreover have "last q \<in> set q" using assms(3) by simp
  ultimately have "json_space (CHR 0x7D)" by (metis list_all_iff)
  then show False by (simp add: json_space_def)
qed

lemma first_full:
  assumes "json_parse s = Some v" "\<And>n. n < length s \<Longrightarrow> json_parse (take n s) = None"
  shows "json_parse_first s = Some v"
proof -
  have "List.map_filter (\<lambda>n. json_parse (take n s)) [0..<length s] = []"
    by (simp add: List.map_filter_def filter_empty_conv assms(2))
  then show ?thesis by (simp add: json_parse_first_def List.map_filter_def assms(1))
qed

lemma json_parse_first_object:
  assumes "wf_json (JObj ms)"
  shows "json_parse_first (json_print (JObj ms)) = Some (JObj ms)"
proof (rule first_full)
  show "json_parse (json_print (JObj ms)) = Some (JObj ms)" using assms by (rule json_parse_print)
next
  fix n
  assume "n < length (json_print (JObj ms))"
  then show "json_parse (take n (json_print (JObj ms))) = None"
    by (intro json_parse_proper_prefix [OF assms, of _ "drop n (json_print (JObj ms))"])
      (simp_all del: json_print.simps)
qed

lemma Decode_object:
  "wf_json (JObj ms) \<Longrightarrow> Decode dec zero (json_print (JObj ms)) = dec (JObj ms)"
  by (simp del: json_print.simps wf_json.simps add: Decode_def json_parse_first_object)

end
