(* ===== verification/Jwt.thy ===== *)
theory Jwt
  imports AnyJson
begin

text \<open>
  \<open>internal/VirtualRouterServer/jwt.go\<close>: the tokens of the admin console. Signing and parsing are
  those of the package \<open>golang-jwt/jwt/v5\<close>, which is not part of the repository: both are fields
  of a parameter, and \<open>jwt_ok\<close> states the documented behaviour the code relies on. Times are
  nanoseconds since 1970; each function reads the clock once.
\<close>

type_synonym claims = "gostring \<rightharpoonup> json"

record jwt_lib =
  jl_sign :: "gostring \<Rightarrow> claims \<Rightarrow> gostring option" \<comment> \<open>secret, claims; None: an error\<close>
  jl_parse :: "gostring \<Rightarrow> int \<Rightarrow> gostring \<Rightarrow> claims option" \<comment> \<open>secret, now, token; None: an error\<close>

definition jwtSecret :: gostring where
  "jwtSecret = ''VirtualRouter-Center-Server-JWT-Secret-Key-Please-Change-In-Production-2024''"

definition second :: int where "second = 1000000000"

definition tokenExpire :: int where "tokenExpire = 24 * 60 * 60 * second"

definition refreshThreshold :: int where "refreshThreshold = 2 * 60 * 60 * second"

definition Unix :: "int \<Rightarrow> int" where "Unix t = t div second"

definition token_claims :: "gostring \<Rightarrow> int \<Rightarrow> claims" where
  "token_claims userId now =
     [''sub'' \<mapsto> JStr userId, ''iat'' \<mapsto> JNum (Itoa (Unix now)),
      ''exp'' \<mapsto> JNum (Itoa (Unix (now + tokenExpire)))]"

definition GenerateToken :: "jwt_lib \<Rightarrow> int \<Rightarrow> gostring \<Rightarrow> gostring option" where
  "GenerateToken lib now userId = jl_sign lib jwtSecret (token_claims userId now)"

definition ValidateToken :: "jwt_lib \<Rightarrow> int \<Rightarrow> gostring \<Rightarrow> bool" where
  "ValidateToken lib now tokenStr \<longleftrightarrow> jl_parse lib jwtSecret now tokenStr \<noteq> None"

definition parseClaims :: "jwt_lib \<Rightarrow> int \<Rightarrow> gostring \<Rightarrow> claims option" where
  "parseClaims lib now tokenStr = jl_parse lib jwtSecret now tokenStr"

definition claim_string :: "claims \<Rightarrow> gostring \<Rightarrow> gostring" where
  "claim_string cs k = (case cs k of Some (JStr s) \<Rightarrow> s | _ \<Rightarrow> [])"

definition RefreshToken :: "jwt_lib \<Rightarrow> int \<Rightarrow> gostring \<Rightarrow> gostring option" where
  "RefreshToken lib now tokenStr =
     (case parseClaims lib now tokenStr of
        None \<Rightarrow> None
      | Some cs \<Rightarrow>
          let userId = claim_string cs ''sub'' in
          if userId = [] then None else GenerateToken lib now userId)"

text \<open>\<open>time.Until\<close> of the claim \<open>exp\<close>, if that is a number.\<close>

definition remaining_time :: "claims \<Rightarrow> int \<Rightarrow> int option" where
  "remaining_time cs now =
     (case cs ''exp'' of Some (JNum n) \<Rightarrow> Some (float_to_int n * second - now) | _ \<Rightarrow> None)"

definition ShouldRefreshToken :: "jwt_lib \<Rightarrow> int \<Rightarrow> gostring \<Rightarrow> bool" where
  "ShouldRefreshToken lib now tokenStr =
     (case parseClaims lib now tokenStr of
        None \<Rightarrow> True
      | Some cs \<Rightarrow>
          (case remaining_time cs now of None \<Rightarrow> True | Some remaining \<Rightarrow> remaining < refreshThreshold))"

definition GetTokenRemainingSeconds :: "jwt_lib \<Rightarrow> int \<Rightarrow> gostring \<Rightarrow> int" where
  "GetTokenRemainingSeconds lib now tokenStr =
     (case parseClaims lib now tokenStr of
        None \<Rightarrow> 0
      | Some cs \<Rightarrow>
          (case remaining_time cs now of
             None \<Rightarrow> 0
           | Some remaining \<Rightarrow> if remaining < 0 then 0 else remaining div second))"

section \<open>What the package promises\<close>

text \<open>
  Claims whose numbers \<open>float64\<close> holds are signed without error under the program's secret, and the
  token parses under it, to the same claims, as long as now is before the claim \<open>exp\<close>. Nothing
  is said of other secrets. The empty text is no token.
\<close>

definition jwt_ok :: "jwt_lib \<Rightarrow> bool" where
  "jwt_ok lib \<longleftrightarrow>
     (\<forall>now userId. \<bar>Unix now\<bar> < 2 ^ 52 \<longrightarrow> (\<exists>t. jl_sign lib jwtSecret (token_claims userId now) = Some t \<and> t \<noteq> [] \<and>
        (\<forall>now'. jl_parse lib jwtSecret now' t =
           (if now' < Unix (now + tokenExpire) * second then Some (token_claims userId now) else None)))) \<and>
     (\<forall>now. jl_parse lib jwtSecret now [] = None)"

section \<open>Properties\<close>

lemma Unix_bounds: "Unix now * second \<le> now" "now < Unix now * second + second"
proof -
  show "Unix now * second \<le> now" by (simp add: Unix_def second_def)
  show "now < Unix now * second + second"
    using pos_mod_bound [of second now] div_mult_mod_eq [of now second] by (simp add: Unix_def second_def)
qed

lemma Unix_expire: "Unix (now + tokenExpire) = Unix now + 86400"
  by (simp add: Unix_def tokenExpire_def second_def)

lemma token_facts:
  assumes "jwt_ok lib" "\<bar>Unix now\<bar> < 2 ^ 52"
  shows "\<exists>t. GenerateToken lib now user = Some t \<and> t \<noteq> [] \<and>
    (\<forall>now'. parseClaims lib now' t =
       (if now' < Unix (now + tokenExpire) * second then Some (token_claims user now) else None))"
  using assms unfolding jwt_ok_def GenerateToken_def parseClaims_def by (metis (full_types))

lemma Validate_parse: "ValidateToken lib now t \<longleftrightarrow> parseClaims lib now t \<noteq> None"
  by (simp add: ValidateToken_def parseClaims_def)

lemma remaining_token:
  assumes "\<bar>Unix now\<bar> < 2 ^ 52"
  shows "remaining_time (token_claims user now) now' = Some (Unix (now + tokenExpire) * second - now')"
proof -
  have "\<bar>Unix (now + tokenExpire)\<bar> < 2 ^ 53" using assms by (simp add: Unix_expire)
  then show ?thesis by (simp add: remaining_time_def token_claims_def float_Itoa)
qed

text \<open>
  A token that was issued is accepted for one day, less the fraction of the second in which it
  was issued, and never after; while it lives the remaining seconds are exact, the client is
  told to refresh in the last two hours and after the end, and refreshing gives a token for the
  same user that lives a day from then.
\<close>

theorem token_lifetime:
  assumes "jwt_ok lib" "\<bar>Unix now\<bar> < 2 ^ 52" "\<bar>Unix now'\<bar> < 2 ^ 52" "GenerateToken lib now user = Some t" "user \<noteq> []"
    and "end = (Unix now + 86400) * second"
  shows "(ValidateToken lib now' t \<longleftrightarrow> now' < end) \<and> end \<le> now + tokenExpire \<and> now + tokenExpire < end + second \<and>
    GetTokenRemainingSeconds lib now' t = max 0 ((end - now') div second) \<and>
    (ShouldRefreshToken lib now' t \<longleftrightarrow> end - 2 * 60 * 60 * second < now') \<and>
    (RefreshToken lib now' t = (if now' < end then GenerateToken lib now' user else None))"
proof -
  have e: "Unix (now + tokenExpire) * second = end" by (simp add: assms(6) Unix_expire)
  have parse: "parseClaims lib n t = (if n < end then Some (token_claims user now) else None)" for n
    using token_facts [OF assms(1,2), of user] assms(4) e by auto
  note rem = remaining_token [OF assms(2), of user, unfolded e]
  have "end \<le> now + tokenExpire" "now + tokenExpire < end + second"
    using Unix_bounds [of "now + tokenExpire"] e by simp_all
  moreover have "claim_string (token_claims user now) ''sub'' = user"
    by (simp add: claim_string_def token_claims_def)
  moreover have "0 \<le> (end - now') div second" if "now' < end"
    using that by (simp add: second_def)
  moreover have "(end - now') div second \<le> 0" if "\<not> now' < end"
    using that div_nonpos_pos_le0 [of "end - now'" second] by (simp add: second_def)
  ultimately show ?thesis
    using assms(5) by (auto simp: Validate_parse parse GetTokenRemainingSeconds_def ShouldRefreshToken_def
        RefreshToken_def rem refreshThreshold_def second_def)
qed

text \<open>A library that satisfies the hypotheses: the claims in the clear, with the secret.\<close>

definition toy_jwt :: jwt_lib where
  "toy_jwt = \<lparr>
     jl_sign = (\<lambda>secret cs. Some (json_print (JArr [JStr secret, the (cs ''sub''), the (cs ''iat''), the (cs ''exp'')]))),
     jl_parse = (\<lambda>secret now t.
       case json_parse t of
         Some (JArr [JStr s, sub, iat, JNum e]) \<Rightarrow>
           if s = secret \<and> now < float_to_int e * second
           then Some [''sub'' \<mapsto> sub, ''iat'' \<mapsto> iat, ''exp'' \<mapsto> JNum e] else None
       | _ \<Rightarrow> None)\<rparr>"

lemma toy_jwt_ok: "jwt_ok toy_jwt"
proof -
  have "json_parse [] = None" by code_simp
  moreover have "json_print (JArr vs) \<noteq> []" for vs by simp
  moreover have "\<bar>Unix (now + tokenExpire)\<bar> < 2 ^ 53" if "\<bar>Unix now\<bar> < 2 ^ 52" for now
    using that by (simp add: Unix_expire)
  ultimately show ?thesis
    by (auto simp del: json_print.simps simp: jwt_ok_def toy_jwt_def token_claims_def float_Itoa)
qed

theorem token_lifetime_witness:
  "ValidateToken toy_jwt (86399 * second) (the (GenerateToken toy_jwt 5 ''admin'')) \<and>
   \<not> ValidateToken toy_jwt (86400 * second) (the (GenerateToken toy_jwt 5 ''admin''))"
proof -
  obtain t where t: "GenerateToken toy_jwt 5 ''admin'' = Some t"
    using token_facts [OF toy_jwt_ok, of 5 "''admin''"] by (auto simp: Unix_def second_def)
  have u: "\<bar>Unix 5\<bar> < 2 ^ 52" "\<bar>Unix (86399 * second)\<bar> < 2 ^ 52" "\<bar>Unix (86400 * second)\<bar> < 2 ^ 52"
    by (simp_all add: Unix_def second_def)
  have e: "86400 * second = (Unix 5 + 86400) * second" by (simp add: Unix_def second_def)
  from token_lifetime [OF toy_jwt_ok u(1,2) t _ e] token_lifetime [OF toy_jwt_ok u(1,3) t _ e] t show ?thesis
    by (simp add: second_def)
qed

end
