(* ===== verification/IpGeo.thy ===== *)
theory IpGeo
  imports AnyJson
begin

unbundle bit_operations_syntax

text \<open>
  \<open>internal/VirtualRouterServer/ip_country_resolver.go\<close>: where an address is, asked once per
  address from a web service and kept. Addresses are parsed and classified as package \<open>net\<close>
  does; an address is 4 or 16 bytes. What the service answers is an argument.
\<close>

section \<open>Addresses\<close>

type_synonym ip = "byte list"

text \<open>\<open>net.ParseIP\<close>: dotted decimal without leading zeros, or IPv6 with at most one \<open>::\<close>; always 16 bytes.\<close>

definition parse_octet :: "gostring \<Rightarrow> byte option" where
  "parse_octet f =
     (if f \<noteq> [] \<and> list_all is_digit f \<and> (length f = 1 \<or> hd f \<noteq> CHR ''0'') \<and> digits_value f \<le> 255
      then Some (of_nat (digits_value f)) else None)"

definition parseIPv4 :: "gostring \<Rightarrow> ip option" where
  "parseIPv4 s =
     (case those (List.map parse_octet (SplitChar (CHR ''.'') s)) of
        None \<Rightarrow> None | Some v \<Rightarrow> if length v = 4 then Some v else None)"

definition parse_hextet :: "gostring \<Rightarrow> ip option" where
  "parse_hextet f =
     (if f = [] \<or> length f > 4 then None
      else (case those (List.map hex_value f) of
        None \<Rightarrow> None
      | Some ds \<Rightarrow> let v = foldl (\<lambda>v d. 16 * v + d) 0 ds in Some [of_nat (v div 256), of_nat (v mod 256)]))"

text \<open>Fields between colons; only the last one of an address may be dotted decimal.\<close>

definition parse_hextets :: "gostring list \<Rightarrow> ip option" where
  "parse_hextets fs = map_option concat (those (List.map parse_hextet fs))"

definition parse_tail :: "gostring list \<Rightarrow> ip option" where
  "parse_tail fs =
     (if fs \<noteq> [] \<and> Contains (last fs) ''.'' then
        (case (parse_hextets (butlast fs), parseIPv4 (last fs)) of
           (Some a, Some b) \<Rightarrow> Some (a @ b) | _ \<Rightarrow> None)
      else parse_hextets fs)"

definition colon_fields :: "gostring \<Rightarrow> gostring list" where
  "colon_fields s = (if s = [] then [] else SplitChar (CHR '':'') s)"

definition parseIPv6 :: "gostring \<Rightarrow> ip option" where
  "parseIPv6 s =
     (case find (\<lambda>i. HasPrefix (drop i s) ''::'') [0..<length s] of
        None \<Rightarrow>
          (case parse_tail (colon_fields s) of
             None \<Rightarrow> None | Some v \<Rightarrow> if length v = 16 then Some v else None)
      | Some i \<Rightarrow>
          (case (parse_hextets (colon_fields (take i s)), parse_tail (colon_fields (drop (i + 2) s))) of
             (Some a, Some b) \<Rightarrow>
               if length a + length b \<le> 14 then Some (a @ replicate (16 - length a - length b) 0 @ b)
               else None
           | _ \<Rightarrow> None))"

definition v4InV6Prefix :: ip where
  "v4InV6Prefix = replicate 10 0 @ [0xff, 0xff]"

definition ParseIP :: "gostring \<Rightarrow> ip option" where
  "ParseIP s =
     (if CHR ''%'' \<in> set s then None
      else (case find (\<lambda>c. c = CHR ''.'' \<or> c = CHR '':'') s of
        None \<Rightarrow> None
      | Some c \<Rightarrow>
          if c = CHR ''.'' then map_option (\<lambda>v. v4InV6Prefix @ v) (parseIPv4 s) else parseIPv6 s))"

definition To4 :: "ip \<Rightarrow> ip option" where
  "To4 a =
     (if length a = 4 then Some a
      else if length a = 16 \<and> take 12 a = v4InV6Prefix then Some (drop 12 a) else None)"

definition IPv6loopback :: ip where
  "IPv6loopback = replicate 15 0 @ [1]"

definition IsLoopback :: "ip \<Rightarrow> bool" where
  "IsLoopback a = (case To4 a of Some v \<Rightarrow> v ! 0 = 127 | None \<Rightarrow> a = IPv6loopback)"

definition IsPrivate :: "ip \<Rightarrow> bool" where
  "IsPrivate a =
     (case To4 a of
        Some v \<Rightarrow> v ! 0 = 10 \<or> v ! 0 = 172 \<and> v ! 1 AND 0xf0 = 16 \<or> v ! 0 = 192 \<and> v ! 1 = 168
      | None \<Rightarrow> length a = 16 \<and> a ! 0 AND 0xfe = 0xfc)"

section \<open>The resolver\<close>

record IPGeoInfo =
  geo_Country :: gostring
  geo_CountryCode :: gostring
  geo_RegionName :: gostring
  geo_City :: gostring
  geo_ISP :: gostring
  geo_Org :: gostring
  geo_AS :: gostring

definition just_country :: "gostring \<Rightarrow> gostring \<Rightarrow> IPGeoInfo" where
  "just_country country code =
     \<lparr>geo_Country = country, geo_CountryCode = code, geo_RegionName = [], geo_City = [],
      geo_ISP = [], geo_Org = [], geo_AS = []\<rparr>"

definition unknown_country :: gostring where
  "unknown_country = ([CHR 0xE6, CHR 0x9C, CHR 0xAA, CHR 0xE7, CHR 0x9F, CHR 0xA5])"

record geo_result =
  gr_Status :: gostring
  gr_geo :: IPGeoInfo

definition zero_geo_result :: geo_result where
  "zero_geo_result = \<lparr>gr_Status = [], gr_geo = just_country [] []\<rparr>"

definition decode_geo_result :: "json \<Rightarrow> geo_result \<times> bool" where
  "decode_geo_result = decode_struct
     [(''status'', string_field gr_Status_update),
      (''country'', string_field (gr_geo_update \<circ> geo_Country_update)),
      (''countryCode'', string_field (gr_geo_update \<circ> geo_CountryCode_update)),
      (''regionName'', string_field (gr_geo_update \<circ> geo_RegionName_update)),
      (''city'', string_field (gr_geo_update \<circ> geo_City_update)),
      (''isp'', string_field (gr_geo_update \<circ> geo_ISP_update)),
      (''org'', string_field (gr_geo_update \<circ> geo_Org_update)),
      (''as'', string_field (gr_geo_update \<circ> geo_AS_update))] zero_geo_result"

definition geo_url :: "gostring \<Rightarrow> gostring" where
  "geo_url ip = ''http://ip-api.com/json/'' @ ip @
     ''?fields=status,country,countryCode,regionName,city,isp,org,as''"

text \<open>
  The service: the body of its answer to a request, or None when the request fails. The requests
  made are kept in the state, newest last.
\<close>

type_synonym web = "gostring \<Rightarrow> gostring option"

record resolver =
  rv_cache :: "gostring \<rightharpoonup> IPGeoInfo"
  rv_requests :: "gostring list"

definition globalIPCountryResolver :: resolver where
  "globalIPCountryResolver = \<lparr>rv_cache = Map.empty, rv_requests = []\<rparr>"

definition fetch :: "web \<Rightarrow> gostring \<Rightarrow> resolver \<Rightarrow> IPGeoInfo \<times> resolver" where
  "fetch get ip r =
     (let url = geo_url ip;
          r = r\<lparr>rv_requests := rv_requests r @ [url]\<rparr>
      in (case get url of
            None \<Rightarrow> just_country unknown_country []
          | Some body \<Rightarrow>
              (case Decode decode_geo_result zero_geo_result body of (result, ok) \<Rightarrow>
                 if \<not> ok then just_country unknown_country []
                 else if ToLower (gr_Status result) \<noteq> ''success'' then just_country unknown_country []
                 else if geo_Country (gr_geo result) = []
                 then (gr_geo result)\<lparr>geo_Country := unknown_country\<rparr>
                 else gr_geo result), r))"

definition resolveIPGeo :: "web \<Rightarrow> gostring \<Rightarrow> resolver \<Rightarrow> IPGeoInfo \<times> resolver" where
  "resolveIPGeo get ip r =
     (let cleaned = TrimSpace ip in
      if cleaned = [] then (just_country ''-'' [], r)
      else
        (case ParseIP cleaned of
           None \<Rightarrow> (just_country unknown_country [], r)
         | Some parsed \<Rightarrow>
             if IsLoopback parsed then (just_country (([CHR 0xE6, CHR 0x9C, CHR 0xAC, CHR 0xE6, CHR 0x9C, CHR 0xBA])) ''LOCAL'', r)
             else if IsPrivate parsed then (just_country (([CHR 0xE5, CHR 0x86, CHR 0x85, CHR 0xE7, CHR 0xBD, CHR 0x91])) ''LAN'', r)
             else
               (case rv_cache r cleaned of
                  Some cached \<Rightarrow> (cached, r)
                | None \<Rightarrow>
                    (case fetch get cleaned r of
                       (geo, r) \<Rightarrow> (geo, r\<lparr>rv_cache := (rv_cache r)(cleaned \<mapsto> geo)\<rparr>)))))"

definition resolveIPCountry :: "web \<Rightarrow> gostring \<Rightarrow> resolver \<Rightarrow> gostring \<times> resolver" where
  "resolveIPCountry get ip r =
     (case resolveIPGeo get ip r of (geo, r) \<Rightarrow>
        (if geo_Country geo = [] then unknown_country
         else if geo_CountryCode geo \<noteq> [] then geo_Country geo @ '' ('' @ geo_CountryCode geo @ '')''
         else geo_Country geo, r))"

section \<open>Properties\<close>

text \<open>Whether a request is made for an address that is not cached.\<close>

definition public_ip :: "gostring \<Rightarrow> bool" where
  "public_ip s = (case ParseIP s of None \<Rightarrow> False | Some a \<Rightarrow> \<not> IsLoopback a \<and> \<not> IsPrivate a)"

lemma resolve_requests:
  assumes "resolveIPGeo get ip r = (geo, r')"
  shows "rv_requests r' =
      rv_requests r @ (if public_ip (TrimSpace ip) \<and> rv_cache r (TrimSpace ip) = None
                       then [geo_url (TrimSpace ip)] else [])"
    and "public_ip (TrimSpace ip) \<Longrightarrow> rv_cache r' = (rv_cache r)(TrimSpace ip \<mapsto> geo)"
    and "\<not> public_ip (TrimSpace ip) \<Longrightarrow> rv_cache r' = rv_cache r"
proof -
  have "ParseIP [] = None" by (simp add: ParseIP_def)
  then show "rv_requests r' =
      rv_requests r @ (if public_ip (TrimSpace ip) \<and> rv_cache r (TrimSpace ip) = None
                       then [geo_url (TrimSpace ip)] else [])"
    and "public_ip (TrimSpace ip) \<Longrightarrow> rv_cache r' = (rv_cache r)(TrimSpace ip \<mapsto> geo)"
    and "\<not> public_ip (TrimSpace ip) \<Longrightarrow> rv_cache r' = rv_cache r"
    using assms
    by (auto simp: resolveIPGeo_def fetch_def public_ip_def Let_def
        split: option.splits if_splits prod.splits)
qed

text \<open>Several addresses, one after the other, each with what the service answers at that time.\<close>

fun resolve_all :: "(web \<times> gostring) list \<Rightarrow> resolver \<Rightarrow> IPGeoInfo list \<times> resolver" where
  "resolve_all [] r = ([], r)"
| "resolve_all ((get, ip) # qs) r =
     (case resolveIPGeo get ip r of (geo, r1) \<Rightarrow>
        case resolve_all qs r1 of (geos, r2) \<Rightarrow> (geo # geos, r2))"

lemma geo_url_inject [simp]: "geo_url a = geo_url b \<longleftrightarrow> a = b"
  by (simp add: geo_url_def)

definition requests_ok :: "resolver \<Rightarrow> bool" where
  "requests_ok r \<longleftrightarrow> distinct (rv_requests r) \<and>
     (\<forall>u \<in> set (rv_requests r). \<exists>ip. u = geo_url ip \<and> public_ip ip \<and> rv_cache r ip \<noteq> None)"

lemma requests_ok_resolve:
  assumes "requests_ok r" "resolveIPGeo get ip r = (geo, r')"
  shows "requests_ok r'"
proof -
  note res = resolve_requests [OF assms(2)]
  show ?thesis
  proof (cases "public_ip (TrimSpace ip)")
    case False
    with res assms(1) show ?thesis by (simp add: requests_ok_def)
  next
    case True
    then have cache: "rv_cache r' = (rv_cache r)(TrimSpace ip \<mapsto> geo)" using res by blast
    show ?thesis
    proof (cases "rv_cache r (TrimSpace ip)")
      case None
      then have "geo_url (TrimSpace ip) \<notin> set (rv_requests r)"
        using assms(1) by (auto simp: requests_ok_def)
      with assms(1) True None res(1) cache show ?thesis by (fastforce simp: requests_ok_def)
    next
      case (Some g)
      with assms(1) res(1) cache show ?thesis by (fastforce simp: requests_ok_def)
    qed
  qed
qed

lemma requests_ok_all: "requests_ok r \<Longrightarrow> requests_ok (snd (resolve_all qs r))"
  by (induction qs r rule: resolve_all.induct) (auto split: prod.splits dest: requests_ok_resolve)

lemma cached_all:
  "public_ip ip \<Longrightarrow> rv_cache r ip = Some geo \<Longrightarrow> rv_cache (snd (resolve_all qs r)) ip = Some geo"
proof (induction qs r rule: resolve_all.induct)
  case (2 get ip' qs r)
  obtain geo' r1 where r1: "resolveIPGeo get ip' r = (geo', r1)" by force
  have "rv_cache r1 ip = Some geo"
  proof (cases "TrimSpace ip' = ip")
    case True
    then have "ParseIP ip \<noteq> None" "ip \<noteq> []" using "2.prems" by (auto simp: public_ip_def ParseIP_def split: option.splits)
    with True "2.prems" have "resolveIPGeo get ip' r = (geo, r)"
      by (auto simp: resolveIPGeo_def public_ip_def Let_def split: option.splits)
    with r1 "2.prems" show ?thesis by simp
  next
    case False
    with resolve_requests(2,3) [OF r1] "2.prems" show ?thesis by (cases "public_ip (TrimSpace ip')") simp_all
  qed
  with 2 r1 show ?case by (cases "resolve_all qs r1") simp
qed simp

lemma resolve_cached:
  assumes "public_ip (TrimSpace ip)" "rv_cache r (TrimSpace ip) = Some geo"
  shows "resolveIPGeo get ip r = (geo, r)"
proof -
  have "TrimSpace ip \<noteq> []" using assms(1) by (auto simp: public_ip_def ParseIP_def)
  with assms show ?thesis
    by (auto simp: resolveIPGeo_def public_ip_def Let_def split: option.splits)
qed

text \<open>
  An address is looked up at most once, whatever was answered: over any lookups one after the other no
  request is sent twice, and none for an address that is invalid, local or private; and the
  first answer stays, so a failed request leaves its address unknown however the service
  answers later.
\<close>

theorem one_lookup_per_address:
  assumes "r0 = globalIPCountryResolver" "resolve_all qs1 r0 = (geos1, r1)"
    and "resolveIPGeo get ip r1 = (geo, r2)" "resolve_all qs2 r2 = (geos2, r3)"
    and "public_ip (TrimSpace ip)"
  shows "distinct (rv_requests r3) \<and>
    (\<forall>u \<in> set (rv_requests r3). \<exists>a. u = geo_url a \<and> public_ip a) \<and>
    resolveIPGeo get' ip r3 = (geo, r3) \<and>
    (rv_cache r1 (TrimSpace ip) = None \<and> get (geo_url (TrimSpace ip)) = None \<longrightarrow>
       resolveIPGeo get' ip r3 = (just_country unknown_country [], r3))"
proof -
  have "requests_ok r0" by (simp add: assms(1) requests_ok_def globalIPCountryResolver_def)
  from requests_ok_all [OF this, of qs1] have "requests_ok r1" by (simp add: assms(2))
  from requests_ok_resolve [OF this assms(3)] have "requests_ok r2" .
  from requests_ok_all [OF this, of qs2] have ok: "requests_ok r3" by (simp add: assms(4))
  have "rv_cache r2 (TrimSpace ip) = Some geo" using resolve_requests(2) [OF assms(3,5)] by simp
  from cached_all [OF assms(5) this, of qs2] have "rv_cache r3 (TrimSpace ip) = Some geo"
    by (simp add: assms(4))
  from resolve_cached [OF assms(5) this] have same: "resolveIPGeo get' ip r3 = (geo, r3)" .
  have "geo = just_country unknown_country []"
    if "rv_cache r1 (TrimSpace ip) = None" "get (geo_url (TrimSpace ip)) = None"
  proof -
    have "TrimSpace ip \<noteq> []" using assms(5) by (auto simp: public_ip_def ParseIP_def)
    with that assms(3,5) show ?thesis
      by (auto simp: resolveIPGeo_def public_ip_def fetch_def Let_def split: option.splits)
  qed
  with ok same show ?thesis by (fastforce simp: requests_ok_def)
qed

lemma public_sample: "TrimSpace ''8.8.8.8'' = ''8.8.8.8''" "public_ip ''8.8.8.8''"
proof -
  show "TrimSpace ''8.8.8.8'' = ''8.8.8.8''"
    by (rule TrimSpace_id) (auto simp: space_seqs_def Cons_eq_append_conv append_eq_Cons_conv)
  show "public_ip ''8.8.8.8''" by code_simp
qed

theorem one_lookup_per_address_witness:
  "resolveIPGeo (\<lambda>_. Some ''{}'') ''8.8.8.8'' (snd (resolveIPGeo (\<lambda>_. None) ''8.8.8.8'' globalIPCountryResolver)) =
     (just_country unknown_country [], snd (resolveIPGeo (\<lambda>_. None) ''8.8.8.8'' globalIPCountryResolver))"
proof -
  obtain geo r where r: "resolveIPGeo (\<lambda>_. None) ''8.8.8.8'' globalIPCountryResolver = (geo, r)" by force
  have start: "resolve_all [] globalIPCountryResolver = ([], globalIPCountryResolver)" "resolve_all [] r = ([], r)"
    by simp_all
  have none: "rv_cache globalIPCountryResolver (TrimSpace ''8.8.8.8'') = None"
    by (simp add: globalIPCountryResolver_def)
  have "public_ip (TrimSpace ''8.8.8.8'')" using public_sample by simp
  from one_lookup_per_address [OF refl start(1) r start(2) this, of "\<lambda>_. Some ''{}''"] none
  have "resolveIPGeo (\<lambda>_. Some ''{}'') ''8.8.8.8'' r = (just_country unknown_country [], r)" by blast
  then show ?thesis by (simp add: r)
qed

end
