(* ===== verification/Logs.thy ===== *)
theory Logs
  imports GoStrings "HOL-Library.Sublist"
begin

text \<open>
  \<open>internal/VirtualRouterServer/log_capture.go\<close>: the ring of recent log lines behind the monitor's
  log view, the log file writer that rotates its files, and the function that installs both.
  What the operating system answers (a file opens, how much of a write is stored) is an argument;
  files are named by their number, 0 for the current one and \<open>i\<close> for the backup with suffix
  \<open>.i\<close>. Renaming an existing file is assumed to succeed; the code ignores its result.
\<close>

section \<open>The ring of recent lines\<close>

record logCapture =
  lc_capacity :: int
  lc_lines :: "gostring list"

definition globalLogs :: logCapture where
  "globalLogs = \<lparr>lc_capacity = 500, lc_lines = []\<rparr>"

definition append_line :: "gostring \<Rightarrow> logCapture \<Rightarrow> logCapture" where
  "append_line line c =
     (let lines = lc_lines c @ [line] in
      if int (length lines) > lc_capacity c
      then c\<lparr>lc_lines := drop (nat (int (length lines) - lc_capacity c)) lines\<rparr>
      else c\<lparr>lc_lines := lines\<rparr>)"

text \<open>\<open>stamp i\<close> is the formatted time at which the \<open>i\<close>-th segment is looked at.\<close>

fun capture_segments :: "(nat \<Rightarrow> gostring) \<Rightarrow> nat \<Rightarrow> gostring list \<Rightarrow> logCapture \<Rightarrow> logCapture" where
  "capture_segments stamp i [] c = c"
| "capture_segments stamp i (seg # segments) c =
     (let line = TrimSpace seg in
      if line = [] then capture_segments stamp (i + 1) segments c
      else capture_segments stamp (i + 1) segments (append_line (stamp i @ '' '' @ line) c))"

definition logCapture_Write :: "(nat \<Rightarrow> gostring) \<Rightarrow> gostring \<Rightarrow> logCapture \<Rightarrow> nat \<times> logCapture" where
  "logCapture_Write stamp p c = (length p, capture_segments stamp 0 (SplitChar (CHR 0x0A) p) c)"

definition getRecent :: "int \<Rightarrow> logCapture \<Rightarrow> gostring list" where
  "getRecent limit c =
     (let limit = (if limit \<le> 0 then 100 else limit);
          total = int (length (lc_lines c))
      in if total = 0 then []
         else let limit = (if limit > total then total else limit)
           in drop (nat (total - limit)) (lc_lines c))"

definition GetRecentProcessLogs :: "int \<Rightarrow> logCapture \<Rightarrow> gostring list" where
  "GetRecentProcessLogs limit logs = getRecent limit logs"

section \<open>The rotating file writer\<close>

record logRotationConfig =
  lr_Dir :: gostring
  lr_BaseName :: gostring
  lr_MaxBytes :: int
  lr_MaxFiles :: int

definition logRotateCfg :: logRotationConfig where
  "logRotateCfg = \<lparr>lr_Dir = ''logs'', lr_BaseName = ''router-center.log'',
     lr_MaxBytes = 20 * 1024 * 1024, lr_MaxFiles = 5\<rparr>"

type_synonym disk = "nat \<rightharpoonup> gostring"

record rotatingFileWriter =
  w_dir :: gostring
  w_baseName :: gostring
  w_maxBytes :: int
  w_maxFiles :: nat
  w_file :: bool \<comment> \<open>the current file is open\<close>
  w_currentLen :: int
  w_disk :: disk

definition contents :: "disk \<Rightarrow> nat \<Rightarrow> gostring" where
  "contents d i = (case d i of None \<Rightarrow> [] | Some b \<Rightarrow> b)"

lemma contents_upd [simp]: "contents (d(i \<mapsto> b)) j = (if j = i then b else contents d j)"
  by (simp add: contents_def)

text \<open>The operations return whether they failed.\<close>

definition openCurrent :: "bool \<Rightarrow> rotatingFileWriter \<Rightarrow> bool \<times> rotatingFileWriter" where
  "openCurrent ok w =
     (if \<not> ok then (True, w)
      else (False, w\<lparr>w_disk := (w_disk w)(0 \<mapsto> contents (w_disk w) 0), w_file := True,
                     w_currentLen := int (length (contents (w_disk w) 0))\<rparr>))"

text \<open>The loop of \<open>rotate\<close>, from \<open>i\<close> down to 1.\<close>

fun shift_files :: "nat \<Rightarrow> disk \<Rightarrow> disk" where
  "shift_files 0 d = d"
| "shift_files (Suc i) d =
     shift_files i (if d (Suc i) \<noteq> None then d(Suc (Suc i) := d (Suc i), Suc i := None) else d)"

definition rotate_disk :: "nat \<Rightarrow> disk \<Rightarrow> disk" where
  "rotate_disk maxFiles d =
     (let d1 = d(maxFiles - 1 := None);
          d2 = shift_files (maxFiles - 2) d1
      in if d2 0 \<noteq> None then d2(1 := d2 0, 0 := None) else d2)"

definition rotate_log :: "bool \<Rightarrow> rotatingFileWriter \<Rightarrow> bool \<times> rotatingFileWriter" where
  "rotate_log ok w =
     openCurrent ok (w\<lparr>w_file := False, w_disk := rotate_disk (w_maxFiles w) (w_disk w)\<rparr>)"

text \<open>
  \<open>ok1\<close> and \<open>ok2\<close>: opening succeeds before and in the rotation; \<open>n\<close>: how many bytes the system
  stores. The result: bytes stored, whether it failed, the writer.
\<close>

definition file_Write ::
  "bool \<Rightarrow> bool \<Rightarrow> nat \<Rightarrow> gostring \<Rightarrow> rotatingFileWriter \<Rightarrow> nat \<times> bool \<times> rotatingFileWriter" where
  "file_Write ok1 ok2 n p w =
     (case (if \<not> w_file w then openCurrent ok1 w else (False, w)) of
        (True, w1) \<Rightarrow> (0, True, w1)
      | (False, w1) \<Rightarrow>
          (case (if w_currentLen w1 + int (length p) > w_maxBytes w1 then rotate_log ok2 w1
                 else (False, w1)) of
             (True, w2) \<Rightarrow> (0, True, w2)
           | (False, w2) \<Rightarrow>
               (n, n < length p,
                w2\<lparr>w_disk := (w_disk w2)(0 \<mapsto> contents (w_disk w2) 0 @ take n p),
                   w_currentLen := w_currentLen w2 + int n\<rparr>)))"

definition file_Close :: "rotatingFileWriter \<Rightarrow> rotatingFileWriter" where
  "file_Close w = (if \<not> w_file w then w else w\<lparr>w_file := False, w_currentLen := 0\<rparr>)"

text \<open>\<open>mkdir_ok\<close>: the directory exists or can be made.\<close>

definition newRotatingFileWriter ::
  "bool \<Rightarrow> bool \<Rightarrow> logRotationConfig \<Rightarrow> disk \<Rightarrow> rotatingFileWriter option" where
  "newRotatingFileWriter mkdir_ok open_ok cfg d =
     (let dir = (if TrimSpace (lr_Dir cfg) = [] then ''logs'' else lr_Dir cfg);
          base = (if TrimSpace (lr_BaseName cfg) = [] then ''router-center.log'' else lr_BaseName cfg);
          maxBytes = (if lr_MaxBytes cfg \<le> 0 then 20 * 1024 * 1024 else lr_MaxBytes cfg);
          maxFiles = (if lr_MaxFiles cfg < 2 then 5 else lr_MaxFiles cfg)
      in if \<not> mkdir_ok then None
         else
           (case openCurrent open_ok \<lparr>w_dir = dir, w_baseName = base, w_maxBytes = maxBytes,
                   w_maxFiles = nat maxFiles, w_file = False, w_currentLen = 0, w_disk = d\<rparr> of
              (True, _) \<Rightarrow> None
            | (False, w) \<Rightarrow> Some w))"

section \<open>Installing the capture\<close>

text \<open>
  \<open>pl_file\<close>: the file writer among the handler's writers; \<open>pl_announced\<close>: the message that rotation
  is enabled was logged.
\<close>

record process_logs =
  pl_capture :: logCapture
  pl_once :: bool
  pl_file :: "rotatingFileWriter option"
  pl_announced :: bool

text \<open>
  The \<open>if rotateWriter, err := \<dots>\<close> of the source declares a new variable, so the outer one, read
  afterwards, is still nil.
\<close>

definition InstallProcessLogCapture ::
  "int \<Rightarrow> rotatingFileWriter option \<Rightarrow> process_logs \<Rightarrow> process_logs" where
  "InstallProcessLogCapture capacity new pl =
     (let pl = (if capacity > 0 then pl\<lparr>pl_capture := (pl_capture pl)\<lparr>lc_capacity := capacity\<rparr>\<rparr> else pl)
      in if pl_once pl then pl
         else
           let outer_rotateWriter = (None :: rotatingFileWriter option)
           in pl\<lparr>pl_once := True, pl_file := new, pl_announced := outer_rotateWriter \<noteq> None\<rparr>)"

text \<open>
  One formatted log record through \<open>io.MultiWriter\<close>: the writers in turn, up to the first that fails.
\<close>

definition log_record ::
  "bool \<Rightarrow> (nat \<Rightarrow> gostring) \<Rightarrow> bool \<times> bool \<times> nat \<Rightarrow> gostring \<Rightarrow> process_logs \<Rightarrow> process_logs" where
  "log_record stdout_ok stamp file_env p pl =
     (if \<not> stdout_ok then pl
      else
        let pl = pl\<lparr>pl_capture := snd (logCapture_Write stamp p (pl_capture pl))\<rparr>
        in case pl_file pl of
             None \<Rightarrow> pl
           | Some w \<Rightarrow>
               (case file_env of (ok1, ok2, n) \<Rightarrow>
                  pl\<lparr>pl_file := Some (snd (snd (file_Write ok1 ok2 n p w)))\<rparr>))"

section \<open>The ring holds the last lines\<close>

definition lastn :: "nat \<Rightarrow> 'a list \<Rightarrow> 'a list" where
  "lastn n xs = drop (length xs - n) xs"

lemma length_lastn [simp]: "length (lastn n xs) = min n (length xs)"
  by (simp add: lastn_def)

lemma lastn_lastn [simp]: "lastn m (lastn n xs) = lastn (min m n) xs"
  unfolding lastn_def drop_drop by (rule arg_cong [where f = "\<lambda>k. drop k xs"]) auto

lemma lastn_Nil [simp]: "lastn n [] = []"
  by (simp add: lastn_def)

lemma lastn_append: "lastn n (lastn n xs @ ys) = lastn n (xs @ ys)"
  by (cases "length xs \<le> n") (simp_all add: lastn_def add.commute)

text \<open>The lines that a write adds.\<close>

fun segment_lines :: "(nat \<Rightarrow> gostring) \<Rightarrow> nat \<Rightarrow> gostring list \<Rightarrow> gostring list" where
  "segment_lines stamp i [] = []"
| "segment_lines stamp i (seg # segs) =
     (if TrimSpace seg = [] then [] else [stamp i @ '' '' @ TrimSpace seg]) @ segment_lines stamp (i + 1) segs"

definition log_lines :: "(nat \<Rightarrow> gostring) \<times> gostring \<Rightarrow> gostring list" where
  "log_lines r = segment_lines (fst r) 0 (SplitChar (CHR 0x0A) (snd r))"

lemma append_line_lastn:
  assumes "0 < lc_capacity c" "lc_lines c = lastn (nat (lc_capacity c)) h"
  shows "append_line line c = c\<lparr>lc_lines := lastn (nat (lc_capacity c)) (h @ [line])\<rparr>"
proof -
  have "append_line line c = c\<lparr>lc_lines := lastn (nat (lc_capacity c)) (lc_lines c @ [line])\<rparr>"
  proof -
    have "nat (int (Suc (length (lc_lines c))) - lc_capacity c) = Suc (length (lc_lines c)) - nat (lc_capacity c)"
      using assms(1) by linarith
    then show ?thesis by (simp add: append_line_def lastn_def Let_def del: of_nat_Suc)
  qed
  then show ?thesis by (simp add: assms(2) lastn_append)
qed

lemma capture_segments_lastn:
  assumes "0 < lc_capacity c" "lc_lines c = lastn (nat (lc_capacity c)) h"
  shows "capture_segments stamp i segs c =
    c\<lparr>lc_lines := lastn (nat (lc_capacity c)) (h @ segment_lines stamp i segs)\<rparr>"
  using assms
proof (induction segs arbitrary: i c h)
  case (Cons seg segs)
  show ?case
    using Cons.IH [of c h "i + 1"] Cons.prems
      Cons.IH [of "append_line (stamp i @ '' '' @ TrimSpace seg) c" "h @ [stamp i @ '' '' @ TrimSpace seg]" "i + 1"]
    by (simp add: append_line_lastn Let_def)
qed simp

lemma getRecent_lastn:
  "getRecent limit c = lastn (nat (if limit \<le> 0 then 100 else limit)) (lc_lines c)"
  by (auto simp: getRecent_def lastn_def Let_def intro: arg_cong2 [of _ _ _ _ drop])

lemma capture_writes_lastn:
  assumes "0 < lc_capacity c" "lc_lines c = lastn (nat (lc_capacity c)) h"
  shows "fold (\<lambda>(stamp, p). snd \<circ> logCapture_Write stamp p) ws c =
    c\<lparr>lc_lines := lastn (nat (lc_capacity c)) (h @ concat (List.map log_lines ws))\<rparr>"
  using assms
proof (induction ws arbitrary: c h)
  case (Cons r ws)
  then show ?case
    by (cases r) (simp add: logCapture_Write_def log_lines_def capture_segments_lastn)
qed simp

text \<open>
  The log view shows the newest lines: after any writes into the empty ring, the recent lines are
  the last \<open>limit\<close> (100 by default), at most \<open>capacity\<close>, of all non-blank lines written so far, in
  order, each trimmed and stamped.
\<close>

theorem recent_logs:
  assumes "lc_lines c = []" "0 < lc_capacity c"
    and "c' = fold (\<lambda>(stamp, p). snd \<circ> logCapture_Write stamp p) ws c"
  shows "GetRecentProcessLogs limit c' =
    lastn (min (nat (if limit \<le> 0 then 100 else limit)) (nat (lc_capacity c))) (concat (List.map log_lines ws))"
  using capture_writes_lastn [of c "[]" ws] assms
  by (simp add: GetRecentProcessLogs_def getRecent_lastn)

theorem recent_logs_witness:
  "GetRecentProcessLogs 1 (snd (logCapture_Write (\<lambda>_. ''t'') ''n'' globalLogs)) = [''t n'']"
proof -
  have "TrimSpace ''n'' = ''n''"
    by (rule TrimSpace_id) (auto simp: space_seqs_def Cons_eq_append_conv append_eq_Cons_conv)
  then show ?thesis
    using recent_logs [OF _ _ refl, of globalLogs 1 "[(\<lambda>_. ''t'', ''n'')]"]
    by (simp add: globalLogs_def log_lines_def lastn_def)
qed


section \<open>The files hold a suffix of what was logged\<close>

text \<open>The text of the files, oldest first.\<close>

definition log_text :: "nat \<Rightarrow> disk \<Rightarrow> gostring" where
  "log_text n d = concat (List.map (contents d) (rev [0..<n]))"

lemma shift_files_result:
  "d (Suc k) = None \<Longrightarrow> shift_files k d j =
     (if j = 0 then d 0 else if j = 1 then None else if j \<le> Suc k then d (j - 1) else d j)"
proof (induction k arbitrary: d)
  case 0
  then show ?case by auto
next
  case (Suc k)
  let ?d = "if d (Suc k) \<noteq> None then d(Suc (Suc k) := d (Suc k), Suc k := None) else d"
  have IH: "shift_files (Suc k) d j =
      (if j = 0 then ?d 0 else if j = 1 then None else if j \<le> Suc k then ?d (j - 1) else ?d j)"
    using Suc.IH [of ?d] by simp
  consider "j = 0" | "j = 1" | "1 < j" "j \<le> Suc k" | "j = Suc (Suc k)" | "Suc (Suc k) < j" by linarith
  then show ?case
    unfolding IH by cases (use Suc.prems in \<open>auto\<close>)
qed

lemma rotate_disk_result:
  assumes "2 \<le> n"
  shows "rotate_disk n d j = (if j = 0 then None else if j < n then d (j - 1) else d j)"
proof -
  have top: "Suc (n - 2) = n - 1" using assms by simp
  let ?d2 = "shift_files (n - 2) (d(n - 1 := None))"
  have d2: "?d2 i = (if i = 0 then d 0 else if i = 1 then None else if i < n then d (i - 1) else d i)" for i
    using shift_files_result [of "d(n - 1 := None)" "n - 2" i] assms by (auto simp: top)
  have "rotate_disk n d = (if ?d2 0 \<noteq> None then ?d2(1 := ?d2 0, 0 := None) else ?d2)"
    by (simp add: rotate_disk_def Let_def)
  then show ?thesis using assms by (auto simp: d2 simp del: One_nat_def)
qed

lemma log_text_Suc:
  "log_text (Suc m) d = concat (List.map (\<lambda>i. contents d (Suc i)) (rev [0..<m])) @ contents d 0"
proof -
  have "[0..<Suc m] = 0 # List.map Suc [0..<m]" by (simp add: map_Suc_upt upt_conv_Cons del: upt_Suc)
  then show ?thesis by (simp add: log_text_def rev_map comp_def del: upt_Suc)
qed

lemma log_text_rotate:
  assumes "2 \<le> n"
  shows "log_text n d = contents d (n - 1) @ log_text n (rotate_disk n d)"
proof -
  obtain m where n: "n = Suc m" "1 \<le> m" using assms by (cases n) auto
  have "concat (List.map (\<lambda>i. contents (rotate_disk n d) (Suc i)) (rev [0..<m])) =
      concat (List.map (contents d) (rev [0..<m]))"
    by (intro arg_cong [where f = concat] map_cong refl)
      (use assms in \<open>simp add: contents_def rotate_disk_result n\<close>)
  moreover have "contents (rotate_disk n d) 0 = []"
    by (simp add: contents_def rotate_disk_result [OF assms])
  ultimately have "log_text n (rotate_disk n d) = concat (List.map (contents d) (rev [0..<m]))"
    by (simp add: n log_text_Suc)
  then show ?thesis by (simp add: log_text_def n)
qed

lemma log_text_write:
  assumes "1 \<le> n"
  shows "log_text n (d(0 \<mapsto> contents d 0 @ p)) = log_text n d @ p"
proof -
  obtain m where "n = Suc m" using assms by (cases n) auto
  then show ?thesis by (simp add: log_text_Suc contents_def)
qed

text \<open>
  What a writer keeps while every write is stored whole and none is longer than \<open>L\<close>: the current
  file is counted right and no file exceeds the limit, backups are numbered without gaps, and
  each backup is full, up to the write that did not fit.
\<close>

definition writer_ok :: "int \<Rightarrow> rotatingFileWriter \<Rightarrow> bool" where
  "writer_ok L w \<longleftrightarrow>
     w_file w \<and> 2 \<le> w_maxFiles w \<and> w_disk w 0 \<noteq> None \<and> w_currentLen w = int (length (contents (w_disk w) 0)) \<and>
     w_currentLen w \<le> w_maxBytes w \<and>
     (\<forall>i b. 0 < i \<and> i < w_maxFiles w \<and> w_disk w i = Some b \<longrightarrow>
        w_maxBytes w - L < int (length b) \<and> int (length b) \<le> w_maxBytes w) \<and>
     (\<forall>i. 0 < i \<and> Suc i < w_maxFiles w \<and> w_disk w (Suc i) \<noteq> None \<longrightarrow> w_disk w i \<noteq> None)"

definition keeps :: "gostring \<Rightarrow> rotatingFileWriter \<Rightarrow> bool" where
  "keeps h w \<longleftrightarrow> suffix (log_text (w_maxFiles w) (w_disk w)) h \<and>
     (log_text (w_maxFiles w) (w_disk w) = h \<or> (\<forall>i. 0 < i \<and> i < w_maxFiles w \<longrightarrow> w_disk w i \<noteq> None))"

lemma file_Write_whole:
  assumes "w_file w"
  shows "snd (snd (file_Write True True (length p) p w)) =
    (let w2 = (if w_currentLen w + int (length p) > w_maxBytes w
               then w\<lparr>w_disk := (rotate_disk (w_maxFiles w) (w_disk w))(0 \<mapsto>
                        contents (rotate_disk (w_maxFiles w) (w_disk w)) 0),
                      w_currentLen := int (length (contents (rotate_disk (w_maxFiles w) (w_disk w)) 0))\<rparr>
               else w)
     in w2\<lparr>w_disk := (w_disk w2)(0 \<mapsto> contents (w_disk w2) 0 @ p),
           w_currentLen := w_currentLen w2 + int (length p)\<rparr>)"
  using assms by (simp add: file_Write_def rotate_log_def openCurrent_def Let_def)

text \<open>The backups are numbered without gaps, so if the oldest is there all are.\<close>

lemma all_backups:
  assumes "writer_ok L w" "w_disk w (w_maxFiles w - 1) \<noteq> None" "i < w_maxFiles w"
  shows "w_disk w i \<noteq> None"
proof -
  let ?n = "w_maxFiles w"
  have down: "w_disk w (?n - 1 - j) \<noteq> None" if "j < ?n - 1" for j
    using that
  proof (induction j)
    case (Suc j)
    then have "0 < ?n - 1 - Suc j" "Suc (?n - 1 - Suc j) = ?n - 1 - j" "?n - 1 - j < ?n" by simp_all
    then show ?case using Suc assms(1) unfolding writer_ok_def by (metis Suc_lessD)
  qed (use assms(2) in simp)
  show ?thesis
  proof (cases "i = 0")
    case True
    then show ?thesis using assms(1) by (simp add: writer_ok_def)
  next
    case False
    then show ?thesis using down [of "?n - 1 - i"] assms(3) by simp
  qed
qed

definition rotated :: "gostring \<Rightarrow> rotatingFileWriter \<Rightarrow> rotatingFileWriter" where
  "rotated p w = w\<lparr>w_disk := (rotate_disk (w_maxFiles w) (w_disk w))(0 \<mapsto> p), w_currentLen := int (length p)\<rparr>"

lemma rotated_disk:
  assumes "writer_ok L w"
  shows "w_disk (rotated p w) i =
    (if i = 0 then Some p else if i < w_maxFiles w then w_disk w (i - 1) else w_disk w i)"
  using assms by (simp add: rotated_def rotate_disk_result writer_ok_def)

lemma file_Write_cases:
  assumes "writer_ok L w"
  shows "snd (snd (file_Write True True (length p) p w)) =
    (if w_currentLen w + int (length p) > w_maxBytes w then rotated p w
     else w\<lparr>w_disk := (w_disk w)(0 \<mapsto> contents (w_disk w) 0 @ p), w_currentLen := w_currentLen w + int (length p)\<rparr>)"
proof -
  have "contents (rotate_disk (w_maxFiles w) (w_disk w)) 0 = []"
    using assms by (simp add: contents_def rotate_disk_result writer_ok_def)
  then show ?thesis using assms by (simp add: file_Write_whole writer_ok_def rotated_def)
qed

lemma writer_ok_rotated:
  assumes ok: "writer_ok L w" and len: "int (length p) \<le> L" "L \<le> w_maxBytes w"
    and full: "w_currentLen w + int (length p) > w_maxBytes w"
  shows "writer_ok L (rotated p w)"
proof -
  note d = rotated_disk [OF ok, of p]
  obtain b0 where b0: "w_disk w 0 = Some b0" "w_currentLen w = int (length b0)" "int (length b0) \<le> w_maxBytes w"
    using ok by (auto simp: writer_ok_def contents_def)
  have files: "w_maxBytes w - L < int (length b) \<and> int (length b) \<le> w_maxBytes w"
    if "0 < i" "i < w_maxFiles w" "w_disk (rotated p w) i = Some b" for i b
  proof (cases "i = 1")
    case True
    then have "b = b0" using that b0 by (simp add: d)
    then show ?thesis using b0 full len by simp
  next
    case False
    then have "0 < i - 1" "i - 1 < w_maxFiles w" "w_disk w (i - 1) = Some b" using that by (simp_all add: d)
    then show ?thesis using ok unfolding writer_ok_def by blast
  qed
  have gaps: "w_disk (rotated p w) i \<noteq> None"
    if "0 < i" "Suc i < w_maxFiles w" "w_disk (rotated p w) (Suc i) \<noteq> None" for i
  proof (cases "i = 1")
    case True
    then show ?thesis using that b0 by (simp add: d)
  next
    case False
    then have "0 < i - 1" "Suc (i - 1) < w_maxFiles w" "w_disk w (Suc (i - 1)) \<noteq> None" using that by (simp_all add: d)
    then have "w_disk w (i - 1) \<noteq> None" using ok unfolding writer_ok_def by blast
    then show ?thesis using that by (simp add: d)
  qed
  have "2 \<le> w_maxFiles w" "w_file w" using ok by (simp_all add: writer_ok_def)
  then show ?thesis
    using len files gaps unfolding writer_ok_def by (simp add: rotated_def contents_def)
qed

lemma keeps_rotated:
  assumes ok: "writer_ok L w" and h: "keeps h w"
  shows "keeps (h @ p) (rotated p w)"
proof -
  let ?n = "w_maxFiles w" and ?d = "rotate_disk (w_maxFiles w) (w_disk w)"
  have n: "2 \<le> ?n" using ok by (simp add: writer_ok_def)
  note rot = log_text_rotate [OF n, of "w_disk w"]
  have "contents ?d 0 = []" by (simp add: contents_def rotate_disk_result [OF n])
  then have whole: "log_text ?n (w_disk (rotated p w)) = log_text ?n ?d @ p"
    using log_text_write [of ?n ?d p] n by (simp add: rotated_def)
  have "log_text ?n (w_disk (rotated p w)) = h @ p \<or> (\<forall>i. 0 < i \<and> i < ?n \<longrightarrow> w_disk (rotated p w) i \<noteq> None)"
  proof (cases "w_disk w (?n - 1) = None")
    case True
    then have "log_text ?n ?d = log_text ?n (w_disk w)" using rot by (simp add: contents_def)
    moreover have "0 < ?n - 1" "?n - 1 < ?n" using n by simp_all
    then have "log_text ?n (w_disk w) = h" using h True unfolding keeps_def by blast
    ultimately show ?thesis using whole by simp
  next
    case False
    have "w_disk (rotated p w) i \<noteq> None" if "0 < i" "i < ?n" for i
      using that all_backups [OF ok False, of "i - 1"] by (simp add: rotated_disk [OF ok])
    then show ?thesis by blast
  qed
  moreover have "suffix (log_text ?n (w_disk (rotated p w))) (h @ p)"
    using h rot by (auto simp: keeps_def whole suffix_def)
  ultimately show ?thesis by (simp add: keeps_def rotated_def)
qed

lemma writer_ok_write:
  assumes ok: "writer_ok L w" and len: "int (length p) \<le> L" "L \<le> w_maxBytes w" and h: "keeps h w"
    and w': "w' = snd (snd (file_Write True True (length p) p w))"
  shows "writer_ok L w' \<and> keeps (h @ p) w' \<and> w_maxBytes w' = w_maxBytes w \<and> w_maxFiles w' = w_maxFiles w"
proof (cases "w_currentLen w + int (length p) > w_maxBytes w")
  case False
  then have w'_eq: "w' = w\<lparr>w_disk := (w_disk w)(0 \<mapsto> contents (w_disk w) 0 @ p),
      w_currentLen := w_currentLen w + int (length p)\<rparr>"
    by (simp add: w' file_Write_cases [OF ok])
  have "1 \<le> w_maxFiles w" using ok by (simp add: writer_ok_def)
  from log_text_write [OF this] have "keeps (h @ p) w'"
    using h by (auto simp: keeps_def w'_eq suffix_def)
  moreover have "writer_ok L w'"
    using ok False by (auto simp: writer_ok_def w'_eq contents_def)
  ultimately show ?thesis by (simp add: w'_eq)
next
  case True
  then have "w' = rotated p w" by (simp add: w' file_Write_cases [OF ok])
  then show ?thesis
    using writer_ok_rotated [OF ok len True] keeps_rotated [OF ok h] by (simp add: rotated_def)
qed

lemma writer_ok_writes:
  assumes "writer_ok L w" "L \<le> w_maxBytes w" "keeps h w" "list_all (\<lambda>p. int (length p) \<le> L) ps"
    and "w' = fold (\<lambda>p. snd \<circ> snd \<circ> file_Write True True (length p) p) ps w"
  shows "writer_ok L w' \<and> keeps (h @ concat ps) w' \<and> w_maxBytes w' = w_maxBytes w \<and> w_maxFiles w' = w_maxFiles w"
  using assms
proof (induction ps arbitrary: w h)
  case (Cons p ps)
  let ?w1 = "snd (snd (file_Write True True (length p) p w))"
  have "writer_ok L ?w1 \<and> keeps (h @ p) ?w1 \<and> w_maxBytes ?w1 = w_maxBytes w \<and> w_maxFiles ?w1 = w_maxFiles w"
    using Cons.prems by (intro writer_ok_write) simp_all
  then show ?case using Cons.IH [of ?w1 "h @ p"] Cons.prems by simp
qed simp

lemma concat_length_lower:
  "(\<And>i. i < m \<Longrightarrow> K \<le> int (length (f i))) \<Longrightarrow> int m * K \<le> int (length (concat (List.map f (rev [0..<m]))))"
proof (induction m)
  case (Suc m)
  then have "int m * K \<le> int (length (concat (List.map f (rev [0..<m]))))" "K \<le> int (length (f m))" by simp_all
  then show ?case by (simp add: distrib_right)
qed simp

lemma newRotatingFileWriter_ok:
  assumes "newRotatingFileWriter True True cfg Map.empty = Some w"
  shows "writer_ok L w" "keeps [] w" "0 < w_maxBytes w"
proof -
  have w: "w_file w" "2 \<le> w_maxFiles w" "0 < w_maxBytes w" "w_disk w = [0 \<mapsto> []]" "w_currentLen w = 0"
    using assms by (auto simp: newRotatingFileWriter_def openCurrent_def contents_def Let_def split: if_splits)
  then show "writer_ok L w" "0 < w_maxBytes w" by (simp_all add: writer_ok_def contents_def)
  have "log_text (w_maxFiles w) (w_disk w) = []"
    by (simp add: log_text_def w(4) contents_def)
  then show "keeps [] w" by (simp add: keeps_def)
qed

text \<open>
  C32: rotation loses nothing but the oldest text. Starting without files, after any writes that are
  each stored whole and fit a file: the files, oldest first, hold a suffix of everything written;
  they hold all of it, or at least the configured number of backups, each full up to one write;
  and no file is longer than the configured size.
\<close>

theorem log_rotation:
  assumes "newRotatingFileWriter True True cfg Map.empty = Some w"
    and "L \<le> w_maxBytes w" "list_all (\<lambda>p. int (length p) \<le> L) ps"
    and "w' = fold (\<lambda>p. snd \<circ> snd \<circ> file_Write True True (length p) p) ps w" "n = w_maxFiles w"
  shows "suffix (log_text n (w_disk w')) (concat ps) \<and>
    (log_text n (w_disk w') = concat ps \<or>
       int (n - 1) * (w_maxBytes w - L) \<le> int (length (log_text n (w_disk w')))) \<and>
    (\<forall>i < n. int (length (contents (w_disk w') i)) \<le> w_maxBytes w)"
proof -
  have w': "writer_ok L w'" "keeps (concat ps) w'" "w_maxBytes w' = w_maxBytes w" "w_maxFiles w' = n"
    using writer_ok_writes [OF newRotatingFileWriter_ok(1) [OF assms(1)] assms(2)
        newRotatingFileWriter_ok(2) [OF assms(1)] assms(3,4)] assms(5) by simp_all
  obtain m where n: "n = Suc m" using w'(1,4) by (cases n) (auto simp: writer_ok_def)
  have size: "int (length (contents (w_disk w') i)) \<le> w_maxBytes w" if "i < n" for i
  proof (cases "w_disk w' i")
    case None
    then show ?thesis using newRotatingFileWriter_ok(3) [OF assms(1)] by (simp add: contents_def)
  next
    case (Some b)
    then show ?thesis
      using w' that by (cases "i = 0") (auto simp: writer_ok_def contents_def)
  qed
  moreover have "int m * (w_maxBytes w - L) \<le> int (length (log_text n (w_disk w')))"
    if full: "\<forall>i. 0 < i \<and> i < n \<longrightarrow> w_disk w' i \<noteq> None"
  proof -
    have filled: "w_maxBytes w - L \<le> int (length (contents (w_disk w') (Suc i)))" if "i < m" for i
    proof -
      have i: "0 < Suc i" "Suc i < n" using that n by simp_all
      then obtain b where b: "w_disk w' (Suc i) = Some b" using full by blast
      then have "w_maxBytes w - L < int (length b)"
        using w'(1,3,4) i unfolding writer_ok_def by metis
      then show ?thesis by (simp add: contents_def b)
    qed
    from concat_length_lower [of m "w_maxBytes w - L" "\<lambda>i. contents (w_disk w') (Suc i)"] filled
    show ?thesis by (simp add: n log_text_Suc)
  qed
  ultimately show ?thesis using w'(2,4) n by (auto simp: keeps_def)
qed

theorem log_rotation_witness:
  "suffix (log_text 5 (w_disk (snd (snd (file_Write True True 1 ''a''
     (the (newRotatingFileWriter True True logRotateCfg Map.empty))))))) ''a''"
proof -
  have "TrimSpace ''logs'' \<noteq> []" "TrimSpace ''router-center.log'' \<noteq> []" by code_simp+
  then obtain w where w: "newRotatingFileWriter True True logRotateCfg Map.empty = Some w"
      "w_maxFiles w = 5" "w_maxBytes w = 20 * 1024 * 1024"
    by (simp add: newRotatingFileWriter_def logRotateCfg_def openCurrent_def)
  from log_rotation [OF w(1), of 1 "[''a'']", OF _ _ refl refl] w(2,3) show ?thesis
    by (simp add: w(1))
qed

text \<open>Whatever the writer's creation gave, the message that rotation is enabled is never logged.\<close>

lemma rotation_never_announced: "\<not> pl_once pl \<Longrightarrow> \<not> pl_announced (InstallProcessLogCapture capacity new pl)"
  by (simp add: InstallProcessLogCapture_def Let_def)

end
