(* ===== verification/ConfigModel.thy ===== *)
theory ConfigModel
  imports Dto
begin

text \<open>
  \<open>internal/config/config.go\<close>: the two configuration files, their defaults and checks. The file
  system is a map from names to files; a file that exists may be unreadable.
\<close>

section \<open>Configurations\<close>

record RouterServerConfig =
  rsc_RouterServerPort :: int
  rsc_HTTPMonitorPort :: int
  rsc_AdminPassword :: gostring

record RouterClientConfig =
  rcc_RouteId :: gostring
  rcc_RouterCenterHost :: gostring
  rcc_RouterCenterPort :: int
  rcc_RpcMode :: gostring
  rcc_LocalRpcHost :: gostring
  rcc_LocalRpcPort :: int
  rcc_HeartBeatIntervalSecond :: int
  rcc_ReconnectIntervalMs :: int

definition json_RouterServerConfig :: "RouterServerConfig \<Rightarrow> json" where
  "json_RouterServerConfig c = JObj
     [(''routerServerPort'', JNum (Itoa (rsc_RouterServerPort c))),
      (''httpMonitorPort'', JNum (Itoa (rsc_HTTPMonitorPort c))),
      (''adminPassword'', JStr (rsc_AdminPassword c))]"

definition zero_RouterServerConfig :: RouterServerConfig where
  "zero_RouterServerConfig =
     \<lparr>rsc_RouterServerPort = 0, rsc_HTTPMonitorPort = 0, rsc_AdminPassword = []\<rparr>"

definition decode_RouterServerConfig :: "json \<Rightarrow> RouterServerConfig \<times> bool" where
  "decode_RouterServerConfig = decode_struct
     [(''routerServerPort'', int_field rsc_RouterServerPort_update),
      (''httpMonitorPort'', int_field rsc_HTTPMonitorPort_update),
      (''adminPassword'', string_field rsc_AdminPassword_update)] zero_RouterServerConfig"

definition json_RouterClientConfig :: "RouterClientConfig \<Rightarrow> json" where
  "json_RouterClientConfig c = JObj
     [(''routeId'', JStr (rcc_RouteId c)), (''routerCenterHost'', JStr (rcc_RouterCenterHost c)),
      (''routerCenterPort'', JNum (Itoa (rcc_RouterCenterPort c))),
      (''rpcMode'', JStr (rcc_RpcMode c)), (''localRpcHost'', JStr (rcc_LocalRpcHost c)),
      (''localRpcPort'', JNum (Itoa (rcc_LocalRpcPort c))),
      (''heartBeatIntervalSecond'', JNum (Itoa (rcc_HeartBeatIntervalSecond c))),
      (''reconnectIntervalMs'', JNum (Itoa (rcc_ReconnectIntervalMs c)))]"

definition zero_RouterClientConfig :: RouterClientConfig where
  "zero_RouterClientConfig =
     \<lparr>rcc_RouteId = [], rcc_RouterCenterHost = [], rcc_RouterCenterPort = 0, rcc_RpcMode = [],
      rcc_LocalRpcHost = [], rcc_LocalRpcPort = 0, rcc_HeartBeatIntervalSecond = 0,
      rcc_ReconnectIntervalMs = 0\<rparr>"

definition decode_RouterClientConfig :: "json \<Rightarrow> RouterClientConfig \<times> bool" where
  "decode_RouterClientConfig = decode_struct
     [(''routeId'', string_field rcc_RouteId_update),
      (''routerCenterHost'', string_field rcc_RouterCenterHost_update),
      (''routerCenterPort'', int_field rcc_RouterCenterPort_update),
      (''rpcMode'', string_field rcc_RpcMode_update),
      (''localRpcHost'', string_field rcc_LocalRpcHost_update),
      (''localRpcPort'', int_field rcc_LocalRpcPort_update),
      (''heartBeatIntervalSecond'', int_field rcc_HeartBeatIntervalSecond_update),
      (''reconnectIntervalMs'', int_field rcc_ReconnectIntervalMs_update)] zero_RouterClientConfig"

definition server_config_ok :: "RouterServerConfig \<Rightarrow> bool" where
  "server_config_ok c \<longleftrightarrow> int64_range (rsc_RouterServerPort c) \<and> int64_range (rsc_HTTPMonitorPort c)"

definition client_config_ok :: "RouterClientConfig \<Rightarrow> bool" where
  "client_config_ok c \<longleftrightarrow> int64_range (rcc_RouterCenterPort c) \<and> int64_range (rcc_LocalRpcPort c) \<and>
     int64_range (rcc_HeartBeatIntervalSecond c) \<and> int64_range (rcc_ReconnectIntervalMs c)"

interpretation server_config: json_codec json_RouterServerConfig decode_RouterServerConfig server_config_ok
  by unfold_locales
    (simp_all add: json_RouterServerConfig_def server_config_ok_def decode_RouterServerConfig_def
      decode_struct_def find_field_def zero_RouterServerConfig_def)

interpretation client_config: json_codec json_RouterClientConfig decode_RouterClientConfig client_config_ok
  by unfold_locales
    (simp_all add: json_RouterClientConfig_def client_config_ok_def decode_RouterClientConfig_def
      decode_struct_def find_field_def zero_RouterClientConfig_def)

section \<open>Files\<close>

datatype disk_file = Contents gostring | Unreadable

type_synonym files = "gostring \<rightharpoonup> disk_file"

definition RouterServerConfigName :: gostring where
  "RouterServerConfigName = ''neko233-router-server.json''"

definition RouterClientConfigName :: gostring where
  "RouterClientConfigName = ''neko233-router-client.json''"

text \<open>\<open>json.MarshalIndent(cfg, "", "  ")\<close> of a struct with scalar fields.\<close>

definition indent_member :: "gostring \<times> json \<Rightarrow> gostring" where
  "indent_member m = [CHR 0x0A] @ ''  '' @ quote (fst m) @ '': '' @ json_print (snd m)"

definition MarshalIndent :: "json \<Rightarrow> gostring" where
  "MarshalIndent v =
     (case v of
        JObj ms \<Rightarrow> if ms = [] then ''{}''
                   else ''{'' @ Join (List.map indent_member ms) '','' @ [CHR 0x0A] @ ''}''
      | _ \<Rightarrow> json_print v)"

definition writeDefault :: "gostring \<Rightarrow> json \<Rightarrow> files \<Rightarrow> files" where
  "writeDefault fileName cfg fs = fs(fileName \<mapsto> Contents (MarshalIndent cfg))"

definition generated_error :: "gostring \<Rightarrow> gostring" where
  "generated_error fileName =
     ([CHR 0xE6, CHR 0xB2, CHR 0xA1, CHR 0xE6, CHR 0x9C, CHR 0x89, CHR 0xE5, CHR 0x9C, CHR 0xA8, CHR 0xE5,
        CHR 0xBD, CHR 0x93, CHR 0xE5, CHR 0x89, CHR 0x8D, CHR 0xE8, CHR 0xB7, CHR 0xAF, CHR 0xE5, CHR 0xBE,
        CHR 0x84, CHR 0xE6, CHR 0x89, CHR 0xBE, CHR 0xE5, CHR 0x88, CHR 0xB0, CHR 0xE9, CHR 0x85, CHR 0x8D,
        CHR 0xE7, CHR 0xBD, CHR 0xAE, CHR 0xE6, CHR 0x96, CHR 0x87, CHR 0xE4, CHR 0xBB, CHR 0xB6] @ '',
        '' @ [CHR 0xE8, CHR 0x87, CHR 0xAA, CHR 0xE5, CHR 0x8A, CHR 0xA8, CHR 0xE7, CHR 0xBB, CHR 0x99,
        CHR 0xE4, CHR 0xBD, CHR 0xA0, CHR 0xE7, CHR 0x94, CHR 0x9F, CHR 0xE6, CHR 0x88, CHR 0x90, CHR 0xE4,
        CHR 0xBA, CHR 0x86, CHR 0xE4, CHR 0xB8, CHR 0x80, CHR 0xE4, CHR 0xB8,
        CHR 0xAA] @ '' '') @ fileName @ ('', '' @ [CHR 0xE9, CHR 0x85, CHR 0x8D, CHR 0xE7, CHR 0xBD,
        CHR 0xAE, CHR 0xE5, CHR 0xA5, CHR 0xBD, CHR 0xE5, CHR 0x90, CHR 0x8E, CHR 0xE5, CHR 0x86, CHR 0x8D,
        CHR 0xE5, CHR 0x90, CHR 0xAF, CHR 0xE5, CHR 0x8A, CHR 0xA8, CHR 0xE9, CHR 0xA1, CHR 0xB9, CHR 0xE7, CHR 0x9B, CHR 0xAE] @ ''!'')"

text \<open>Indented text reads back like the compact one.\<close>

lemma lex_space [simp]: "lex LNone (CHR 0x0A # cs) = lex LNone cs" "lex LNone (CHR '' '' # cs) = lex LNone cs"
  by (simp_all add: lex.simps(7) lex_start_def json_space_def option.map_ident)

lemma number_ends_newline [simp]: "number_ends (CHR 0x0A # cs)"
  by (simp add: number_ends_def number_char_def is_digit_def)

lemma lexes_indent_member:
  assumes "wf_json (snd m)"
  shows "lexes_to (indent_member m) (TStr (fst m) # TColon # tokens_of (snd m))"
proof -
  have "lex LNone (json_print (snd m) @ rest) = map_option ((@) (tokens_of (snd m))) (lex LNone rest)"
    if "number_ends rest" for rest using lexes_to_print [OF assms] that by (simp add: lexes_to_def)
  then show ?thesis
    by (intro lexes_toI) (simp add: indent_member_def lex_quote option.map_comp comp_def fun_eq_iff
        cong: option.map_cong)
qed

lemma json_parse_MarshalIndent:
  assumes "wf_json (JObj ms)"
  shows "json_parse (MarshalIndent (JObj ms)) = Some (JObj ms)"
proof -
  have "lexes_to (indent_member m) (TStr (fst m) # TColon # tokens_of (snd m))" if "m \<in> set ms" for m
    using assms that by (intro lexes_indent_member) (auto simp: list_all_iff)
  note mem = lexes_join [where f = indent_member and g = "\<lambda>m. TStr (fst m) # TColon # tokens_of (snd m)", OF this]
  have "lex LNone (MarshalIndent (JObj ms)) = Some (tokens_of (JObj ms))"
    by (auto simp: MarshalIndent_def mem case_prod_beta')
  then show ?thesis
    by (simp del: tokens_of.simps add: json_parse_def parse_tokens_of)
qed

section \<open>The server's configuration\<close>

definition default_server_config :: RouterServerConfig where
  "default_server_config =
     \<lparr>rsc_RouterServerPort = 9999, rsc_HTTPMonitorPort = 19999, rsc_AdminPassword = ''root''\<rparr>"

definition server_port_error :: "gostring \<Rightarrow> gostring" where
  "server_port_error fileName =
     ([CHR 0xE8, CHR 0xAF, CHR 0xB7, CHR 0xE5, CHR 0x86, CHR 0x8D, CHR 0xE6, CHR 0xA3, CHR 0x80, CHR 0xE6,
        CHR 0x9F, CHR 0xA5, CHR 0xE4, CHR 0xB8, CHR 0x80, CHR 0xE4, CHR 0xB8,
        CHR 0x8B] @ '' '') @ fileName @ ('' '' @ [CHR 0xE7, CHR 0x9A, CHR 0x84, CHR 0xE9, CHR 0x85, CHR 0x8D,
        CHR 0xE7, CHR 0xBD, CHR 0xAE] @ '', '' @ [CHR 0xE4, CHR 0xB8, CHR 0x8D, CHR 0xE5, CHR 0x85, CHR 0x81,
        CHR 0xE8, CHR 0xAE, CHR 0xB8] @ '' routerServerPort = 0'')"

definition ReadRouterServerConfig ::
  "gostring \<Rightarrow> files \<Rightarrow> (gostring + RouterServerConfig) \<times> files" where
  "ReadRouterServerConfig fileName fs =
     (let fileName = (if fileName = [] then RouterServerConfigName else fileName) in
      case fs fileName of
        None \<Rightarrow>
          (Inl (generated_error fileName),
           writeDefault fileName (json_RouterServerConfig default_server_config) fs)
      | Some Unreadable \<Rightarrow> (Inl ''read error'', fs)
      | Some (Contents data) \<Rightarrow>
          (case Unmarshal decode_RouterServerConfig zero_RouterServerConfig data of (cfg, ok) \<Rightarrow>
             if \<not> ok then (Inl ''json error'', fs)
             else if rsc_RouterServerPort cfg = 0 then (Inl (server_port_error fileName), fs)
             else
               let cfg = (if rsc_HTTPMonitorPort cfg = 0 then cfg\<lparr>rsc_HTTPMonitorPort := 19999\<rparr> else cfg);
                   cfg = (if rsc_AdminPassword cfg = [] then cfg\<lparr>rsc_AdminPassword := ''neko233''\<rparr> else cfg)
               in (Inr cfg, fs)))"

definition WriteRouterServerConfig :: "gostring \<Rightarrow> RouterServerConfig \<Rightarrow> files \<Rightarrow> files" where
  "WriteRouterServerConfig fileName cfg fs =
     (let fileName = (if fileName = [] then RouterServerConfigName else fileName) in
      writeDefault fileName (json_RouterServerConfig cfg) fs)"

text \<open>
  When the write fails. \<open>os.WriteFile\<close> truncates the file before it writes: \<open>left\<close> is \<open>None\<close> when the
  file could not be opened, else the number of bytes that were written.
\<close>

definition failed_write :: "nat option \<Rightarrow> gostring \<Rightarrow> json \<Rightarrow> files \<Rightarrow> files" where
  "failed_write left fileName cfg fs =
     (case left of None \<Rightarrow> fs | Some n \<Rightarrow> fs(fileName \<mapsto> Contents (take n (MarshalIndent cfg))))"

definition WriteRouterServerConfig_failed ::
  "nat option \<Rightarrow> gostring \<Rightarrow> RouterServerConfig \<Rightarrow> files \<Rightarrow> files" where
  "WriteRouterServerConfig_failed left fileName cfg fs =
     (let fileName = (if fileName = [] then RouterServerConfigName else fileName) in
      failed_write left fileName (json_RouterServerConfig cfg) fs)"

section \<open>The client's configuration\<close>

definition NewDefaultRouterClientConfig :: RouterClientConfig where
  "NewDefaultRouterClientConfig = zero_RouterClientConfig
     \<lparr>rcc_RpcMode := ''relay'', rcc_HeartBeatIntervalSecond := 10, rcc_ReconnectIntervalMs := 10000\<rparr>"

text \<open>
  \<open>Check\<close> changes the configuration it is called on: the error, and the configuration afterwards.
\<close>

definition Check :: "RouterClientConfig \<Rightarrow> gostring option \<times> RouterClientConfig" where
  "Check cfg =
     (if TrimSpace (rcc_RouteId cfg) = [] then (Some ([CHR 0xE9, CHR 0x85, CHR 0x8D, CHR 0xE7, CHR 0xBD,
        CHR 0xAE, CHR 0xE9, CHR 0x94, CHR 0x99, CHR 0xE8, CHR 0xAF, CHR 0xAF] @ '': '' @ [CHR 0xE4, CHR 0xB8,
        CHR 0x8D, CHR 0xE5, CHR 0x85, CHR 0x81, CHR 0xE8, CHR 0xAE, CHR 0xB8] @ '' routeId '' @ [CHR 0xE4,
        CHR 0xB8, CHR 0xBA, CHR 0xE7, CHR 0xA9, CHR 0xBA]), cfg)
      else if TrimSpace (rcc_RouterCenterHost cfg) = [] then
        (Some ([CHR 0xE9, CHR 0x85, CHR 0x8D, CHR 0xE7, CHR 0xBD, CHR 0xAE, CHR 0xE9, CHR 0x94, CHR 0x99,
        CHR 0xE8, CHR 0xAF, CHR 0xAF] @ '': '' @ [CHR 0xE4, CHR 0xB8, CHR 0x8D, CHR 0xE5, CHR 0x85, CHR 0x81,
        CHR 0xE8, CHR 0xAE, CHR 0xB8] @ '' routerCenterHost '' @ [CHR 0xE4, CHR 0xB8, CHR 0xBA, CHR 0xE7, CHR 0xA9, CHR 0xBA]), cfg)
      else if rcc_RouterCenterPort cfg = 0 then (Some ([CHR 0xE9, CHR 0x85, CHR 0x8D, CHR 0xE7, CHR 0xBD,
        CHR 0xAE, CHR 0xE9, CHR 0x94, CHR 0x99, CHR 0xE8, CHR 0xAF, CHR 0xAF] @ '': '' @ [CHR 0xE4, CHR 0xB8,
        CHR 0x8D, CHR 0xE5, CHR 0x85, CHR 0x81, CHR 0xE8, CHR 0xAE, CHR 0xB8] @ '' routerCenterPort = 0''), cfg)
      else
        let cfg = (if rcc_RpcMode cfg = [] then cfg\<lparr>rcc_RpcMode := ''relay''\<rparr> else cfg);
            cfg = (if rcc_HeartBeatIntervalSecond cfg \<le> 0 then cfg\<lparr>rcc_HeartBeatIntervalSecond := 10\<rparr> else cfg);
            cfg = (if rcc_ReconnectIntervalMs cfg \<le> 0 then cfg\<lparr>rcc_ReconnectIntervalMs := 10000\<rparr> else cfg);
            isDirect = EqualFold (rcc_RpcMode cfg) ''direct''
        in if isDirect then
             (if TrimSpace (rcc_LocalRpcHost cfg) = [] then (Some (''direct '' @ [CHR 0xE6, CHR 0xA8,
        CHR 0xA1, CHR 0xE5, CHR 0xBC, CHR 0x8F, CHR 0xE4, CHR 0xB8, CHR 0x8B, CHR 0xEF, CHR 0xBC, CHR 0x8C,
        CHR 0xE5, CHR 0xBF, CHR 0x85, CHR 0xE9, CHR 0xA1, CHR 0xBB, CHR 0xE9, CHR 0x85, CHR 0x8D, CHR 0xE7, CHR 0xBD, CHR 0xAE] @ '' localRpcHost''), cfg)
              else if rcc_LocalRpcPort cfg = 0 then (Some (''direct '' @ [CHR 0xE6, CHR 0xA8, CHR 0xA1,
        CHR 0xE5, CHR 0xBC, CHR 0x8F, CHR 0xE4, CHR 0xB8, CHR 0x8B, CHR 0xEF, CHR 0xBC, CHR 0x8C, CHR 0xE5,
        CHR 0xBF, CHR 0x85, CHR 0xE9, CHR 0xA1, CHR 0xBB, CHR 0xE9, CHR 0x85, CHR 0x8D, CHR 0xE7, CHR 0xBD, CHR 0xAE] @ '' localRpcPort''), cfg)
              else (None, cfg))
           else (None, cfg))"

definition client_config_error :: "gostring \<Rightarrow> gostring \<Rightarrow> gostring" where
  "client_config_error fileName err = ([CHR 0xE8, CHR 0xAF, CHR 0xB7, CHR 0xE5, CHR 0x86, CHR 0x8D, CHR 0xE6,
        CHR 0xA3, CHR 0x80, CHR 0xE6, CHR 0x9F, CHR 0xA5, CHR 0xE4, CHR 0xB8, CHR 0x80, CHR 0xE4, CHR 0xB8,
        CHR 0x8B] @ '' '') @ fileName @ ('' '' @ [CHR 0xE7, CHR 0x9A, CHR 0x84, CHR 0xE9, CHR 0x85, CHR 0x8D, CHR 0xE7, CHR 0xBD, CHR 0xAE] @ '', '') @ err"

definition ReadRouterClientConfig ::
  "gostring \<Rightarrow> files \<Rightarrow> (gostring + RouterClientConfig) \<times> files" where
  "ReadRouterClientConfig fileName fs =
     (let fileName = (if fileName = [] then RouterClientConfigName else fileName) in
      case fs fileName of
        None \<Rightarrow>
          (Inl (generated_error fileName),
           writeDefault fileName (json_RouterClientConfig NewDefaultRouterClientConfig) fs)
      | Some Unreadable \<Rightarrow> (Inl ''read error'', fs)
      | Some (Contents data) \<Rightarrow>
          (case Unmarshal decode_RouterClientConfig zero_RouterClientConfig data of (cfg, ok) \<Rightarrow>
             if \<not> ok then (Inl ''json error'', fs)
             else
               (case Check cfg of
                  (Some err, _) \<Rightarrow> (Inl (client_config_error fileName err), fs)
                | (None, cfg) \<Rightarrow> (Inr cfg, fs))))"

section \<open>What \<open>Check\<close> does\<close>

text \<open>The values that \<open>Check\<close> fills in.\<close>

definition with_defaults :: "RouterClientConfig \<Rightarrow> RouterClientConfig" where
  "with_defaults cfg = cfg
     \<lparr>rcc_RpcMode := (if rcc_RpcMode cfg = [] then ''relay'' else rcc_RpcMode cfg),
      rcc_HeartBeatIntervalSecond :=
        (if rcc_HeartBeatIntervalSecond cfg \<le> 0 then 10 else rcc_HeartBeatIntervalSecond cfg),
      rcc_ReconnectIntervalMs :=
        (if rcc_ReconnectIntervalMs cfg \<le> 0 then 10000 else rcc_ReconnectIntervalMs cfg)\<rparr>"

lemma with_defaults_twice: "with_defaults (with_defaults cfg) = with_defaults cfg"
  by (simp add: with_defaults_def)

lemma default_updates:
  "(if b then cfg\<lparr>rcc_RpcMode := x\<rparr> else cfg) = cfg\<lparr>rcc_RpcMode := if b then x else rcc_RpcMode cfg\<rparr>"
  "(if b then cfg\<lparr>rcc_HeartBeatIntervalSecond := i\<rparr> else cfg) =
     cfg\<lparr>rcc_HeartBeatIntervalSecond := if b then i else rcc_HeartBeatIntervalSecond cfg\<rparr>"
  "(if b then cfg\<lparr>rcc_ReconnectIntervalMs := i\<rparr> else cfg) =
     cfg\<lparr>rcc_ReconnectIntervalMs := if b then i else rcc_ReconnectIntervalMs cfg\<rparr>"
  by simp_all

lemma default_lets:
  "(let cfg = (if rcc_RpcMode cfg = [] then cfg\<lparr>rcc_RpcMode := ''relay''\<rparr> else cfg);
        cfg = (if rcc_HeartBeatIntervalSecond cfg \<le> 0 then cfg\<lparr>rcc_HeartBeatIntervalSecond := 10\<rparr> else cfg);
        cfg = (if rcc_ReconnectIntervalMs cfg \<le> 0 then cfg\<lparr>rcc_ReconnectIntervalMs := 10000\<rparr> else cfg)
    in f cfg) = f (with_defaults cfg)"
  unfolding Let_def default_updates with_defaults_def by (simp cong: if_cong split del: if_split)

lemma Check_None:
  "Check cfg = (None, cfg') \<longleftrightarrow>
     TrimSpace (rcc_RouteId cfg) \<noteq> [] \<and> TrimSpace (rcc_RouterCenterHost cfg) \<noteq> [] \<and>
     rcc_RouterCenterPort cfg \<noteq> 0 \<and> cfg' = with_defaults cfg \<and>
     (EqualFold (rcc_RpcMode (with_defaults cfg)) ''direct'' \<longrightarrow>
        TrimSpace (rcc_LocalRpcHost cfg) \<noteq> [] \<and> rcc_LocalRpcPort cfg \<noteq> 0)"
proof -
  have kept: "rcc_LocalRpcHost (with_defaults cfg) = rcc_LocalRpcHost cfg"
      "rcc_LocalRpcPort (with_defaults cfg) = rcc_LocalRpcPort cfg" by (simp_all add: with_defaults_def)
  show ?thesis unfolding Check_def default_lets by (auto simp: kept Let_def split: if_splits)
qed

section \<open>Properties\<close>

text \<open>
  C29: a configuration that passes \<open>Check\<close> is usable and stable: id and host are not blank, the port
  and both intervals are set, direct mode has an address, and a second \<open>Check\<close> changes nothing.
  Every value the user gave is kept: the ids, addresses and ports always, the mode unless it is
  empty and the two intervals unless they are not positive, when they become relay, 10 s and 10 s.
\<close>

theorem Check_normalises:
  assumes "Check cfg = (None, cfg')"
  shows "TrimSpace (rcc_RouteId cfg') \<noteq> [] \<and> TrimSpace (rcc_RouterCenterHost cfg') \<noteq> [] \<and>
    rcc_RouterCenterPort cfg' \<noteq> 0 \<and> rcc_RpcMode cfg' \<noteq> [] \<and>
    0 < rcc_HeartBeatIntervalSecond cfg' \<and> 0 < rcc_ReconnectIntervalMs cfg' \<and>
    (EqualFold (rcc_RpcMode cfg') ''direct'' \<longrightarrow>
       TrimSpace (rcc_LocalRpcHost cfg') \<noteq> [] \<and> rcc_LocalRpcPort cfg' \<noteq> 0) \<and>
    Check cfg' = (None, cfg') \<and>
    rcc_RouteId cfg' = rcc_RouteId cfg \<and> rcc_RouterCenterHost cfg' = rcc_RouterCenterHost cfg \<and>
    rcc_RouterCenterPort cfg' = rcc_RouterCenterPort cfg \<and>
    rcc_LocalRpcHost cfg' = rcc_LocalRpcHost cfg \<and> rcc_LocalRpcPort cfg' = rcc_LocalRpcPort cfg \<and>
    rcc_RpcMode cfg' = (if rcc_RpcMode cfg = [] then ''relay'' else rcc_RpcMode cfg) \<and>
    rcc_HeartBeatIntervalSecond cfg' =
      (if 0 < rcc_HeartBeatIntervalSecond cfg then rcc_HeartBeatIntervalSecond cfg else 10) \<and>
    rcc_ReconnectIntervalMs cfg' =
      (if 0 < rcc_ReconnectIntervalMs cfg then rcc_ReconnectIntervalMs cfg else 10000)"
proof -
  note ok = assms [unfolded Check_None]
  then have modes: "rcc_RpcMode (with_defaults cfg) \<noteq> []" by (simp add: with_defaults_def)
  have "Check (with_defaults cfg) = (None, with_defaults cfg)"
    using ok by (simp add: Check_None with_defaults_twice) (simp add: with_defaults_def)
  with ok modes show ?thesis by (auto simp: with_defaults_def)
qed

definition sample_client_config :: RouterClientConfig where
  "sample_client_config = NewDefaultRouterClientConfig
     \<lparr>rcc_RouteId := ''n'', rcc_RouterCenterHost := ''h'', rcc_RouterCenterPort := 9999,
      rcc_RpcMode := [], rcc_ReconnectIntervalMs := 0\<rparr>"

lemma TrimSpace_letters: "TrimSpace ''n'' = ''n''" "TrimSpace ''h'' = ''h''"
  by (rule TrimSpace_id; auto simp: space_seqs_def Cons_eq_append_conv append_eq_Cons_conv)+

lemma Check_sample: "Check sample_client_config = (None, sample_client_config
    \<lparr>rcc_RpcMode := ''relay'', rcc_ReconnectIntervalMs := 10000\<rparr>)"
  by (simp add: Check_def sample_client_config_def NewDefaultRouterClientConfig_def TrimSpace_letters
      zero_RouterClientConfig_def EqualFold_def ToLower_def lower_char_def)

theorem Check_normalises_witness:
  "Check (sample_client_config\<lparr>rcc_RpcMode := ''relay'', rcc_ReconnectIntervalMs := 10000\<rparr>) =
     (None, sample_client_config\<lparr>rcc_RpcMode := ''relay'', rcc_ReconnectIntervalMs := 10000\<rparr>)"
  using Check_normalises [OF Check_sample] by blast


lemma Unmarshal_server_written:
  "server_config_ok cfg \<Longrightarrow>
     Unmarshal decode_RouterServerConfig zero_RouterServerConfig (MarshalIndent (json_RouterServerConfig cfg)) =
       (cfg, True)"
  using server_config.enc_wf [of cfg] server_config.dec_enc [of cfg]
    json_parse_MarshalIndent [of "[(''routerServerPort'', JNum (Itoa (rsc_RouterServerPort cfg))),
      (''httpMonitorPort'', JNum (Itoa (rsc_HTTPMonitorPort cfg))),
      (''adminPassword'', JStr (rsc_AdminPassword cfg))]"]
  by (simp add: Unmarshal_def json_RouterServerConfig_def)

text \<open>
  What the router writes it reads back: a configuration saved with its port, monitor port and
  password set is the one the next start reads; the file generated by a first start without one
  is read by the second as the default configuration.
\<close>

theorem server_config_roundtrip:
  assumes "server_config_ok cfg" "rsc_RouterServerPort cfg \<noteq> 0" "rsc_HTTPMonitorPort cfg \<noteq> 0"
    and "rsc_AdminPassword cfg \<noteq> []"
  shows "fst (ReadRouterServerConfig name (WriteRouterServerConfig name cfg fs)) = Inr cfg \<and>
    (fs (if name = [] then RouterServerConfigName else name) = None \<longrightarrow>
       fst (ReadRouterServerConfig name (snd (ReadRouterServerConfig name fs))) = Inr default_server_config)"
proof -
  have "server_config_ok default_server_config"
    by (simp add: server_config_ok_def default_server_config_def int64_range_def)
  from Unmarshal_server_written [OF this] Unmarshal_server_written [OF assms(1)] show ?thesis
    using assms(2-4)
    by (auto simp: ReadRouterServerConfig_def WriteRouterServerConfig_def writeDefault_def Let_def
        default_server_config_def)
qed

theorem server_config_roundtrip_witness:
  "fst (ReadRouterServerConfig [] (snd (ReadRouterServerConfig [] Map.empty))) = Inr default_server_config"
  using server_config_roundtrip [of default_server_config "[]" Map.empty]
  by (simp add: server_config_ok_def default_server_config_def int64_range_def)

end
