(* ===== verification/HttpMonitor.thy ===== *)
theory HttpMonitor
  imports Jwt IpGeo Logs ConfigModel
begin

text \<open>
  \<open>internal/VirtualRouterServer/http_server.go\<close>: the HTTP console of the router. A request is its
  method, path, query parameters (\<open>r.URL.Query().Get\<close>), body, \<open>Authorization\<close> header and admin
  cookie; a response its status, headers, cookies and body. A handler runs in one step on the
  state it shares with the router: configuration, router, configuration files, recent log lines,
  resolver. What the platform answers (clock, map orders, memory, the web, the embedded files)
  is the environment.
\<close>

section \<open>Requests, responses, state\<close>

record request =
  rq_Method :: gostring
  rq_Path :: gostring
  rq_Query :: "gostring \<Rightarrow> gostring"
  rq_Body :: gostring
  rq_Authorization :: gostring
  rq_Cookie :: "gostring option"

record set_cookie =
  sc_Value :: gostring
  sc_Expires :: int
  sc_MaxAge :: int

record response =
  rs_Status :: int
  rs_Headers :: "(gostring \<times> gostring) list"
  rs_Cookies :: "set_cookie list"
  rs_Body :: gostring

record mem_stats =
  ms_Alloc :: "64 word"
  ms_Sys :: "64 word"
  ms_NumGC :: int
  ms_PauseTotalNs :: "64 word"

record http_env =
  he_now :: int \<comment> \<open>nanoseconds\<close>
  he_jwt :: jwt_lib
  he_sessions :: "gostring list" \<comment> \<open>order of a range over the sessions\<close>
  he_stats :: "gostring list" \<comment> \<open>order of a range over the statistics\<close>
  he_web :: web
  he_write_error :: "gostring option" \<comment> \<open>writing the configuration fails\<close>
  he_write_left :: "nat option" \<comment> \<open>what a failed write leaves: the file as it was, or so many bytes\<close>
  he_GOOS :: gostring
  he_NumCPU :: int
  he_NumGoroutine :: int
  he_MemStats :: mem_stats
  he_stamp :: gostring \<comment> \<open>the time as \<open>20060102-150405\<close>\<close>
  he_files :: "request \<Rightarrow> response" \<comment> \<open>the file server over the embedded files\<close>

record monitor =
  hs_cfg :: RouterServerConfig
  hs_srv :: server
  hs_startTime :: int
  hs_disk :: files
  hs_logs :: logCapture
  hs_geo :: resolver

type_synonym handler = "http_env \<Rightarrow> request \<Rightarrow> monitor \<Rightarrow> response \<times> monitor"

definition UnixMilli :: "int \<Rightarrow> int" where
  "UnixMilli t = t div 1000000"

abbreviation jint :: "int \<Rightarrow> json" where
  "jint i \<equiv> JNum (Itoa i)"

definition writeJSON :: "int \<Rightarrow> json \<Rightarrow> response" where
  "writeJSON status obj =
     \<lparr>rs_Status = status, rs_Headers = [(''Content-Type'', ''application/json; charset=utf-8'')],
      rs_Cookies = [], rs_Body = json_print obj @ [CHR 0x0A]\<rparr>"

text \<open>The two shapes of an answer.\<close>

definition failure :: "gostring \<Rightarrow> json" where
  "failure msg = json_map [(''success'', JBool False), (''message'', JStr msg)]"

definition success_data :: "(gostring \<times> json) list \<Rightarrow> json" where
  "success_data d = json_map [(''success'', JBool True), (''data'', json_map d)]"

section \<open>Tokens in requests and answers\<close>

definition extractToken :: "request \<Rightarrow> gostring" where
  "extractToken r =
     (if HasPrefix (rq_Authorization r) ''Bearer '' then TrimPrefix (rq_Authorization r) ''Bearer ''
      else (case rq_Cookie r of Some c \<Rightarrow> TrimSpace c | None \<Rightarrow> []))"

definition setAuthCookie :: "int \<Rightarrow> gostring \<Rightarrow> response \<Rightarrow> response" where
  "setAuthCookie now token w = w\<lparr>rs_Cookies := rs_Cookies w @
     [\<lparr>sc_Value = token, sc_Expires = now + tokenExpire, sc_MaxAge = tokenExpire div second\<rparr>]\<rparr>"

definition clearAuthCookie :: "response \<Rightarrow> response" where
  "clearAuthCookie w = w\<lparr>rs_Cookies := rs_Cookies w @ [\<lparr>sc_Value = [], sc_Expires = 0, sc_MaxAge = -1\<rparr>]\<rparr>"

definition unauthorized :: response where
  "unauthorized = writeJSON 401 (failure (([CHR 0xE6, CHR 0x9C, CHR 0xAA, CHR 0xE6, CHR 0x8E, CHR 0x88,
        CHR 0xE6, CHR 0x9D, CHR 0x83, CHR 0xEF, CHR 0xBC, CHR 0x8C, CHR 0xE8, CHR 0xAF, CHR 0xB7, CHR 0xE5,
        CHR 0x85, CHR 0x88, CHR 0xE7, CHR 0x99, CHR 0xBB, CHR 0xE5, CHR 0xBD, CHR 0x95])))"

definition withAuth :: "handler \<Rightarrow> handler" where
  "withAuth next env r h =
     (if HasPrefix (rq_Path r) ''/api/auth/'' then next env r h
      else if rq_Method r = ''OPTIONS'' then next env r h
      else
        let token = extractToken r in
        if token = [] \<or> \<not> ValidateToken (he_jwt env) (he_now env) token then (unauthorized, h)
        else next env r h)"

section \<open>Logging in\<close>

definition method_not_allowed :: response where
  "method_not_allowed = writeJSON 405 (failure ''method not allowed'')"

record login_request =
  login_Password :: gostring

definition decode_login :: "json \<Rightarrow> login_request \<times> bool" where
  "decode_login = decode_struct [(''password'', string_field login_Password_update)] \<lparr>login_Password = []\<rparr>"

definition token_data :: "gostring \<Rightarrow> (gostring \<times> json) list" where
  "token_data token = [(''token'', JStr token), (''expiresIn'', jint (24 * 60 * 60)), (''tokenType'', JStr ''Bearer'')]"

definition handleLogin :: handler where
  "handleLogin env r h =
     (if rq_Method r \<noteq> ''POST'' then (method_not_allowed, h)
      else
        let req = fst (Decode decode_login \<lparr>login_Password = []\<rparr> (rq_Body r)) in
        if rsc_AdminPassword (hs_cfg h) = [] then
          (writeJSON 403 (failure (([CHR 0xE6, CHR 0x9C, CHR 0x8D, CHR 0xE5, CHR 0x8A, CHR 0xA1, CHR 0xE7,
        CHR 0xAB, CHR 0xAF, CHR 0xE6, CHR 0x9C, CHR 0xAA, CHR 0xE9, CHR 0x85, CHR 0x8D, CHR 0xE7, CHR 0xBD,
        CHR 0xAE] @ '' adminPassword'' @ [CHR 0xEF, CHR 0xBC, CHR 0x8C, CHR 0xE7, CHR 0xA6, CHR 0x81,
        CHR 0xE6, CHR 0xAD, CHR 0xA2, CHR 0xE7, CHR 0x99, CHR 0xBB, CHR 0xE5, CHR 0xBD, CHR 0x95]))), h)
        else if login_Password req = rsc_AdminPassword (hs_cfg h) then
          let token = (case GenerateToken (he_jwt env) (he_now env) ''admin'' of Some t \<Rightarrow> t | None \<Rightarrow> []) in
          (setAuthCookie (he_now env) token (writeJSON 200 (json_map
             [(''success'', JBool True), (''message'', JStr (([CHR 0xE7, CHR 0x99, CHR 0xBB, CHR 0xE5,
        CHR 0xBD, CHR 0x95, CHR 0xE6, CHR 0x88, CHR 0x90, CHR 0xE5, CHR 0x8A, CHR 0x9F]))),
              (''data'', json_map (token_data token @
                [(''user'', json_map [(''id'', JStr ''admin''), (''name'', JStr ''Administrator''),
                                      (''role'', JStr ''admin'')])]))])), h)
        else (writeJSON 401 (failure (([CHR 0xE5, CHR 0xAF, CHR 0x86, CHR 0xE7, CHR 0xA0, CHR 0x81, CHR 0xE9,
        CHR 0x94, CHR 0x99, CHR 0xE8, CHR 0xAF, CHR 0xAF]))), h))"

definition missing_token :: gostring where
  "missing_token = ([CHR 0xE7, CHR 0xBC, CHR 0xBA, CHR 0xE5, CHR 0xB0, CHR 0x91] @ '' Token'')"

definition handleRefresh :: handler where
  "handleRefresh env r h =
     (let token = extractToken r in
      if token = [] then (writeJSON 401 (failure missing_token), h)
      else
        (case RefreshToken (he_jwt env) (he_now env) token of
           None \<Rightarrow> (writeJSON 401 (failure ((''Token '' @ [CHR 0xE6, CHR 0x97, CHR 0xA0, CHR 0xE6,
        CHR 0x95, CHR 0x88, CHR 0xEF, CHR 0xBC, CHR 0x8C, CHR 0xE8, CHR 0xAF, CHR 0xB7, CHR 0xE9, CHR 0x87,
        CHR 0x8D, CHR 0xE6, CHR 0x96, CHR 0xB0, CHR 0xE7, CHR 0x99, CHR 0xBB, CHR 0xE5, CHR 0xBD, CHR 0x95]))), h)
         | Some newToken \<Rightarrow>
             (setAuthCookie (he_now env) newToken (writeJSON 200 (json_map
                [(''success'', JBool True), (''message'', JStr ((''Token '' @ [CHR 0xE5, CHR 0x88, CHR 0xB7,
        CHR 0xE6, CHR 0x96, CHR 0xB0, CHR 0xE6, CHR 0x88, CHR 0x90, CHR 0xE5, CHR 0x8A, CHR 0x9F]))),
                 (''data'', json_map (token_data newToken))])), h)))"

definition handleValidate :: handler where
  "handleValidate env r h =
     (let token = extractToken r in
      if token = [] then
        (writeJSON 401 (json_map [(''success'', JBool False), (''valid'', JBool False),
           (''message'', JStr missing_token)]), h)
      else
        (writeJSON 200 (json_map
           [(''success'', JBool True), (''valid'', JBool (ValidateToken (he_jwt env) (he_now env) token)),
            (''data'', json_map
              [(''remainingSeconds'', jint (GetTokenRemainingSeconds (he_jwt env) (he_now env) token)),
               (''shouldRefresh'', JBool (ShouldRefreshToken (he_jwt env) (he_now env) token))])]), h))"

definition handleLogout :: handler where
  "handleLogout env r h =
     (clearAuthCookie (writeJSON 200 (json_map [(''success'', JBool True), (''message'', JStr (([CHR 0xE7,
        CHR 0x99, CHR 0xBB, CHR 0xE5, CHR 0x87, CHR 0xBA, CHR 0xE6, CHR 0x88, CHR 0x90, CHR 0xE5, CHR 0x8A, CHR 0x9F])))])), h)"

section \<open>The state of the router\<close>

definition uptimeMs :: "http_env \<Rightarrow> monitor \<Rightarrow> int" where
  "uptimeMs env h = (he_now env - hs_startTime h) div 1000000"

definition handleStatus :: handler where
  "handleStatus env r h =
     (let uptime = uptimeMs env h in
      (writeJSON 200 (success_data
         [(''serverInfo'', json_map
            [(''name'', JStr ''Virtual Router Center''), (''version'', JStr ''0.0.10''), (''uptime'', jint uptime),
             (''startTime'', jint (UnixMilli (he_now env - uptime * 1000000)))]),
          (''system'', json_map
            [(''osName'', JStr (he_GOOS env)), (''osVersion'', JStr ''-''), (''javaVersion'', JStr ''-''),
             (''processors'', jint (he_NumCPU env))]),
          (''router'', json_map
            [(''port'', jint (rsc_RouterServerPort (hs_cfg h))),
             (''monitorPort'', jint (rsc_HTTPMonitorPort (hs_cfg h)))])]), h))"

text \<open>Division of \<open>int64\<close> values truncates.\<close>

definition int64_div :: "int \<Rightarrow> int \<Rightarrow> int" where
  "int64_div a b = (if a \<ge> 0 then a div b else - ((- a) div b))"

definition handleMetrics :: handler where
  "handleMetrics env r h =
     (let m = he_MemStats env;
          used = ms_Alloc m;
          max = ms_Sys m;
          usagePercent = (if sint max > 0 then int64_div (sint (used * 100)) (sint max) else 0)
      in (writeJSON 200 (success_data
           [(''cpu'', json_map
              [(''usage'', jint 0), (''loadAverage'', jint 0), (''cores'', jint (he_NumCPU env))]),
            (''memory'', json_map
              [(''used'', jint (sint used)), (''max'', jint (sint max)), (''total'', jint (sint max)),
               (''free'', jint (sint (max - used))), (''usagePercent'', jint usagePercent)]),
            (''thread'', json_map
              [(''count'', jint (he_NumGoroutine env)), (''peak'', jint (he_NumGoroutine env))]),
            (''gc'', JArr [json_map
              [(''name'', JStr ''GC''), (''collectionCount'', jint (ms_NumGC m)),
               (''collectionTime'', jint (int64_div (sint (ms_PauseTotalNs m)) 1000000))]])]), h))"

text \<open>The row of a session in the list of routers.\<close>

definition router_row :: "IPGeoInfo \<Rightarrow> RouterSessionSnapshot \<Rightarrow> json" where
  "router_row geo n =
     (let isRelay = snap_HostForRpc n = [] \<or> snap_PortForRpc n = 0;
          rpcMode = (if isRelay then ''relay'' else ''direct'');
          address = (if isRelay then ''-'' else snap_HostForRpc n @ '':'' @ Itoa (snap_PortForRpc n));
          location = TrimSpace (TrimSpace (geo_RegionName geo) @ '' '' @ TrimSpace (geo_City geo));
          location = (if location = [] then ''-'' else location);
          countryLabel = (if geo_CountryCode geo \<noteq> [] \<and> geo_CountryCode geo \<noteq> ''LOCAL'' \<and> geo_CountryCode geo \<noteq> ''LAN''
                          then geo_Country geo @ '' ('' @ geo_CountryCode geo @ '')'' else geo_Country geo);
          countryLabel = (if countryLabel = [] then unknown_country else countryLabel)
      in json_map
        [(''routeId'', JStr (snap_RouterId n)), (''rpcHost'', JStr (snap_HostForRpc n)),
         (''rpcPort'', jint (snap_PortForRpc n)), (''address'', JStr address),
         (''remoteAddr'', JStr (snap_RemoteAddr n)), (''remoteIp'', JStr (snap_RemoteIP n)),
         (''remotePort'', jint (snap_RemotePort n)), (''country'', JStr countryLabel),
         (''countryCode'', JStr (geo_CountryCode geo)), (''region'', JStr (geo_RegionName geo)),
         (''city'', JStr (geo_City geo)), (''location'', JStr location), (''isp'', JStr (geo_ISP geo)),
         (''org'', JStr (geo_Org geo)), (''as'', JStr (geo_AS geo)),
         (''stubCount'', jint (int (snap_StubCount n))), (''rpcMode'', JStr rpcMode),
         (''status'', JStr ''ONLINE''), (''connected'', JBool True),
         (''lastHeartbeat'', jint (snap_LastHeartbeatMs n)), (''uptime'', jint 0)])"

fun router_rows :: "web \<Rightarrow> gostring \<Rightarrow> RouterSessionSnapshot list \<Rightarrow> resolver \<Rightarrow> json list \<times> resolver" where
  "router_rows get keyword [] rv = ([], rv)"
| "router_rows get keyword (n # ns) rv =
     (if keyword \<noteq> [] \<and> \<not> Contains (ToLower (snap_RouterId n)) keyword then router_rows get keyword ns rv
      else
        (case resolveIPGeo get (snap_RemoteIP n) rv of (geo, rv) \<Rightarrow>
           (case router_rows get keyword ns rv of (rows, rv) \<Rightarrow> (router_row geo n # rows, rv))))"

definition handleRouters :: handler where
  "handleRouters env r h =
     (let nodes = GetAllSessionSnapshots (srv_net (hs_srv h)) (he_sessions env) (srv_sessions (hs_srv h));
          keyword = ToLower (TrimSpace (rq_Query r ''keyword''))
      in case router_rows (he_web env) keyword nodes (hs_geo h) of (routers, rv) \<Rightarrow>
        (writeJSON 200 (success_data
           [(''routers'', JArr routers), (''list'', JArr routers), (''total'', jint (int (length routers))),
            (''online'', jint (int (length routers))), (''offline'', jint 0)]),
         h\<lparr>hs_geo := rv\<rparr>))"

definition json_RouterRPCSnapshot :: "RouterRPCSnapshot \<Rightarrow> json" where
  "json_RouterRPCSnapshot s = JObj
     [(''routerId'', JStr (rank_RouterID s)), (''incomingTotal'', jint (uint (rank_IncomingTotal s))),
      (''outgoingTotal'', jint (uint (rank_OutgoingTotal s))), (''total'', jint (uint (rank_Total s))),
      (''perMinute'', jint (int (rank_PerMinute s)))]"

text \<open>A positive number from a query parameter, at most \<open>highest\<close>; otherwise \<open>def\<close>.\<close>

definition query_limit :: "int \<Rightarrow> int \<Rightarrow> gostring \<Rightarrow> int" where
  "query_limit def highest value =
     (if value = [] then def
      else (case Atoi value of
        None \<Rightarrow> def
      | Some parsed \<Rightarrow> if parsed > 0 then (if parsed > highest then highest else parsed) else def))"

definition handleRouterRPCRanking :: handler where
  "handleRouterRPCRanking env r h =
     (let limit = query_limit 20 500 (TrimSpace (rq_Query r ''limit''));
          keyword = TrimSpace (rq_Query r ''keyword'')
      in case RouterRPCStats (he_stats env) (UnixMilli (he_now env)) keyword limit (srv_rpcStats (hs_srv h)) of
           (list, stats) \<Rightarrow>
             (writeJSON 200 (success_data
                [(''list'', JArr (List.map json_RouterRPCSnapshot list)), (''total'', jint (int (length list))),
                 (''keyword'', JStr keyword), (''limit'', jint limit)]),
              h\<lparr>hs_srv := (hs_srv h)\<lparr>srv_rpcStats := stats\<rparr>\<rparr>))"

definition handleConnections :: handler where
  "handleConnections env r h =
     (case Stats (hs_srv h) of (totalConn, _, _, totalRequests) \<Rightarrow>
        (writeJSON 200 (success_data
           [(''connectionHistory'', JArr []), (''totalConnections'', jint (uint totalConn)),
            (''totalRequests'', jint (uint totalRequests))]), h))"

definition handleRpcStats :: handler where
  "handleRpcStats env r h =
     (case Stats (hs_srv h) of (_, _, totalBytes, totalRequests) \<Rightarrow>
        (writeJSON 200 (success_data
           [(''load'', json_map
              [(''percent'', jint 0), (''color'', JStr ''#00ff41''), (''status'', JStr (([CHR 0xE6, CHR 0xAD, CHR 0xA3, CHR 0xE5, CHR 0xB8, CHR 0xB8])))]),
            (''total'', json_map
              [(''messages'', jint (uint totalRequests)), (''bytes'', jint (uint totalBytes)),
               (''errors'', jint 0)])]), h))"

definition handleMessageStats :: handler where
  "handleMessageStats env r h = (writeJSON 200 (success_data [(''messageTypes'', JArr [])]), h)"

definition handleMonitorStats :: handler where
  "handleMonitorStats env r h =
     (case Stats (hs_srv h) of (_, currentConn, _, totalRequests) \<Rightarrow>
        (case RequestsPerMinute (UnixMilli (he_now env)) (srv_requestHits (hs_srv h)) of
           (requestsLastMinute, hits) \<Rightarrow>
             (writeJSON 200 (success_data
                [(''totalRequests'', jint (uint totalRequests)),
                 (''requestsLastMinute'', jint (int requestsLastMinute)), (''activeViewers'', jint currentConn),
                 (''uptime'', jint 0), (''totalConnections'', jint currentConn)]),
              h\<lparr>hs_srv := (hs_srv h)\<lparr>srv_requestHits := hits\<rparr>\<rparr>)))"

definition handleViewers :: handler where
  "handleViewers env r h =
     (case Stats (hs_srv h) of (_, currentConn, _, _) \<Rightarrow>
        (writeJSON 200 (success_data [(''activeViewers'', jint currentConn)]), h))"

section \<open>The log view\<close>

definition normalizeLogLevel :: "gostring \<Rightarrow> gostring" where
  "normalizeLogLevel raw =
     (let v = ToLower (TrimSpace raw) in
      if v \<in> {''info'', ''warn'', ''error'', ''all''} then v else ''all'')"

definition matchLogLevel :: "gostring \<Rightarrow> gostring \<Rightarrow> bool" where
  "matchLogLevel line level =
     (let lower = ToLower line in
      if level = ''error'' then Contains lower ''error'' \<or> Contains lower ''fatal''
      else if level = ''warn'' then Contains lower ''warn''
      else if level = ''info'' then
        \<not> (Contains lower ''error'' \<or> Contains lower ''fatal'' \<or> Contains lower ''warn'')
      else True)"

definition filter_keyword :: "gostring \<Rightarrow> gostring list \<Rightarrow> gostring list" where
  "filter_keyword keyword lines =
     (if keyword = [] then lines
      else filter (\<lambda>line. Contains (ToLower line) (ToLower keyword)) lines)"

definition filter_level :: "gostring \<Rightarrow> gostring list \<Rightarrow> gostring list" where
  "filter_level level lines =
     (if level = ''all'' then lines else filter (\<lambda>line. matchLogLevel line level) lines)"

definition handleLogs :: handler where
  "handleLogs env r h =
     (let keyword = TrimSpace (rq_Query r ''keyword'');
          level = normalizeLogLevel (rq_Query r ''level'');
          limit = query_limit 200 1000 (rq_Query r ''limit'');
          lines = filter_level level (filter_keyword keyword (GetRecentProcessLogs 1000 (hs_logs h)));
          lines = (if int (length lines) > limit then drop (length lines - nat limit) lines else lines)
      in (writeJSON 200 (success_data
           [(''lines'', JArr (List.map JStr lines)), (''count'', jint (int (length lines))),
            (''keyword'', JStr keyword), (''level'', JStr level)]), h))"

definition handleLogsExport :: handler where
  "handleLogsExport env r h =
     (let keyword = TrimSpace (rq_Query r ''keyword'');
          level = normalizeLogLevel (rq_Query r ''level'');
          limit = query_limit 1000 5000 (rq_Query r ''limit'');
          lines = filter_level level (filter_keyword keyword (GetRecentProcessLogs limit (hs_logs h)));
          fileName = ''router-logs-'' @ he_stamp env @ ''.txt''
      in (\<lparr>rs_Status = 200,
           rs_Headers = [(''Content-Type'', ''text/plain; charset=utf-8''),
             (''Content-Disposition'', ''attachment; filename='' @ [CHR 0x22] @ fileName @ [CHR 0x22])],
           rs_Cookies = [], rs_Body = Join lines [CHR 0x0A]\<rparr>, h))"

section \<open>Settings\<close>

definition handleSystemSettings :: handler where
  "handleSystemSettings env r h =
     (writeJSON 200 (success_data
        [(''routerServerPort'', jint (rsc_RouterServerPort (hs_cfg h))),
         (''httpMonitorPort'', jint (rsc_HTTPMonitorPort (hs_cfg h))),
         (''adminPasswordConfigured'', JBool (TrimSpace (rsc_AdminPassword (hs_cfg h)) \<noteq> [])),
         (''logBufferCapacity'', jint 800)]), h)"

record password_request =
  pr_OldPassword :: gostring
  pr_NewPassword :: gostring

definition decode_password :: "json \<Rightarrow> password_request \<times> bool" where
  "decode_password = decode_struct
     [(''oldPassword'', string_field pr_OldPassword_update), (''newPassword'', string_field pr_NewPassword_update)]
     \<lparr>pr_OldPassword = [], pr_NewPassword = []\<rparr>"

definition handleUpdateAdminPassword :: handler where
  "handleUpdateAdminPassword env r h =
     (if rq_Method r \<noteq> ''POST'' then (method_not_allowed, h)
      else
        (case Decode decode_password \<lparr>pr_OldPassword = [], pr_NewPassword = []\<rparr> (rq_Body r) of (req, ok) \<Rightarrow>
           if \<not> ok then (writeJSON 400 (failure (([CHR 0xE8, CHR 0xAF, CHR 0xB7, CHR 0xE6, CHR 0xB1,
        CHR 0x82, CHR 0xE6, CHR 0xA0, CHR 0xBC, CHR 0xE5, CHR 0xBC, CHR 0x8F, CHR 0xE9, CHR 0x94, CHR 0x99, CHR 0xE8, CHR 0xAF, CHR 0xAF]))), h)
           else if pr_OldPassword req \<noteq> rsc_AdminPassword (hs_cfg h) then
             (writeJSON 400 (failure (([CHR 0xE6, CHR 0x97, CHR 0xA7, CHR 0xE5, CHR 0xAF, CHR 0x86, CHR 0xE7,
        CHR 0xA0, CHR 0x81, CHR 0xE4, CHR 0xB8, CHR 0x8D, CHR 0xE6, CHR 0xAD, CHR 0xA3, CHR 0xE7, CHR 0xA1, CHR 0xAE]))), h)
           else if length (TrimSpace (pr_NewPassword req)) < 4 then
             (writeJSON 400 (failure (([CHR 0xE6, CHR 0x96, CHR 0xB0, CHR 0xE5, CHR 0xAF, CHR 0x86, CHR 0xE7,
        CHR 0xA0, CHR 0x81, CHR 0xE9, CHR 0x95, CHR 0xBF, CHR 0xE5, CHR 0xBA, CHR 0xA6, CHR 0xE8, CHR 0x87,
        CHR 0xB3, CHR 0xE5, CHR 0xB0, CHR 0x91] @ '' 4 '' @ [CHR 0xE4, CHR 0xBD, CHR 0x8D]))), h)
           else
             let cfg = (hs_cfg h)\<lparr>rsc_AdminPassword := TrimSpace (pr_NewPassword req)\<rparr>;
                 h = h\<lparr>hs_cfg := cfg\<rparr>
             in (case he_write_error env of
                   Some err \<Rightarrow> (writeJSON 500 (failure (([CHR 0xE6, CHR 0x9B, CHR 0xB4, CHR 0xE6,
        CHR 0x96, CHR 0xB0, CHR 0xE6, CHR 0x88, CHR 0x90, CHR 0xE5, CHR 0x8A, CHR 0x9F, CHR 0xE4, CHR 0xBD,
        CHR 0x86, CHR 0xE5, CHR 0x86, CHR 0x99, CHR 0xE5, CHR 0x85, CHR 0xA5, CHR 0xE9, CHR 0x85, CHR 0x8D,
        CHR 0xE7, CHR 0xBD, CHR 0xAE, CHR 0xE5, CHR 0xA4, CHR 0xB1, CHR 0xE8, CHR 0xB4, CHR 0xA5] @ '': '') @ err)),
                      h\<lparr>hs_disk := WriteRouterServerConfig_failed (he_write_left env) [] cfg (hs_disk h)\<rparr>)
                 | None \<Rightarrow>
                     (writeJSON 200 (json_map [(''success'', JBool True),
                        (''message'', JStr (([CHR 0xE7, CHR 0xAE, CHR 0xA1, CHR 0xE7, CHR 0x90, CHR 0x86,
        CHR 0xE5, CHR 0x91, CHR 0x98, CHR 0xE5, CHR 0xAF, CHR 0x86, CHR 0xE7, CHR 0xA0, CHR 0x81, CHR 0xE5,
        CHR 0xB7, CHR 0xB2, CHR 0xE6, CHR 0x9B, CHR 0xB4, CHR 0xE6, CHR 0x96, CHR 0xB0, CHR 0xE5, CHR 0xB9,
        CHR 0xB6, CHR 0xE5, CHR 0x86, CHR 0x99, CHR 0xE5, CHR 0x85, CHR 0xA5, CHR 0xE9, CHR 0x85, CHR 0x8D,
        CHR 0xE7, CHR 0xBD, CHR 0xAE, CHR 0xE6, CHR 0x96, CHR 0x87, CHR 0xE4, CHR 0xBB, CHR 0xB6])))]),
                      h\<lparr>hs_disk := WriteRouterServerConfig [] cfg (hs_disk h)\<rparr>))))"

section \<open>Debug calls\<close>

definition no_such_node :: gostring where
  "no_such_node = ([CHR 0xE8, CHR 0xB7, CHR 0xAF, CHR 0xE7, CHR 0x94, CHR 0xB1, CHR 0xE8, CHR 0x8A, CHR 0x82,
        CHR 0xE7, CHR 0x82, CHR 0xB9, CHR 0xE4, CHR 0xB8, CHR 0x8D, CHR 0xE5, CHR 0xAD, CHR 0x98, CHR 0xE5, CHR 0x9C, CHR 0xA8])"

definition handleValidateRouteId :: handler where
  "handleValidateRouteId env r h =
     (let routeId = rq_Query r ''routeId'' in
      if TrimSpace routeId = [] then (writeJSON 400 (failure (([CHR 0xE8, CHR 0xB7, CHR 0xAF, CHR 0xE7,
        CHR 0x94, CHR 0xB1] @ '' ID '' @ [CHR 0xE4, CHR 0xB8, CHR 0x8D, CHR 0xE8, CHR 0x83, CHR 0xBD,
        CHR 0xE4, CHR 0xB8, CHR 0xBA, CHR 0xE7, CHR 0xA9, CHR 0xBA]))), h)
      else
        let exists = GetSession (srv_sessions (hs_srv h)) routeId \<noteq> None in
        (writeJSON 200 (json_map
           [(''success'', JBool True), (''exists'', JBool exists), (''routeId'', JStr routeId),
            (''message'', JStr (if exists then ([CHR 0xE8, CHR 0xB7, CHR 0xAF, CHR 0xE7, CHR 0x94, CHR 0xB1,
        CHR 0xE8, CHR 0x8A, CHR 0x82, CHR 0xE7, CHR 0x82, CHR 0xB9, CHR 0xE5, CHR 0xAD, CHR 0x98, CHR 0xE5, CHR 0x9C, CHR 0xA8]) else no_such_node))]), h))"

definition handleAvailableRoutes :: handler where
  "handleAvailableRoutes env r h =
     (let ids = List.map node_RouterId (GetAllRouteNodeList (he_sessions env) (srv_sessions (hs_srv h))) in
      (writeJSON 200 (success_data
         [(''routeIds'', JArr (List.map JStr ids)), (''count'', jint (int (length ids)))]), h))"

definition findStub :: "RpcStubMetadata list option \<Rightarrow> int \<Rightarrow> RpcStubMetadata option" where
  "findStub stubs packetId =
     (case stubs of None \<Rightarrow> None | Some ss \<Rightarrow> find (\<lambda>s. stub_PacketId s = packetId) ss)"

definition afterLast :: "gostring \<Rightarrow> gostring \<Rightarrow> gostring" where
  "afterLast s sep =
     (let idx = LastIndex s sep in if idx < 0 then s else drop (nat idx + length sep) s)"

record debug_request =
  dr_TargetRouteId :: gostring
  dr_PacketId :: int
  dr_Params :: "json list option"

definition zero_debug_request :: debug_request where
  "zero_debug_request = \<lparr>dr_TargetRouteId = [], dr_PacketId = 0, dr_Params = None\<rparr>"

definition decode_debug_request :: "json \<Rightarrow> debug_request \<times> bool" where
  "decode_debug_request = decode_struct
     [(''targetRouteId'', string_field dr_TargetRouteId_update), (''packetId'', int_field dr_PacketId_update),
      (''params'', slice_field decode_any dr_Params_update)] zero_debug_request"

definition debug_args :: "debug_request \<Rightarrow> gostring list" where
  "debug_args req = (case dr_Params req of None \<Rightarrow> [] | Some ps \<Rightarrow> List.map json_print ps)"

definition debug_rpc :: "gostring \<Rightarrow> debug_request \<Rightarrow> json" where
  "debug_rpc requestId req = json_map
     [(''rpcUid'', JStr requestId), (''packetId'', jint (dr_PacketId req)),
      (''methodArgsJsonList'', JArr (List.map JStr (debug_args req))), (''fromDebug'', JBool True)]"

definition debug_message :: "gostring \<Rightarrow> debug_request \<Rightarrow> RouteMessage" where
  "debug_message requestId req =
     \<lparr>FromRouteId = ''debug-admin'', ToRouteId = dr_TargetRouteId req,
      MessageType = Some RouteMessageTypeRpcRequest, Data = Some (json_print (debug_rpc requestId req))\<rparr>"

definition debug_sent :: "gostring \<Rightarrow> debug_request \<Rightarrow> RpcStubMetadata \<Rightarrow> json" where
  "debug_sent requestId req stub = json_map
     [(''success'', JBool True), (''message'', JStr (([CHR 0xE2, CHR 0x9C,
        CHR 0x85] @ '' RPC '' @ [CHR 0xE8, CHR 0xB0, CHR 0x83, CHR 0xE8, CHR 0xAF, CHR 0x95, CHR 0xE8,
        CHR 0xAF, CHR 0xB7, CHR 0xE6, CHR 0xB1, CHR 0x82, CHR 0xE5, CHR 0xB7, CHR 0xB2, CHR 0xE5, CHR 0x8F, CHR 0x91, CHR 0xE9, CHR 0x80, CHR 0x81]))),
      (''data'', json_map
        [(''targetRouteId'', JStr (dr_TargetRouteId req)), (''packetId'', jint (dr_PacketId req)),
         (''method'', JStr (stub_ClassName stub @ ''.'' @ stub_MethodName stub)),
         (''paramsCount'', jint (int (length (debug_args req)))),
         (''requestId'', JStr requestId), (''status'', JStr ''sent''),
         (''note'', JStr ((''RPC '' @ [CHR 0xE8, CHR 0xAF, CHR 0xB7, CHR 0xE6,
        CHR 0xB1, CHR 0x82, CHR 0xE5, CHR 0xB7, CHR 0xB2, CHR 0xE9, CHR 0x80, CHR 0x9A, CHR 0xE8, CHR 0xBF,
        CHR 0x87] @ '' Router Center '' @ [CHR 0xE8, CHR 0xBD, CHR 0xAC, CHR 0xE5, CHR 0x8F, CHR 0x91,
        CHR 0xE5, CHR 0x88, CHR 0xB0, CHR 0xE7, CHR 0x9B, CHR 0xAE, CHR 0xE6, CHR 0xA0, CHR 0x87, CHR 0xE8,
        CHR 0x8A, CHR 0x82, CHR 0xE7, CHR 0x82, CHR 0xB9, CHR 0xEF, CHR 0xBC, CHR 0x8C, CHR 0xE7, CHR 0xAD,
        CHR 0x89, CHR 0xE5, CHR 0xBE, CHR 0x85, CHR 0xE5, CHR 0x93, CHR 0x8D, CHR 0xE5, CHR 0xBA, CHR 0x94,
        CHR 0xEF, CHR 0xBC, CHR 0x88, CHR 0xE5, CHR 0xBC, CHR 0x82, CHR 0xE6, CHR 0xAD, CHR 0xA5, CHR 0xE8,
        CHR 0xB0, CHR 0x83, CHR 0xE7, CHR 0x94, CHR 0xA8, CHR 0xEF, CHR 0xBC, CHR 0x89])))])]"

definition handleDebugSendRpc :: handler where
  "handleDebugSendRpc env r h =
     (if rq_Method r \<noteq> ''POST'' then (method_not_allowed, h)
      else
        let req = fst (Decode decode_debug_request zero_debug_request (rq_Body r)) in
        if dr_TargetRouteId req = [] then (writeJSON 400 (failure no_such_node), h)
        else
          (case GetSession (srv_sessions (hs_srv h)) (dr_TargetRouteId req) of
             None \<Rightarrow> (writeJSON 404 (failure (no_such_node @ '': '' @ dr_TargetRouteId req)), h)
           | Some session \<Rightarrow>
               if dr_PacketId req \<le> 0 then (writeJSON 400 (failure ((''Packet ID '' @ [CHR 0xE5,
        CHR 0xBF, CHR 0x85, CHR 0xE9, CHR 0xA1, CHR 0xBB, CHR 0xE5, CHR 0xA4, CHR 0xA7, CHR 0xE4, CHR 0xBA, CHR 0x8E] @ '' 0''))), h)
               else
                 (case findStub (info_Stubs (sess_RpcServerInfo session)) (dr_PacketId req) of
                    None \<Rightarrow>
                      (writeJSON 400 (failure (([CHR 0xE7, CHR 0x9B, CHR 0xAE, CHR 0xE6, CHR 0xA0, CHR 0x87,
        CHR 0xE8, CHR 0x8A, CHR 0x82, CHR 0xE7, CHR 0x82, CHR 0xB9, CHR 0xE6, CHR 0x9C, CHR 0xAA, CHR 0xE6,
        CHR 0xB3, CHR 0xA8, CHR 0xE5, CHR 0x86, CHR 0x8C] @ '' Packet ID = '') @ Itoa (dr_PacketId req))), h)
                  | Some stub \<Rightarrow>
                      let requestId = Itoa (UnixMilli (he_now env));
                          net = snd (WriteRouteMessage session (debug_message requestId req) (srv_net (hs_srv h)))
                      in (writeJSON 200 (debug_sent requestId req stub), h\<lparr>hs_srv := (hs_srv h)\<lparr>srv_net := net\<rparr>\<rparr>))))"

text \<open>\<open>json.Unmarshal\<close> into \<open>any\<close>, and the text itself when that fails.\<close>

definition result_object :: "gostring \<Rightarrow> json" where
  "result_object result =
     (case json_parse result of
        None \<Rightarrow> JStr result
      | Some v \<Rightarrow> if any_ok v then any_value v else JStr result)"

definition handleDebugRpcResult :: handler where
  "handleDebugRpcResult env r h =
     (let requestId = rq_Query r ''requestId'' in
      if requestId = [] then (writeJSON 400 (failure ((''requestId '' @ [CHR 0xE4, CHR 0xB8, CHR 0x8D,
        CHR 0xE8, CHR 0x83, CHR 0xBD, CHR 0xE4, CHR 0xB8, CHR 0xBA, CHR 0xE7, CHR 0xA9, CHR 0xBA]))), h)
      else
        (case GetDebugResult (hs_srv h) requestId of
           (result, True) \<Rightarrow>
             (writeJSON 200 (json_map [(''success'', JBool True), (''data'', result_object result)]), h)
         | (_, False) \<Rightarrow>
             (writeJSON 200 (json_map
                [(''success'', JBool False), (''message'', JStr (([CHR 0xE7, CHR 0xBB, CHR 0x93, CHR 0xE6,
        CHR 0x9E, CHR 0x9C, CHR 0xE5, CHR 0xB0, CHR 0x9A, CHR 0xE6, CHR 0x9C, CHR 0xAA, CHR 0xE5, CHR 0xB0,
        CHR 0xB1, CHR 0xE7, CHR 0xBB, CHR 0xAA, CHR 0xE6, CHR 0x88, CHR 0x96, CHR 0xE5, CHR 0xB7, CHR 0xB2,
        CHR 0xE8, CHR 0xBF, CHR 0x87, CHR 0xE6, CHR 0x9C, CHR 0x9F]))),
                 (''data'', json_map [(''requestId'', JStr requestId), (''status'', JStr ''pending'')])]), h)))"

definition stub_description :: "RpcStubMetadata \<Rightarrow> gostring" where
  "stub_description s =
     (if stub_Description s = [] then
        ''['' @ Itoa (stub_PacketId s) @ ''] '' @ afterLast (stub_ClassName s) ''.'' @ ''.'' @ stub_MethodName s
      else stub_Description s)"

definition stub_row :: "RpcStubMetadata \<Rightarrow> json" where
  "stub_row s = json_map
     [(''packetId'', jint (stub_PacketId s)), (''className'', JStr (stub_ClassName s)),
      (''methodName'', JStr (stub_MethodName s)),
      (''parameterTypes'', enc_slice JStr (stub_ParameterTypes s)),
      (''parameterNames'', enc_slice JStr (stub_ParameterNames s)),
      (''parameterDescriptions'', enc_slice JStr (stub_ParameterDescriptions s)),
      (''parameterExampleJson'', enc_slice JStr (stub_ParameterExampleJson s)),
      (''description'', JStr (stub_description s))]"

definition handleDebugRpcStubs :: handler where
  "handleDebugRpcStubs env r h =
     (let routeId = rq_Query r ''routeId'' in
      if TrimSpace routeId = [] then
        (writeJSON 200 (json_map [(''success'', JBool True), (''data'', JArr [])]), h)
      else
        (case GetSession (srv_sessions (hs_srv h)) routeId of
           None \<Rightarrow> (writeJSON 404 (failure no_such_node), h)
         | Some session \<Rightarrow>
             (writeJSON 200 (json_map
                [(''success'', JBool True),
                 (''data'', JArr (List.map stub_row
                   (case info_Stubs (sess_RpcServerInfo session) of None \<Rightarrow> [] | Some ss \<Rightarrow> ss)))]), h)))"

section \<open>The routes\<close>

text \<open>
  \<open>internal/VirtualRouterServer/static_assets.go\<close>: the pages. Redirects are their status and
  \<open>Location\<close>; their small HTML body is left out.
\<close>

definition redirect :: "int \<Rightarrow> gostring \<Rightarrow> response" where
  "redirect status url =
     \<lparr>rs_Status = status, rs_Headers = [(''Location'', url)], rs_Cookies = [], rs_Body = []\<rparr>"

definition monitorStaticHandler :: handler where
  "monitorStaticHandler env r h =
     (let token = extractToken r in
      if (rq_Path r = ''/'' \<or> rq_Path r = ''/index.html'')
         \<and> (token = [] \<or> \<not> ValidateToken (he_jwt env) (he_now env) token)
      then (redirect 302 ''/login.html'', h)
      else (he_files env r, h))"

definition auth_routes :: "(gostring \<times> handler) list" where
  "auth_routes =
     [(''/api/auth/login'', handleLogin), (''/api/auth/refresh'', handleRefresh),
      (''/api/auth/validate'', handleValidate), (''/api/auth/logout'', handleLogout)]"

definition protected_routes :: "(gostring \<times> handler) list" where
  "protected_routes =
     [(''/api/status'', handleStatus), (''/api/metrics'', handleMetrics), (''/api/routers'', handleRouters),
      (''/api/connections'', handleConnections), (''/api/rpc-stats'', handleRpcStats),
      (''/api/rpc/router-ranking'', handleRouterRPCRanking), (''/api/message-stats'', handleMessageStats),
      (''/api/monitor-stats'', handleMonitorStats), (''/api/viewers'', handleViewers),
      (''/api/logs'', handleLogs), (''/api/logs/export'', handleLogsExport),
      (''/api/system/settings'', handleSystemSettings),
      (''/api/system/admin-password'', handleUpdateAdminPassword),
      (''/api/debug/validate-route-id'', handleValidateRouteId),
      (''/api/debug/available-routes'', handleAvailableRoutes), (''/api/debug/send-rpc'', handleDebugSendRpc),
      (''/api/debug/rpc-result'', handleDebugRpcResult), (''/api/debug/rpc-stubs'', handleDebugRpcStubs)]"

definition routes :: "(gostring \<times> handler) list" where
  "routes = auth_routes @ List.map (\<lambda>(p, f). (p, withAuth f)) protected_routes"

text \<open>
  \<open>ServeMux\<close>: every pattern but \<open>/\<close> is an exact path; a path that is not clean (\<open>path.Clean\<close>, with
  its trailing slash) is redirected to its clean form first, unless the method is \<open>CONNECT\<close>.
\<close>

fun clean_segments :: "gostring list \<Rightarrow> gostring list \<Rightarrow> gostring list" where
  "clean_segments [] acc = rev acc"
| "clean_segments (s # ss) acc =
     (if s = [] \<or> s = ''.'' then clean_segments ss acc
      else if s = ''..'' then clean_segments ss (tl acc)
      else clean_segments ss (s # acc))"

definition cleanPath :: "gostring \<Rightarrow> gostring" where
  "cleanPath p =
     (if p = [] then ''/''
      else
        let segs = clean_segments (SplitChar (CHR ''/'') p) [];
            np = (if segs = [] then ''/'' else concat (List.map (\<lambda>s. CHR ''/'' # s) segs))
        in if last p = CHR ''/'' \<and> np \<noteq> ''/'' then np @ ''/'' else np)"

definition mux :: handler where
  "mux env r h =
     (if rq_Method r \<noteq> ''CONNECT'' \<and> cleanPath (rq_Path r) \<noteq> rq_Path r then (redirect 301 (cleanPath (rq_Path r)), h)
      else (case map_of routes (rq_Path r) of
        Some f \<Rightarrow> f env r h
      | None \<Rightarrow> monitorStaticHandler env r h))"

definition cors_headers :: "(gostring \<times> gostring) list" where
  "cors_headers =
     [(''Access-Control-Allow-Origin'', ''*''), (''Access-Control-Allow-Methods'', ''GET, POST, PUT, DELETE, OPTIONS''),
      (''Access-Control-Allow-Headers'', ''*''), (''Access-Control-Expose-Headers'', ''Authorization'')]"

definition withCORS :: "handler \<Rightarrow> handler" where
  "withCORS next env r h =
     (if rq_Method r = ''OPTIONS'' then
        (\<lparr>rs_Status = 204, rs_Headers = cors_headers, rs_Cookies = [], rs_Body = []\<rparr>, h)
      else (case next env r h of (w, h) \<Rightarrow> (w\<lparr>rs_Headers := cors_headers @ rs_Headers w\<rparr>, h)))"

text \<open>The handler of the server that \<open>Start\<close> runs.\<close>

definition serve :: handler where
  "serve = withCORS mux"

end
