(* ===== verification/ClientLifecycle.thy ===== *)
theory ClientLifecycle
  imports Prelude
begin

text \<open>
  The goroutines of \<open>internal/VirtualRouterClient/client.go\<close>: connecting, the read loop, the
  heartbeat loop, the background reconnect and \<open>Shutdown\<close>, interleaved. A goroutine is a
  program counter; each step is one access to a shared field (the atomics, \<open>conn\<close> under its
  mutex, the stop channel), and what the network or the scheduler decides is the step's
  \<open>choice\<close>. Back-off times play no part here (\<open>nextReconnectDelay\<close> is in \<open>RouterClient\<close>).
\<close>

section \<open>Shared state and goroutines\<close>

datatype open_pc = OStore | OHeartbeat | OWrite | OSpawnHb | OSpawnRead

datatype lost_pc = LCheck | LSwap | LClose | LNeed | LCas

datatype shut_pc = SNeed | SOpen | SStop | SClose

text \<open>
  \<open>Dial\<close>, \<open>AssignClose\<close>, \<open>AssignSet\<close>: \<open>tryConnect\<close>; the flag says whether the background
  reconnect runs it (else \<open>Start\<close> does). \<open>Opening\<close>: what follows a successful connect.
  \<open>Lost\<close>: \<open>onConnectionLost\<close> with \<open>startBackgroundReconnect\<close> (from \<open>LNeed\<close>) inside.
\<close>

datatype thread =
    Starting
  | Dial bool | AssignClose nat bool | AssignSet nat bool | Opening open_pc bool
  | ReadTop | ReadWait nat | Handling
  | HbTop | HbWait | HbSend | HbWrite
  | RecTop | RecIsOpen | RecWait | RecDefer
  | Lost lost_pc
  | Sending | SendWrite
  | Shutting shut_pc

record client =
  c_needConnect :: bool
  c_isOpen :: bool
  c_reconnectAttempt :: bool
  c_stopped :: bool \<comment> \<open>the stop channel is closed\<close>
  c_conn :: "nat option"
  c_next :: nat
  c_closed :: "nat set"
  c_panic :: bool
  c_threads :: "thread list"

definition new_client :: client where
  "new_client = \<lparr>c_needConnect = False, c_isOpen = False, c_reconnectAttempt = False,
     c_stopped = False, c_conn = None, c_next = 0, c_closed = {}, c_panic = False, c_threads = []\<rparr>"

definition closeConn :: "client \<Rightarrow> client" where
  "closeConn s =
     (case c_conn s of None \<Rightarrow> s | Some n \<Rightarrow> s\<lparr>c_closed := insert n (c_closed s), c_conn := None\<rparr>)"

definition IsConnected :: "client \<Rightarrow> bool" where
  "IsConnected s \<longleftrightarrow> c_isOpen s \<and> c_conn s \<noteq> None"

section \<open>One step of a goroutine\<close>

text \<open>
  The state after the step and the goroutines that replace this one; \<open>None\<close>: the choice is not
  possible now.
\<close>

fun open_step :: "bool \<Rightarrow> open_pc \<Rightarrow> bool \<Rightarrow> client \<Rightarrow> client \<times> thread list" where
  "open_step ok OStore rec s = (s\<lparr>c_isOpen := True\<rparr>, [Opening OHeartbeat rec])"
| "open_step ok OHeartbeat rec s =
     (s, [Opening (if c_conn s = None then OSpawnHb else OWrite) rec])"
| "open_step ok OWrite rec s =
     (if c_conn s = None then (s\<lparr>c_panic := True\<rparr>, []) else (s, [Opening OSpawnHb rec]))"
| "open_step ok OSpawnHb rec s = (s, [Opening OSpawnRead rec, HbTop])"
| "open_step ok OSpawnRead rec s = (s, if rec then [ReadTop, RecDefer] else [ReadTop])"

fun lost_step :: "lost_pc \<Rightarrow> client \<Rightarrow> client \<times> thread list" where
  "lost_step LCheck s = (s, if c_needConnect s then [Lost LSwap] else [])"
| "lost_step LSwap s = (s\<lparr>c_isOpen := False\<rparr>, [Lost LClose])"
| "lost_step LClose s = (closeConn s, [Lost LNeed])"
| "lost_step LNeed s = (s, if c_needConnect s then [Lost LCas] else [])"
| "lost_step LCas s =
     (if c_reconnectAttempt s then (s, []) else (s\<lparr>c_reconnectAttempt := True\<rparr>, [RecTop]))"

fun shut_step :: "shut_pc \<Rightarrow> client \<Rightarrow> client \<times> thread list" where
  "shut_step SNeed s = (s\<lparr>c_needConnect := False\<rparr>, [Shutting SOpen])"
| "shut_step SOpen s = (s\<lparr>c_isOpen := False\<rparr>, [Shutting SStop])"
| "shut_step SStop s =
     (if c_stopped s then (s\<lparr>c_panic := True\<rparr>, []) else (s\<lparr>c_stopped := True\<rparr>, [Shutting SClose]))"
| "shut_step SClose s = (closeConn s, [])"

text \<open>\<open>tryConnect\<close>: the dial, then the swap of the connection.\<close>

fun dial_step :: "bool \<Rightarrow> thread \<Rightarrow> client \<Rightarrow> (client \<times> thread list) option" where
  "dial_step ok (Dial rec) s =
     Some (if ok then (s\<lparr>c_next := c_next s + 1\<rparr>, [AssignClose (c_next s) rec])
           else (s, if rec then [RecWait] else [Lost LNeed]))"
| "dial_step ok (AssignClose n rec) s = Some (closeConn s, [AssignSet n rec])"
| "dial_step ok (AssignSet n rec) s = Some (s\<lparr>c_conn := Some n\<rparr>, [Opening OStore rec])"
| "dial_step ok _ s = None"

text \<open>\<open>readLoop\<close>: \<open>ok\<close> says that a frame arrived, then that \<open>handleMessage\<close> goes on.\<close>

fun read_step :: "bool \<Rightarrow> thread \<Rightarrow> client \<Rightarrow> (client \<times> thread list) option" where
  "read_step ok ReadTop s =
     Some (case c_conn s of None \<Rightarrow> (s\<lparr>c_panic := True\<rparr>, []) | Some n \<Rightarrow> (s, [ReadWait n]))"
| "read_step ok (ReadWait n) s =
     (if ok then (if n \<in> c_closed s then None else Some (s, [Handling])) else Some (s, [Lost LCheck]))"
| "read_step ok Handling s = Some (s, if ok then [ReadTop] else [Lost LCheck])"
| "read_step ok _ s = None"

text \<open>The goroutine of \<open>startHeartbeat\<close>: \<open>ok\<close> says that the timer fired, then that the write succeeds.\<close>

fun heartbeat_step :: "bool \<Rightarrow> thread \<Rightarrow> client \<Rightarrow> (client \<times> thread list) option" where
  "heartbeat_step ok HbTop s = Some (s, if c_isOpen s then [HbWait] else [])"
| "heartbeat_step ok HbWait s =
     (if ok then Some (s, [HbSend]) else if c_stopped s then Some (s, []) else None)"
| "heartbeat_step ok HbSend s = Some (s, if c_conn s = None then [Lost LCheck] else [HbWrite])"
| "heartbeat_step ok HbWrite s =
     Some (case c_conn s of None \<Rightarrow> (s\<lparr>c_panic := True\<rparr>, [])
           | Some n \<Rightarrow> (s, if ok \<and> n \<notin> c_closed s then [HbTop] else [Lost LCheck]))"
| "heartbeat_step ok _ s = None"

text \<open>The goroutine of \<open>startBackgroundReconnect\<close>, its deferred reset last.\<close>

fun reconnect_step :: "bool \<Rightarrow> thread \<Rightarrow> client \<Rightarrow> (client \<times> thread list) option" where
  "reconnect_step ok RecTop s = Some (s, if c_needConnect s then [RecIsOpen] else [RecDefer])"
| "reconnect_step ok RecIsOpen s = Some (s, if c_isOpen s then [RecWait] else [Dial True])"
| "reconnect_step ok RecWait s =
     (if ok then Some (s, [RecTop]) else if c_stopped s then Some (s, [RecDefer]) else None)"
| "reconnect_step ok RecDefer s = Some (s\<lparr>c_reconnectAttempt := False\<rparr>, [])"
| "reconnect_step ok _ s = None"

text \<open>\<open>Send\<close> to another node.\<close>

fun send_step :: "bool \<Rightarrow> thread \<Rightarrow> client \<Rightarrow> (client \<times> thread list) option" where
  "send_step ok Sending s = Some (s, if IsConnected s then [SendWrite] else [])"
| "send_step ok SendWrite s =
     Some (case c_conn s of None \<Rightarrow> (s, [])
           | Some n \<Rightarrow> (s, if ok \<and> n \<notin> c_closed s then [] else [Lost LCheck]))"
| "send_step ok _ s = None"

text \<open>\<open>Start\<close>, once the stubs are registered.\<close>

definition start_step :: "client \<Rightarrow> client \<times> thread list" where
  "start_step s = (if c_needConnect s then (s, []) else (s\<lparr>c_needConnect := True\<rparr>, [Dial False]))"

fun thread_step :: "bool \<Rightarrow> thread \<Rightarrow> client \<Rightarrow> (client \<times> thread list) option" where
  "thread_step ok Starting s = Some (start_step s)"
| "thread_step ok (Dial rec) s = dial_step ok (Dial rec) s"
| "thread_step ok (AssignClose n rec) s = dial_step ok (AssignClose n rec) s"
| "thread_step ok (AssignSet n rec) s = dial_step ok (AssignSet n rec) s"
| "thread_step ok (Opening pc rec) s = Some (open_step ok pc rec s)"
| "thread_step ok ReadTop s = read_step ok ReadTop s"
| "thread_step ok (ReadWait n) s = read_step ok (ReadWait n) s"
| "thread_step ok Handling s = read_step ok Handling s"
| "thread_step ok HbTop s = heartbeat_step ok HbTop s"
| "thread_step ok HbWait s = heartbeat_step ok HbWait s"
| "thread_step ok HbSend s = heartbeat_step ok HbSend s"
| "thread_step ok HbWrite s = heartbeat_step ok HbWrite s"
| "thread_step ok RecTop s = reconnect_step ok RecTop s"
| "thread_step ok RecIsOpen s = reconnect_step ok RecIsOpen s"
| "thread_step ok RecWait s = reconnect_step ok RecWait s"
| "thread_step ok RecDefer s = reconnect_step ok RecDefer s"
| "thread_step ok (Lost pc) s = Some (lost_step pc s)"
| "thread_step ok Sending s = send_step ok Sending s"
| "thread_step ok SendWrite s = send_step ok SendWrite s"
| "thread_step ok (Shutting pc) s = Some (shut_step pc s)"

declare start_step_def [simp]

text \<open>A panic in a goroutine ends the process, so nothing steps after one.\<close>

definition step_at :: "nat \<Rightarrow> bool \<Rightarrow> client \<Rightarrow> client option" where
  "step_at i ok s =
     (if c_panic s \<or> length (c_threads s) \<le> i then None
      else
        (case thread_step ok (c_threads s ! i) s of
           None \<Rightarrow> None
         | Some (s', ts) \<Rightarrow>
             Some (s'\<lparr>c_threads := take i (c_threads s) @ ts @ drop (Suc i) (c_threads s)\<rparr>)))"

text \<open>What the application calls: \<open>Start\<close>, \<open>Send\<close> to another node, \<open>Shutdown\<close>.\<close>

definition api_threads :: "thread set" where
  "api_threads = {Starting, Sending, Shutting SNeed}"

inductive client_step :: "client \<Rightarrow> client \<Rightarrow> bool" where
  goroutine: "step_at i ok s = Some s' \<Longrightarrow> client_step s s'"
| call: "t \<in> api_threads \<Longrightarrow> \<not> c_panic s \<Longrightarrow> client_step s (s\<lparr>c_threads := c_threads s @ [t]\<rparr>)"

inductive client_reach :: "client \<Rightarrow> bool" where
  init: "client_reach new_client"
| step: "client_reach s \<Longrightarrow> client_step s s' \<Longrightarrow> client_reach s'"

section \<open>At most one background reconnect\<close>

fun reconnects :: "thread \<Rightarrow> bool" where
  "reconnects (Dial rec) = rec"
| "reconnects (AssignClose _ rec) = rec"
| "reconnects (AssignSet _ rec) = rec"
| "reconnects (Opening _ rec) = rec"
| "reconnects RecTop = True"
| "reconnects RecIsOpen = True"
| "reconnects RecWait = True"
| "reconnects RecDefer = True"
| "reconnects _ = False"

definition rec_count :: "thread list \<Rightarrow> nat" where
  "rec_count ts = length (filter reconnects ts)"

lemma rec_count_simps [simp]:
  "rec_count [] = 0" "rec_count (t # ts) = (if reconnects t then 1 else 0) + rec_count ts"
  "rec_count (xs @ ys) = rec_count xs + rec_count ys"
  by (simp_all add: rec_count_def)

lemma closeConn_frame [simp]:
  "c_reconnectAttempt (closeConn s) = c_reconnectAttempt s" "c_needConnect (closeConn s) = c_needConnect s"
  "c_isOpen (closeConn s) = c_isOpen s" "c_stopped (closeConn s) = c_stopped s"
  "c_panic (closeConn s) = c_panic s" "c_threads (closeConn s) = c_threads s"
  "c_next (closeConn s) = c_next s" "c_conn (closeConn s) = None"
  by (simp_all add: closeConn_def split: option.split)

definition flag :: "client \<Rightarrow> nat" where
  "flag s = (if c_reconnectAttempt s then 1 else 0)"

lemma thread_step_balance:
  assumes "thread_step ok t s = Some (s', ts)" "reconnects t \<Longrightarrow> c_reconnectAttempt s" "\<not> c_panic s'"
  shows "rec_count ts + flag s = (if reconnects t then 1 else 0) + flag s'"
proof (cases t)
  case (Opening pc rec)
  with assms show ?thesis by (cases pc) (auto simp: flag_def split: if_splits)
next
  case (Lost pc)
  with assms show ?thesis by (cases pc) (auto simp: flag_def split: if_splits)
next
  case (Shutting pc)
  with assms show ?thesis by (cases pc) (auto simp: flag_def split: if_splits)
qed (use assms in \<open>auto simp: flag_def split: if_splits option.splits\<close>)

definition one_reconnect :: "client \<Rightarrow> bool" where
  "one_reconnect s \<longleftrightarrow> c_panic s \<or> rec_count (c_threads s) = flag s"

lemma split_at: "i < length xs \<Longrightarrow> xs = take i xs @ xs ! i # drop (Suc i) xs"
  by (rule id_take_nth_drop)

lemma one_reconnect_goroutine:
  assumes "step_at i ok s = Some s'" "one_reconnect s"
  shows "one_reconnect s'"
proof (cases "c_panic s'")
  case False
  from assms(1) obtain u ts where i: "i < length (c_threads s)" "\<not> c_panic s"
    and u: "thread_step ok (c_threads s ! i) s = Some (u, ts)"
    and s': "s' = u\<lparr>c_threads := take i (c_threads s) @ ts @ drop (Suc i) (c_threads s)\<rparr>"
    by (auto simp: step_at_def split: if_splits option.splits)
  have count: "rec_count (c_threads s) = rec_count (take i (c_threads s)) +
      ((if reconnects (c_threads s ! i) then 1 else 0) + rec_count (drop (Suc i) (c_threads s)))"
    using arg_cong [OF split_at [OF i(1)], of rec_count] by simp
  have inv: "rec_count (c_threads s) = flag s" using assms(2) i(2) by (simp add: one_reconnect_def)
  have "c_reconnectAttempt s" if "reconnects (c_threads s ! i)"
    using that count inv by (auto simp: flag_def split: if_splits)
  then have "rec_count ts + flag s = (if reconnects (c_threads s ! i) then 1 else 0) + flag u"
    using thread_step_balance [OF u] False by (simp add: s')
  then show ?thesis using count inv by (simp add: one_reconnect_def s' flag_def)
qed (simp add: one_reconnect_def)

lemma one_reconnect_reach: "client_reach s \<Longrightarrow> one_reconnect s"
proof (induction rule: client_reach.induct)
  case init
  show ?case by (simp add: one_reconnect_def new_client_def flag_def)
next
  case (step s s')
  from step(2) show ?case
  proof cases
    case (goroutine i ok)
    then show ?thesis using one_reconnect_goroutine step(3) by blast
  next
    case (call t)
    then have "\<not> reconnects t" by (auto simp: api_threads_def)
    with call step(3) show ?thesis by (simp add: one_reconnect_def flag_def)
  qed
qed

text \<open>
  C16: however the goroutines interleave, there is never more than one background reconnect, and
  there is one exactly while its flag is set.
\<close>

theorem unique_reconnect:
  assumes "client_reach s" "\<not> c_panic s"
  shows "rec_count (c_threads s) \<le> 1 \<and> (rec_count (c_threads s) = 1 \<longleftrightarrow> c_reconnectAttempt s)"
  using one_reconnect_reach [OF assms(1)] assms(2) by (simp add: one_reconnect_def flag_def)

section \<open>Schedules\<close>

text \<open>A schedule: calls of the application, and steps of the goroutine at a place with a choice.\<close>

datatype sched = Call thread | Go nat bool

fun exec :: "sched list \<Rightarrow> client \<Rightarrow> client option" where
  "exec [] s = Some s"
| "exec (Call t # es) s =
     (if t \<in> api_threads \<and> \<not> c_panic s then exec es (s\<lparr>c_threads := c_threads s @ [t]\<rparr>) else None)"
| "exec (Go i ok # es) s = (case step_at i ok s of None \<Rightarrow> None | Some s' \<Rightarrow> exec es s')"

lemma exec_reach: "exec es s = Some s' \<Longrightarrow> client_reach s \<Longrightarrow> client_reach s'"
  by (induction es s rule: exec.induct)
    (auto split: if_splits option.splits intro: client_reach.step client_step.intros)

definition connects :: "sched list" where
  "connects = Call Starting # replicate 9 (Go 0 True)"

definition loses_and_reconnects :: "sched list" where
  "loses_and_reconnects =
     [Go 0 True, Go 0 False] @ replicate 5 (Go 0 True) @ [Go 1 True] @ replicate 10 (Go 0 True)"

definition loses_again :: "sched list" where
  "loses_again = [Go 0 True, Go 0 False] @ replicate 5 (Go 0 True) @ [Go 0 True, Go 0 True]"

lemma exec_append: "exec (xs @ ys) s = Option.bind (exec xs s) (exec ys)"
  by (induction xs s rule: exec.induct) (auto split: option.split)

definition connected :: client where
  "connected = \<lparr>c_needConnect = True, c_isOpen = True, c_reconnectAttempt = False,
     c_stopped = False, c_conn = Some 0, c_next = 1, c_closed = {}, c_panic = False,
     c_threads = [ReadTop, HbTop]\<rparr>"

lemma exec_connects: "exec connects new_client = Some connected"
  by (simp add: connects_def connected_def new_client_def step_at_def closeConn_def api_threads_def
      eval_nat_numeral)

definition reconnected :: client where
  "reconnected = \<lparr>c_needConnect = True, c_isOpen = True, c_reconnectAttempt = True,
     c_stopped = False, c_conn = Some 1, c_next = 2, c_closed = {0}, c_panic = False,
     c_threads = [ReadTop, RecDefer, HbTop]\<rparr>"

lemma exec_reconnects: "exec loses_and_reconnects connected = Some reconnected"
  by (simp add: loses_and_reconnects_def connected_def reconnected_def step_at_def closeConn_def
      IsConnected_def eval_nat_numeral)

definition disconnected :: client where
  "disconnected = \<lparr>c_needConnect = True, c_isOpen = False, c_reconnectAttempt = False,
     c_stopped = False, c_conn = None, c_next = 2, c_closed = {0, 1}, c_panic = False,
     c_threads = []\<rparr>"

lemma exec_disconnects: "exec loses_again reconnected = Some disconnected"
  by (simp add: loses_again_def reconnected_def disconnected_def step_at_def closeConn_def
      eval_nat_numeral insert_commute)

lemma reach_connected: "client_reach connected"
  using exec_reach [OF exec_connects client_reach.init] .

lemma reach_reconnected: "client_reach reconnected"
  using exec_reach [OF exec_reconnects reach_connected] .

theorem unique_reconnect_witness:
  "rec_count (c_threads reconnected) = 1 \<and> c_reconnectAttempt reconnected"
  using unique_reconnect [OF reach_reconnected] by (simp add: reconnected_def)

section \<open>Where the interleaving goes wrong\<close>

text \<open>Nothing but the application's own calls happens, and none of them reconnects.\<close>

definition gave_up :: "client \<Rightarrow> bool" where
  "gave_up s \<longleftrightarrow> c_needConnect s \<and> \<not> c_isOpen s \<and> c_conn s = None \<and> \<not> c_panic s \<and>
     set (c_threads s) \<subseteq> {Starting, Sending}"

lemma gave_up_step:
  assumes "step_at i ok s = Some s'" "gave_up s"
  shows "gave_up s'"
proof -
  from assms(1) obtain u ts where i: "i < length (c_threads s)"
    and u: "thread_step ok (c_threads s ! i) s = Some (u, ts)"
    and s': "s' = u\<lparr>c_threads := take i (c_threads s) @ ts @ drop (Suc i) (c_threads s)\<rparr>"
    by (auto simp: step_at_def split: if_splits option.splits)
  have "c_threads s ! i \<in> {Starting, Sending}"
    using i assms(2) nth_mem by (fastforce simp: gave_up_def)
  then have "u = s" "ts = []"
    using u assms(2) by (auto simp: gave_up_def IsConnected_def)
  then show ?thesis
    using assms(2) by (auto simp: gave_up_def s' dest: in_set_takeD in_set_dropD)
qed

lemma gave_up_exec:
  "exec es s = Some s' \<Longrightarrow> gave_up s \<Longrightarrow> Call (Shutting SNeed) \<notin> set es \<Longrightarrow> gave_up s'"
proof (induction es s rule: exec.induct)
  case (2 t es s)
  then have "gave_up (s\<lparr>c_threads := c_threads s @ [t]\<rparr>)"
    by (auto simp: gave_up_def api_threads_def split: if_splits)
  with 2 show ?case by (auto split: if_splits)
next
  case (3 i ok es s)
  then show ?case by (auto split: option.splits dest: gave_up_step)
qed auto



definition reader_busy :: client where
  "reader_busy = \<lparr>c_needConnect = True, c_isOpen = False, c_reconnectAttempt = False,
     c_stopped = False, c_conn = None, c_next = 1, c_closed = {0}, c_panic = False,
     c_threads = [Handling, Lost LNeed]\<rparr>"

text \<open>The reader handles a message while a heartbeat fails to be written.\<close>

lemma exec_reader_busy:
  "exec [Go 0 True, Go 0 True, Go 1 True, Go 1 True, Go 1 True, Go 1 False, Go 1 True, Go 1 True, Go 1 True]
     connected = Some reader_busy"
  by (simp add: connected_def reader_busy_def step_at_def closeConn_def eval_nat_numeral)

lemma reach_reader_busy: "client_reach reader_busy"
  using exec_reach [OF exec_reader_busy reach_connected] .

text \<open>
  The read loop can crash the process. It fetches \<open>c.conn\<close> anew for every frame, and a loss
  noticed elsewhere (here a failed heartbeat) sets it to nil while the loop handles a message:
  the next \<open>ReadFrame\<close> reads from a nil connection, which panics in a goroutine that does not
  recover.
\<close>

theorem read_loop_crash:
  "\<exists>s s'. client_reach s \<and> \<not> c_panic s \<and> ReadTop \<in> set (c_threads s) \<and> c_conn s = None \<and>
     client_step s s' \<and> c_panic s'"
proof (intro exI conjI)
  let ?s = "reader_busy\<lparr>c_threads := [ReadTop, Lost LNeed]\<rparr>"
  have "step_at 0 True reader_busy = Some ?s"
    by (simp add: reader_busy_def step_at_def)
  then show "client_reach ?s"
    using reach_reader_busy client_reach.step client_step.goroutine by blast
  have "step_at 0 True ?s = Some (?s\<lparr>c_panic := True, c_threads := [Lost LNeed]\<rparr>)"
    by (simp add: reader_busy_def step_at_def)
  then show "client_step ?s (?s\<lparr>c_panic := True, c_threads := [Lost LNeed]\<rparr>)"
    by (rule client_step.goroutine)
qed (simp_all add: reader_busy_def)

definition two_readers_state :: client where
  "two_readers_state = \<lparr>c_needConnect = True, c_isOpen = True, c_reconnectAttempt = False,
     c_stopped = False, c_conn = Some 1, c_next = 2, c_closed = {0}, c_panic = False,
     c_threads = [ReadWait 1, ReadWait 1, HbTop]\<rparr>"

lemma exec_two_readers:
  "exec (replicate 12 (Go 1 True) @ [Go 2 True, Go 0 True, Go 0 True, Go 1 True]) reader_busy = Some two_readers_state"
  by (simp add: reader_busy_def two_readers_state_def step_at_def closeConn_def eval_nat_numeral)

text \<open>
  Two read loops can share one connection. The same loop, if it comes back only after the
  reconnect, goes on reading from the new connection beside the new read loop; the two take
  turns at the bytes of one stream, so frames are torn apart.
\<close>

theorem two_read_loops:
  "\<exists>s n. client_reach s \<and> \<not> c_panic s \<and> c_conn s = Some n \<and> n \<notin> c_closed s \<and>
     2 \<le> length (filter (\<lambda>t. t = ReadWait n) (c_threads s))"
proof (intro exI conjI)
  show "client_reach two_readers_state"
    using exec_reach [OF exec_two_readers reach_reader_busy] .
  show "c_conn two_readers_state = Some 1" by (simp add: two_readers_state_def)
qed (simp_all add: two_readers_state_def)

definition shuts_down :: "thread \<Rightarrow> bool" where
  "shuts_down t = (case t of Shutting _ \<Rightarrow> True | _ \<Rightarrow> False)"

definition zombie :: client where
  "zombie = \<lparr>c_needConnect = False, c_isOpen = True, c_reconnectAttempt = False,
     c_stopped = True, c_conn = Some 0, c_next = 1, c_closed = {}, c_panic = False,
     c_threads = [ReadWait 0, HbTop]\<rparr>"

text \<open>\<open>Shutdown\<close> runs while the background reconnect is about to dial.\<close>

lemma exec_zombie:
  "exec ([Call Starting, Go 0 True, Go 0 False, Go 0 True, Go 0 True, Go 0 True, Go 0 True, Call (Shutting SNeed)] @
     replicate 4 (Go 1 True) @ replicate 8 (Go 0 True) @ [Go 1 True, Go 0 True]) new_client = Some zombie"
  by (simp add: new_client_def zombie_def step_at_def closeConn_def api_threads_def eval_nat_numeral)

text \<open>
  A client can be open after \<open>Shutdown\<close> has returned: a reconnect that passed its check before
  connects afterwards, marks the client open and starts a read loop, and nothing closes it.
\<close>

theorem open_after_shutdown:
  "\<exists>s. client_reach s \<and> \<not> c_panic s \<and> c_stopped s \<and> \<not> c_needConnect s \<and> IsConnected s \<and>
     filter (\<lambda>t. reconnects t \<or> shuts_down t) (c_threads s) = []"
proof (intro exI conjI)
  show "client_reach zombie" using exec_reach [OF exec_zombie client_reach.init] .
qed (simp_all add: zombie_def IsConnected_def shuts_down_def)

text \<open>
  \<open>Shutdown\<close> closes the stop channel without looking whether it is closed, so a second call ends
  the process.
\<close>

theorem second_shutdown_panics:
  assumes "c_stopped s" "\<not> c_panic s"
  shows "\<exists>s'. exec (Call (Shutting SNeed) # replicate 3 (Go (length (c_threads s)) True)) s = Some s' \<and> c_panic s'"
  using assms by (simp add: eval_nat_numeral step_at_def api_threads_def)

end
