(* ===== verification/Futures.thy ===== *)
theory Futures
  imports Dto
begin

text \<open>
  \<open>internal/rpc/future.go\<close>: futures and the manager that finds them by RPC id. A future is a
  shared object, so the futures live in a store and the manager's map holds their numbers.
  Closing a closed channel panics in Go; a panic is counted.
\<close>

section \<open>Futures\<close>

record Future =
  fut_rpcUid :: gostring
  fut_closed :: bool \<comment> \<open>the channel is closed\<close>
  fut_result :: gostring
  fut_err :: "gostring option"

definition NewFuture :: "gostring \<Rightarrow> Future" where
  "NewFuture rpcUid = \<lparr>fut_rpcUid = rpcUid, fut_closed = False, fut_result = [], fut_err = None\<rparr>"

text \<open>The future afterwards, and whether \<open>close\<close> panicked.\<close>

definition Success :: "gostring \<Rightarrow> Future \<Rightarrow> Future \<times> bool" where
  "Success result f = (f\<lparr>fut_result := result, fut_closed := True\<rparr>, fut_closed f)"

definition FutureError :: "gostring \<Rightarrow> Future \<Rightarrow> Future \<times> bool" where
  "FutureError msg f = (f\<lparr>fut_err := Some msg, fut_closed := True\<rparr>, fut_closed f)"

text \<open>
  \<open>Await\<close> at one moment: \<open>fired\<close> says that the timer has fired, \<open>pick\<close> which ready case the
  \<open>select\<close> takes when both are. \<open>None\<close>: it still blocks.
\<close>

definition Await :: "int \<Rightarrow> bool \<Rightarrow> bool \<Rightarrow> Future \<Rightarrow> (gostring \<times> gostring option) option" where
  "Await timeout fired pick f =
     (if timeout \<le> 0 then (if fut_closed f then Some (fut_result f, fut_err f) else None)
      else if fut_closed f \<and> (\<not> fired \<or> pick) then Some (fut_result f, fut_err f)
      else if fired then Some ([], Some ''rpc timeout'')
      else None)"

section \<open>The manager\<close>

record futures =
  fm_store :: "nat \<Rightarrow> Future"
  fm_next :: nat
  fm_m :: "gostring \<rightharpoonup> nat"
  fm_panics :: nat

definition NewFutureManager :: futures where
  "NewFutureManager = \<lparr>fm_store = \<lambda>_. NewFuture [], fm_next = 0, fm_m = Map.empty, fm_panics = 0\<rparr>"

definition alloc_future :: "gostring \<Rightarrow> futures \<Rightarrow> nat \<times> futures" where
  "alloc_future rpcUid fm =
     (fm_next fm, fm\<lparr>fm_store := (fm_store fm)(fm_next fm := NewFuture rpcUid),
                     fm_next := fm_next fm + 1\<rparr>)"

definition Register :: "nat \<Rightarrow> futures \<Rightarrow> futures" where
  "Register f fm = fm\<lparr>fm_m := (fm_m fm)(fut_rpcUid (fm_store fm f) \<mapsto> f)\<rparr>"

definition Pop :: "gostring \<Rightarrow> futures \<Rightarrow> nat option \<times> futures" where
  "Pop rpcUid fm = (fm_m fm rpcUid, fm\<lparr>fm_m := (fm_m fm)(rpcUid := None)\<rparr>)"

definition apply_future :: "(Future \<Rightarrow> Future \<times> bool) \<Rightarrow> nat \<Rightarrow> futures \<Rightarrow> futures" where
  "apply_future act f fm =
     (case act (fm_store fm f) of (fut, panicked) \<Rightarrow>
        fm\<lparr>fm_store := (fm_store fm)(f := fut),
           fm_panics := fm_panics fm + (if panicked then 1 else 0)\<rparr>)"

definition SetSuccess :: "gostring \<Rightarrow> gostring \<Rightarrow> futures \<Rightarrow> futures" where
  "SetSuccess rpcUid result fm =
     (case Pop rpcUid fm of
        (Some f, fm') \<Rightarrow> apply_future (Success result) f fm'
      | (None, fm') \<Rightarrow> fm')"

definition SetError :: "gostring \<Rightarrow> gostring \<Rightarrow> futures \<Rightarrow> futures" where
  "SetError rpcUid errMsg fm =
     (case Pop rpcUid fm of
        (Some f, fm') \<Rightarrow> apply_future (FutureError errMsg) f fm'
      | (None, fm') \<Rightarrow> fm')"

text \<open>How the clients use it: a future is made and registered once.\<close>

definition register_new :: "gostring \<Rightarrow> futures \<Rightarrow> nat \<times> futures" where
  "register_new rpcUid fm =
     (case alloc_future rpcUid fm of (f, fm') \<Rightarrow> (f, Register f fm'))"

datatype outcome = Done gostring | Failed gostring

definition complete :: "gostring \<Rightarrow> outcome \<Rightarrow> futures \<Rightarrow> futures" where
  "complete rpcUid r fm =
     (case r of Done v \<Rightarrow> SetSuccess rpcUid v fm | Failed e \<Rightarrow> SetError rpcUid e fm)"

definition outcome_of :: "nat \<Rightarrow> futures \<Rightarrow> outcome option" where
  "outcome_of f fm =
     (let fut = fm_store fm f in
      if fut_closed fut then (case fut_err fut of None \<Rightarrow> Some (Done (fut_result fut)) | Some e \<Rightarrow> Some (Failed e))
      else None)"

section \<open>The contract of a registry of pending calls\<close>

text \<open>
  What a caller needs: a call is pending from its registration until the first completion of
  its id, which decides it for good.
\<close>

locale call_registry =
  fixes register :: "gostring \<Rightarrow> 'st \<Rightarrow> nat \<times> 'st"
    and finish :: "gostring \<Rightarrow> outcome \<Rightarrow> 'st \<Rightarrow> 'st"
    and pending :: "'st \<Rightarrow> gostring \<Rightarrow> nat option"
    and result :: "nat \<Rightarrow> 'st \<Rightarrow> outcome option"
    and inv :: "'st \<Rightarrow> bool"
  assumes register_inv: "inv st \<Longrightarrow> inv (snd (register uid st))"
    and finish_inv: "inv st \<Longrightarrow> inv (finish uid r st)"
    and register_pending: "inv st \<Longrightarrow>
          pending (snd (register uid st)) = (pending st)(uid \<mapsto> fst (register uid st))"
    and register_result: "inv st \<Longrightarrow>
          result f (snd (register uid st)) = (if f = fst (register uid st) then None else result f st)"
    and register_fresh: "inv st \<Longrightarrow> pending st uid' \<noteq> Some (fst (register uid st)) \<and>
          result (fst (register uid st)) st = None"
    and pending_open: "inv st \<Longrightarrow> pending st uid = Some f \<Longrightarrow> result f st = None"
    and pending_inj: "inv st \<Longrightarrow> pending st uid = Some f \<Longrightarrow> pending st uid' = Some f \<Longrightarrow> uid = uid'"
    and finish_pending: "inv st \<Longrightarrow> pending (finish uid r st) = (pending st)(uid := None)"
    and finish_result: "inv st \<Longrightarrow>
          result f (finish uid r st) = (if pending st uid = Some f then Some r else result f st)"

datatype call_op = OpRegister gostring | OpFinish gostring outcome

fun op_uid :: "call_op \<Rightarrow> gostring" where
  "op_uid (OpRegister uid) = uid"
| "op_uid (OpFinish uid _) = uid"

fun call_step ::
  "(gostring \<Rightarrow> 'st \<Rightarrow> nat \<times> 'st) \<Rightarrow> (gostring \<Rightarrow> outcome \<Rightarrow> 'st \<Rightarrow> 'st) \<Rightarrow> call_op \<Rightarrow> 'st \<Rightarrow> 'st" where
  "call_step reg fin (OpRegister uid) st = snd (reg uid st)"
| "call_step reg fin (OpFinish uid r) st = fin uid r st"

context call_registry
begin

abbreviation run where "run ops st \<equiv> fold (call_step register finish) ops st"

lemma step_inv: "inv st \<Longrightarrow> inv (call_step register finish op st)"
  by (cases op) (auto intro: register_inv finish_inv)

lemma run_inv: "inv st \<Longrightarrow> inv (run ops st)"
  by (induction ops arbitrary: st) (auto intro: step_inv)

text \<open>A decided call stays decided, and its number is never pending again.\<close>

lemma decided_step:
  assumes "inv st" "result f st = Some r"
  shows "result f (call_step register finish op st) = Some r"
proof (cases op)
  case (OpRegister uid)
  have "f \<noteq> fst (register uid st)" using assms register_fresh [OF assms(1)] by force
  then show ?thesis using assms by (simp add: OpRegister register_result)
next
  case (OpFinish uid r')
  have "pending st uid \<noteq> Some f" using pending_open [OF assms(1)] assms(2) by fastforce
  then show ?thesis using assms by (simp add: OpFinish finish_result)
qed

lemma decided_run: "inv st \<Longrightarrow> result f st = Some r \<Longrightarrow> result f (run ops st) = Some r"
  by (induction ops arbitrary: st) (auto intro: decided_step step_inv)

lemma pending_step:
  assumes "inv st" "pending st uid = Some f" "op_uid op \<noteq> uid"
  shows "pending (call_step register finish op st) uid = Some f"
  using assms by (cases op) (simp_all add: register_pending finish_pending)

lemma pending_run:
  "inv st \<Longrightarrow> pending st uid = Some f \<Longrightarrow> uid \<notin> op_uid ` set ops \<Longrightarrow> pending (run ops st) uid = Some f"
proof (induction ops arbitrary: st)
  case (Cons op ops)
  then have "op_uid op \<noteq> uid" by auto
  with Cons pending_step [of st uid f op] step_inv show ?case by simp
qed simp

text \<open>The first completion after the registration decides the call.\<close>

lemma first_completion:
  assumes "inv st" "uid \<notin> op_uid ` set before"
  shows "result (fst (register uid st))
    (run (before @ OpFinish uid r # after) (snd (register uid st))) = Some r"
proof -
  let ?f = "fst (register uid st)" and ?st = "snd (register uid st)"
  have inv: "inv ?st" using assms(1) by (rule register_inv)
  have "pending ?st uid = Some ?f" using assms(1) by (simp add: register_pending)
  from pending_run [OF inv this assms(2)] have "pending (run before ?st) uid = Some ?f" .
  then have "result ?f (finish uid r (run before ?st)) = Some r"
    by (simp add: finish_result [OF run_inv [OF inv]])
  then show ?thesis
    using decided_run [OF finish_inv [OF run_inv [OF inv]]] by simp
qed

text \<open>A call that is not answered stays registered, whatever other calls do.\<close>

lemma unanswered:
  assumes "inv st" "uid \<notin> op_uid ` set ops"
  shows "pending (run ops (snd (register uid st))) uid = Some (fst (register uid st)) \<and>
    result (fst (register uid st)) (run ops (snd (register uid st))) = None"
proof -
  have inv: "inv (snd (register uid st))" using assms(1) by (rule register_inv)
  have "pending (snd (register uid st)) uid = Some (fst (register uid st))"
    using assms(1) by (simp add: register_pending)
  from pending_run [OF inv this assms(2)] show ?thesis
    using pending_open [OF run_inv [OF inv]] by blast
qed

text \<open>A completion that comes before the registration is lost.\<close>

lemma lost_completion:
  assumes "inv st" "uid \<notin> op_uid ` set after"
  shows "result (fst (register uid (finish uid r st)))
    (run after (snd (register uid (finish uid r st)))) = None"
proof -
  show ?thesis using unanswered [OF finish_inv [OF assms(1)] assms(2)] by blast
qed

end

section \<open>The manager fulfils it\<close>

definition futures_ok :: "futures \<Rightarrow> bool" where
  "futures_ok fm \<longleftrightarrow>
     fm_panics fm = 0 \<and>
     (\<forall>f \<ge> fm_next fm. \<not> fut_closed (fm_store fm f)) \<and>
     (\<forall>f. fut_closed (fm_store fm f) \<or> fut_err (fm_store fm f) = None) \<and>
     (\<forall>f. \<not> fut_closed (fm_store fm f) \<or> fut_err (fm_store fm f) \<noteq> None \<longrightarrow> fut_result (fm_store fm f) = []) \<and>
     (\<forall>uid f. fm_m fm uid = Some f \<longrightarrow>
        f < fm_next fm \<and> \<not> fut_closed (fm_store fm f) \<and> fut_rpcUid (fm_store fm f) = uid)"

lemma futures_okD:
  assumes "futures_ok fm" "fm_m fm uid = Some f"
  shows "f < fm_next fm" "\<not> fut_closed (fm_store fm f)" "fut_rpcUid (fm_store fm f) = uid"
    "fut_err (fm_store fm f) = None" "fut_result (fm_store fm f) = []"
  using assms unfolding futures_ok_def by blast+

lemma register_new_simps [simp]:
  "fst (register_new uid fm) = fm_next fm"
  "snd (register_new uid fm) = fm\<lparr>fm_store := (fm_store fm)(fm_next fm := NewFuture uid),
     fm_next := fm_next fm + 1, fm_m := (fm_m fm)(uid \<mapsto> fm_next fm)\<rparr>"
  by (simp_all add: register_new_def alloc_future_def Register_def NewFuture_def)

lemma complete_eq:
  "complete uid r fm =
     (case fm_m fm uid of
        None \<Rightarrow> fm\<lparr>fm_m := (fm_m fm)(uid := None)\<rparr>
      | Some f \<Rightarrow> apply_future (case r of Done v \<Rightarrow> Success v | Failed e \<Rightarrow> FutureError e) f
                  (fm\<lparr>fm_m := (fm_m fm)(uid := None)\<rparr>))"
  by (simp add: complete_def SetSuccess_def SetError_def Pop_def split: outcome.split option.split)

lemma futures_ok_register: "futures_ok fm \<Longrightarrow> futures_ok (snd (register_new uid fm))"
  by (auto simp: futures_ok_def NewFuture_def less_Suc_eq)

lemma futures_ok_complete:
  assumes ok: "futures_ok fm"
  shows "futures_ok (complete uid r fm)"
proof (cases "fm_m fm uid")
  case None
  with ok show ?thesis by (auto simp: futures_ok_def complete_eq)
next
  case (Some f)
  note f = futures_okD [OF ok Some]
  have other: "f' \<noteq> f" if "fm_m fm uid' = Some f'" "uid' \<noteq> uid" for uid' f'
    using futures_okD(3) [OF ok that(1)] f(3) that(2) by auto
  show ?thesis
    using ok f other
    by (cases r) (auto simp: futures_ok_def complete_eq Some apply_future_def Success_def FutureError_def)
qed

lemma futures_ok_new: "futures_ok NewFutureManager"
  by (simp add: futures_ok_def NewFutureManager_def NewFuture_def)

interpretation calls: call_registry register_new complete fm_m outcome_of futures_ok
proof
  fix fm uid
  assume "futures_ok fm"
  then show "futures_ok (snd (register_new uid fm))" by (rule futures_ok_register)
next
  fix fm uid r
  assume "futures_ok fm"
  then show "futures_ok (complete uid r fm)" by (rule futures_ok_complete)
next
  fix fm uid
  show "fm_m (snd (register_new uid fm)) = (fm_m fm)(uid \<mapsto> fst (register_new uid fm))" by simp
next
  fix fm f uid
  show "outcome_of f (snd (register_new uid fm)) =
      (if f = fst (register_new uid fm) then None else outcome_of f fm)"
    by (simp add: outcome_of_def NewFuture_def)
next
  fix fm uid' uid
  assume "futures_ok fm"
  then show "fm_m fm uid' \<noteq> Some (fst (register_new uid fm)) \<and>
      outcome_of (fst (register_new uid fm)) fm = None"
    by (auto simp: futures_ok_def outcome_of_def)
next
  fix fm uid f
  assume "futures_ok fm" "fm_m fm uid = Some f"
  then show "outcome_of f fm = None" by (simp add: outcome_of_def futures_okD)
next
  fix fm uid f uid'
  assume "futures_ok fm" "fm_m fm uid = Some f" "fm_m fm uid' = Some f"
  then show "uid = uid'" using futures_okD(3) by metis
next
  fix fm uid r
  show "fm_m (complete uid r fm) = (fm_m fm)(uid := None)"
    by (auto simp: complete_eq apply_future_def split: option.split prod.split)
next
  fix fm f uid r
  assume "futures_ok fm"
  then show "outcome_of f (complete uid r fm) = (if fm_m fm uid = Some f then Some r else outcome_of f fm)"
    using futures_okD [of fm uid]
    by (cases r) (auto simp: complete_eq apply_future_def outcome_of_def Success_def FutureError_def
        split: option.split)
qed

text \<open>What \<open>Await\<close> returns of a decided call: its outcome, unless the timer wins.\<close>

definition await_value :: "outcome \<Rightarrow> gostring \<times> gostring option" where
  "await_value r = (case r of Done v \<Rightarrow> (v, None) | Failed e \<Rightarrow> ([], Some e))"


lemma await_decided:
  assumes "futures_ok fm" "outcome_of f fm = Some r"
  shows "Await timeout fired pick (fm_store fm f) =
    (if 0 < timeout \<and> fired \<and> \<not> pick then Some ([], Some ''rpc timeout'') else Some (await_value r))"
  using assms by (auto simp: outcome_of_def Await_def await_value_def futures_ok_def Let_def
      split: option.splits if_splits)

lemma await_open:
  "outcome_of f fm = None \<Longrightarrow>
     Await timeout fired pick (fm_store fm f) =
       (if 0 < timeout \<and> fired then Some ([], Some ''rpc timeout'') else None)"
  by (auto simp: outcome_of_def Await_def Let_def split: option.splits if_splits)

definition run_calls :: "call_op list \<Rightarrow> futures \<Rightarrow> futures" where
  "run_calls = fold (call_step register_new complete)"

lemma futures_ok_run: "futures_ok fm \<Longrightarrow> futures_ok (run_calls ops fm)"
  unfolding run_calls_def by (rule calls.run_inv)

text \<open>
  The manager never closes a channel twice, so no response, expected or not, repeated or
  late, makes it panic.
\<close>

theorem futures_no_panic: "fm_panics (run_calls ops NewFutureManager) = 0"
  using futures_ok_run [OF futures_ok_new] by (simp add: futures_ok_def)

text \<open>
  C17: a call whose future was registered before is decided by the first completion of its id,
  whatever else the manager does before and after: \<open>Await\<close> returns that value or error, unless
  its timer fires first.
\<close>

theorem first_response_decides:
  assumes "register_new uid (run_calls ops NewFutureManager) = (f, fm1)"
    and "uid \<notin> op_uid ` set before"
    and "fm2 = run_calls (before @ OpFinish uid r # after) fm1"
  shows "Await timeout fired pick (fm_store fm2 f) =
    (if 0 < timeout \<and> fired \<and> \<not> pick then Some ([], Some ''rpc timeout'') else Some (await_value r))"
proof (rule await_decided)
  have ok: "futures_ok (run_calls ops NewFutureManager)" by (rule futures_ok_run [OF futures_ok_new])
  have fm1: "fm1 = snd (register_new uid (run_calls ops NewFutureManager))"
    and f: "f = fst (register_new uid (run_calls ops NewFutureManager))"
    by (simp_all add: assms(1) del: register_new_simps)
  show "futures_ok fm2"
    unfolding assms(3) fm1 by (rule futures_ok_run [OF futures_ok_register [OF ok]])
  show "outcome_of f fm2 = Some r"
    unfolding assms(3) fm1 f run_calls_def
    by (rule calls.first_completion [OF ok [unfolded run_calls_def] assms(2)])
qed

theorem first_response_decides_witness:
  "Await 5 False False (fm_store (run_calls [OpFinish ''u'' (Done ''42''), OpFinish ''u'' (Failed ''x'')]
     (snd (register_new ''u'' NewFutureManager))) 0) = Some (''42'', None)"
proof -
  have "register_new ''u'' (run_calls [] NewFutureManager) = (0, snd (register_new ''u'' NewFutureManager))"
    by (rule prod_eqI) (simp_all add: run_calls_def NewFutureManager_def)
  from first_response_decides [OF this _ refl, where before = "[]"] show ?thesis
    by (simp add: await_value_def)
qed

text \<open>
  An unanswered call returns with an error once its timeout has passed, never if it has none, and
  its future stays in the manager for good: nothing but its own response takes it out.
\<close>

theorem unanswered_call_stays:
  assumes "futures_ok fm" "uid \<notin> op_uid ` set ops" "fm' = run_calls ops (snd (register_new uid fm))"
    and "f = fst (register_new uid fm)"
  shows "fm_m fm' uid = Some f \<and>
    Await timeout fired pick (fm_store fm' f) = (if 0 < timeout \<and> fired then Some ([], Some ''rpc timeout'') else None)"
  unfolding assms(3,4) run_calls_def
  using calls.unanswered [OF assms(1,2)] await_open by blast

end
