(* ===== verification/Stubs.thy ===== *)
theory Stubs
  imports Dto
begin

text \<open>
  The RPC server side of \<open>internal/rpc\<close>: the registry of handlers (\<open>stub_manager.go\<close>), the
  registration of plain Go functions by reflection (\<open>orm.go\<close>) and the TCP server for direct
  calls (\<open>stub_server.go\<close>). What a handler does is the user's code, so handlers are functions
  held in the registry's state; what the reflection library reports of a function is a value of
  \<open>go_fn\<close>.
\<close>

section \<open>Values and handlers\<close>

text \<open>
  A value of type \<open>any\<close>: nil, a string, or another value with its JSON text (\<open>None\<close> when it
  cannot be marshalled).
\<close>

datatype go_any = GNil | GString gostring | GValue "gostring option"

datatype handler_result = HReturn go_any "gostring option" | HPanic gostring

type_synonym RpcHandler = "gostring list \<Rightarrow> handler_result"

definition toJsonOrString :: "go_any \<Rightarrow> gostring" where
  "toJsonOrString v =
     (case v of GNil \<Rightarrow> [] | GString s \<Rightarrow> s | GValue t \<Rightarrow> (case t of Some b \<Rightarrow> b | None \<Rightarrow> []))"

section \<open>The stub manager\<close>

record StubManager =
  sm_initialized :: bool
  sm_handlers :: "int \<rightharpoonup> RpcHandler"
  sm_metadata :: "int \<rightharpoonup> RpcStubMetadata"
  sm_interfaceIndex :: "gostring \<rightharpoonup> go_any"

definition stubManagerInstance :: StubManager where
  "stubManagerInstance = \<lparr>sm_initialized = False, sm_handlers = Map.empty, sm_metadata = Map.empty,
     sm_interfaceIndex = Map.empty\<rparr>"

definition not_initialized_error :: gostring where
  "not_initialized_error = ([CHR 0xE8, CHR 0xBF, CHR 0x98, CHR 0xE6, CHR 0xB2, CHR 0xA1, CHR 0xE6, CHR 0x9C,
        CHR 0x89, CHR 0xE8, CHR 0xB0, CHR 0x83, CHR 0xE7, CHR 0x94,
        CHR 0xA8] @ '' StubManager.RegisterStub '' @ [CHR 0xE5, CHR 0x88, CHR 0x9D, CHR 0xE5, CHR 0xA7,
        CHR 0x8B, CHR 0xE5, CHR 0x8C, CHR 0x96] @ '' rpc server method stub'')"

definition CheckInitialized :: "StubManager \<Rightarrow> gostring option" where
  "CheckInitialized m = (if \<not> sm_initialized m then Some not_initialized_error else None)"

definition RegisterStub :: "RpcStubMetadata \<Rightarrow> RpcHandler \<Rightarrow> StubManager \<Rightarrow> StubManager" where
  "RegisterStub meta handler m =
     m\<lparr>sm_handlers := (sm_handlers m)(stub_PacketId meta \<mapsto> handler),
       sm_metadata := (sm_metadata m)(stub_PacketId meta \<mapsto> meta), sm_initialized := True\<rparr>"

definition RegisterInterface :: "gostring \<Rightarrow> go_any \<Rightarrow> StubManager \<Rightarrow> StubManager" where
  "RegisterInterface name inst m = m\<lparr>sm_interfaceIndex := (sm_interfaceIndex m)(name \<mapsto> inst)\<rparr>"

definition Reset :: "StubManager \<Rightarrow> StubManager" where
  "Reset m = m\<lparr>sm_handlers := Map.empty, sm_metadata := Map.empty, sm_interfaceIndex := Map.empty,
     sm_initialized := False\<rparr>"

definition GetHandler :: "StubManager \<Rightarrow> int \<Rightarrow> RpcHandler option" where
  "GetHandler m packetId = sm_handlers m packetId"

definition GetAllStubsMetadata :: "int list \<Rightarrow> StubManager \<Rightarrow> RpcStubMetadata list" where
  "GetAllStubsMetadata ks m = List.map snd (range_map ks (sm_metadata m))"

definition unregistered_error :: "int \<Rightarrow> gostring" where
  "unregistered_error packetId = ([CHR 0xE6, CHR 0x96, CHR 0xB9, CHR 0xE6, CHR 0xB3, CHR 0x95, CHR 0xE6,
        CHR 0x9C, CHR 0xAA, CHR 0xE6, CHR 0xB3, CHR 0xA8, CHR 0xE5, CHR 0x86, CHR 0x8C] @ '': packetId='') @ Itoa packetId"

definition panic_error :: "int \<Rightarrow> gostring \<Rightarrow> gostring" where
  "panic_error packetId r = (''RPC '' @ [CHR 0xE6, CHR 0x89, CHR 0xA7, CHR 0xE8, CHR 0xA1, CHR 0x8C,
        CHR 0xE5, CHR 0xBC, CHR 0x82, CHR 0xE5, CHR 0xB8, CHR 0xB8] @ '': packetId='') @ Itoa packetId @ '' panic='' @ r"

text \<open>The result and the error; a panic of the handler is recovered into an error.\<close>

definition Invoke :: "int \<Rightarrow> gostring list \<Rightarrow> StubManager \<Rightarrow> go_any \<times> gostring option" where
  "Invoke packetId args m =
     (case GetHandler m packetId of
        None \<Rightarrow> (GNil, Some (unregistered_error packetId))
      | Some h \<Rightarrow>
          (case h args of
             HPanic r \<Rightarrow> (GNil, Some (panic_error packetId r))
           | HReturn result err \<Rightarrow> (result, err)))"

section \<open>Functions registered by reflection\<close>

datatype go_kind =
    KInt | KUint | KFloat | KBool | KString | KSlice | KArray | KMap
  | KStruct "gostring option" \<comment> \<open>the JSON text of its zero value\<close>
  | KOther

text \<open>A type: a pointer, or a type with its name and printed form.\<close>

datatype go_type = TPtr go_type | TBase gostring gostring go_kind

fun typeName :: "go_type \<Rightarrow> gostring" where
  "typeName (TPtr t) = ''*'' @ typeName t"
| "typeName (TBase name printed k) = (if name \<noteq> [] then name else printed)"

fun exampleForType :: "go_type \<Rightarrow> gostring" where
  "exampleForType (TPtr t) = exampleForType t"
| "exampleForType (TBase name printed k) =
     (case k of
        KInt \<Rightarrow> ''0'' | KUint \<Rightarrow> ''0'' | KFloat \<Rightarrow> ''0.0'' | KBool \<Rightarrow> ''false''
      | KString \<Rightarrow> [CHR 0x22] @ ''string_value'' @ [CHR 0x22]
      | KSlice \<Rightarrow> ''[]'' | KArray \<Rightarrow> ''[]'' | KMap \<Rightarrow> ''{}''
      | KStruct z \<Rightarrow> (case z of Some b \<Rightarrow> b | None \<Rightarrow> ''{}'')
      | KOther \<Rightarrow> ''{}'')"

record RpcParamMeta =
  pm_Name :: gostring
  pm_Description :: gostring

record RpcFuncMeta =
  fm_PacketId :: int
  fm_Description :: gostring
  fm_ParamMeta :: "RpcParamMeta list"
  fm_ClassName :: gostring
  fm_MethodName :: gostring

text \<open>
  A result of a call by reflection: the value, whether its static type implements \<open>error\<close>, its
  text when it is a non-nil error, whether it is nil, and whether nil is possible at all
  (\<open>IsNil\<close> panics on other kinds).
\<close>

record out_value =
  ov_Interface :: go_any
  ov_Implements :: bool
  ov_error :: "gostring option"
  ov_isNil :: bool
  ov_nilable :: bool

datatype call_result = CReturn "out_value list" | CPanic gostring

text \<open>
  What \<open>RegisterRpcFunc\<close> is given: nil, something that is no function, or a function with its
  parameter types, its full name and its effect on decoded arguments of type \<open>'v\<close>.
\<close>

datatype 'v go_fn = FnNil | FnOther | Fn "go_type list" gostring "'v list \<Rightarrow> call_result"

definition fallback :: "gostring \<Rightarrow> gostring \<Rightarrow> gostring" where
  "fallback s def = (if TrimSpace s = [] then def else s)"

definition normalizeFuncResult :: "out_value list \<Rightarrow> handler_result" where
  "normalizeFuncResult out =
     (case out of
        [] \<Rightarrow> HReturn GNil None
      | [o0] \<Rightarrow> (case ov_error o0 of Some err \<Rightarrow> HReturn GNil (Some err) | None \<Rightarrow> HReturn (ov_Interface o0) None)
      | [o0, o1] \<Rightarrow>
          if \<not> ov_Implements o1 then
            HReturn GNil (Some ''rpc function second return value must be error'')
          else if \<not> ov_nilable o1 then HPanic ''reflect: call of reflect.Value.IsNil''
          else if ov_isNil o1 then HReturn (ov_Interface o0) None
          else HReturn (ov_Interface o0) (ov_error o1)
      | _ \<Rightarrow> HReturn GNil (Some ''rpc function must return 0, 1 or 2 values''))"

definition count_error :: "nat \<Rightarrow> nat \<Rightarrow> gostring" where
  "count_error expected actual =
     ([CHR 0xE5, CHR 0x8F, CHR 0x82, CHR 0xE6, CHR 0x95, CHR 0xB0, CHR 0xE6, CHR 0x95, CHR 0xB0, CHR 0xE9,
        CHR 0x87, CHR 0x8F, CHR 0xE4, CHR 0xB8, CHR 0x8D, CHR 0xE5, CHR 0x8C, CHR 0xB9, CHR 0xE9, CHR 0x85,
        CHR 0x8D] @ '': expected='') @ Itoa (int expected) @ '' actual='' @ Itoa (int actual)"

definition arg_error :: "nat \<Rightarrow> go_type \<Rightarrow> gostring \<Rightarrow> gostring" where
  "arg_error i t err =
     ([CHR 0xE5, CHR 0x8F, CHR 0x82, CHR 0xE6, CHR 0x95, CHR 0xB0, CHR 0xE5, CHR 0x8F, CHR 0x8D, CHR 0xE5,
        CHR 0xBA, CHR 0x8F, CHR 0xE5, CHR 0x88, CHR 0x97, CHR 0xE5, CHR 0x8C, CHR 0x96, CHR 0xE5, CHR 0xA4,
        CHR 0xB1, CHR 0xE8, CHR 0xB4, CHR 0xA5] @ '': index='') @ Itoa (int i) @ '' type='' @ typeName t @ '' err='' @ err"

text \<open>
  The loop that decodes the arguments. \<open>unmarshalArg\<close> is \<open>json.Unmarshal\<close> into a new value of
  the parameter's type.
\<close>

fun decode_args ::
  "(go_type \<Rightarrow> gostring \<Rightarrow> gostring + 'v) \<Rightarrow> nat \<Rightarrow> go_type list \<Rightarrow> gostring list \<Rightarrow> 'v list \<Rightarrow>
     gostring + 'v list" where
  "decode_args unmarshalArg i (t # ts) (a # as) callArgs =
     (case unmarshalArg t a of
        Inl err \<Rightarrow> Inl (arg_error i t err)
      | Inr val \<Rightarrow> decode_args unmarshalArg (i + 1) ts as (callArgs @ [val]))"
| "decode_args unmarshalArg i _ _ callArgs = Inr callArgs"

definition func_handler ::
  "(go_type \<Rightarrow> gostring \<Rightarrow> gostring + 'v) \<Rightarrow> go_type list \<Rightarrow> ('v list \<Rightarrow> call_result) \<Rightarrow> RpcHandler" where
  "func_handler unmarshalArg paramTypes call args =
     (if length args \<noteq> length paramTypes
      then HReturn GNil (Some (count_error (length paramTypes) (length args)))
      else
        (case decode_args unmarshalArg 0 paramTypes args [] of
           Inl err \<Rightarrow> HReturn GNil (Some err)
         | Inr callArgs \<Rightarrow>
             (case call callArgs of CPanic r \<Rightarrow> HPanic r | CReturn out \<Rightarrow> normalizeFuncResult out)))"

definition func_names :: "RpcFuncMeta \<Rightarrow> gostring \<Rightarrow> gostring \<times> gostring" where
  "func_names meta fullName =
     (if fm_ClassName meta = [] \<or> fm_MethodName meta = [] then
        let parts = SplitChar (CHR ''/'') fullName;
            name = parts ! (length parts - 1);
            idx = LastIndex name ''.''
        in if idx \<ge> 0 then (take (nat idx) name, drop (nat idx + 1) name) else (''go'', name)
      else (fm_ClassName meta, fm_MethodName meta))"

definition param_names :: "RpcFuncMeta \<Rightarrow> nat \<Rightarrow> gostring list" where
  "param_names meta n =
     List.map (\<lambda>i. if i < length (fm_ParamMeta meta)
                   then fallback (pm_Name (fm_ParamMeta meta ! i)) (''arg'' @ Itoa (int i))
                   else ''arg'' @ Itoa (int i)) [0..<n]"

definition param_descriptions :: "RpcFuncMeta \<Rightarrow> nat \<Rightarrow> gostring list" where
  "param_descriptions meta n =
     List.map (\<lambda>i. if i < length (fm_ParamMeta meta) then pm_Description (fm_ParamMeta meta ! i) else [])
       [0..<n]"

definition func_metadata :: "RpcFuncMeta \<Rightarrow> go_type list \<Rightarrow> gostring \<Rightarrow> RpcStubMetadata" where
  "func_metadata meta paramTypes fullName =
     (case func_names meta fullName of (className, methodName) \<Rightarrow>
        \<lparr>stub_PacketId = fm_PacketId meta, stub_Description = fm_Description meta,
         stub_ClassName = className, stub_MethodName = methodName,
         stub_ParameterTypes = Some (List.map typeName paramTypes),
         stub_ParameterNames = Some (param_names meta (length paramTypes)),
         stub_ParameterDescriptions = Some (param_descriptions meta (length paramTypes)),
         stub_ParameterExampleJson = Some (List.map exampleForType paramTypes)\<rparr>)"

definition RegisterRpcFunc ::
  "(go_type \<Rightarrow> gostring \<Rightarrow> gostring + 'v) \<Rightarrow> RpcFuncMeta \<Rightarrow> 'v go_fn \<Rightarrow> StubManager \<Rightarrow>
     gostring option \<times> StubManager" where
  "RegisterRpcFunc unmarshalArg meta fn m =
     (if fm_PacketId meta \<le> 0 then (Some ''packetId must be greater than 0'', m)
      else case fn of
        FnNil \<Rightarrow> (Some ''fn is nil'', m)
      | FnOther \<Rightarrow> (Some ''fn must be a function'', m)
      | Fn paramTypes fullName call \<Rightarrow>
          (None, RegisterStub (func_metadata meta paramTypes fullName)
                   (func_handler unmarshalArg paramTypes call) m))"

lemma decode_args_eq:
  assumes "length as = length ts"
  shows "decode_args un k ts as acc =
    (case find (\<lambda>i. \<exists>e. un (ts ! i) (as ! i) = Inl e) [0..<length ts] of
       None \<Rightarrow> Inr (acc @ List.map (\<lambda>i. projr (un (ts ! i) (as ! i))) [0..<length ts])
     | Some i \<Rightarrow> Inl (arg_error (k + i) (ts ! i) (projl (un (ts ! i) (as ! i)))))"
  using assms
proof (induction ts arbitrary: as k acc)
  case (Cons t ts)
  then obtain a as' where as: "as = a # as'" "length as' = length ts" by (cases as) auto
  have upt: "[0..<length (t # ts)] = 0 # List.map Suc [0..<length ts]"
    by (simp add: map_Suc_upt upt_conv_Cons del: upt_Suc)
  have shift: "find P (List.map Suc xs) = map_option Suc (find (P \<circ> Suc) xs)" for P :: "nat \<Rightarrow> bool" and xs
    by (induction xs) auto
  show ?case
    unfolding upt as(1)
    by (cases "un t a") (simp_all add: Cons.IH [OF as(2)] shift comp_def split: option.split)
qed simp

section \<open>The TCP server for direct calls\<close>

definition ErrFrameTooLarge :: go_error where
  "ErrFrameTooLarge = Err ''frame length out of range''"

text \<open>
  \<open>readRpcFrame\<close> reads the length with one \<open>Read\<close>, which may return fewer than four bytes; the
  rest of the buffer stays zero.
\<close>

definition readRpcFrame :: "tcp \<Rightarrow> (go_error + byte list) \<times> tcp" where
  "readRpcFrame conn =
     (case tcp_Read 4 conn of
        (Inl err, conn1) \<Rightarrow> (Inl err, conn1)
      | (Inr b, conn1) \<Rightarrow>
          let lenBuf = b @ replicate (4 - length b) 0; len = uint (of_be32 lenBuf) in
          if len \<le> 0 \<or> len > 1024 * 1024 then (Inl ErrFrameTooLarge, conn1)
          else tcp_ReadFull (nat len) conn1)"

definition writeRpcFrame :: "byte list \<Rightarrow> byte list \<Rightarrow> byte list" where
  "writeRpcFrame out payload = out @ be32 (len32 payload) @ payload"

definition rpc_response :: "RpcRequest \<Rightarrow> StubManager \<Rightarrow> RpcResponse" where
  "rpc_response req m =
     (let response = \<lparr>resp_RpcUid = req_RpcUid req, resp_ErrorFlag = False, resp_ErrorMsg = [],
                      resp_StartTimeMs = req_StartTimeMs req, resp_PacketId = req_PacketId req,
                      resp_ResultValueStr = []\<rparr>;
          args = (case req_MethodArgsJsonList req of None \<Rightarrow> [] | Some as \<Rightarrow> as)
      in case Invoke (req_PacketId req) args m of
           (_, Some err) \<Rightarrow> response\<lparr>resp_ErrorFlag := True, resp_ErrorMsg := err\<rparr>
         | (result, None) \<Rightarrow> response\<lparr>resp_ResultValueStr := toJsonOrString result\<rparr>)"

text \<open>
  The loop of \<open>StubServer.handleConn\<close> on what the peer sends, with the bytes written so far. The
  fuel bounds the number of turns; each turn that goes on consumes input.
\<close>

fun stub_handleConn :: "nat \<Rightarrow> StubManager \<Rightarrow> tcp \<Rightarrow> byte list \<Rightarrow> byte list" where
  "stub_handleConn 0 m conn out = out"
| "stub_handleConn (Suc fuel) m conn out =
     (case readRpcFrame conn of
        (Inl _, _) \<Rightarrow> out
      | (Inr msg, conn') \<Rightarrow>
          (case Unmarshal decode_RpcRequest zero_RpcRequest (string_of msg) of (req, ok) \<Rightarrow>
             if \<not> ok \<or> req_RpcUid req = [] then stub_handleConn fuel m conn' out
             else stub_handleConn fuel m conn'
                    (writeRpcFrame out (bytes_of (Marshal json_RpcResponse (rpc_response req m))))))"

lemma readRpcFrame_whole:
  assumes "p \<noteq> []" "length p \<le> 1024 * 1024" "concat cs = p @ rest"
  shows "fst (readRpcFrame (be32 (len32 p) # cs)) = Inr p \<and>
    concat (snd (readRpcFrame (be32 (len32 p) # cs))) = rest"
proof -
  have len: "uint (len32 p) = int (length p)"
  proof -
    have "length p < 2 ^ 32" using assms(2) by simp
    then show ?thesis by (simp add: uint_nat)
  qed
  have "tcp_Read 4 (be32 (len32 p) # cs) = (Inr (be32 (len32 p)), cs)" by simp
  moreover have "\<not> (int (length p) \<le> 0 \<or> int (length p) > 1024 * 1024)"
    using assms(1,2) by auto
  ultimately have "readRpcFrame (be32 (len32 p) # cs) = tcp_ReadFull (length p) cs"
    by (simp add: readRpcFrame_def Let_def len)
  then show ?thesis
    using tcp.rdfull_enough [of "length p" cs] assms(3) by simp
qed

section \<open>Properties\<close>

text \<open>The call that a list of raw arguments makes: the first argument that does not decode, or the values.\<close>

definition decoded :: "(go_type \<Rightarrow> gostring \<Rightarrow> gostring + 'v) \<Rightarrow> go_type list \<Rightarrow> gostring list \<Rightarrow> 'v list \<Rightarrow> bool" where
  "decoded un ts as vs \<longleftrightarrow> length vs = length ts \<and> (\<forall>i < length ts. un (ts ! i) (as ! i) = Inr (vs ! i))"

definition first_bad ::
  "(go_type \<Rightarrow> gostring \<Rightarrow> gostring + 'v) \<Rightarrow> go_type list \<Rightarrow> gostring list \<Rightarrow> nat \<Rightarrow> gostring \<Rightarrow> bool" where
  "first_bad un ts as i e \<longleftrightarrow> i < length ts \<and> un (ts ! i) (as ! i) = Inl e \<and>
     (\<forall>j < i. \<exists>v. un (ts ! j) (as ! j) = Inr v)"

lemma decode_args_decoded:
  assumes "length as = length ts" "decoded un ts as vs"
  shows "decode_args un 0 ts as [] = Inr vs"
proof -
  have "find (\<lambda>i. \<exists>e. un (ts ! i) (as ! i) = Inl e) [0..<length ts] = None"
    using assms(2) by (auto simp: find_None_iff decoded_def)
  moreover have "List.map (\<lambda>i. projr (un (ts ! i) (as ! i))) [0..<length ts] = vs"
    using assms(2) by (auto simp: decoded_def intro!: nth_equalityI)
  ultimately show ?thesis by (simp add: decode_args_eq [OF assms(1)])
qed

lemma decode_args_bad:
  assumes "length as = length ts" "first_bad un ts as i e"
  shows "decode_args un 0 ts as [] = Inl (arg_error i (ts ! i) e)"
proof -
  have "find (\<lambda>i. \<exists>e. un (ts ! i) (as ! i) = Inl e) [0..<length ts] = Some i"
    using assms(2) by (fastforce simp: find_Some_iff first_bad_def)
  then show ?thesis
    using assms(2) by (simp add: decode_args_eq [OF assms(1)] first_bad_def)
qed

text \<open>
  A registered Go function is called as declared. With packet id above zero the registration
  succeeds and the manager counts as initialised; \<open>Invoke\<close> of the id then rejects a wrong number
  of arguments, reports the first argument that does not decode, and otherwise is the call of
  the function on the decoded arguments with its results normalised, a panic becoming an error;
  other ids are not affected.
\<close>

theorem RegisterRpcFunc_Invoke:
  assumes "0 < fm_PacketId meta" "RegisterRpcFunc un meta (Fn ts name call) m = (err, m')"
  shows "err = None \<and> CheckInitialized m' = None \<and>
    (length as \<noteq> length ts \<longrightarrow>
       Invoke (fm_PacketId meta) as m' = (GNil, Some (count_error (length ts) (length as)))) \<and>
    (length as = length ts \<longrightarrow> first_bad un ts as i e \<longrightarrow>
       Invoke (fm_PacketId meta) as m' = (GNil, Some (arg_error i (ts ! i) e))) \<and>
    (length as = length ts \<longrightarrow> decoded un ts as vs \<longrightarrow>
       Invoke (fm_PacketId meta) as m' =
         (case call vs of
            CPanic r \<Rightarrow> (GNil, Some (panic_error (fm_PacketId meta) r))
          | CReturn out \<Rightarrow>
              (case normalizeFuncResult out of
                 HPanic r \<Rightarrow> (GNil, Some (panic_error (fm_PacketId meta) r))
               | HReturn v x \<Rightarrow> (v, x)))) \<and>
    (\<forall>p. p \<noteq> fm_PacketId meta \<longrightarrow> Invoke p as m' = Invoke p as m)"
proof -
  obtain cn mn where names: "func_names meta name = (cn, mn)" by force
  have m': "m' = RegisterStub (func_metadata meta ts name) (func_handler un ts call) m" "err = None"
    using assms by (auto simp: RegisterRpcFunc_def)
  have pid: "stub_PacketId (func_metadata meta ts name) = fm_PacketId meta"
    by (simp add: func_metadata_def names)
  have handler: "GetHandler m' p = (if p = fm_PacketId meta then Some (func_handler un ts call)
      else GetHandler m p)" for p
    by (simp add: m' RegisterStub_def GetHandler_def pid)
  have "CheckInitialized m' = None" by (simp add: CheckInitialized_def m' RegisterStub_def)
  then show ?thesis
    using m'(2)
    by (auto simp: Invoke_def handler func_handler_def decode_args_decoded decode_args_bad
        split: call_result.split handler_result.split)
qed

definition sample_func :: "int go_fn" where
  "sample_func = Fn [TBase ''int'' ''int'' KInt] ''app/api.Double''
     (\<lambda>vs. CReturn [\<lparr>ov_Interface = GValue (Some (Itoa (2 * hd vs))), ov_Implements = False,
        ov_error = None, ov_isNil = False, ov_nilable = False\<rparr>])"

definition sample_meta :: RpcFuncMeta where
  "sample_meta = \<lparr>fm_PacketId = 1001, fm_Description = [], fm_ParamMeta = [],
     fm_ClassName = [], fm_MethodName = []\<rparr>"

definition sample_unmarshal :: "go_type \<Rightarrow> gostring \<Rightarrow> gostring + int" where
  "sample_unmarshal t s = (case Atoi s of Some i \<Rightarrow> Inr i | None \<Rightarrow> Inl ''invalid'')"

definition sample_stubs :: StubManager where
  "sample_stubs = snd (RegisterRpcFunc sample_unmarshal sample_meta sample_func stubManagerInstance)"

lemma sample_register:
  "RegisterRpcFunc sample_unmarshal sample_meta
     (Fn [TBase ''int'' ''int'' KInt] ''app/api.Double''
       (\<lambda>vs. CReturn [\<lparr>ov_Interface = GValue (Some (Itoa (2 * hd vs))), ov_Implements = False,
          ov_error = None, ov_isNil = False, ov_nilable = False\<rparr>])) stubManagerInstance = (None, sample_stubs)"
  by (simp add: sample_stubs_def sample_func_def RegisterRpcFunc_def sample_meta_def)

theorem RegisterRpcFunc_Invoke_witness:
  "Invoke 1001 [Itoa 21] sample_stubs = (GValue (Some (Itoa 42)), None)"
proof -
  have "decoded sample_unmarshal [TBase ''int'' ''int'' KInt] [Itoa 21] [21]"
    by (simp add: decoded_def sample_unmarshal_def int64_range_def)
  moreover have "0 < fm_PacketId sample_meta" by (simp add: sample_meta_def)
  ultimately show ?thesis
    using RegisterRpcFunc_Invoke [OF _ sample_register, of "[Itoa 21]" _ _ "[21]"]
    by (simp add: sample_meta_def normalizeFuncResult_def)
qed

lemma TrimSpace_arg: "TrimSpace (''arg'' @ Itoa (int i)) = ''arg'' @ Itoa (int i)"
proof (rule TrimSpace_id)
  fix w t :: gostring
  assume w: "w \<in> set space_seqs"
  then have "w \<noteq> []" "hd w \<noteq> CHR ''a''" by (auto simp: space_seqs_def)
  then show "''arg'' @ Itoa (int i) \<noteq> w @ t" by (cases w) auto
  have digit: "is_digit (last (nat_digits i))"
    using nat_digits_digits [of i] nat_digits_nonempty [of i] by (metis last_in_set list_all_iff)
  have "\<not> is_digit (last w)"
    using w by (auto simp: space_seqs_def is_digit_def)
  moreover have "is_digit (last (''arg'' @ Itoa (int i)))"
    using digit by (simp add: Itoa_def)
  ultimately show "''arg'' @ Itoa (int i) \<noteq> t @ w"
    using \<open>w \<noteq> []\<close> by (metis last_appendR)
qed

lemma fallback_arg: "TrimSpace (fallback s (''arg'' @ Itoa (int i))) \<noteq> []"
  using TrimSpace_arg [of i] by (simp add: fallback_def)

text \<open>
  The metadata of a registered function is well formed: it is stored under the packet id, its
  four parameter lists have one entry per parameter, and no parameter name is blank.
\<close>

theorem registered_metadata:
  assumes "0 < fm_PacketId meta" "RegisterRpcFunc un meta (Fn ts name call) m = (err, m')"
  shows "\<exists>md types names descs examples.
    sm_metadata m' (fm_PacketId meta) = Some md \<and> stub_PacketId md = fm_PacketId meta \<and>
    stub_ParameterTypes md = Some types \<and> stub_ParameterNames md = Some names \<and>
    stub_ParameterDescriptions md = Some descs \<and> stub_ParameterExampleJson md = Some examples \<and>
    length types = length ts \<and> length names = length ts \<and> length descs = length ts \<and>
    length examples = length ts \<and> list_all (\<lambda>n. TrimSpace n \<noteq> []) names"
proof -
  obtain cn mn where names: "func_names meta name = (cn, mn)" by force
  have m': "m' = RegisterStub (func_metadata meta ts name) (func_handler un ts call) m"
    using assms by (auto simp: RegisterRpcFunc_def)
  have "list_all (\<lambda>n. TrimSpace n \<noteq> []) (param_names meta (length ts))"
    using fallback_arg TrimSpace_arg by (auto simp: param_names_def list_all_iff)
  then show ?thesis
    by (simp add: m' RegisterStub_def func_metadata_def names param_names_def param_descriptions_def)
qed

theorem registered_metadata_witness:
  "\<exists>md. sm_metadata sample_stubs 1001 = Some md \<and> stub_PacketId md = 1001"
  using registered_metadata [OF _ sample_register] by (auto simp: sample_meta_def)

text \<open>Whole requests as the peer's TCP delivers them, and the answers.\<close>

definition request_bytes :: "RpcRequest \<Rightarrow> byte list" where
  "request_bytes req = bytes_of (Marshal json_RpcRequest req)"

text \<open>
  What TCP may deliver. \<open>drop_bytes\<close> is what is left of the chunks after so many bytes. The stream of
  frames with the given bodies may be cut anywhere, several frames may share a chunk and a body
  may come in many, as long as the four bytes of a header arrive together.
\<close>

fun drop_bytes :: "nat \<Rightarrow> tcp \<Rightarrow> tcp" where
  "drop_bytes 0 cs = cs"
| "drop_bytes (Suc n) [] = []"
| "drop_bytes (Suc n) (c # cs) =
     (if Suc n < length c then drop (Suc n) c # cs else drop_bytes (Suc n - length c) cs)"

fun frames_arrive :: "byte list list \<Rightarrow> tcp \<Rightarrow> bool" where
  "frames_arrive [] cs \<longleftrightarrow> cs = []"
| "frames_arrive (b # bs) [] \<longleftrightarrow> False"
| "frames_arrive (b # bs) (c # cs) \<longleftrightarrow>
     take 4 c = be32 (len32 b) \<and>
     (let rest = (if length c = 4 then cs else drop 4 c # cs)
      in take (length b) (concat rest) = b \<and> frames_arrive bs (drop_bytes (length b) rest))"

definition response_frame :: "StubManager \<Rightarrow> RpcRequest \<Rightarrow> byte list" where
  "response_frame m req = writeRpcFrame [] (bytes_of (Marshal json_RpcResponse (rpc_response req m)))"

definition servable :: "RpcRequest \<Rightarrow> bool" where
  "servable req \<longleftrightarrow> RpcRequest_ok req \<and> length (request_bytes req) \<le> 1024 * 1024"

lemma tcp_ReadFull_chunk:
  assumes "p \<noteq> []"
  shows "tcp_ReadFull (length p) (p # cs) = (Inr p, cs)"
proof -
  obtain n where n: "length p = Suc n" using assms by (cases p) auto
  have "tcp_ReadFull 0 cs = (Inr [], cs)" by simp
  then show ?thesis by (simp add: n)
qed

lemma tcp_ReadFull_drop:
  "n \<le> length (concat cs) \<Longrightarrow> tcp_ReadFull n cs = (Inr (take n (concat cs)), drop_bytes n cs)"
  by (induction n cs rule: drop_bytes.induct) auto

lemma readRpcFrame_arrives:
  assumes "p \<noteq> []" "length p \<le> 1024 * 1024" "take 4 c = be32 (len32 p)"
    and "take (length p) (concat rest) = p" "rest = (if length c = 4 then cs else drop 4 c # cs)"
  shows "readRpcFrame (c # cs) = (Inr p, drop_bytes (length p) rest)"
proof -
  have "length p < 2 ^ 32" using assms(2) by simp
  then have len: "uint (len32 p) = int (length p)" by (simp add: uint_nat)
  have "length (take 4 c) = 4" unfolding assms(3) by simp
  then have "4 \<le> length c" by simp
  then have head: "tcp_Read 4 (c # cs) = (Inr (be32 (len32 p)), rest)"
    using assms(3,5) by auto
  have "\<not> (int (length p) \<le> 0 \<or> int (length p) > 1024 * 1024)"
    using assms(1,2) by auto
  then have "readRpcFrame (c # cs) = tcp_ReadFull (length p) rest"
    unfolding readRpcFrame_def head by (simp add: Let_def len)
  moreover have "length p \<le> length (concat rest)"
    using assms(4) by (metis length_take min.cobounded1)
  ultimately show ?thesis using assms(4) by (simp add: tcp_ReadFull_drop)
qed

lemma request_bytes_nonempty: "request_bytes req \<noteq> []"
  by (simp add: request_bytes_def bytes_of_def Marshal_def json_RpcRequest_def)

lemma stub_turn:
  assumes "servable req" "readRpcFrame cs = (Inr (request_bytes req), cs')"
  shows "stub_handleConn (Suc fuel) m cs out =
    stub_handleConn fuel m cs' (if req_RpcUid req = [] then out else out @ response_frame m req)"
proof -
  have "Unmarshal decode_RpcRequest zero_RpcRequest (string_of (request_bytes req)) = (req, True)"
    using assms(1) by (simp add: request_bytes_def servable_def req.Unmarshal_Marshal)
  then show ?thesis
    by (simp add: assms(2) response_frame_def writeRpcFrame_def)
qed

text \<open>
  C26: \<open>StubServer\<close> answers in order. However TCP cuts and joins a stream of complete requests, as long
  as the four bytes of each header arrive together, it writes one response frame per request
  that has an id, in the order of the requests, which is the response of the handler called
  with that request's arguments; it skips requests without an id, and stops at the end of the input.
\<close>

theorem StubServer_answers:
  assumes "list_all servable reqs" "frames_arrive (List.map request_bytes reqs) cs" "length reqs < fuel"
  shows "stub_handleConn fuel m cs out =
    out @ concat (List.map (response_frame m) (filter (\<lambda>req. req_RpcUid req \<noteq> []) reqs))"
  using assms
proof (induction reqs arbitrary: fuel out cs)
  case Nil
  then show ?case by (cases fuel) (simp_all add: readRpcFrame_def)
next
  case (Cons req reqs)
  then obtain f where f: "fuel = Suc f" by (cases fuel) auto
  obtain c cs1 where cs: "cs = c # cs1" using Cons.prems(2) by (cases cs) auto
  define rest where "rest = (if length c = 4 then cs1 else drop 4 c # cs1)"
  have ok: "servable req" "length (request_bytes req) \<le> 1024 * 1024" and
    arr: "take 4 c = be32 (len32 (request_bytes req))"
      "take (length (request_bytes req)) (concat rest) = request_bytes req"
      "frames_arrive (List.map request_bytes reqs) (drop_bytes (length (request_bytes req)) rest)"
    using Cons.prems(1,2) by (simp_all add: cs rest_def servable_def Let_def)
  from stub_turn [OF ok(1) readRpcFrame_arrives [OF request_bytes_nonempty ok(2) arr(1,2) rest_def]]
  show ?case
    using Cons.IH [OF _ arr(3), of f] Cons.prems(1,3) unfolding f cs
    by (simp del: stub_handleConn.simps)
qed

definition sample_request :: RpcRequest where
  "sample_request = \<lparr>req_FromRouteId = ''a'', req_ToRouteId = ''b'', req_RpcUid = ''u'',
     req_StartTimeMs = 1, req_PacketId = 1001, req_MethodArgsJsonList = Some [''21'']\<rparr>"

text \<open>The header shares a chunk with the first byte of the body, the rest comes in two more.\<close>

definition sample_chunks :: tcp where
  "sample_chunks = [be32 (len32 (request_bytes sample_request)) @ take 1 (request_bytes sample_request),
     take 4 (drop 1 (request_bytes sample_request)), drop 5 (request_bytes sample_request)]"

lemma drop_bytes_all: "[] \<notin> set cs \<Longrightarrow> drop_bytes (length (concat cs)) cs = []"
proof (induction cs)
  case (Cons c cs)
  then obtain n where n: "length c + length (concat cs) = Suc n" by (cases c) auto
  then have "\<not> Suc n < length c" "Suc n - length c = length (concat cs)" by simp_all
  with Cons show ?case unfolding concat.simps length_append n by simp
qed simp

theorem StubServer_answers_witness:
  "stub_handleConn 2 sample_stubs sample_chunks [] = response_frame sample_stubs sample_request"
proof -
  let ?b = "request_bytes sample_request"
  let ?rest = "[take 1 ?b, take 4 (drop 1 ?b), drop 5 ?b]"
  have size: "5 < length ?b \<and> length ?b < 1000" unfolding request_bytes_def length_bytes_of by code_simp
  then have ok: "servable sample_request"
    by (simp add: servable_def) (simp add: RpcRequest_ok_def sample_request_def int64_range_def)
  have whole: "concat ?rest = ?b"
    using take_add [of 1 4 ?b] append_take_drop_id [of 5 ?b] by simp
  have "[] \<notin> set ?rest" using size by auto
  from drop_bytes_all [OF this] have drop: "drop_bytes (length ?b) ?rest = []" unfolding whole .
  define x y z where "x = take 1 ?b" and "y = take 4 (drop 1 ?b)" and "z = drop 5 ?b"
  have "frames_arrive [?b] [be32 (len32 ?b) @ x, y, z]"
    using whole drop size unfolding x_def [symmetric] y_def [symmetric] z_def [symmetric]
    by (auto simp: x_def simp del: drop_bytes.simps)
  then have "frames_arrive [?b] sample_chunks" by (simp only: sample_chunks_def x_def y_def z_def)
  with ok StubServer_answers [of "[sample_request]" sample_chunks 2 sample_stubs "[]"]
  show ?thesis by (simp add: sample_request_def)
qed

text \<open>
  But it depends on how TCP cuts the header. A well-formed frame whose first byte arrives alone
  is rejected, because the one \<open>Read\<close> of the header returns that byte only and the length is
  taken to be zero; the connection is then given up without an answer.
\<close>

theorem split_header_rejected:
  assumes "p \<noteq> []" "length p \<le> 1024 * 1024"
  shows "fst (readRpcFrame [take 1 (be32 (len32 p) @ p), drop 1 (be32 (len32 p) @ p)]) = Inl ErrFrameTooLarge \<and>
    stub_handleConn (Suc fuel) m [take 1 (be32 (len32 p) @ p), drop 1 (be32 (len32 p) @ p)] out = out"
proof -
  have "length p < 2 ^ 24" using assms(2) by simp
  then have "drop_bit 24 (len32 p) = (0 :: 32 word)"
    by (simp add: len32_def drop_bit_eq_div word_arith_nat_div unat_of_nat)
  then have hd: "take 1 (be32 (len32 p) @ p) = [0]"
    by (simp add: be32_def)
  have "of_be32 [0, 0, 0, 0] = 0" by (simp add: of_be32_def)
  then have "readRpcFrame (take 1 (be32 (len32 p) @ p) # cs) = (Inl ErrFrameTooLarge, cs)" for cs
    unfolding hd by (simp add: readRpcFrame_def numeral_3_eq_3 Let_def)
  then show ?thesis by simp
qed

theorem split_header_rejected_witness:
  "fst (readRpcFrame [[0], [0, 0, 2, 123, 125]]) = Inl ErrFrameTooLarge"
proof -
  have "be32 (len32 [123, 125 :: byte]) = [0, 0, 0, 2]" by (simp add: be32_def len32_def)
  then show ?thesis using split_header_rejected [of "[123, 125]"] by simp
qed

end
