(* ===== verification/RouteTable.thy ===== *)
theory RouteTable
  imports Dto
begin

text \<open>
  \<open>internal/VirtualRouterClient/route_table.go\<close>: what a node knows of the other nodes, and the
  clients it keeps for calling them. Direct clients (\<open>internal/rpc/direct_client.go\<close>) are shared
  objects, so they live in a store and the table holds their numbers. The table is a global of
  the process; each operation is one critical section of its mutex.
\<close>

section \<open>State\<close>

text \<open>The connection of a direct client: not dialled (or the dial failed), open, or closed.\<close>

datatype dial_state = NotDialled | DialOpen | DialClosed

record DirectClient =
  dc_localRouteId :: gostring
  dc_routeId :: gostring
  dc_host :: gostring
  dc_port :: int
  dc_conn :: dial_state

definition NewDirectClient :: "gostring \<Rightarrow> gostring \<Rightarrow> gostring \<Rightarrow> int \<Rightarrow> DirectClient" where
  "NewDirectClient localRouteId routeId host port =
     \<lparr>dc_localRouteId = localRouteId, dc_routeId = routeId, dc_host = host, dc_port = port,
      dc_conn = NotDialled\<rparr>"

definition DirectClient_Close :: "DirectClient \<Rightarrow> DirectClient" where
  "DirectClient_Close c = (if dc_conn c \<noteq> NotDialled then c\<lparr>dc_conn := DialClosed\<rparr> else c)"

text \<open>The dial at the start of \<open>Start\<close>; the read loop behind it closes the connection at its end.\<close>

definition DirectClient_Start :: "bool \<Rightarrow> DirectClient \<Rightarrow> DirectClient" where
  "DirectClient_Start dialled c = (if dialled then c\<lparr>dc_conn := DialOpen\<rparr> else c)"

record RouteTable =
  rt_routeId :: gostring
  rt_routerClient :: bool \<comment> \<open>a router client was set\<close>
  rt_rpcMode :: gostring
  rt_nodes :: "gostring \<rightharpoonup> RouteNode"
  rt_rpcClients :: "gostring \<rightharpoonup> nat"
  rt_relays :: "gostring \<rightharpoonup> gostring" \<comment> \<open>the target of each relay client\<close>
  rt_store :: "nat \<Rightarrow> DirectClient"
  rt_next :: nat

definition routeTableInstance :: RouteTable where
  "routeTableInstance = \<lparr>rt_routeId = [], rt_routerClient = False, rt_rpcMode = [],
     rt_nodes = Map.empty, rt_rpcClients = Map.empty, rt_relays = Map.empty,
     rt_store = \<lambda>_. NewDirectClient [] [] [] 0, rt_next = 0\<rparr>"

section \<open>Operations\<close>

text \<open>\<open>None\<close>: the call panics.\<close>

definition SetRouteId :: "gostring \<Rightarrow> RouteTable \<Rightarrow> RouteTable option" where
  "SetRouteId routeId t = (if rt_routeId t \<noteq> [] then None else Some (t\<lparr>rt_routeId := routeId\<rparr>))"

definition SetRouterClient :: "RouteTable \<Rightarrow> RouteTable" where
  "SetRouterClient t = t\<lparr>rt_routerClient := True\<rparr>"

definition SetRpcMode :: "gostring \<Rightarrow> RouteTable \<Rightarrow> RouteTable" where
  "SetRpcMode mode t = t\<lparr>rt_rpcMode := (if mode = [] then ''relay'' else mode)\<rparr>"

definition upsert_node :: "RouteNode \<Rightarrow> RouteTable \<Rightarrow> RouteTable" where
  "upsert_node node t =
     (case rt_nodes t (node_RouterId node) of
        Some old \<Rightarrow>
          if old = node then t
          else t\<lparr>rt_rpcClients := (rt_rpcClients t)(node_RouterId node := None),
                 rt_nodes := (rt_nodes t)(node_RouterId node \<mapsto> node)\<rparr>
      | None \<Rightarrow> t\<lparr>rt_nodes := (rt_nodes t)(node_RouterId node \<mapsto> node)\<rparr>)"

definition UpsertRouteNode :: "RouteNode list \<Rightarrow> RouteTable \<Rightarrow> RouteTable" where
  "UpsertRouteNode nodes t = fold upsert_node nodes t"

definition remove_node :: "gostring \<Rightarrow> RouteTable \<Rightarrow> RouteTable" where
  "remove_node rid t =
     (let t1 = t\<lparr>rt_nodes := (rt_nodes t)(rid := None)\<rparr> in
      case rt_rpcClients t1 rid of
        None \<Rightarrow> t1
      | Some client \<Rightarrow>
          t1\<lparr>rt_store := (rt_store t1)(client := DirectClient_Close (rt_store t1 client)),
             rt_rpcClients := (rt_rpcClients t1)(rid := None)\<rparr>)"

definition RemoveRouteNode :: "gostring list \<Rightarrow> RouteTable \<Rightarrow> RouteTable" where
  "RemoveRouteNode routeIds t = fold remove_node routeIds t"

definition ErrRouteNotFound :: go_error where
  "ErrRouteNotFound = Err ([CHR 0xE8, CHR 0xB7, CHR 0xAF, CHR 0xE7, CHR 0x94, CHR 0xB1, CHR 0xE8, CHR 0x8A,
        CHR 0x82, CHR 0xE7, CHR 0x82, CHR 0xB9, CHR 0xE6, CHR 0x9C, CHR 0xAA, CHR 0xE6, CHR 0xB3, CHR 0xA8,
        CHR 0xE5, CHR 0x86, CHR 0x8C, CHR 0xE5, CHR 0x88, CHR 0xB0, CHR 0xE8, CHR 0xB7, CHR 0xAF, CHR 0xE7,
        CHR 0x94, CHR 0xB1, CHR 0xE4, CHR 0xB8, CHR 0xAD, CHR 0xE5, CHR 0xBF, CHR 0x83])"

definition ErrRouterClientRequired :: go_error where
  "ErrRouterClientRequired = Err (''Relay '' @ [CHR 0xE6, CHR 0xA8, CHR 0xA1, CHR 0xE5, CHR 0xBC, CHR 0x8F,
        CHR 0xE9, CHR 0x9C, CHR 0x80, CHR 0xE8, CHR 0xA6, CHR 0x81] @ '' VirtualRouterClient'')"

definition GetOrCreateRpcClient :: "gostring \<Rightarrow> RouteTable \<Rightarrow> (go_error + nat) \<times> RouteTable" where
  "GetOrCreateRpcClient routeId t =
     (case rt_rpcClients t routeId of
        Some c \<Rightarrow> (Inr c, t)
      | None \<Rightarrow>
          (case rt_nodes t routeId of
             None \<Rightarrow> (Inl ErrRouteNotFound, t)
           | Some routeNode \<Rightarrow>
               (Inr (rt_next t),
                t\<lparr>rt_store := (rt_store t)(rt_next t := NewDirectClient (rt_routeId t) routeId
                      (node_HostForRpc routeNode) (node_PortForRpc routeNode)),
                  rt_next := rt_next t + 1,
                  rt_rpcClients := (rt_rpcClients t)(routeId \<mapsto> rt_next t)\<rparr>)))"

definition getOrCreateRelay :: "gostring \<Rightarrow> RouteTable \<Rightarrow> (go_error + gostring) \<times> RouteTable" where
  "getOrCreateRelay routeId t =
     (if \<not> rt_routerClient t then (Inl ErrRouterClientRequired, t)
      else case rt_relays t routeId of
        Some c \<Rightarrow> (Inr c, t)
      | None \<Rightarrow> (Inr routeId, t\<lparr>rt_relays := (rt_relays t)(routeId \<mapsto> routeId)\<rparr>))"

datatype service_provider = RelayProvider gostring | DirectProvider nat

definition GetRpcServiceProvider ::
  "gostring \<Rightarrow> RouteTable \<Rightarrow> (go_error + service_provider) \<times> RouteTable" where
  "GetRpcServiceProvider routeId t =
     (if EqualFold (rt_rpcMode t) ''relay'' then
        (case getOrCreateRelay routeId t of
           (Inl err, t') \<Rightarrow> (Inl err, t') | (Inr c, t') \<Rightarrow> (Inr (RelayProvider c), t'))
      else
        (case GetOrCreateRpcClient routeId t of
           (Inl err, t') \<Rightarrow> (Inl err, t') | (Inr c, t') \<Rightarrow> (Inr (DirectProvider c), t')))"

definition HasAnyRouteNode :: "RouteTable \<Rightarrow> bool" where
  "HasAnyRouteNode t \<longleftrightarrow> rt_nodes t \<noteq> Map.empty"

section \<open>The node map\<close>

lemma upsert_node_nodes: "rt_nodes (upsert_node node t) = (rt_nodes t)(node_RouterId node \<mapsto> node)"
  by (auto simp: upsert_node_def fun_eq_iff split: option.split)

lemma UpsertRouteNode_nodes:
  "rt_nodes (UpsertRouteNode nodes t) =
     rt_nodes t ++ map_of (rev (List.map (\<lambda>n. (node_RouterId n, n)) nodes))"
proof (induction nodes arbitrary: t)
  case (Cons n nodes)
  have "rt_nodes (UpsertRouteNode (n # nodes) t) =
      rt_nodes (upsert_node n t) ++ map_of (rev (List.map (\<lambda>n. (node_RouterId n, n)) nodes))"
    using Cons [of "upsert_node n t"] by (simp add: UpsertRouteNode_def)
  then show ?case by (simp add: upsert_node_nodes map_of_append)
qed (simp add: UpsertRouteNode_def)

lemma remove_node_nodes: "rt_nodes (remove_node rid t) = (rt_nodes t)(rid := None)"
  by (simp add: remove_node_def Let_def split: option.split)

lemma RemoveRouteNode_nodes:
  "rt_nodes (RemoveRouteNode ids t) = (\<lambda>k. if k \<in> set ids then None else rt_nodes t k)"
proof (induction ids arbitrary: t)
  case (Cons i ids)
  have "rt_nodes (RemoveRouteNode (i # ids) t) =
      (\<lambda>k. if k \<in> set ids then None else rt_nodes (remove_node i t) k)"
    using Cons [of "remove_node i t"] by (simp add: RemoveRouteNode_def)
  then show ?case by (auto simp: remove_node_nodes fun_eq_iff)
qed (simp add: RemoveRouteNode_def)

section \<open>The table's invariant\<close>

definition table_ok :: "RouteTable \<Rightarrow> bool" where
  "table_ok t \<longleftrightarrow>
     (\<forall>rid c. rt_rpcClients t rid = Some c \<longrightarrow>
        c < rt_next t \<and> dc_routeId (rt_store t c) = rid \<and>
        (\<exists>node. rt_nodes t rid = Some node \<and> dc_host (rt_store t c) = node_HostForRpc node \<and>
           dc_port (rt_store t c) = node_PortForRpc node)) \<and>
     (\<forall>rid c. rt_relays t rid = Some c \<longrightarrow> c = rid) \<and>
     (\<forall>rid node. rt_nodes t rid = Some node \<longrightarrow> node_RouterId node = rid)"

datatype table_op =
    TSetRouteId gostring | TSetClient | TSetMode gostring
  | TUpsert "RouteNode list" | TRemove "gostring list"
  | TProvider gostring | TDirect gostring | TDial nat bool | TDrop nat

text \<open>\<open>TDial\<close> and \<open>TDrop\<close> are the goroutine of a direct client: its dial, and its end.\<close>

fun table_step :: "table_op \<Rightarrow> RouteTable \<Rightarrow> RouteTable" where
  "table_step (TSetRouteId k) t = (case SetRouteId k t of Some t' \<Rightarrow> t' | None \<Rightarrow> t)"
| "table_step TSetClient t = SetRouterClient t"
| "table_step (TSetMode mode) t = SetRpcMode mode t"
| "table_step (TUpsert nodes) t = UpsertRouteNode nodes t"
| "table_step (TRemove ids) t = RemoveRouteNode ids t"
| "table_step (TProvider k) t = snd (GetRpcServiceProvider k t)"
| "table_step (TDirect k) t = snd (GetOrCreateRpcClient k t)"
| "table_step (TDial c ok) t = t\<lparr>rt_store := (rt_store t)(c := DirectClient_Start ok (rt_store t c))\<rparr>"
| "table_step (TDrop c) t = t\<lparr>rt_store := (rt_store t)(c := DirectClient_Close (rt_store t c))\<rparr>"

lemma client_frame [simp]:
  "dc_routeId (DirectClient_Close c) = dc_routeId c" "dc_host (DirectClient_Close c) = dc_host c"
  "dc_port (DirectClient_Close c) = dc_port c"
  "dc_routeId (DirectClient_Start b c) = dc_routeId c" "dc_host (DirectClient_Start b c) = dc_host c"
  "dc_port (DirectClient_Start b c) = dc_port c"
  by (simp_all add: DirectClient_Close_def DirectClient_Start_def)

lemma table_okD:
  assumes "table_ok t" "rt_rpcClients t rid = Some c"
  shows "c < rt_next t" "dc_routeId (rt_store t c) = rid"
    "\<exists>node. rt_nodes t rid = Some node \<and> dc_host (rt_store t c) = node_HostForRpc node \<and>
       dc_port (rt_store t c) = node_PortForRpc node"
  using assms by (simp_all add: table_ok_def)

lemma table_ok_upsert_node: "table_ok t \<Longrightarrow> table_ok (upsert_node node t)"
proof (cases "rt_nodes t (node_RouterId node)")
  case None
  assume ok: "table_ok t"
  then have "rt_rpcClients t (node_RouterId node) = None"
    using table_okD(3) None by (metis not_Some_eq)
  with ok None show ?thesis by (auto simp: table_ok_def upsert_node_def)
qed (auto simp: table_ok_def upsert_node_def)

lemma table_ok_remove_node: "table_ok t \<Longrightarrow> table_ok (remove_node rid t)"
  by (auto simp: table_ok_def remove_node_def Let_def split: option.split)

lemma table_ok_fold: "(\<And>x t. table_ok t \<Longrightarrow> table_ok (f x t)) \<Longrightarrow> table_ok t \<Longrightarrow> table_ok (fold f xs t)"
  by (induction xs arbitrary: t) auto

lemma table_ok_direct: "table_ok t \<Longrightarrow> table_ok (snd (GetOrCreateRpcClient k t))"
  by (auto simp: table_ok_def GetOrCreateRpcClient_def NewDirectClient_def less_Suc_eq split: option.split)

lemma table_ok_relay: "table_ok t \<Longrightarrow> table_ok (snd (getOrCreateRelay k t))"
  by (auto simp: table_ok_def getOrCreateRelay_def split: option.split)

lemma table_ok_step: "table_ok t \<Longrightarrow> table_ok (table_step op t)"
proof (cases op)
  case (TProvider k)
  assume ok: "table_ok t"
  have "snd (GetRpcServiceProvider k t) =
      (if EqualFold (rt_rpcMode t) ''relay'' then snd (getOrCreateRelay k t) else snd (GetOrCreateRpcClient k t))"
    by (simp add: GetRpcServiceProvider_def split: prod.split sum.split)
  with ok TProvider show ?thesis by (simp add: table_ok_direct table_ok_relay)
qed (auto simp: UpsertRouteNode_def RemoveRouteNode_def intro: table_ok_fold table_ok_upsert_node
    table_ok_remove_node table_ok_direct, auto simp: table_ok_def SetRouteId_def SetRouterClient_def SetRpcMode_def
    split: if_splits)

lemma table_ok_run: "table_ok (fold table_step ops routeTableInstance)"
  by (rule table_ok_fold) (auto intro: table_ok_step, simp add: table_ok_def routeTableInstance_def)

section \<open>Properties\<close>

text \<open>
  C27: whatever the router announced and whatever was called before, the direct client that the
  table returns for a node has the address the node was last announced with; for a node not
  (or no longer) announced there is none.
\<close>

theorem direct_client_current:
  assumes "GetOrCreateRpcClient rid (fold table_step ops routeTableInstance) = (r, t')"
  shows "case rt_nodes (fold table_step ops routeTableInstance) rid of
      None \<Rightarrow> r = Inl ErrRouteNotFound
    | Some node \<Rightarrow> (\<exists>c. r = Inr c \<and> dc_routeId (rt_store t' c) = rid \<and>
        dc_host (rt_store t' c) = node_HostForRpc node \<and> dc_port (rt_store t' c) = node_PortForRpc node)"
proof -
  let ?t = "fold table_step ops routeTableInstance"
  have ok: "table_ok ?t" by (rule table_ok_run)
  show ?thesis
  proof (cases "rt_rpcClients ?t rid")
    case (Some c)
    with assms have r: "r = Inr c" "t' = ?t" by (simp_all add: GetOrCreateRpcClient_def)
    from table_okD [OF ok Some] show ?thesis by (auto simp: r)
  next
    case None
    show ?thesis
    proof (cases "rt_nodes ?t rid")
      case (Some node)
      with None assms show ?thesis by (auto simp: GetOrCreateRpcClient_def NewDirectClient_def)
    qed (use None assms in \<open>simp add: GetOrCreateRpcClient_def\<close>)
  qed
qed

text \<open>
  The map of nodes is what the router announced: after an announcement the last entry for an
  id counts, after a removal the removed ids are gone and the others kept.
\<close>

theorem node_map:
  "rt_nodes (UpsertRouteNode nodes t) k =
     (case map_of (rev (List.map (\<lambda>n. (node_RouterId n, n)) nodes)) k of
        Some n \<Rightarrow> Some n | None \<Rightarrow> rt_nodes t k) \<and>
   rt_nodes (RemoveRouteNode ids t) k = (if k \<in> set ids then None else rt_nodes t k)"
  by (simp add: UpsertRouteNode_nodes RemoveRouteNode_nodes map_add_def)

text \<open>
  When a node is announced with another address, the client for the old address leaves the
  table but its connection is not closed: it stays open and nothing in the table refers to it.
\<close>

theorem changed_node_leaks:
  assumes "table_ok t" "rt_nodes t (node_RouterId node) = Some old" "old \<noteq> node"
    and "rt_rpcClients t (node_RouterId node) = Some c" "dc_conn (rt_store t c) = DialOpen"
  shows "dc_conn (rt_store (UpsertRouteNode [node] t) c) = DialOpen \<and>
    c \<notin> ran (rt_rpcClients (UpsertRouteNode [node] t))"
proof -
  have "c \<notin> ran ((rt_rpcClients t)(node_RouterId node := None))"
  proof
    assume "c \<in> ran ((rt_rpcClients t)(node_RouterId node := None))"
    then obtain rid where rid: "rid \<noteq> node_RouterId node" "rt_rpcClients t rid = Some c"
      by (auto simp: ran_def split: if_splits)
    from table_okD(2) [OF assms(1) rid(2)] table_okD(2) [OF assms(1,4)] rid(1) show False by simp
  qed
  moreover have "UpsertRouteNode [node] t =
      t\<lparr>rt_rpcClients := (rt_rpcClients t)(node_RouterId node := None),
        rt_nodes := (rt_nodes t)(node_RouterId node \<mapsto> node)\<rparr>"
    using assms(2,3) by (simp add: UpsertRouteNode_def upsert_node_def)
  ultimately show ?thesis using assms(5) by simp
qed

definition sample_node :: "int \<Rightarrow> RouteNode" where
  "sample_node port = \<lparr>node_RouterId = ''m'', node_HostForRpc = ''h'', node_PortForRpc = port\<rparr>"

definition sample_table :: RouteTable where
  "sample_table = fold table_step [TUpsert [sample_node 1], TDirect ''m'', TDial 0 True] routeTableInstance"

lemma sample_table_state:
  "rt_nodes sample_table ''m'' = Some (sample_node 1)" "rt_rpcClients sample_table ''m'' = Some 0"
  "dc_conn (rt_store sample_table 0) = DialOpen"
  by (simp_all add: sample_table_def UpsertRouteNode_def upsert_node_def routeTableInstance_def
      sample_node_def GetOrCreateRpcClient_def DirectClient_Start_def)

theorem direct_client_current_witness:
  "dc_port (rt_store (snd (GetOrCreateRpcClient ''m'' sample_table)) 0) = 1"
proof -
  have "GetOrCreateRpcClient ''m'' sample_table = (Inr 0, snd (GetOrCreateRpcClient ''m'' sample_table))"
    by (simp add: GetOrCreateRpcClient_def sample_table_state)
  from direct_client_current [OF this [unfolded sample_table_def]]
  show ?thesis
    unfolding sample_table_def [symmetric] by (simp add: sample_table_state) (simp add: sample_node_def)
qed

theorem changed_node_leaks_witness:
  "dc_conn (rt_store (UpsertRouteNode [sample_node 2] sample_table) 0) = DialOpen"
proof -
  have ok: "table_ok sample_table" unfolding sample_table_def by (rule table_ok_run)
  have id: "node_RouterId (sample_node 2) = ''m''" by (simp add: sample_node_def)
  have "sample_node 1 \<noteq> sample_node 2" by (simp add: sample_node_def)
  with changed_node_leaks [OF ok, of "sample_node 2" "sample_node 1" 0] show ?thesis
    by (simp add: id sample_table_state)
qed

end
