(* ===== verification/Relay.thy ===== *)
theory Relay
  imports Futures Stubs RouteTable
begin

text \<open>
  Remote calls, caller's and callee's side: \<open>relay_client.go\<close>, \<open>relay_handlers.go\<close> and
  \<open>direct_client.go\<close> of \<open>internal/rpc\<close>. The relay code uses its router client through the
  interface \<open>RouterClientSender\<close>, here the locale \<open>router_client_sender\<close>; \<open>'c\<close> is the client's
  state. An object sent is given by its JSON text.
\<close>

section \<open>Call ids\<close>

definition GenerateRpcUid :: "int \<Rightarrow> int \<Rightarrow> gostring" where
  "GenerateRpcUid nowMs counter = ''relay-'' @ Itoa nowMs @ ''-'' @ Itoa counter"

section \<open>Handlers of relayed messages\<close>

definition rawToJsonArgs :: "gostring list option \<Rightarrow> gostring list" where
  "rawToJsonArgs args = (case args of None \<Rightarrow> [] | Some as \<Rightarrow> as)"

definition relay_response :: "RpcRequest \<Rightarrow> StubManager \<Rightarrow> RpcResponse" where
  "relay_response req m =
     (let resp = \<lparr>resp_RpcUid = req_RpcUid req, resp_ErrorFlag = False, resp_ErrorMsg = [],
                  resp_StartTimeMs = req_StartTimeMs req, resp_PacketId = req_PacketId req,
                  resp_ResultValueStr = []\<rparr>
      in case Invoke (req_PacketId req) (rawToJsonArgs (req_MethodArgsJsonList req)) m of
           (_, Some err) \<Rightarrow> resp\<lparr>resp_ErrorFlag := True, resp_ErrorMsg := err\<rparr>
         | (result, None) \<Rightarrow> resp\<lparr>resp_ResultValueStr := toJsonOrString result\<rparr>)"

type_synonym 'c sender = "gostring \<Rightarrow> RouteMessageType \<Rightarrow> gostring \<Rightarrow> 'c \<Rightarrow> gostring option \<times> 'c"

definition HandleRelayRpcRequest :: "'c sender \<Rightarrow> StubManager \<Rightarrow> RouteMessage \<Rightarrow> 'c \<Rightarrow> 'c" where
  "HandleRelayRpcRequest send stubs msg client =
     (case Data msg of
        None \<Rightarrow> client
      | Some d \<Rightarrow>
          (case Unmarshal decode_RpcRequest zero_RpcRequest d of (req, ok) \<Rightarrow>
             if \<not> ok then client
             else snd (send (FromRouteId msg) RouteMessageTypeRpcResponse
                    (Marshal json_RpcResponse (relay_response req stubs)) client)))"

definition HandleRelayRpcResponse :: "RouteMessage \<Rightarrow> futures \<Rightarrow> futures" where
  "HandleRelayRpcResponse msg fm =
     (case Data msg of
        None \<Rightarrow> fm
      | Some d \<Rightarrow>
          (case Unmarshal decode_RpcResponse zero_RpcResponse d of (resp, ok) \<Rightarrow>
             if \<not> ok then fm
             else if resp_ErrorFlag resp then SetError (resp_RpcUid resp) (resp_ErrorMsg resp) fm
             else SetSuccess (resp_RpcUid resp) (resp_ResultValueStr resp) fm))"

text \<open>What a response says of its call.\<close>

definition response_outcome :: "RpcResponse \<Rightarrow> outcome" where
  "response_outcome resp =
     (if resp_ErrorFlag resp then Failed (resp_ErrorMsg resp) else Done (resp_ResultValueStr resp))"

lemma HandleRelayRpcResponse_complete:
  assumes "Data msg = Some (Marshal json_RpcResponse resp)" "RpcResponse_ok resp"
  shows "HandleRelayRpcResponse msg fm = complete (resp_RpcUid resp) (response_outcome resp) fm"
  using assms by (simp add: HandleRelayRpcResponse_def resp.Unmarshal_Marshal complete_def response_outcome_def)

lemma relay_response_frame [simp]:
  "resp_RpcUid (relay_response req m) = req_RpcUid req"
  "RpcRequest_ok req \<Longrightarrow> RpcResponse_ok (relay_response req m)"
  by (auto simp: relay_response_def Let_def RpcRequest_ok_def RpcResponse_ok_def
      split: prod.split option.split)

text \<open>What the caller gets: the handler's result as text, or its error.\<close>

definition invoke_outcome :: "go_any \<times> gostring option \<Rightarrow> outcome" where
  "invoke_outcome r = (case r of (_, Some err) \<Rightarrow> Failed err | (v, None) \<Rightarrow> Done (toJsonOrString v))"

lemma relay_response_outcome:
  "response_outcome (relay_response req m) =
     invoke_outcome (Invoke (req_PacketId req) (rawToJsonArgs (req_MethodArgsJsonList req)) m)"
  by (auto simp: relay_response_def response_outcome_def invoke_outcome_def Let_def
      split: prod.split option.split)

lemma rpc_response_eq: "rpc_response req m = relay_response req m"
  by (simp add: rpc_response_def relay_response_def rawToJsonArgs_def)

section \<open>The interface of the router client\<close>

text \<open>
  What relay calls need of their client: while it is connected a message to another node is
  written as one frame, or the send fails and says so; while it is not, nothing happens but the
  error. \<open>sent\<close> is what was written so far.
\<close>

definition client_message :: "gostring \<Rightarrow> gostring \<Rightarrow> RouteMessageType \<Rightarrow> gostring \<Rightarrow> RouteMessage" where
  "client_message from to t data =
     \<lparr>FromRouteId = from, ToRouteId = to, MessageType = Some t, Data = Some data\<rparr>"

locale router_client_sender =
  fixes send :: "bool \<Rightarrow> 'c sender"
    and connected :: "'c \<Rightarrow> bool"
    and route_id :: "'c \<Rightarrow> gostring"
    and sent :: "'c \<Rightarrow> byte list"
    and sound :: "'c \<Rightarrow> bool"
  assumes send_offline: "\<not> connected c \<Longrightarrow> \<exists>e. send ok to t d c = (Some e, c)"
    and send_remote: "sound c \<Longrightarrow> connected c \<Longrightarrow> to \<noteq> route_id c \<Longrightarrow> send True to t d c = (None, c') \<Longrightarrow>
          sent c' = sent c @ EncodeFrame (payload_of (client_message (route_id c) to t d)) \<and> connected c'"
    and send_accepts: "sound c \<Longrightarrow> connected c \<Longrightarrow> to \<noteq> route_id c \<Longrightarrow> fst (send True to t d c) = None"
    and send_fails: "connected c \<Longrightarrow> to \<noteq> route_id c \<Longrightarrow> fst (send False to t d c) \<noteq> None"
    and send_sound: "sound c \<Longrightarrow> sound (snd (send ok to t d c))"
    and send_id: "route_id (snd (send ok to t d c)) = route_id c"
begin

lemma answer_written:
  assumes "sound c" "connected c" "FromRouteId msg \<noteq> route_id c"
    and "Data msg = Some d" "Unmarshal decode_RpcRequest zero_RpcRequest d = (req, True)"
  shows "sent (HandleRelayRpcRequest (send True) stubs msg c) = sent c @
    EncodeFrame (payload_of (client_message (route_id c) (FromRouteId msg) RouteMessageTypeRpcResponse
      (Marshal json_RpcResponse (relay_response req stubs))))"
proof -
  let ?d = "Marshal json_RpcResponse (relay_response req stubs)"
  obtain c' where c': "send True (FromRouteId msg) RouteMessageTypeRpcResponse ?d c = (None, c')"
    using send_accepts [OF assms(1-3)] by (metis prod.collapse)
  have "HandleRelayRpcRequest (send True) stubs msg c = c'"
    using assms(4,5) by (simp add: HandleRelayRpcRequest_def c')
  then show ?thesis using send_remote [OF assms(1-3) c'] by simp
qed

lemma offline_silent:
  assumes "\<not> connected c"
  shows "HandleRelayRpcRequest (send ok) stubs msg c = c"
proof -
  have "snd (send ok to t d c) = c" for to t d
    using send_offline [OF assms] by (metis snd_conv)
  then show ?thesis by (simp add: HandleRelayRpcRequest_def split: option.split prod.split)
qed

end

section \<open>Direct calls\<close>

text \<open>One turn of the read loop of \<open>DirectClient.Start\<close> on a received frame.\<close>

definition direct_receive :: "byte list \<Rightarrow> futures \<Rightarrow> futures" where
  "direct_receive msg fm =
     (case Unmarshal decode_RpcResponse zero_RpcResponse (string_of msg) of (resp, ok) \<Rightarrow>
        if \<not> ok then fm
        else
          (case Pop (resp_RpcUid resp) fm of
             (None, fm') \<Rightarrow> fm'
           | (Some f, fm') \<Rightarrow>
               apply_future (if resp_ErrorFlag resp then FutureError (resp_ErrorMsg resp)
                             else Success (resp_ResultValueStr resp)) f fm'))"

text \<open>
  \<open>GetOrCreateProxy\<close> sends first and registers its future afterwards. \<open>direct_send\<close> is the part
  up to the write (\<open>ok\<close>: the write succeeds), with the bytes written; \<open>direct_register\<close> the rest,
  up to \<open>Await\<close>.
\<close>

definition rpc_not_connected :: gostring where
  "rpc_not_connected = (''rpc client '' @ [CHR 0xE6, CHR 0x9C, CHR 0xAA, CHR 0xE8, CHR 0xBF, CHR 0x9E, CHR 0xE6, CHR 0x8E, CHR 0xA5])"

definition SendRpcMessage ::
  "bool \<Rightarrow> RpcRequest \<Rightarrow> DirectClient \<Rightarrow> bool \<times> gostring option \<times> byte list" where
  "SendRpcMessage ok request c =
     (if dc_conn c = NotDialled then (False, Some rpc_not_connected, [])
      else
        let b = bytes_of (Marshal json_RpcRequest request); frame = be32 (len32 b) @ b in
        if ok \<and> dc_conn c = DialOpen then (True, None, frame) else (False, Some ''write error'', []))"

definition direct_request :: "DirectClient \<Rightarrow> int \<Rightarrow> int \<Rightarrow> int \<Rightarrow> gostring list \<Rightarrow> RpcRequest" where
  "direct_request c nowMs counter packetId args =
     \<lparr>req_FromRouteId = dc_localRouteId c, req_ToRouteId = dc_routeId c,
      req_RpcUid = GenerateRpcUid nowMs counter, req_StartTimeMs = nowMs, req_PacketId = packetId,
      req_MethodArgsJsonList = Some args\<rparr>"

definition direct_send ::
  "bool \<Rightarrow> DirectClient \<Rightarrow> int \<Rightarrow> int \<Rightarrow> int \<Rightarrow> gostring list \<Rightarrow> (gostring option + gostring) \<times> byte list" where
  "direct_send ok c nowMs counter packetId args =
     (let req = direct_request c nowMs counter packetId args in
      case SendRpcMessage ok req c of (sent, err, out) \<Rightarrow>
        if \<not> sent \<or> err \<noteq> None then (Inl err, out) else (Inr (req_RpcUid req), out))"

definition direct_register :: "gostring \<Rightarrow> futures \<Rightarrow> nat \<times> futures" where
  "direct_register rpcUid fm = register_new rpcUid fm"

lemma direct_receive_complete:
  assumes "msg = bytes_of (Marshal json_RpcResponse resp)" "RpcResponse_ok resp"
  shows "direct_receive msg fm = complete (resp_RpcUid resp) (response_outcome resp) fm"
  using assms
  by (auto simp: direct_receive_def resp.Unmarshal_Marshal complete_def response_outcome_def
      SetSuccess_def SetError_def split: option.split prod.split)

section \<open>Properties\<close>

text \<open>
  Two calls of one process never share an id: the counter behind the last dash tells them apart,
  whatever the clock says.
\<close>

theorem GenerateRpcUid_unique:
  assumes "GenerateRpcUid t m = GenerateRpcUid u n" "0 \<le> m" "0 \<le> n"
  shows "m = n"
proof -
  have dash: "CHR ''-'' \<notin> set (Itoa k)" if "0 \<le> k" for k
    using nat_digits_digits [of "nat k"] that by (auto simp: Itoa_def list_all_iff is_digit_def)
  have eq: "Itoa t @ CHR ''-'' # Itoa m = Itoa u @ CHR ''-'' # Itoa n"
    using assms(1) by (simp add: GenerateRpcUid_def)
  have "rev (Itoa m) @ CHR ''-'' # rev (Itoa t) = rev (Itoa n) @ CHR ''-'' # rev (Itoa u)"
    using arg_cong [OF eq, of rev] by simp
  then have "takeWhile (\<lambda>c. c \<noteq> CHR ''-'') (rev (Itoa m) @ CHR ''-'' # rev (Itoa t)) =
      takeWhile (\<lambda>c. c \<noteq> CHR ''-'') (rev (Itoa n) @ CHR ''-'' # rev (Itoa u))" by simp
  moreover have "takeWhile (\<lambda>c. c \<noteq> CHR ''-'') (rev (Itoa k) @ CHR ''-'' # r) = rev (Itoa k)"
    if "0 \<le> k" for k r
    using dash [OF that] by (subst takeWhile_append2) auto
  ultimately show ?thesis using assms(2,3) by simp
qed

theorem GenerateRpcUid_unique_witness:
  "GenerateRpcUid 5 1 \<noteq> GenerateRpcUid 5 2"
  using GenerateRpcUid_unique [of 5 1 5 2] by auto

text \<open>
  A direct call can lose its answer. It registers its future only after the request is on the
  wire; when the response is received in between, it finds no future and is dropped, and the
  call never gets it: with a timeout it reports a timeout, without one it blocks, whatever
  other calls complete later.
\<close>

theorem direct_response_lost:
  assumes "fm = run_calls ops NewFutureManager" "resp_RpcUid resp = uid" "RpcResponse_ok resp"
    and "fm1 = direct_receive (bytes_of (Marshal json_RpcResponse resp)) fm"
    and "direct_register uid fm1 = (f, fm2)" "uid \<notin> op_uid ` set after" "fm3 = run_calls after fm2"
  shows "Await timeout fired pick (fm_store fm3 f) =
    (if 0 < timeout \<and> fired then Some ([], Some ''rpc timeout'') else None)"
proof (rule await_open)
  have ok: "futures_ok fm" unfolding assms(1) by (rule futures_ok_run [OF futures_ok_new])
  have fm1: "fm1 = complete uid (response_outcome resp) fm"
    using direct_receive_complete [OF refl assms(3)] assms(2,4) by simp
  have f: "f = fst (register_new uid fm1)" "fm2 = snd (register_new uid fm1)"
    using assms(5) by (simp_all add: direct_register_def del: register_new_simps)
  show "outcome_of f fm3 = None"
    unfolding assms(7) f fm1 run_calls_def by (rule calls.lost_completion [OF ok assms(6)])
qed

theorem direct_response_lost_witness:
  "Await 0 False False (fm_store (snd (direct_register ''u''
     (direct_receive (bytes_of (Marshal json_RpcResponse (zero_RpcResponse\<lparr>resp_RpcUid := ''u''\<rparr>)))
        NewFutureManager))) 0) = None"
proof -
  let ?resp = "zero_RpcResponse\<lparr>resp_RpcUid := ''u''\<rparr>"
  let ?fm1 = "direct_receive (bytes_of (Marshal json_RpcResponse ?resp)) NewFutureManager"
  have ok: "RpcResponse_ok ?resp" by (simp add: RpcResponse_ok_def zero_RpcResponse_def)
  have "?fm1 = complete ''u'' (response_outcome ?resp) NewFutureManager"
    using direct_receive_complete [OF refl ok] by simp
  then have next0: "fm_next ?fm1 = 0"
    by (simp add: complete_eq NewFutureManager_def)
  have reg: "direct_register ''u'' ?fm1 = (0, snd (direct_register ''u'' ?fm1))"
    by (rule prod_eqI) (simp_all add: direct_register_def next0)
  have "NewFutureManager = run_calls [] NewFutureManager" by (simp add: run_calls_def)
  from direct_response_lost [OF this _ ok refl reg, of "[]" _ 0] show ?thesis
    by (simp add: run_calls_def)
qed

end
