(* ===== verification/RouterClient.thy ===== *)
theory RouterClient
  imports ClientLifecycle Relay ConfigModel ServerProps
begin

text \<open>
  \<open>internal/VirtualRouterClient/client.go\<close>: the node's client, one goroutine at a time. A \<open>node\<close>
  is the process: its configuration, the connection state of \<open>ClientLifecycle\<close>, the bytes it
  wrote on each connection, and the globals it uses: the stub manager, the manager of relayed
  calls and the route table. Whether the kernel accepts a write is the parameter \<open>ok\<close>.
\<close>

section \<open>State\<close>

record node =
  n_cfg :: RouterClientConfig
  n_client :: client
  n_out :: "nat \<Rightarrow> byte list"
  n_stubs :: StubManager
  n_relay :: futures
  n_table :: RouteTable

abbreviation n_routeId :: "node \<Rightarrow> gostring" where
  "n_routeId n \<equiv> rcc_RouteId (n_cfg n)"

text \<open>\<open>None\<close>: \<open>SetRouteId\<close> panics, because the process already has a client.\<close>

definition NewClientByConfig ::
  "RouterClientConfig \<Rightarrow> StubManager \<Rightarrow> futures \<Rightarrow> RouteTable \<Rightarrow> node option" where
  "NewClientByConfig cfg stubs relay table =
     (case SetRouteId (rcc_RouteId cfg) table of
        None \<Rightarrow> None
      | Some t \<Rightarrow> Some \<lparr>n_cfg = cfg, n_client = new_client, n_out = \<lambda>_. [], n_stubs = stubs,
          n_relay = relay, n_table = SetRouterClient (SetRpcMode (rcc_RpcMode cfg) t)\<rparr>)"

definition connected_node :: "node \<Rightarrow> bool" where
  "connected_node n \<longleftrightarrow> IsConnected (n_client n)"

definition write_conn :: "bool \<Rightarrow> nat \<Rightarrow> byte list \<Rightarrow> node \<Rightarrow> bool \<times> node" where
  "write_conn ok c b n =
     (if ok \<and> c \<notin> c_closed (n_client n) then (True, n\<lparr>n_out := (n_out n)(c := n_out n c @ b)\<rparr>)
      else (False, n))"

section \<open>Losing the connection\<close>

definition startBackgroundReconnect :: "client \<Rightarrow> client" where
  "startBackgroundReconnect s =
     (if \<not> c_needConnect s then s
      else if c_reconnectAttempt s then s
      else s\<lparr>c_reconnectAttempt := True, c_threads := c_threads s @ [RecTop]\<rparr>)"

definition onConnectionLost :: "client \<Rightarrow> client" where
  "onConnectionLost s =
     (if \<not> c_needConnect s then s
      else startBackgroundReconnect (closeConn (s\<lparr>c_isOpen := False\<rparr>)))"

text \<open>
  Run without interruption, the goroutine \<open>Lost\<close> of the interleaved model is this function.
\<close>

lemma step_last:
  assumes "\<not> c_panic s" "c_threads s = ts @ [t]"
  shows "step_at (length ts) ok s =
    map_option (\<lambda>(s', new). s'\<lparr>c_threads := ts @ new\<rparr>) (thread_step ok t s)"
  using assms by (simp add: step_at_def split: option.split prod.split)

lemma lost_goroutine:
  assumes "\<not> c_panic s" "c_needConnect s" "\<not> c_reconnectAttempt s"
  shows "exec (replicate 5 (Go (length (c_threads s)) True)) (s\<lparr>c_threads := c_threads s @ [Lost LCheck]\<rparr>) =
    Some (onConnectionLost s)"
  using assms
  by (simp add: eval_nat_numeral step_last [where ts = "c_threads s"] onConnectionLost_def
      startBackgroundReconnect_def closeConn_def split: option.split)

section \<open>Heartbeats\<close>

definition is_direct :: "RouterClientConfig \<Rightarrow> bool" where
  "is_direct cfg = EqualFold (rcc_RpcMode cfg) ''direct''"

definition heartbeat_info :: "int list \<Rightarrow> node \<Rightarrow> RpcServerInfo" where
  "heartbeat_info ks n =
     \<lparr>info_Host = (if is_direct (n_cfg n) then rcc_LocalRpcHost (n_cfg n) else []),
      info_Port = (if is_direct (n_cfg n) then rcc_LocalRpcPort (n_cfg n) else 0),
      info_Stubs = Some (GetAllStubsMetadata ks (n_stubs n))\<rparr>"

definition heartbeat_message :: "int list \<Rightarrow> node \<Rightarrow> RouteMessage" where
  "heartbeat_message ks n =
     \<lparr>FromRouteId = n_routeId n, ToRouteId = [], MessageType = Some RouteMessageTypeHeartBeat,
      Data = Some (Marshal json_RpcServerInfo (heartbeat_info ks n))\<rparr>"

definition sendHeartbeat :: "bool \<Rightarrow> int list \<Rightarrow> node \<Rightarrow> bool \<times> node" where
  "sendHeartbeat ok ks n =
     (case c_conn (n_client n) of
        None \<Rightarrow> (False, n)
      | Some c \<Rightarrow>
          (case EncodePayload (Some (heartbeat_message ks n)) of
             Inl _ \<Rightarrow> (False, n)
           | Inr payload \<Rightarrow> write_conn ok c (EncodeFrame payload) n))"

text \<open>\<open>runRpcServer\<close>: the port a local RPC server is started on, if any.\<close>

definition runRpcServer :: "RouterClientConfig \<Rightarrow> int option" where
  "runRpcServer cfg = (if EqualFold (rcc_RpcMode cfg) ''direct'' then Some (rcc_LocalRpcPort cfg) else None)"

section \<open>Received messages\<close>

definition handleRegister :: "RouteMessage \<Rightarrow> node \<Rightarrow> node" where
  "handleRegister msg n =
     (case Data msg of
        None \<Rightarrow> n
      | Some d \<Rightarrow>
          (case Unmarshal (decode_slice decode_RouteNode) None d of (nodes, ok) \<Rightarrow>
             if \<not> ok then n
             else n\<lparr>n_table := UpsertRouteNode (case nodes of None \<Rightarrow> [] | Some ns \<Rightarrow> ns) (n_table n)\<rparr>))"

definition handleRemoveOffline :: "RouteMessage \<Rightarrow> node \<Rightarrow> node" where
  "handleRemoveOffline msg n =
     (case Data msg of
        None \<Rightarrow> n
      | Some d \<Rightarrow>
          (case Unmarshal (decode_slice decode_string) None d of (ids, ok) \<Rightarrow>
             if \<not> ok then n
             else let ids = (case ids of None \<Rightarrow> [] | Some is \<Rightarrow> is) in
               if length ids = 0 then n
               else n\<lparr>n_table := RemoveRouteNode ids (n_table n)\<rparr>))"

definition isRouterIDConflictError :: "gostring \<Rightarrow> bool" where
  "isRouterIDConflictError errMsg \<longleftrightarrow> Contains errMsg ''RouterId'' \<and> Contains errMsg ([CHR 0xE5, CHR 0xB7, CHR 0xB2, CHR 0xE7, CHR 0xBB, CHR 0x8F, CHR 0xE5, CHR 0xAD, CHR 0x98, CHR 0xE5, CHR 0x9C, CHR 0xA8])"

definition handleSystemError :: "RouteMessage \<Rightarrow> node \<Rightarrow> bool \<times> node" where
  "handleSystemError msg n =
     (case Data msg of
        None \<Rightarrow> (True, n)
      | Some errMsg \<Rightarrow>
          if isRouterIDConflictError errMsg then (False, n\<lparr>n_client := onConnectionLost (n_client n)\<rparr>)
          else (True, n))"

text \<open>
  \<open>handleMessage\<close> and \<open>Send\<close> call each other: a message to oneself is handled at once. An RPC
  request sends a response, a response sends nothing, so the recursion is two deep:
  \<open>handle_simple\<close> handles every type but requests.
\<close>

definition handle_simple :: "RouteMessage \<Rightarrow> RouteMessageType \<Rightarrow> node \<Rightarrow> bool \<times> node" where
  "handle_simple msg t n =
     (if t = RouteMessageTypeHeartBeat then (True, handleRegister msg n)
      else if t = RouteMessageTypeRemoveRouteNode then (True, handleRemoveOffline msg n)
      else if t = RouteMessageTypeMessageData then (True, n)
      else if t = RouteMessageTypeRpcResponse then
        (True, n\<lparr>n_relay := HandleRelayRpcResponse msg (n_relay n)\<rparr>)
      else if t = RouteMessageTypeSystemError then handleSystemError msg n
      else (True, n))"

definition not_connected_error :: gostring where
  "not_connected_error = (''VirtualRouterClient '' @ [CHR 0xE6, CHR 0x9C, CHR 0xAA, CHR 0xE8, CHR 0xBF,
        CHR 0x9E, CHR 0xE6, CHR 0x8E, CHR 0xA5, CHR 0xE5, CHR 0x88,
        CHR 0xB0] @ '' Router Center'' @ [CHR 0xEF, CHR 0xBC, CHR 0x8C, CHR 0xE6, CHR 0x97, CHR 0xA0,
        CHR 0xE6, CHR 0xB3, CHR 0x95, CHR 0xE5, CHR 0x8F, CHR 0x91, CHR 0xE9, CHR 0x80, CHR 0x81, CHR 0xE6, CHR 0xB6, CHR 0x88, CHR 0xE6, CHR 0x81, CHR 0xAF])"

definition Send_with ::
  "(RouteMessage \<Rightarrow> RouteMessageType \<Rightarrow> node \<Rightarrow> bool \<times> node) \<Rightarrow> bool \<Rightarrow> node sender" where
  "Send_with handle ok toRouteId msgType data n =
     (if \<not> connected_node n then (Some not_connected_error, n)
      else
        let msg = client_message (n_routeId n) toRouteId msgType data in
        if toRouteId = n_routeId n then (None, snd (handle msg msgType n))
        else
          (case EncodePayload (Some msg) of
             Inl err \<Rightarrow> (Some ''encode error'', n)
           | Inr payload \<Rightarrow>
               (case c_conn (n_client n) of
                  None \<Rightarrow> (Some not_connected_error, n)
                | Some c \<Rightarrow>
                    (case write_conn ok c (EncodeFrame payload) n of
                       (True, n') \<Rightarrow> (None, n')
                     | (False, n') \<Rightarrow>
                         (Some ''write error'', n'\<lparr>n_client := onConnectionLost (n_client n')\<rparr>)))))"

definition handleMessage :: "bool \<Rightarrow> RouteMessage \<Rightarrow> RouteMessageType \<Rightarrow> node \<Rightarrow> bool \<times> node" where
  "handleMessage ok msg t n =
     (if t = RouteMessageTypeRpcRequest
      then (True, HandleRelayRpcRequest (Send_with handle_simple ok) (n_stubs n) msg n)
      else handle_simple msg t n)"

definition Send :: "bool \<Rightarrow> node sender" where
  "Send ok = Send_with (handleMessage ok) ok"

text \<open>One turn of the read loop, given what \<open>ReadFrame\<close> returned: whether it goes on.\<close>

definition readLoop_turn :: "bool \<Rightarrow> go_error + byte list \<Rightarrow> node \<Rightarrow> bool \<times> node" where
  "readLoop_turn ok res n =
     (case res of
        Inl _ \<Rightarrow> (False, n\<lparr>n_client := onConnectionLost (n_client n)\<rparr>)
      | Inr payload \<Rightarrow>
          (case DecodeRouteMessagePayload payload of
             Inl _ \<Rightarrow> (True, n)
           | Inr msg \<Rightarrow>
               (case MessageType msg of None \<Rightarrow> (True, n) | Some t \<Rightarrow> handleMessage ok msg t n)))"

section \<open>Waiting and back-off\<close>

definition seconds60 :: "64 word" where
  "seconds60 = 60 * 1000000000"

text \<open>\<open>time.Duration\<close> is a signed 64-bit count of nanoseconds.\<close>

fun delay_loop :: "nat \<Rightarrow> 64 word \<Rightarrow> 64 word" where
  "delay_loop 0 delay = (if sint delay > sint seconds60 then seconds60 else delay)"
| "delay_loop (Suc k) delay =
     (let delay = delay * 2 in if sint delay \<ge> sint seconds60 then seconds60 else delay_loop k delay)"

definition nextReconnectDelay :: "RouterClientConfig \<Rightarrow> nat \<Rightarrow> 64 word" where
  "nextReconnectDelay cfg attempt =
     (let baseMs = (if rcc_ReconnectIntervalMs cfg \<le> 0 then 10000 else rcc_ReconnectIntervalMs cfg);
          base = of_int baseMs * 1000000 :: 64 word
      in if attempt \<le> 1 then base else delay_loop (attempt - 1) base)"

text \<open>
  \<open>AwaitRpcRouterInfoFirstReady\<close>: \<open>ready i\<close> is what the \<open>i\<close>-th look at the route table finds.
\<close>

function await_ready :: "(nat \<Rightarrow> bool) \<Rightarrow> nat \<Rightarrow> bool" where
  "await_ready ready k =
     (if ready k then True
      else let k = k + 1 in if k > 100 then False else await_ready ready k)"
  by pat_completeness auto
termination
  by (relation "measure (\<lambda>(ready, k). 101 - k)") auto

declare await_ready.simps [simp del]

definition AwaitRpcRouterInfoFirstReady :: "(nat \<Rightarrow> bool) \<Rightarrow> bool" where
  "AwaitRpcRouterInfoFirstReady ready = await_ready ready 0"

text \<open>
  \<open>AwaitConnected\<close>: \<open>conn i\<close>, \<open>stop i\<close> and \<open>now i\<close> are what the \<open>i\<close>-th look finds: connected,
  stopped, and the time in nanoseconds. \<open>None\<close> is a wait that never ends; inside, \<open>None\<close> is
  no error. \<open>clock_ok\<close> is what \<open>time.After\<close> promises: a wait takes at least its time.
\<close>

definition await_timeout_error :: gostring where
  "await_timeout_error = ([CHR 0xE7, CHR 0xAD, CHR 0x89, CHR 0xE5, CHR 0xBE, CHR 0x85] @ '' VirtualRouterClient '' @ [CHR 0xE9, CHR 0x87, CHR 0x8D, CHR 0xE8, CHR 0xBF, CHR 0x9E, CHR 0xE8, CHR 0xB6, CHR 0x85, CHR 0xE6, CHR 0x97, CHR 0xB6])"

definition await_closed_error :: gostring where
  "await_closed_error = (''VirtualRouterClient '' @ [CHR 0xE5, CHR 0xB7, CHR 0xB2, CHR 0xE5, CHR 0x85, CHR 0xB3, CHR 0xE9, CHR 0x97, CHR 0xAD])"

definition await_not_started_error :: gostring where
  "await_not_started_error = (''VirtualRouterClient '' @ [CHR 0xE6, CHR 0x9C, CHR 0xAA, CHR 0xE5, CHR 0x90, CHR 0xAF, CHR 0xE5, CHR 0x8A, CHR 0xA8])"

partial_function (option) await_connected ::
  "(nat \<Rightarrow> bool) \<Rightarrow> (nat \<Rightarrow> bool) \<Rightarrow> (nat \<Rightarrow> int) \<Rightarrow> int \<Rightarrow> nat \<Rightarrow> gostring option option" where
  "await_connected conn stop now deadline i =
     (if conn i then Some None
      else if deadline - now i \<le> 0 then Some (Some await_timeout_error)
      else if stop i then Some (Some await_closed_error)
      else await_connected conn stop now deadline (i + 1))"

definition await_wait :: "int \<Rightarrow> int" where
  "await_wait remaining = (if remaining < 100 * 1000000 then remaining else 100 * 1000000)"

definition clock_ok :: "(nat \<Rightarrow> int) \<Rightarrow> int \<Rightarrow> bool" where
  "clock_ok now deadline \<longleftrightarrow>
     (\<forall>i. now i < deadline \<longrightarrow> now i + await_wait (deadline - now i) \<le> now (i + 1))"

definition AwaitConnected ::
  "(nat \<Rightarrow> bool) \<Rightarrow> (nat \<Rightarrow> bool) \<Rightarrow> (nat \<Rightarrow> int) \<Rightarrow> int \<Rightarrow> int \<Rightarrow> node \<Rightarrow> gostring option option" where
  "AwaitConnected conn stop now start timeout n =
     (if connected_node n then Some None
      else if \<not> c_needConnect (n_client n) then Some (Some await_not_started_error)
      else
        let timeout = (if timeout \<le> 0 then 10 * 1000000000 else timeout)
        in await_connected conn stop now (start + timeout) 0)"

section \<open>Relayed calls\<close>

text \<open>
  \<open>RelayClient.Call\<close>. What other goroutines do while it waits, and what its waits return, are
  functions; \<open>ok\<close> and \<open>remaining\<close> are the outcome of each write and the time left after it.
\<close>

record call_env =
  env_await1 :: "node \<Rightarrow> gostring option \<times> node"
  env_ok1 :: bool
  env_remaining1 :: int
  env_await2 :: "node \<Rightarrow> gostring option \<times> node"
  env_ok2 :: bool
  env_remaining2 :: int
  env_nowMs :: int
  env_counter :: int

datatype call_start = Returned gostring "gostring option" | Waiting nat int

definition call_wait_error :: gostring where
  "call_wait_error = (''VirtualRouterClient '' @ [CHR 0xE6, CHR 0x9C, CHR 0xAA, CHR 0xE8, CHR 0xBF, CHR 0x9E,
        CHR 0xE6, CHR 0x8E, CHR 0xA5, CHR 0xEF, CHR 0xBC, CHR 0x8C, CHR 0xE4, CHR 0xB8, CHR 0x94, CHR 0xE7,
        CHR 0xAD, CHR 0x89, CHR 0xE5, CHR 0xBE, CHR 0x85, CHR 0xE9, CHR 0x87, CHR 0x8D, CHR 0xE8, CHR 0xBF,
        CHR 0x9E, CHR 0xE8, CHR 0xB6, CHR 0x85, CHR 0xE6, CHR 0x97, CHR 0xB6])"

definition invokeLocal :: "int \<Rightarrow> gostring list \<Rightarrow> StubManager \<Rightarrow> gostring \<times> gostring option" where
  "invokeLocal packetId args m =
     (case Invoke packetId args m of
        (_, Some err) \<Rightarrow> ([], Some err)
      | (result, None) \<Rightarrow> (toJsonOrString result, None))"

definition relay_request :: "gostring \<Rightarrow> call_env \<Rightarrow> int \<Rightarrow> gostring list \<Rightarrow> node \<Rightarrow> RpcRequest" where
  "relay_request target env packetId args n =
     \<lparr>req_FromRouteId = n_routeId n, req_ToRouteId = target,
      req_RpcUid = GenerateRpcUid (env_nowMs env) (env_counter env), req_StartTimeMs = env_nowMs env,
      req_PacketId = packetId, req_MethodArgsJsonList = Some args\<rparr>"

definition await_remaining :: "int \<Rightarrow> int" where
  "await_remaining remaining = (if remaining \<le> 0 then 10 else remaining)"

definition relay_Call ::
  "gostring \<Rightarrow> call_env \<Rightarrow> int \<Rightarrow> gostring list \<Rightarrow> node \<Rightarrow> call_start \<times> node" where
  "relay_Call target env packetId args n0 =
     (case (if connected_node n0 then (None, n0) else env_await1 env n0) of
        (Some _, n) \<Rightarrow> (Returned [] (Some call_wait_error), n)
      | (None, n) \<Rightarrow>
     if target = n_routeId n then
       (case invokeLocal packetId args (n_stubs n) of (v, err) \<Rightarrow> (Returned v err, n))
     else
       let req = relay_request target env packetId args n;
           data = Marshal json_RpcRequest req;
           (future, relay) = register_new (req_RpcUid req) (n_relay n);
           n1 = n\<lparr>n_relay := relay\<rparr>
       in
         (case Send (env_ok1 env) target RouteMessageTypeRpcRequest data n1 of
            (None, n2) \<Rightarrow> (Waiting future (await_remaining (env_remaining2 env)), n2)
          | (Some err, n2) \<Rightarrow>
              if env_remaining1 env \<le> 0 then (Returned [] (Some err), n2)
              else
                (case env_await2 env n2 of
                   (Some _, n3) \<Rightarrow> (Returned [] (Some err), n3)
                 | (None, n3) \<Rightarrow>
                     (case Send (env_ok2 env) target RouteMessageTypeRpcRequest data n3 of
                        (Some err2, n4) \<Rightarrow> (Returned [] (Some err2), n4)
                      | (None, n4) \<Rightarrow> (Waiting future (await_remaining (env_remaining2 env)), n4)))))"

section \<open>The client as a sender\<close>

definition node_sent :: "node \<Rightarrow> byte list" where
  "node_sent n = (case c_conn (n_client n) of None \<Rightarrow> [] | Some c \<Rightarrow> n_out n c)"

definition conn_open :: "node \<Rightarrow> bool" where
  "conn_open n \<longleftrightarrow> (\<forall>c. c_conn (n_client n) = Some c \<longrightarrow> c \<notin> c_closed (n_client n))"

lemma lost_conn [simp]: "c_needConnect s \<Longrightarrow> c_conn (onConnectionLost s) = None"
  by (simp add: onConnectionLost_def startBackgroundReconnect_def)

lemma lost_open: "conn_open n \<Longrightarrow> conn_open (n\<lparr>n_client := onConnectionLost (n_client n)\<rparr>)"
  by (cases "c_needConnect (n_client n)") (simp_all add: conn_open_def, simp add: onConnectionLost_def)

lemma handleRegister_frame [simp]:
  "n_cfg (handleRegister msg n) = n_cfg n" "n_client (handleRegister msg n) = n_client n"
proof -
  have "\<exists>t. handleRegister msg n = n\<lparr>n_table := t\<rparr>"
  proof (cases "Data msg")
    case None
    then have "handleRegister msg n = n\<lparr>n_table := n_table n\<rparr>" by (simp add: handleRegister_def)
    then show ?thesis by blast
  next
    case (Some d)
    obtain nodes ok where "Unmarshal (decode_slice decode_RouteNode) None d = (nodes, ok)" by fastforce
    then have "handleRegister msg n = n\<lparr>n_table :=
        if ok then UpsertRouteNode (case nodes of None \<Rightarrow> [] | Some ns \<Rightarrow> ns) (n_table n) else n_table n\<rparr>"
      using Some by (simp add: handleRegister_def)
    then show ?thesis by blast
  qed
  then show "n_cfg (handleRegister msg n) = n_cfg n" "n_client (handleRegister msg n) = n_client n" by auto
qed

lemma handleRemoveOffline_frame [simp]:
  "n_cfg (handleRemoveOffline msg n) = n_cfg n" "n_client (handleRemoveOffline msg n) = n_client n"
proof -
  have "\<exists>t. handleRemoveOffline msg n = n\<lparr>n_table := t\<rparr>"
  proof (cases "Data msg")
    case None
    then have "handleRemoveOffline msg n = n\<lparr>n_table := n_table n\<rparr>" by (simp add: handleRemoveOffline_def)
    then show ?thesis by blast
  next
    case (Some d)
    obtain ids ok where "Unmarshal (decode_slice decode_string) None d = (ids, ok)" by fastforce
    then have "handleRemoveOffline msg n = n\<lparr>n_table :=
        if ok \<and> (case ids of None \<Rightarrow> [] | Some is \<Rightarrow> is) \<noteq> []
        then RemoveRouteNode (case ids of None \<Rightarrow> [] | Some is \<Rightarrow> is) (n_table n) else n_table n\<rparr>"
      using Some by (simp add: handleRemoveOffline_def Let_def)
    then show ?thesis by blast
  qed
  then show "n_cfg (handleRemoveOffline msg n) = n_cfg n" "n_client (handleRemoveOffline msg n) = n_client n"
    by auto
qed

lemma handleSystemError_cfg [simp]: "n_cfg (snd (handleSystemError msg n)) = n_cfg n"
  by (simp add: handleSystemError_def split: option.split)

lemma conn_open_cong: "n_client m = n_client n \<Longrightarrow> conn_open m = conn_open n"
  by (simp add: conn_open_def)

lemma handleSystemError_open: "conn_open n \<Longrightarrow> conn_open (snd (handleSystemError msg n))"
  by (simp add: handleSystemError_def lost_open split: option.split)

lemma handle_simple_frame:
  "n_cfg (snd (handle_simple msg t n)) = n_cfg n"
  "conn_open n \<Longrightarrow> conn_open (snd (handle_simple msg t n))"
  by (auto simp: handle_simple_def handleSystemError_open intro: conn_open_cong [THEN iffD2])

lemma write_conn_frame [simp]:
  "n_cfg (snd (write_conn ok c b n)) = n_cfg n" "n_client (snd (write_conn ok c b n)) = n_client n"
  "n_relay (snd (write_conn ok c b n)) = n_relay n" "n_stubs (snd (write_conn ok c b n)) = n_stubs n"
  "n_table (snd (write_conn ok c b n)) = n_table n"
  by (simp_all add: write_conn_def)

text \<open>A send to another node on a connected client.\<close>

lemma Send_with_remote:
  assumes "connected_node n" "to \<noteq> n_routeId n" "c_conn (n_client n) = Some c"
  shows "Send_with h ok to t d n =
    (let b = EncodeFrame (payload_of (client_message (n_routeId n) to t d)) in
     if ok \<and> c \<notin> c_closed (n_client n) then (None, n\<lparr>n_out := (n_out n)(c := n_out n c @ b)\<rparr>)
     else (Some ''write error'', n\<lparr>n_client := onConnectionLost (n_client n)\<rparr>))"
  using assms by (simp add: Send_with_def write_conn_def Let_def)

lemma Send_with_self:
  "connected_node n \<Longrightarrow> Send_with h ok (n_routeId n) t d n =
     (None, snd (h (client_message (n_routeId n) (n_routeId n) t d) t n))"
  by (simp add: Send_with_def Let_def)

lemma Send_with_offline: "\<not> connected_node n \<Longrightarrow> Send_with h ok to t d n = (Some not_connected_error, n)"
  by (simp add: Send_with_def)

lemma connected_conn: "connected_node n \<Longrightarrow> \<exists>c. c_conn (n_client n) = Some c"
  by (auto simp: connected_node_def IsConnected_def)

lemma Send_with_frame:
  assumes "\<And>msg m. n_cfg (snd (h msg t m)) = n_cfg m"
    and "\<And>msg m. conn_open m \<Longrightarrow> conn_open (snd (h msg t m))"
  shows "n_cfg (snd (Send_with h ok to t d n)) = n_cfg n"
    "conn_open n \<Longrightarrow> conn_open (snd (Send_with h ok to t d n))"
proof -
  consider "\<not> connected_node n" | "connected_node n" "to = n_routeId n"
    | c where "connected_node n" "to \<noteq> n_routeId n" "c_conn (n_client n) = Some c"
    using connected_conn by blast
  then have "n_cfg (snd (Send_with h ok to t d n)) = n_cfg n \<and>
      (conn_open n \<longrightarrow> conn_open (snd (Send_with h ok to t d n)))"
  proof cases
    case 3
    then show ?thesis
      by (simp add: Send_with_remote Let_def lost_open) (simp add: conn_open_def)
  qed (simp_all add: Send_with_offline Send_with_self assms)
  then show "n_cfg (snd (Send_with h ok to t d n)) = n_cfg n"
    "conn_open n \<Longrightarrow> conn_open (snd (Send_with h ok to t d n))" by simp_all
qed

lemma HandleRelayRpcRequest_state:
  "HandleRelayRpcRequest send m msg n = n \<or>
     (\<exists>to d. HandleRelayRpcRequest send m msg n = snd (send to RouteMessageTypeRpcResponse d n))"
  by (auto simp: HandleRelayRpcRequest_def Let_def split: option.split prod.split)

lemma handleMessage_frame:
  "n_cfg (snd (handleMessage ok msg t n)) = n_cfg n"
  "conn_open n \<Longrightarrow> conn_open (snd (handleMessage ok msg t n))"
proof -
  have "n_cfg (HandleRelayRpcRequest (Send_with handle_simple ok) m msg n) = n_cfg n \<and>
      (conn_open n \<longrightarrow> conn_open (HandleRelayRpcRequest (Send_with handle_simple ok) m msg n))" for m
    using HandleRelayRpcRequest_state [of "Send_with handle_simple ok" m msg n]
      Send_with_frame [where h = handle_simple, OF handle_simple_frame] by metis
  then show "n_cfg (snd (handleMessage ok msg t n)) = n_cfg n"
    "conn_open n \<Longrightarrow> conn_open (snd (handleMessage ok msg t n))"
    by (simp_all add: handleMessage_def handle_simple_frame)
qed

text \<open>Whatever handles the messages to oneself, the client is the sender that relayed calls need.\<close>

lemma Send_with_is_sender:
  assumes "\<And>ok msg t n. n_cfg (snd (h ok msg t n)) = n_cfg n"
    and "\<And>ok msg t n. conn_open n \<Longrightarrow> conn_open (snd (h ok msg t n))"
  shows "router_client_sender (\<lambda>ok. Send_with (h ok) ok) connected_node n_routeId node_sent conn_open"
proof
  fix ok to t d n n'
  show "\<not> connected_node n \<Longrightarrow> \<exists>e. Send_with (h ok) ok to t d n = (Some e, n)"
    by (simp add: Send_with_offline)
  show "conn_open n \<Longrightarrow> conn_open (snd (Send_with (h ok) ok to t d n))"
    by (rule Send_with_frame) (rule assms)+
  show "n_routeId (snd (Send_with (h ok) ok to t d n)) = n_routeId n"
    by (simp add: Send_with_frame assms)
  assume c: "connected_node n" and to: "to \<noteq> n_routeId n"
  obtain k where k: "c_conn (n_client n) = Some k" using connected_conn [OF c] by blast
  note remote = Send_with_remote [OF c to k, of "h True" True t d] Send_with_remote [OF c to k, of "h False" False t d]
  show "fst (Send_with (h False) False to t d n) \<noteq> None" by (simp add: remote Let_def)
  assume "conn_open n"
  then have "k \<notin> c_closed (n_client n)" using k by (simp add: conn_open_def)
  then show "fst (Send_with (h True) True to t d n) = None"
    and "Send_with (h True) True to t d n = (None, n') \<Longrightarrow>
      node_sent n' = node_sent n @ EncodeFrame (payload_of (client_message (n_routeId n) to t d)) \<and>
      connected_node n'"
    using k c by (auto simp: remote Let_def node_sent_def connected_node_def)
qed

interpretation link: router_client_sender Send connected_node n_routeId node_sent conn_open
  unfolding Send_def by (rule Send_with_is_sender) (simp_all add: handleMessage_frame)

interpretation callee: router_client_sender "\<lambda>ok. Send_with handle_simple ok"
    connected_node n_routeId node_sent conn_open
  by (rule Send_with_is_sender) (simp_all add: handle_simple_frame)

end
