(* ===== verification/ClientProps.thy ===== *)
theory ClientProps
  imports RouterClient ServerRouting
begin

text \<open>
  The client at work: its messages, its exchange with the router (the handshake, the notices, a
  relayed call from one node to another and back) and its waiting.
\<close>

section \<open>Messages of a client\<close>

definition payload_ok :: "byte list \<Rightarrow> bool" where
  "payload_ok p \<longleftrightarrow> int (length p) \<le> MaxFrameSize"

lemma known_message_type [simp]:
  "t \<in> {RouteMessageTypeHeartBeat, RouteMessageTypeMessageData, RouteMessageTypeRemoveRouteNode,
      RouteMessageTypeRpcRequest, RouteMessageTypeRpcResponse, RouteMessageTypeSystemError} \<Longrightarrow>
     known_type (Some t) = Some t"
  by (auto simp: known_type_def RouteMessageTypeFromOrdinal_def message_types)

lemma client_message_sel [simp]:
  "FromRouteId (client_message from to t d) = from" "ToRouteId (client_message from to t d) = to"
  "MessageType (client_message from to t d) = Some t" "Data (client_message from to t d) = Some d"
  by (simp_all add: client_message_def)

lemma client_message_decodes:
  assumes "payload_ok (payload_of (client_message from to t d))" "known_type (Some t) = Some t"
  shows "DecodeRouteMessagePayload (payload_of (client_message from to t d)) = Inr (client_message from to t d)"
proof -
  have "sendable (client_message from to t d)" using assms(1) by (simp add: sendable_def payload_ok_def)
  then have "fits_int32 (client_message from to t d)" by (rule sendable_fits)
  moreover have "as_received (client_message from to t d) = client_message from to t d"
    using assms(2) by (simp add: as_received_def)
  ultimately show ?thesis by (simp add: Decode_payload_of)
qed

section \<open>A relayed call\<close>

text \<open>The two payloads of a call from node \<open>a\<close> to node \<open>b\<close>.\<close>

definition request_payload :: "node \<Rightarrow> gostring \<Rightarrow> RpcRequest \<Rightarrow> byte list" where
  "request_payload a target req = payload_of
     (client_message (n_routeId a) target RouteMessageTypeRpcRequest (Marshal json_RpcRequest req))"

definition response_payload :: "node \<Rightarrow> gostring \<Rightarrow> RpcRequest \<Rightarrow> byte list" where
  "response_payload b caller req = payload_of
     (client_message (n_routeId b) caller RouteMessageTypeRpcResponse
        (Marshal json_RpcResponse (relay_response req (n_stubs b))))"

lemma relay_Call_sends:
  assumes "connected_node n" "conn_open n" "target \<noteq> n_routeId n" "env_ok1 env"
    and "req = relay_request target env packetId args n"
  shows "\<exists>n'. relay_Call target env packetId args n =
      (Waiting (fst (register_new (req_RpcUid req) (n_relay n))) (await_remaining (env_remaining2 env)), n') \<and>
    n_relay n' = snd (register_new (req_RpcUid req) (n_relay n)) \<and>
    node_sent n' = node_sent n @ EncodeFrame (request_payload n target req)"
proof -
  obtain f fm where fm: "register_new (req_RpcUid req) (n_relay n) = (f, fm)" by fastforce
  let ?n1 = "n\<lparr>n_relay := fm\<rparr>"
  obtain c where c: "c_conn (n_client n) = Some c" using connected_conn [OF assms(1)] by blast
  have n1: "connected_node ?n1" "target \<noteq> n_routeId ?n1" "c_conn (n_client ?n1) = Some c"
    "c \<notin> c_closed (n_client ?n1)"
    using assms(1-3) c by (simp_all add: connected_node_def conn_open_def)
  have "Send True target RouteMessageTypeRpcRequest (Marshal json_RpcRequest req) ?n1 =
      (None, ?n1\<lparr>n_out := (n_out n)(c := n_out n c @ EncodeFrame (request_payload n target req))\<rparr>)"
    unfolding Send_def Send_with_remote [OF n1(1-3)] using n1(4) by (simp add: Let_def request_payload_def)
  then show ?thesis
    using assms(1-4) c
    by (simp add: relay_Call_def assms(5) [symmetric] fm Let_def node_sent_def del: register_new_simps)
qed

lemma callee_answers_data:
  assumes "connected_node b" "conn_open b" "FromRouteId m \<noteq> n_routeId b"
    and "DecodeRouteMessagePayload p = Inr m" "MessageType m = Some RouteMessageTypeRpcRequest"
    and "Data m = Some d" "Unmarshal decode_RpcRequest zero_RpcRequest d = (req, True)"
  shows "node_sent (snd (readLoop_turn True (Inr p) b)) =
    node_sent b @ EncodeFrame (response_payload b (FromRouteId m) req)"
proof -
  have "snd (readLoop_turn True (Inr p) b) =
      HandleRelayRpcRequest (Send_with handle_simple True) (n_stubs b) m b"
    by (simp add: readLoop_turn_def handleMessage_def assms(4,5))
  then show ?thesis
    using callee.answer_written [OF assms(2,1,3,6,7)] by (simp add: response_payload_def)
qed

lemma callee_answers:
  assumes "connected_node b" "conn_open b" "caller \<noteq> n_routeId b" "RpcRequest_ok req"
    and "payload_ok p" "p = payload_of (client_message caller (n_routeId b) RouteMessageTypeRpcRequest
           (Marshal json_RpcRequest req))"
  shows "node_sent (snd (readLoop_turn True (Inr p) b)) =
    node_sent b @ EncodeFrame (response_payload b caller req)"
proof -
  have "DecodeRouteMessagePayload p = Inr (client_message caller (n_routeId b) RouteMessageTypeRpcRequest
      (Marshal json_RpcRequest req))"
    using client_message_decodes assms(5) unfolding assms(6) by simp
  from callee_answers_data [OF assms(1,2) _ this] assms(3,4) show ?thesis by (simp add: req.Unmarshal_Marshal)
qed

lemma caller_decided:
  assumes "payload_ok q" "RpcResponse_ok resp"
    and "q = payload_of (client_message from to RouteMessageTypeRpcResponse (Marshal json_RpcResponse resp))"
  shows "n_relay (snd (readLoop_turn ok (Inr q) a)) =
    complete (resp_RpcUid resp) (response_outcome resp) (n_relay a)"
proof -
  let ?m = "client_message from to RouteMessageTypeRpcResponse (Marshal json_RpcResponse resp)"
  have "DecodeRouteMessagePayload q = Inr ?m"
    using client_message_decodes assms(1) unfolding assms(3) by simp
  then show ?thesis
    using HandleRelayRpcResponse_complete [of ?m resp] assms(2)
    by (simp add: readLoop_turn_def handleMessage_def handle_simple_def message_types)
qed

lemma router_forwards:
  assumes "payload_ok p" "p = payload_of (client_message from to t d)"
    and "t \<in> {RouteMessageTypeRpcRequest, RouteMessageTypeRpcResponse}" "to \<noteq> []" "to \<noteq> ''debug-admin''"
    and "srv_sessions s to = Some u" "\<not> net_closed (srv_net s) (sess_Conn u)"
  shows "net_out (srv_net (handleConn_turn ks now c (Inr p) s)) (sess_Conn u) =
    net_out (srv_net s) (sess_Conn u) @ EncodeFrame p"
proof -
  have "known_type (Some t) = Some t" using assms(3) by (intro known_message_type) auto
  then have dec: "DecodeRouteMessagePayload p = Inr (client_message from to t d)"
    using client_message_decodes assms(1) unfolding assms(2) by blast
  have fwd: "forwarded (client_message from to t d)"
    using assms(3,5) by (auto simp: forwarded_def)
  show ?thesis
    using forward_turn [OF dec fwd, of ks now c s] assms(4,6,7)
    by (simp add: route_target_def conn_Write_out wire_def assms(2))
qed

text \<open>
  C6: a relayed call comes back. When caller and callee are connected and registered, the caller's
  \<open>Call\<close> registers its future and writes one frame; the router passes it to the callee's
  connection; the callee's read loop invokes the handler and writes one frame; the router passes
  it back; and the caller's read loop decides the future with exactly what the handler gave,
  value or error, whatever other calls were started and finished in between.
\<close>

theorem relayed_call:
  assumes "connected_node a" "conn_open a" "futures_ok (n_relay a)" "env_ok1 env"
    and "connected_node b" "conn_open b" "n_routeId b \<noteq> n_routeId a"
    and "req = relay_request (n_routeId b) env packetId args a" "RpcRequest_ok req"
    and "p = request_payload a (n_routeId b) req" "payload_ok p"
    and "q = response_payload b (n_routeId a) req" "payload_ok q"
    and "n_routeId a \<notin> {[], ''debug-admin''}" "n_routeId b \<notin> {[], ''debug-admin''}"
    and "srv_sessions s1 (n_routeId b) = Some tb" "\<not> net_closed (srv_net s1) (sess_Conn tb)"
    and "srv_sessions s2 (n_routeId a) = Some ta" "\<not> net_closed (srv_net s2) (sess_Conn ta)"
    and "relay_Call (n_routeId b) env packetId args a = (r, a1)"
    and "n_relay a2 = run_calls others (n_relay a1)" "req_RpcUid req \<notin> op_uid ` set others"
  shows "node_sent a1 = node_sent a @ EncodeFrame p \<and>
    net_out (srv_net (handleConn_turn ks1 t1 c1 (Inr p) s1)) (sess_Conn tb) =
      net_out (srv_net s1) (sess_Conn tb) @ EncodeFrame p \<and>
    node_sent (snd (readLoop_turn True (Inr p) b)) = node_sent b @ EncodeFrame q \<and>
    net_out (srv_net (handleConn_turn ks2 t2 c2 (Inr q) s2)) (sess_Conn ta) =
      net_out (srv_net s2) (sess_Conn ta) @ EncodeFrame q \<and>
    (\<exists>f timeout. r = Waiting f timeout \<and>
       outcome_of f (n_relay (snd (readLoop_turn ok (Inr q) a2))) =
         Some (invoke_outcome (Invoke packetId args (n_stubs b))))"
proof -
  let ?f = "fst (register_new (req_RpcUid req) (n_relay a))"
  obtain a' where call: "relay_Call (n_routeId b) env packetId args a =
      (Waiting ?f (await_remaining (env_remaining2 env)), a')"
    "n_relay a' = snd (register_new (req_RpcUid req) (n_relay a))"
    "node_sent a' = node_sent a @ EncodeFrame p"
    using relay_Call_sends [OF assms(1,2,7,4,8)] unfolding assms(10) by blast
  then have a1: "a1 = a'" "r = Waiting ?f (await_remaining (env_remaining2 env))"
    using assms(20) by simp_all
  let ?resp = "relay_response req (n_stubs b)"
  have decided: "n_relay (snd (readLoop_turn ok (Inr q) a2)) =
      run_calls (others @ OpFinish (req_RpcUid req) (response_outcome ?resp) # [])
        (snd (register_new (req_RpcUid req) (n_relay a)))"
    using caller_decided [OF assms(13), of ?resp, OF _ assms(12) [unfolded response_payload_def]]
      assms(9,21) a1(1) call(2)
    by (simp add: run_calls_def del: register_new_simps)
  have "outcome_of ?f (n_relay (snd (readLoop_turn ok (Inr q) a2))) = Some (response_outcome ?resp)"
    unfolding decided run_calls_def by (rule calls.first_completion [OF assms(3,22)])
  moreover have "response_outcome ?resp = invoke_outcome (Invoke packetId args (n_stubs b))"
    by (simp add: relay_response_outcome assms(8) relay_request_def rawToJsonArgs_def)
  moreover have "node_sent (snd (readLoop_turn True (Inr p) b)) = node_sent b @ EncodeFrame q"
    unfolding assms(12)
    by (rule callee_answers [OF assms(5,6) _ assms(9,11)])
      (use assms(7) in \<open>simp_all add: assms(10) request_payload_def\<close>)
  moreover have "net_out (srv_net (handleConn_turn ks1 t1 c1 (Inr p) s1)) (sess_Conn tb) =
      net_out (srv_net s1) (sess_Conn tb) @ EncodeFrame p"
    using router_forwards [OF assms(11) assms(10) [unfolded request_payload_def] _ _ _ assms(16,17)] assms(15)
    by simp
  moreover have "net_out (srv_net (handleConn_turn ks2 t2 c2 (Inr q) s2)) (sess_Conn ta) =
      net_out (srv_net s2) (sess_Conn ta) @ EncodeFrame q"
    using router_forwards [OF assms(13) assms(12) [unfolded response_payload_def] _ _ _ assms(18,19)] assms(14)
    by simp
  ultimately show ?thesis using a1 call(3) by auto
qed

text \<open>Node n asks node m, which answers 42; both are registered with the router of \<open>scene3\<close>.\<close>

definition sample_node_n :: "gostring \<Rightarrow> StubManager \<Rightarrow> node" where
  "sample_node_n k stubs =
     \<lparr>n_cfg = NewDefaultRouterClientConfig\<lparr>rcc_RouteId := k\<rparr>,
      n_client = new_client\<lparr>c_needConnect := True, c_isOpen := True, c_conn := Some 0, c_next := 1\<rparr>,
      n_out = \<lambda>_. [], n_stubs = stubs, n_relay = NewFutureManager, n_table = routeTableInstance\<rparr>"

definition answer_stubs :: StubManager where
  "answer_stubs = stubManagerInstance\<lparr>sm_initialized := True,
     sm_handlers := [7 \<mapsto> \<lambda>args. HReturn (GString ''42'') None]\<rparr>"

definition sample_env :: call_env where
  "sample_env = \<lparr>env_await1 = Pair None, env_ok1 = True, env_remaining1 = 5, env_await2 = Pair None,
     env_ok2 = True, env_remaining2 = 5, env_nowMs = 1000, env_counter = 1\<rparr>"

definition sample_req :: RpcRequest where
  "sample_req = relay_request ''m'' sample_env 7 [] (sample_node_n ''n'' stubManagerInstance)"

abbreviation sample_a where "sample_a \<equiv> sample_node_n ''n'' stubManagerInstance"
abbreviation sample_b where "sample_b \<equiv> sample_node_n ''m'' answer_stubs"

lemma sample_nodes: "connected_node (sample_node_n k st)" "conn_open (sample_node_n k st)"
  "n_routeId (sample_node_n k st) = k" "n_stubs (sample_node_n k st) = st"
  "n_relay (sample_node_n k st) = NewFutureManager"
  by (simp_all add: sample_node_n_def connected_node_def IsConnected_def conn_open_def new_client_def)

lemma sample_payloads: "payload_ok (request_payload sample_a ''m'' sample_req)"
  "payload_ok (response_payload sample_b ''n'' sample_req)"
proof -
  have "length (Marshal json_RpcRequest sample_req) < 1000"
    unfolding sample_req_def sample_node_n_def by code_simp
  then show "payload_ok (request_payload sample_a ''m'' sample_req)"
    by (simp add: payload_ok_def request_payload_def length_payload_of MaxFrameSize_def sample_nodes)
  have "length (Marshal json_RpcResponse (relay_response sample_req answer_stubs)) < 1000"
    unfolding sample_req_def sample_node_n_def answer_stubs_def by code_simp
  then show "payload_ok (response_payload sample_b ''n'' sample_req)"
    by (simp add: payload_ok_def response_payload_def length_payload_of MaxFrameSize_def sample_nodes)
qed

theorem relayed_call_witness:
  "outcome_of 0 (n_relay (snd (readLoop_turn True (Inr (response_payload sample_b ''n'' sample_req))
     (snd (relay_Call ''m'' sample_env 7 [] sample_a))))) = Some (Done ''42'')"
proof -
  let ?call = "relay_Call ''m'' sample_env 7 [] sample_a"
  have call: "relay_Call (n_routeId sample_b) sample_env 7 [] sample_a = (fst ?call, snd ?call)"
    by (simp add: sample_nodes)
  have req: "sample_req = relay_request (n_routeId sample_b) sample_env 7 [] sample_a"
    by (simp add: sample_req_def sample_nodes)
  have ok: "RpcRequest_ok sample_req"
    by (simp add: RpcRequest_ok_def sample_req_def relay_request_def sample_env_def int64_range_def)
  have run: "n_relay (snd ?call) = run_calls [] (n_relay (snd ?call))" by (simp add: run_calls_def)
  have env: "env_ok1 sample_env" by (simp add: sample_env_def)
  have inv: "invoke_outcome (Invoke 7 [] answer_stubs) = Done ''42''"
    by (simp add: invoke_outcome_def Invoke_def GetHandler_def answer_stubs_def toJsonOrString_def)
  obtain f timeout where f: "fst ?call = Waiting f timeout"
      "outcome_of f (n_relay (snd (readLoop_turn True (Inr (response_payload sample_b ''n'' sample_req))
         (snd ?call)))) = Some (Done ''42'')"
    using relayed_call [where ?s1.0 = scene3 and ?s2.0 = scene3 and ok = True
          and ?ks1.0 = "[]" and ?t1.0 = 0 and ?c1.0 = 7 and ?ks2.0 = "[]" and ?t2.0 = 0 and ?c2.0 = 8
          and tb = "NewRouterSession ''m'' 8 scene_info 6" and ta = "NewRouterSession ''n'' 7 scene_info 5",
        OF sample_nodes(1,2) _ env sample_nodes(1,2) _ req ok refl _ refl _ _ _ _ _ _ _ call run]
      sample_payloads inv
    by (auto simp: sample_nodes scene3_state scene0_ok futures_ok_new)
  moreover have "f = 0"
    using relay_Call_sends [of sample_a "''m''" sample_env _ 7 "[]", OF sample_nodes(1,2) _ env refl] f(1)
    by (auto simp: sample_nodes NewFutureManager_def)
  ultimately show ?thesis by simp
qed


section \<open>Waiting and back-off\<close>

lemma await_connected_result:
  assumes "clock_ok now deadline"
  shows "\<exists>r. await_connected conn stop now deadline i = Some r \<and>
    (r = None \<longleftrightarrow> (\<exists>k \<ge> i. conn k \<and> (\<forall>j. i \<le> j \<and> j < k \<longrightarrow> now j < deadline \<and> \<not> stop j)))"
    (is "\<exists>r. ?run i = Some r \<and> (r = None \<longleftrightarrow> ?found i)")
proof (induction "nat (deadline - now i)" arbitrary: i rule: less_induct)
  case less
  note eq = await_connected.simps [of conn stop now deadline i]
  consider "conn i" | "\<not> conn i" "deadline \<le> now i" | "\<not> conn i" "now i < deadline" "stop i"
    | "\<not> conn i" "now i < deadline" "\<not> stop i" by linarith
  then show ?case
  proof cases
    case 1
    then have "?found i" by auto
    with 1 show ?thesis by (simp add: eq)
  next
    case 4
    have "now i + await_wait (deadline - now i) \<le> now (i + 1)"
      using assms 4(2) by (simp add: clock_ok_def)
    then have "nat (deadline - now (i + 1)) < nat (deadline - now i)"
      using 4(2) by (auto simp: await_wait_def split: if_splits)
    from less [OF this] obtain r where r: "?run (i + 1) = Some r" "r = None \<longleftrightarrow> ?found (i + 1)" by (elim exE conjE)
    have "?found (i + 1) \<longleftrightarrow> ?found i"
    proof
      assume "?found (i + 1)"
      then obtain k where k: "k \<ge> i + 1" "conn k" "\<forall>j. i + 1 \<le> j \<and> j < k \<longrightarrow> now j < deadline \<and> \<not> stop j"
        by blast
      have "now j < deadline \<and> \<not> stop j" if "i \<le> j" "j < k" for j
        using k(3) 4 that by (cases "j = i") auto
      then show "?found i" using k(1,2) by (intro exI [of _ k]) auto
    next
      assume "?found i"
      then obtain k where k: "k \<ge> i" "conn k" "\<forall>j. i \<le> j \<and> j < k \<longrightarrow> now j < deadline \<and> \<not> stop j"
        by blast
      have "k \<noteq> i" using k(2) 4(1) by blast
      then show "?found (i + 1)" using k by (intro exI [of _ k]) auto
    qed
    with r 4 show ?thesis by (simp add: eq)
  next
    case 2
    then have "\<not> ?found i" by (auto simp: le_less)
    with 2 show ?thesis by (simp add: eq)
  next
    case 3
    then have "\<not> ?found i" by (auto simp: le_less)
    with 3 show ?thesis by (simp add: eq)
  qed
qed

text \<open>
  C30: \<open>AwaitConnected\<close> always returns, as long as a wait takes at least its time. It reports success
  exactly when the client was connected at once, or was started and a look finds it connected
  before any earlier look was past the deadline or found the client shut down.
\<close>

theorem AwaitConnected_returns:
  assumes "deadline = start + (if timeout \<le> 0 then 10 * 1000000000 else timeout)" "clock_ok now deadline"
  shows "\<exists>r. AwaitConnected conn stop now start timeout n = Some r \<and>
    (r = None \<longleftrightarrow> connected_node n \<or> c_needConnect (n_client n) \<and>
       (\<exists>k. conn k \<and> (\<forall>j < k. now j < deadline \<and> \<not> stop j)))"
  using await_connected_result [OF assms(2), of conn stop 0]
  by (auto simp: AwaitConnected_def Let_def assms(1))

theorem AwaitConnected_returns_witness:
  "\<exists>r. AwaitConnected (\<lambda>_. False) (\<lambda>_. False) (\<lambda>i. int i * 100000000) 0 5 sample_a = Some r"
proof -
  have "clock_ok (\<lambda>i. int i * 100000000) (0 + (if (5 :: int) \<le> 0 then 10 * 1000000000 else 5))"
    by (auto simp: clock_ok_def await_wait_def)
  from AwaitConnected_returns [OF refl this] show ?thesis by blast
qed

lemma sint_double:
  assumes "0 < sint (d :: 64 word)" "sint d < 2 ^ 62"
  shows "sint (d * 2) = 2 * sint d"
proof -
  have "sint (2 :: 64 word) = 2" by simp
  then show ?thesis using assms by (simp add: sint_word_ariths signed_take_bit_int_eq_self mult.commute)
qed

lemma delay_loop_value:
  "0 < sint d \<Longrightarrow> sint d < 2 ^ 62 \<Longrightarrow> sint (delay_loop k d) = min (sint d * 2 ^ k) 60000000000"
proof (induction k arbitrary: d)
  case 0
  then show ?case by (simp add: seconds60_def)
next
  case (Suc k)
  note d2 = sint_double [OF Suc.prems]
  show ?case
  proof (cases "2 * sint d \<ge> 60000000000")
    case True
    have "sint d * 2 \<le> sint d * 2 ^ Suc k" using Suc.prems(1) by simp
    with True have "min (sint d * 2 ^ Suc k) 60000000000 = 60000000000" by linarith
    with True d2 show ?thesis by (simp add: Let_def seconds60_def)
  next
    case False
    then show ?thesis using Suc.IH [of "d * 2"] d2 Suc.prems(1) by (simp add: Let_def seconds60_def mult.assoc)
  qed
qed

text \<open>
  C31: the back-off doubles the configured interval with each failed attempt and stays at one
  minute from then on, without overflow for intervals below 2\<open>^\<close>42 ms; only the first delay is the
  interval itself, even if that is longer than a minute.
\<close>

theorem reconnect_backoff:
  assumes "base = (if rcc_ReconnectIntervalMs cfg \<le> 0 then 10000 else rcc_ReconnectIntervalMs cfg)"
    and "base < 2 ^ 42"
  shows "sint (nextReconnectDelay cfg attempt) =
    (if attempt \<le> 1 then base else min (base * 2 ^ (attempt - 1)) 60000) * 1000000"
proof -
  have pos: "0 < base" by (simp add: assms(1))
  have range: "base * 1000000 < 2 ^ 62" using assms(2) by simp
  have "(of_int base * 1000000 :: 64 word) = of_int (base * 1000000)" by simp
  then have b: "sint (of_int base * 1000000 :: 64 word) = base * 1000000"
    using pos range by (simp only: signed_of_int) (simp add: signed_take_bit_int_eq_self)
  show ?thesis
  proof (cases "attempt \<le> 1")
    case True
    then show ?thesis using b by (simp add: nextReconnectDelay_def assms(1) Let_def)
  next
    case False
    have "sint (nextReconnectDelay cfg attempt) = sint (delay_loop (attempt - 1) (of_int base * 1000000))"
      using False by (simp add: nextReconnectDelay_def assms(1) Let_def)
    also have "\<dots> = min (base * 1000000 * 2 ^ (attempt - 1)) 60000000000"
      using delay_loop_value [of "of_int base * 1000000" "attempt - 1"] b pos range by simp
    finally show ?thesis using False by (simp add: min_def)
  qed
qed

theorem reconnect_backoff_witness:
  "sint (nextReconnectDelay zero_RouterClientConfig 3) = 40000 * 1000000"
  using reconnect_backoff [of 10000 zero_RouterClientConfig 3] by (simp add: zero_RouterClientConfig_def)


section \<open>The handshake\<close>

lemma known_nodes:
  assumes "distinct (List.map node_RouterId nodes)"
  shows "rt_nodes (UpsertRouteNode nodes t) k =
    (case find (\<lambda>n. node_RouterId n = k) nodes of Some n \<Rightarrow> Some n | None \<Rightarrow> rt_nodes t k)"
proof -
  have "map_of (rev (List.map (\<lambda>n. (node_RouterId n, n)) nodes)) k = find (\<lambda>n. node_RouterId n = k) nodes"
  proof -
    have "map_of (rev (List.map (\<lambda>n. (node_RouterId n, n)) nodes)) = map_of (List.map (\<lambda>n. (node_RouterId n, n)) nodes)"
      using assms by (subst map_of_inject_set) (simp_all add: comp_def rev_map [symmetric])
    moreover have "map_of (List.map (\<lambda>n. (node_RouterId n, n)) nodes) k = find (\<lambda>n. node_RouterId n = k) nodes"
      by (induction nodes) auto
    ultimately show ?thesis by simp
  qed
  then show ?thesis by (simp add: UpsertRouteNode_nodes map_add_def)
qed

lemma find_route_node:
  assumes "sessions_ok m" "enumerates ks m"
  shows "find (\<lambda>n. node_RouterId n = k) (GetAllRouteNodeList ks m) = map_option node_of (m k)"
proof -
  let ?l = "GetAllRouteNodeList ks m"
  have ids: "t \<in> ran m \<Longrightarrow> m (sess_RouterId t) = Some t" for t
    using sessions_okD [OF assms(1)] by (auto simp: ran_def)
  show ?thesis
  proof (cases "m k")
    case None
    then have "\<not> (\<exists>n \<in> set ?l. node_RouterId n = k)"
      using ids by (force simp: route_node_list(2) [OF assms] node_of_def)
    with None show ?thesis by (simp add: find_None_iff)
  next
    case (Some t)
    then have t: "node_of t \<in> set ?l" "node_RouterId (node_of t) = k"
      using sessions_okD [OF assms(1)] by (auto simp: route_node_list(2) [OF assms] node_of_def ran_def)
    then obtain n where n: "find (\<lambda>n. node_RouterId n = k) ?l = Some n"
      by (cases "find (\<lambda>n. node_RouterId n = k) ?l") (auto simp: find_None_iff)
    then have "n \<in> set ?l" "node_RouterId n = k" by (auto simp: find_Some_iff)
    moreover have "inj_on node_RouterId (set ?l)"
      using route_node_list(1) [OF assms] assms(2) distinct_map [of node_RouterId ?l]
      by (simp add: enumerates_def)
    ultimately show ?thesis using n t Some by (auto dest: inj_onD)
  qed
qed

lemma heartbeat_message_eq:
  "heartbeat_message ks n = client_message (n_routeId n) [] RouteMessageTypeHeartBeat
     (Marshal json_RpcServerInfo (heartbeat_info ks n))"
  by (simp add: heartbeat_message_def client_message_def)

lemma table_read:
  assumes "sessions_ok m" "enumerates ks m" "MessageType msg = Some RouteMessageTypeHeartBeat"
    and "payload_ok (payload_of (route_table_message msg (GetAllRouteNodeList ks m)))"
  shows "rt_nodes (n_table (snd (readLoop_turn ok
      (Inr (payload_of (route_table_message msg (GetAllRouteNodeList ks m)))) n))) =
    (\<lambda>k. case m k of Some t \<Rightarrow> Some (node_of t) | None \<Rightarrow> rt_nodes (n_table n) k)"
proof -
  let ?l = "GetAllRouteNodeList ks m"
  have reply: "route_table_message msg ?l = client_message (FromRouteId msg) (FromRouteId msg)
      RouteMessageTypeHeartBeat (Marshal (enc_slice json_RouteNode) (Some ?l))"
    using assms(3) by (simp add: route_table_message_def client_message_def)
  have "DecodeRouteMessagePayload (payload_of (route_table_message msg ?l)) = Inr (route_table_message msg ?l)"
    using client_message_decodes assms(4) unfolding reply by simp
  then have "n_table (snd (readLoop_turn ok (Inr (payload_of (route_table_message msg ?l))) n)) =
      UpsertRouteNode ?l (n_table n)"
    by (simp add: readLoop_turn_def handleMessage_def handle_simple_def handleRegister_def message_types
        reply route_table_read [OF assms(1,2)])
  moreover have "distinct (List.map node_RouterId ?l)"
    using assms(2) by (simp add: route_node_list(1) [OF assms(1,2)] enumerates_def)
  ultimately show ?thesis
    by (simp add: known_nodes find_route_node [OF assms(1,2)] fun_eq_iff split: option.split)
qed

text \<open>
  C15: the handshake. A connected client writes its heartbeat as one frame; the router registers the
  connection under its id with the address and stubs it announced, and answers with one frame;
  the client that reads it knows every node with a session, itself included, by the address
  that node announced. Nodes it knew before and that have no session are kept.
\<close>

theorem handshake:
  assumes "connected_node n" "conn_open n" "RpcServerInfo_ok (heartbeat_info ks n)"
    and "p = payload_of (heartbeat_message ks n)" "payload_ok p"
    and "server_ok s" "srv_sessions s (n_routeId n) = None" "\<not> net_closed (srv_net s) c"
    and "s' = handleConn_turn ks' now c (Inr p) s" "enumerates ks' (srv_sessions s')"
    and "q = payload_of (route_table_message (heartbeat_message ks n) (GetAllRouteNodeList ks' (srv_sessions s')))"
    and "payload_ok q"
  shows "fst (sendHeartbeat True ks n) \<and>
    node_sent (snd (sendHeartbeat True ks n)) = node_sent n @ EncodeFrame p \<and>
    srv_sessions s' = (srv_sessions s)(n_routeId n \<mapsto> NewRouterSession (n_routeId n) c (heartbeat_info ks n) now) \<and>
    net_out (srv_net s') c = net_out (srv_net s) c @ EncodeFrame q \<and>
    rt_nodes (n_table (snd (readLoop_turn ok (Inr q) n'))) =
      (\<lambda>k. case srv_sessions s' k of Some t \<Rightarrow> Some (node_of t) | None \<Rightarrow> rt_nodes (n_table n') k)"
proof -
  obtain i where i: "c_conn (n_client n) = Some i" using connected_conn [OF assms(1)] by blast
  then have "i \<notin> c_closed (n_client n)" using assms(2) by (simp add: conn_open_def)
  then have send: "sendHeartbeat True ks n = (True, n\<lparr>n_out := (n_out n)(i := n_out n i @ EncodeFrame p)\<rparr>)"
    by (simp add: sendHeartbeat_def i write_conn_def assms(4))
  have "DecodeRouteMessagePayload p = Inr (heartbeat_message ks n)"
    using client_message_decodes assms(5) unfolding assms(4) heartbeat_message_eq by simp
  then have hello: "says_hello p (n_routeId n) (heartbeat_info ks n) (heartbeat_message ks n)"
    using assms(3) by (simp add: says_hello_def heartbeat_message_def info.Unmarshal_Marshal)
  note turn = heartbeat_new [OF hello assms(7), of ks' now c, folded assms(9)]
  have m: "srv_sessions s' = (srv_sessions s)(n_routeId n \<mapsto>
      NewRouterSession (n_routeId n) c (heartbeat_info ks n) now)"
    by (simp add: turn)
  have ok: "sessions_ok (srv_sessions s')"
    using assms(3) server_okD(1) [OF assms(6)] by (simp add: m sessions_ok_update)
  have "net_out (srv_net s') c = net_out (srv_net s) c @ EncodeFrame q"
    using assms(8) unfolding assms(11) m by (simp add: turn conn_Write_out wire_def)
  moreover have "MessageType (heartbeat_message ks n) = Some RouteMessageTypeHeartBeat"
    by (simp add: heartbeat_message_def)
  ultimately show ?thesis
    using send i m table_read [OF ok assms(10), of "heartbeat_message ks n", folded assms(11), OF _ assms(12)]
    by (simp add: node_sent_def)
qed


lemma sample_hello: "RpcServerInfo_ok (heartbeat_info [] sample_a)"
  "length (Marshal json_RpcServerInfo (heartbeat_info [] sample_a)) < 1000"
  "length (Marshal (enc_slice json_RouteNode) (Some (GetAllRouteNodeList [''n'']
     [''n'' \<mapsto> NewRouterSession ''n'' 7 (heartbeat_info [] sample_a) 5]))) < 1000"
proof -
  have info: "heartbeat_info [] sample_a = \<lparr>info_Host = [], info_Port = 0, info_Stubs = Some []\<rparr>"
    unfolding sample_node_n_def by code_simp
  show "RpcServerInfo_ok (heartbeat_info [] sample_a)"
    by (simp add: info RpcServerInfo_ok_def slice_ok_def int64_range_def)
  show "length (Marshal json_RpcServerInfo (heartbeat_info [] sample_a)) < 1000"
    unfolding info by code_simp
  show "length (Marshal (enc_slice json_RouteNode) (Some (GetAllRouteNodeList [''n'']
     [''n'' \<mapsto> NewRouterSession ''n'' 7 (heartbeat_info [] sample_a) 5]))) < 1000"
    unfolding info by code_simp
qed

theorem handshake_witness:
  "rt_nodes (n_table (snd (readLoop_turn True (Inr (payload_of (route_table_message
       (heartbeat_message [] sample_a) (GetAllRouteNodeList [''n''] (srv_sessions
         (handleConn_turn [''n''] 5 7 (Inr (payload_of (heartbeat_message [] sample_a))) scene0))))))
     sample_a))) ''n'' = Some \<lparr>node_RouterId = ''n'', node_HostForRpc = [], node_PortForRpc = 0\<rparr>"
proof -
  let ?p = "payload_of (heartbeat_message [] sample_a)"
  let ?s = "handleConn_turn [''n''] 5 7 (Inr ?p) scene0"
  have p: "payload_ok ?p"
    using sample_hello(2)
    by (simp add: payload_ok_def heartbeat_message_def length_payload_of MaxFrameSize_def sample_nodes)
  have "DecodeRouteMessagePayload ?p = Inr (heartbeat_message [] sample_a)"
    using client_message_decodes p unfolding heartbeat_message_eq by simp
  then have "says_hello ?p ''n'' (heartbeat_info [] sample_a) (heartbeat_message [] sample_a)"
    using sample_hello(1) by (simp add: says_hello_def heartbeat_message_def info.Unmarshal_Marshal sample_nodes)
  then have m: "srv_sessions ?s = [''n'' \<mapsto> NewRouterSession ''n'' 7 (heartbeat_info [] sample_a) 5]"
    by (subst heartbeat_new) (simp_all add: scene0_ok)
  have q: "payload_ok (payload_of (route_table_message (heartbeat_message [] sample_a)
      (GetAllRouteNodeList [''n''] (srv_sessions ?s))))"
    unfolding m using sample_hello(3)
    by (simp add: payload_ok_def route_table_message_def heartbeat_message_def length_payload_of
        MaxFrameSize_def sample_nodes)
  have en: "enumerates [''n''] (srv_sessions ?s)" by (simp add: m enumerates_def)
  have new: "srv_sessions scene0 (n_routeId sample_a) = None" by (simp add: scene0_ok)
  have "rt_nodes (n_table (snd (readLoop_turn True (Inr (payload_of (route_table_message
       (heartbeat_message [] sample_a) (GetAllRouteNodeList [''n''] (srv_sessions ?s))))) sample_a))) =
      (\<lambda>k. case srv_sessions ?s k of Some t \<Rightarrow> Some (node_of t) | None \<Rightarrow> rt_nodes (n_table sample_a) k)"
    using handshake [OF sample_nodes(1,2) sample_hello(1) refl p scene0_ok(1) new scene0_ok(5) refl en refl q,
        where n' = sample_a and ok = True] by blast
  then show ?thesis
    by (simp only: m) (simp add: node_of_def NewRouterSession_def heartbeat_info_def is_direct_def EqualFold_def
        ToLower_def lower_char_def sample_node_n_def NewDefaultRouterClientConfig_def)
qed

section \<open>Notices of the router\<close>

lemma conflict_recognised: "isRouterIDConflictError (conflict_error k)"
proof -
  have "Contains (conflict_error k) ''RouterId''"
    unfolding Contains_iff conflict_error_def by (rule exI [of _ "[]"]) simp
  moreover have "Contains (conflict_error k) exists_bytes"
    unfolding Contains_iff conflict_error_def
    by (rule exI [of _ "''RouterId '' @ [CHR 0x27] @ k @ [CHR 0x27] @ '' ''"], unfold append_assoc, rule exI, rule refl)
  ultimately show ?thesis by (simp add: isRouterIDConflictError_def exists_bytes_def)
qed


text \<open>
  A client refused for an id conflict is not lost: its read loop recognises the router's message,
  drops the connection and ends, and exactly one background reconnect runs from then on. Any
  other node that is told of a departure forgets that node, and only that one, and closes the
  direct connection it had to it.
\<close>

theorem notices_understood:
  assumes "payload_ok (payload_of (conflict_reply k))" "payload_ok (payload_of (remove_message [k] u))"
    and "c_needConnect (n_client n)"
    and "turn = readLoop_turn ok (Inr (payload_of (conflict_reply k))) n"
    and "m = snd (readLoop_turn ok (Inr (payload_of (remove_message [k] u))) n)"
  shows "\<not> fst turn \<and> \<not> connected_node (snd turn) \<and> c_conn (n_client (snd turn)) = None \<and>
    c_reconnectAttempt (n_client (snd turn)) \<and>
    c_threads (n_client (snd turn)) =
      c_threads (n_client n) @ (if c_reconnectAttempt (n_client n) then [] else [RecTop]) \<and>
    n_client m = n_client n \<and> rt_nodes (n_table m) = (rt_nodes (n_table n))(k := None) \<and>
    rt_rpcClients (n_table m) k = None \<and>
    (\<forall>i. rt_rpcClients (n_table n) k = Some i \<and> dc_conn (rt_store (n_table n) i) = DialOpen \<longrightarrow>
       dc_conn (rt_store (n_table m) i) = DialClosed)"
proof -
  have reply: "conflict_reply k = client_message ''server'' k RouteMessageTypeSystemError (conflict_error k)"
    by (simp add: conflict_reply_def client_message_def)
  have "DecodeRouteMessagePayload (payload_of (conflict_reply k)) = Inr (conflict_reply k)"
    using client_message_decodes assms(1) unfolding reply by simp
  then have turn: "turn = (False, n\<lparr>n_client := onConnectionLost (n_client n)\<rparr>)"
    by (simp add: assms(4) readLoop_turn_def handleMessage_def handle_simple_def handleSystemError_def
        message_types reply conflict_recognised)
  have lost: "\<not> connected_node (snd turn) \<and> c_conn (n_client (snd turn)) = None \<and>
      c_reconnectAttempt (n_client (snd turn)) \<and> c_threads (n_client (snd turn)) =
        c_threads (n_client n) @ (if c_reconnectAttempt (n_client n) then [] else [RecTop])"
    using assms(3) by (simp add: turn onConnectionLost_def startBackgroundReconnect_def connected_node_def
        IsConnected_def)
  have notice: "remove_message [k] u = client_message (sess_RouterId u) (sess_RouterId u)
      RouteMessageTypeRemoveRouteNode (Marshal (enc_slice JStr) (Some [k]))"
    by (simp add: remove_message_def client_message_def)
  have "DecodeRouteMessagePayload (payload_of (remove_message [k] u)) = Inr (remove_message [k] u)"
    using client_message_decodes assms(2) unfolding notice by simp
  then have "m = n\<lparr>n_table := remove_node k (n_table n)\<rparr>"
    by (simp add: assms(5) readLoop_turn_def handleMessage_def handle_simple_def handleRemoveOffline_def
        message_types notice strs.Unmarshal_Marshal slice_ok_def RemoveRouteNode_def)
  then show ?thesis
    using lost turn
    by (auto simp: remove_node_nodes remove_node_def Let_def DirectClient_Close_def split: option.split)
qed

theorem notices_understood_witness:
  "\<not> fst (readLoop_turn True (Inr (payload_of (conflict_reply ''n''))) sample_a)"
proof -
  have "payload_ok (payload_of (conflict_reply ''n''))"
    by (simp add: payload_ok_def length_payload_of conflict_reply_def conflict_error_def exists_bytes_def MaxFrameSize_def)
  moreover have "length (Marshal (enc_slice JStr) (Some [''m''])) < 1000" by code_simp
  then have "payload_ok (payload_of (remove_message [''m''] (NewRouterSession ''n'' 7 scene_info 5)))"
    by (simp add: payload_ok_def length_payload_of remove_message_def MaxFrameSize_def NewRouterSession_def)
  moreover have "length (Marshal (enc_slice JStr) (Some [''n''])) < 1000" by code_simp
  then have "payload_ok (payload_of (remove_message [''n''] (NewRouterSession ''n'' 7 scene_info 5)))"
    by (simp add: payload_ok_def length_payload_of remove_message_def MaxFrameSize_def NewRouterSession_def)
  moreover have "c_needConnect (n_client sample_a)" by (simp add: sample_node_n_def)
  ultimately show ?thesis using notices_understood by blast
qed

section \<open>Modes\<close>

text \<open>
  A mode that is neither relay nor direct passes the configuration check and leaves the node half
  in each: it starts no RPC server and announces no address, as in relay mode, but it calls
  others directly.
\<close>

theorem unknown_mode:
  assumes "Check cfg = (None, cfg')" "\<not> EqualFold (rcc_RpcMode cfg') ''direct''"
    and "\<not> EqualFold (rcc_RpcMode cfg') ''relay''"
    and "NewClientByConfig cfg' stubs relay table = Some n" "rt_nodes (n_table n) k = Some node"
    and "rt_rpcClients (n_table n) k = None"
  shows "runRpcServer cfg' = None \<and> info_Host (heartbeat_info ks n) = [] \<and> info_Port (heartbeat_info ks n) = 0 \<and>
    fst (GetRpcServiceProvider k (n_table n)) = Inr (DirectProvider (rt_next (n_table n)))"
proof -
  have "rcc_RpcMode cfg' \<noteq> []" using assms(1) by (auto simp: Check_None with_defaults_def)
  then have "rt_rpcMode (n_table n) = rcc_RpcMode cfg'" "n_cfg n = cfg'"
    using assms(4) by (auto simp: NewClientByConfig_def SetRouterClient_def SetRpcMode_def split: option.splits)
  then show ?thesis
    using assms(2,3,5,6)
    by (simp add: runRpcServer_def heartbeat_info_def is_direct_def GetRpcServiceProvider_def GetOrCreateRpcClient_def)
qed


theorem unknown_mode_witness:
  "runRpcServer (sample_client_config\<lparr>rcc_RpcMode := ''mesh'', rcc_ReconnectIntervalMs := 5\<rparr>) = None"
proof -
  let ?cfg = "sample_client_config\<lparr>rcc_RpcMode := ''mesh'', rcc_ReconnectIntervalMs := 5\<rparr>"
  let ?table = "routeTableInstance\<lparr>rt_nodes := [''m'' \<mapsto> zero_RouteNode]\<rparr>"
  have no: "\<not> EqualFold ''mesh'' ''direct''" "\<not> EqualFold ''mesh'' ''relay''"
    by (simp_all add: EqualFold_def ToLower_def lower_char_def)
  have check: "Check ?cfg = (None, ?cfg)"
    using no by (simp add: Check_None sample_client_config_def NewDefaultRouterClientConfig_def
        zero_RouterClientConfig_def TrimSpace_letters with_defaults_def)
  obtain n where n: "NewClientByConfig ?cfg stubManagerInstance NewFutureManager ?table = Some n"
      "rt_nodes (n_table n) ''m'' = Some zero_RouteNode" "rt_rpcClients (n_table n) ''m'' = None"
    by (simp add: NewClientByConfig_def SetRouteId_def SetRouterClient_def SetRpcMode_def
        routeTableInstance_def)
  from unknown_mode [OF check _ _ n] no show ?thesis by simp
qed

end
