(* ===== verification/HttpProps.thy ===== *)
theory HttpProps
  imports HttpMonitor ClientProps
begin

text \<open>
  What the console guarantees: who may use it, what a request can change, what it shows of the
  router's state and its logs, and that a debug call comes back.
\<close>

section \<open>Dispatch\<close>

lemma route_paths:
  "List.map fst routes =
     [''/api/auth/login'', ''/api/auth/refresh'', ''/api/auth/validate'', ''/api/auth/logout'',
      ''/api/status'', ''/api/metrics'', ''/api/routers'', ''/api/connections'', ''/api/rpc-stats'',
      ''/api/rpc/router-ranking'', ''/api/message-stats'', ''/api/monitor-stats'', ''/api/viewers'',
      ''/api/logs'', ''/api/logs/export'', ''/api/system/settings'', ''/api/system/admin-password'',
      ''/api/debug/validate-route-id'', ''/api/debug/available-routes'', ''/api/debug/send-rpc'',
      ''/api/debug/rpc-result'', ''/api/debug/rpc-stubs'']"
  "List.map fst protected_routes = drop 4 (List.map fst routes)"
  by (simp_all add: routes_def auth_routes_def protected_routes_def)

lemma routes_clean:
  "list_all (\<lambda>p. cleanPath p = p) (''/'' # ''/index.html'' # List.map fst routes)"
  "distinct (''/'' # ''/index.html'' # List.map fst routes)"
  "list_all (\<lambda>p. \<not> HasPrefix p ''/api/auth/'') (List.map fst protected_routes)"
  unfolding route_paths by code_simp+

abbreviation pages :: "gostring list" where "pages \<equiv> [''/'', ''/index.html'']"

lemma path_facts:
  "p \<in> set pages \<Longrightarrow> cleanPath p = p" "p \<in> set pages \<Longrightarrow> p \<notin> fst ` set routes"
  "p \<in> fst ` set routes \<Longrightarrow> cleanPath p = p"
  "p \<in> fst ` set protected_routes \<Longrightarrow> \<not> HasPrefix p ''/api/auth/''"
  "p \<in> fst ` set protected_routes \<Longrightarrow> p \<in> fst ` set routes"
  "p \<in> fst ` set auth_routes \<Longrightarrow> p \<in> fst ` set routes"
  "p \<in> fst ` set auth_routes \<Longrightarrow> p \<notin> fst ` set protected_routes"
proof -
  show "p \<in> set pages \<Longrightarrow> cleanPath p = p" using routes_clean(1) by auto
  show "p \<in> set pages \<Longrightarrow> p \<notin> fst ` set routes"
    using routes_clean(2) by (auto simp del: set_map simp flip: set_map)
  show "p \<in> fst ` set routes \<Longrightarrow> cleanPath p = p" using routes_clean(1) by (auto simp: list_all_iff)
  show "p \<in> fst ` set protected_routes \<Longrightarrow> \<not> HasPrefix p ''/api/auth/''"
    using routes_clean(3) by (auto simp: list_all_iff)
  show "p \<in> fst ` set protected_routes \<Longrightarrow> p \<in> fst ` set routes" by (force simp: routes_def)
  show "p \<in> fst ` set auth_routes \<Longrightarrow> p \<in> fst ` set routes" by (force simp: routes_def)
  have "List.map fst routes = List.map fst auth_routes @ List.map fst protected_routes"
    by (simp add: routes_def comp_def case_prod_beta')
  with routes_clean(2) have "set (List.map fst auth_routes) \<inter> set (List.map fst protected_routes) = {}"
    by (simp only: distinct.simps distinct_append)
  then show "p \<in> fst ` set auth_routes \<Longrightarrow> p \<notin> fst ` set protected_routes"
    unfolding set_map by blast
qed

lemma mux_route: "(rq_Path r, f) \<in> set routes \<Longrightarrow> mux env r h = f env r h"
proof -
  assume f: "(rq_Path r, f) \<in> set routes"
  then have "cleanPath (rq_Path r) = rq_Path r" by (intro path_facts(3)) force
  moreover have "map_of routes (rq_Path r) = Some f"
    using f routes_clean(2) by (simp add: map_of_eq_Some_iff)
  ultimately show ?thesis by (simp add: mux_def)
qed

lemma mux_page: "rq_Path r \<in> set pages \<Longrightarrow> mux env r h = monitorStaticHandler env r h"
proof -
  assume p: "rq_Path r \<in> set pages"
  from path_facts(2) [OF p] have "map_of routes (rq_Path r) = None"
    by (simp only: map_of_eq_None_iff not_False_eq_True simp_thms)
  then show ?thesis using path_facts(1) [OF p] by (simp add: mux_def)
qed

definition token_valid :: "http_env \<Rightarrow> request \<Rightarrow> bool" where
  "token_valid env r \<longleftrightarrow>
     extractToken r \<noteq> [] \<and> ValidateToken (he_jwt env) (he_now env) (extractToken r)"

lemma protected_route:
  assumes "(rq_Path r, f) \<in> set protected_routes" "rq_Method r \<noteq> ''OPTIONS''"
  shows "mux env r h = (if token_valid env r then f env r h else (unauthorized, h))"
proof -
  have "(rq_Path r, withAuth f) \<in> set routes" using assms(1) by (force simp: routes_def)
  moreover have "\<not> HasPrefix (rq_Path r) ''/api/auth/''"
    using assms(1) by (intro path_facts(4)) force
  ultimately show ?thesis
    using assms(2) by (simp add: mux_route withAuth_def token_valid_def Let_def)
qed

lemma serve_OPTIONS:
  "rq_Method r = ''OPTIONS'' \<Longrightarrow> serve env r h =
     (\<lparr>rs_Status = 204, rs_Headers = cors_headers, rs_Cookies = [], rs_Body = []\<rparr>, h)"
  by (simp add: serve_def withCORS_def)

lemma serve_mux:
  "rq_Method r \<noteq> ''OPTIONS'' \<Longrightarrow> serve env r h =
     ((fst (mux env r h))\<lparr>rs_Headers := cors_headers @ rs_Headers (fst (mux env r h))\<rparr>, snd (mux env r h))"
  by (simp add: serve_def withCORS_def split: prod.split)

lemma auth_handlers_frame [simp]:
  "snd (handleLogin env r h) = h" "snd (handleRefresh env r h) = h"
  "snd (handleValidate env r h) = h" "snd (handleLogout env r h) = h"
  by (simp_all add: handleLogin_def handleRefresh_def handleValidate_def handleLogout_def Let_def split: option.split)

lemma auth_route: "(rq_Path r, f) \<in> set auth_routes \<Longrightarrow> mux env r h = f env r h"
  by (rule mux_route) (simp add: routes_def)

lemma mux_cases:
  obtains (auth) f where "(rq_Path r, f) \<in> set auth_routes" "mux env r h = f env r h"
  | (protected) f where "(rq_Path r, f) \<in> set protected_routes"
  | (page) "snd (mux env r h) = h" "rq_Path r \<notin> fst ` set routes"
proof (cases "map_of routes (rq_Path r)")
  case None
  then have "rq_Path r \<notin> fst ` set routes" by (simp add: map_of_eq_None_iff)
  moreover have "snd (mux env r h) = h"
    using None by (simp add: mux_def monitorStaticHandler_def Let_def)
  ultimately show ?thesis using page by blast
next
  case (Some g)
  then have "(rq_Path r, g) \<in> set routes" by (rule map_of_SomeD)
  then consider "(rq_Path r, g) \<in> set auth_routes"
    | f where "(rq_Path r, f) \<in> set protected_routes" "g = withAuth f"
    by (auto simp: routes_def)
  then show ?thesis using auth protected mux_route [OF \<open>(rq_Path r, g) \<in> set routes\<close>] by cases blast+
qed

section \<open>Access\<close>

lemma refused_mux:
  assumes "\<not> token_valid env r" "rq_Method r \<noteq> ''OPTIONS''"
  shows "snd (serve env r h) = h \<and>
    (rq_Path r \<in> fst ` set protected_routes \<longrightarrow>
       rs_Status (fst (serve env r h)) = 401 \<and> rs_Body (fst (serve env r h)) = rs_Body unauthorized \<and>
       rs_Cookies (fst (serve env r h)) = []) \<and>
    (rq_Path r \<in> set pages \<longrightarrow> fst (serve env r h) =
       (redirect 302 ''/login.html'')\<lparr>rs_Headers := cors_headers @ [(''Location'', ''/login.html'')]\<rparr>) \<and>
    (rq_Path r \<notin> fst ` set auth_routes \<longrightarrow> fst (serve env r h) = fst (serve env r h'))"
proof (cases rule: mux_cases [of r env h])
  case (auth f)
  then have "snd (mux env r h) = h" by (auto simp: auth_routes_def)
  moreover have "rq_Path r \<in> fst ` set auth_routes" using auth(1) by force
  moreover from this have "rq_Path r \<notin> set pages" "rq_Path r \<notin> fst ` set protected_routes"
    using path_facts(2,6,7) by blast+
  ultimately show ?thesis using assms(2) by (simp add: serve_mux)
next
  case (protected f)
  then have "rq_Path r \<in> fst ` set protected_routes" by force
  then have "rq_Path r \<notin> set pages" using path_facts(2,5) by blast
  then show ?thesis
    using protected_route [OF protected assms(2)] assms by (simp add: serve_mux unauthorized_def writeJSON_def)
next
  case page
  have none: "map_of routes (rq_Path r) = None" using page(2) by (simp only: map_of_eq_None_iff simp_thms)
  have "mux env r x = (if rq_Method r \<noteq> ''CONNECT'' \<and> cleanPath (rq_Path r) \<noteq> rq_Path r then (redirect 301 (cleanPath (rq_Path r)), x)
      else monitorStaticHandler env r x)" for x
    by (simp add: mux_def none)
  moreover have "rq_Path r \<notin> fst ` set protected_routes" using page(2) path_facts(5) by blast
  ultimately show ?thesis
    using assms path_facts(1) by (auto simp: serve_mux monitorStaticHandler_def redirect_def token_valid_def Let_def)
qed

text \<open>
  C19: without a valid token nobody gets further than the login. No request changes anything; those
  to the API are refused with 401, no cookie and the same body, those to the two pages are sent to
  \<open>/login.html\<close>, a preflight (\<open>OPTIONS\<close>) gets an empty 204; and outside the four login
  routes the answer does not depend on the state, so that it tells nothing of the router.
\<close>

theorem api_protected:
  assumes "\<not> token_valid env r"
  shows "snd (serve env r h) = h \<and>
    (rq_Method r = ''OPTIONS'' \<longrightarrow>
       fst (serve env r h) = \<lparr>rs_Status = 204, rs_Headers = cors_headers, rs_Cookies = [], rs_Body = []\<rparr>) \<and>
    (rq_Method r \<noteq> ''OPTIONS'' \<and> rq_Path r \<in> fst ` set protected_routes \<longrightarrow>
       rs_Status (fst (serve env r h)) = 401 \<and> rs_Body (fst (serve env r h)) = rs_Body unauthorized \<and>
       rs_Cookies (fst (serve env r h)) = []) \<and>
    (rq_Method r \<noteq> ''OPTIONS'' \<and> rq_Path r \<in> set pages \<longrightarrow>
       rs_Status (fst (serve env r h)) = 302 \<and>
       rs_Headers (fst (serve env r h)) = cors_headers @ [(''Location'', ''/login.html'')]) \<and>
    (rq_Path r \<notin> fst ` set auth_routes \<longrightarrow> fst (serve env r h) = fst (serve env r h'))"
proof (cases "rq_Method r = ''OPTIONS''")
  case True
  then show ?thesis by (simp add: serve_OPTIONS)
next
  case False
  from refused_mux [OF assms False, of h h'] show ?thesis
    by (auto simp: redirect_def False)
qed

section \<open>What a request changes\<close>

text \<open>
  The router as it was at the time \<open>now\<close> in milliseconds, but for what was written to its connections;
  of the recorded times only those older than a minute may be dropped.
\<close>

definition hits_kept :: "int \<Rightarrow> int list \<Rightarrow> int list \<Rightarrow> bool" where
  "hits_kept now hits hits' \<longleftrightarrow> hits' = hits \<or> hits' = dropWhile (\<lambda>t. t < now - 60000) hits"

definition stats_kept :: "int \<Rightarrow> stats_map \<Rightarrow> stats_map \<Rightarrow> bool" where
  "stats_kept now m m' \<longleftrightarrow>
     (\<forall>k. case m k of
        None \<Rightarrow> m' k = None
      | Some item \<Rightarrow> m' k = Some item \<or>
          m' k = Some (item\<lparr>rs_LastMinuteHits := dropWhile (\<lambda>t. t < now - 60000) (rs_LastMinuteHits item)\<rparr>))"

definition router_kept :: "int \<Rightarrow> server \<Rightarrow> server \<Rightarrow> bool" where
  "router_kept now s s' \<longleftrightarrow>
     stats_kept now (srv_rpcStats s) (srv_rpcStats s') \<and>
     hits_kept now (srv_requestHits s) (srv_requestHits s') \<and>
     same_control s s' \<and> srv_sessions s' = srv_sessions s \<and> srv_debugResults s' = srv_debugResults s \<and>
     srv_timers s' = srv_timers s \<and> srv_routeId s' = srv_routeId s \<and>
     srv_totalBytes s' = srv_totalBytes s \<and> srv_totalRequests s' = srv_totalRequests s \<and>
     net_closed (srv_net s') = net_closed (srv_net s)"

lemma stats_kept_refl [simp]: "stats_kept now m m"
  by (simp add: stats_kept_def split: option.split)

lemma router_kept_refl [simp]: "router_kept now s s"
  by (simp add: router_kept_def hits_kept_def)

lemma stats_kept_prune:
  assumes "stats_kept now m m'" "m' k = Some item"
  shows "stats_kept now m (m'(k \<mapsto> item\<lparr>rs_LastMinuteHits := pruneLastMinute (rs_LastMinuteHits item) now\<rparr>))"
  unfolding stats_kept_def
proof
  fix j
  note kept = assms(1) [unfolded stats_kept_def, THEN spec, of j]
  show "case m j of
      None \<Rightarrow> (m'(k \<mapsto> item\<lparr>rs_LastMinuteHits := pruneLastMinute (rs_LastMinuteHits item) now\<rparr>)) j = None
    | Some old \<Rightarrow>
        (m'(k \<mapsto> item\<lparr>rs_LastMinuteHits := pruneLastMinute (rs_LastMinuteHits item) now\<rparr>)) j = Some old \<or>
        (m'(k \<mapsto> item\<lparr>rs_LastMinuteHits := pruneLastMinute (rs_LastMinuteHits item) now\<rparr>)) j =
          Some (old\<lparr>rs_LastMinuteHits := dropWhile (\<lambda>t. t < now - 60000) (rs_LastMinuteHits old)\<rparr>)"
  proof (cases "j = k")
    case True
    with kept assms(2) show ?thesis
      by (cases "m k") (auto simp: prune_dropWhile dropWhile_idem)
  next
    case False
    then have "(m'(k \<mapsto> item\<lparr>rs_LastMinuteHits := pruneLastMinute (rs_LastMinuteHits item) now\<rparr>)) j = m' j"
      by (rule fun_upd_other)
    with kept show ?thesis by (simp only:)
  qed
qed

lemma rank_loop_kept:
  "stats_kept now m m' \<Longrightarrow> stats_kept now m (snd (rank_loop now kw ks m' acc))"
proof (induction ks arbitrary: m' acc)
  case (Cons k ks)
  show ?case
  proof (cases "m' k")
    case None
    with Cons show ?thesis by simp
  next
    case (Some item)
    let ?skip = "kw \<noteq> [] \<and> \<not> Contains (ToLower (rs_RouterID item)) kw"
      and ?item = "item\<lparr>rs_LastMinuteHits := pruneLastMinute (rs_LastMinuteHits item) now\<rparr>"
    have "rank_loop now kw (k # ks) m' acc = (if ?skip then rank_loop now kw ks m' acc
        else rank_loop now kw ks (m'(k \<mapsto> ?item)) (acc @ [snapshot_of ?item]))"
      by (simp add: Some Let_def)
    with Cons.IH [OF Cons.prems] Cons.IH [OF stats_kept_prune [OF Cons.prems Some]] show ?thesis
      by (simp only: split: if_split) blast
  qed
qed simp

lemma RouterRPCStats_kept: "stats_kept now m (snd (RouterRPCStats ks now keyword limit m))"
  using rank_loop_kept [OF stats_kept_refl, of now m "ToLower (TrimSpace keyword)" ks "[]"]
  by (simp add: RouterRPCStats_def Let_def split_beta)

lemma RequestsPerMinute_kept: "hits_kept now hits (snd (RequestsPerMinute now hits))"
  by (simp add: hits_kept_def RequestsPerMinute_def prune_dropWhile Let_def)

lemma server_ok_kept: "server_ok s \<Longrightarrow> router_kept now s s' \<Longrightarrow> server_ok s'"
  by (simp add: server_ok_def router_kept_def same_control_def)

lemma reading_handlers_frame [simp]:
  "snd (handleStatus env r h) = h" "snd (handleMetrics env r h) = h" "snd (handleConnections env r h) = h"
  "snd (handleRpcStats env r h) = h" "snd (handleMessageStats env r h) = h" "snd (handleViewers env r h) = h"
  "snd (handleLogs env r h) = h" "snd (handleLogsExport env r h) = h" "snd (handleSystemSettings env r h) = h"
  "snd (handleValidateRouteId env r h) = h" "snd (handleAvailableRoutes env r h) = h"
  "snd (handleDebugRpcStubs env r h) = h"
  by (simp_all add: handleStatus_def handleMetrics_def handleConnections_def handleRpcStats_def
      handleMessageStats_def handleViewers_def handleLogs_def handleLogsExport_def handleSystemSettings_def
      handleValidateRouteId_def handleAvailableRoutes_def handleDebugRpcStubs_def Stats_def Let_def
      split: option.split)

lemma handleDebugRpcResult_frame [simp]: "snd (handleDebugRpcResult env r h) = h"
  by (simp add: handleDebugRpcResult_def GetDebugResult_def Let_def split: option.split)

lemma counting_handlers_frame:
  "\<exists>rv. snd (handleRouters env r h) = h\<lparr>hs_geo := rv\<rparr>"
  "\<exists>m. stats_kept (UnixMilli (he_now env)) (srv_rpcStats (hs_srv h)) m \<and>
     snd (handleRouterRPCRanking env r h) = h\<lparr>hs_srv := (hs_srv h)\<lparr>srv_rpcStats := m\<rparr>\<rparr>"
  "\<exists>hits. hits_kept (UnixMilli (he_now env)) (srv_requestHits (hs_srv h)) hits \<and>
     snd (handleMonitorStats env r h) = h\<lparr>hs_srv := (hs_srv h)\<lparr>srv_requestHits := hits\<rparr>\<rparr>"
proof -
  let ?now = "UnixMilli (he_now env)" and ?keyword = "TrimSpace (rq_Query r ''keyword'')"
    and ?limit = "query_limit 20 500 (TrimSpace (rq_Query r ''limit''))"
  show "\<exists>rv. snd (handleRouters env r h) = h\<lparr>hs_geo := rv\<rparr>"
    by (auto simp: handleRouters_def Let_def split: prod.splits)
  have "snd (handleRouterRPCRanking env r h) = h\<lparr>hs_srv := (hs_srv h)\<lparr>srv_rpcStats :=
      snd (RouterRPCStats (he_stats env) ?now ?keyword ?limit (srv_rpcStats (hs_srv h)))\<rparr>\<rparr>"
    by (simp add: handleRouterRPCRanking_def Let_def split: prod.split)
  with RouterRPCStats_kept show "\<exists>m. stats_kept ?now (srv_rpcStats (hs_srv h)) m \<and>
     snd (handleRouterRPCRanking env r h) = h\<lparr>hs_srv := (hs_srv h)\<lparr>srv_rpcStats := m\<rparr>\<rparr>" by blast
  have "snd (handleMonitorStats env r h) = h\<lparr>hs_srv := (hs_srv h)\<lparr>srv_requestHits :=
      snd (RequestsPerMinute ?now (srv_requestHits (hs_srv h)))\<rparr>\<rparr>"
    by (simp add: handleMonitorStats_def Stats_def split: prod.split)
  with RequestsPerMinute_kept show "\<exists>hits. hits_kept ?now (srv_requestHits (hs_srv h)) hits \<and>
     snd (handleMonitorStats env r h) = h\<lparr>hs_srv := (hs_srv h)\<lparr>srv_requestHits := hits\<rparr>\<rparr>" by blast
qed

lemma handleUpdateAdminPassword_frame:
  "\<exists>cfg d. snd (handleUpdateAdminPassword env r h) = h\<lparr>hs_cfg := cfg, hs_disk := d\<rparr>"
proof -
  have same: "\<exists>cfg d. h = h\<lparr>hs_cfg := cfg, hs_disk := d\<rparr>"
    by (intro exI [of _ "hs_cfg h"] exI [of _ "hs_disk h"]) simp
  have cfg: "\<exists>cfg' d. h\<lparr>hs_cfg := cfg\<rparr> = h\<lparr>hs_cfg := cfg', hs_disk := d\<rparr>" for cfg
    by (intro exI [of _ cfg] exI [of _ "hs_disk h"]) simp
  have "\<exists>cfg' d'. h\<lparr>hs_cfg := cfg, hs_disk := d\<rparr> = h\<lparr>hs_cfg := cfg', hs_disk := d'\<rparr>" for cfg d by blast
  then show ?thesis
    using same cfg by (simp add: handleUpdateAdminPassword_def Let_def split: prod.split option.split)
qed

text \<open>A debug call that is accepted writes one message to the connection of its target.\<close>

definition debug_accepted :: "request \<Rightarrow> monitor \<Rightarrow> debug_request \<Rightarrow> RouterSession \<Rightarrow> bool" where
  "debug_accepted r h req t \<longleftrightarrow>
     rq_Method r = ''POST'' \<and> fst (Decode decode_debug_request zero_debug_request (rq_Body r)) = req \<and>
     dr_TargetRouteId req \<noteq> [] \<and> srv_sessions (hs_srv h) (dr_TargetRouteId req) = Some t \<and>
     0 < dr_PacketId req \<and> findStub (info_Stubs (sess_RpcServerInfo t)) (dr_PacketId req) \<noteq> None"

lemma handleDebugSendRpc_accepted:
  assumes "debug_accepted r h req t"
  shows "rs_Status (fst (handleDebugSendRpc env r h)) = 200"
    "snd (handleDebugSendRpc env r h) = h\<lparr>hs_srv := (hs_srv h)\<lparr>srv_net :=
       snd (WriteRouteMessage t (debug_message (Itoa (UnixMilli (he_now env))) req) (srv_net (hs_srv h)))\<rparr>\<rparr>"
proof -
  obtain stub where "findStub (info_Stubs (sess_RpcServerInfo t)) (dr_PacketId req) = Some stub"
    using assms by (auto simp: debug_accepted_def)
  then show "rs_Status (fst (handleDebugSendRpc env r h)) = 200"
    "snd (handleDebugSendRpc env r h) = h\<lparr>hs_srv := (hs_srv h)\<lparr>srv_net :=
       snd (WriteRouteMessage t (debug_message (Itoa (UnixMilli (he_now env))) req) (srv_net (hs_srv h)))\<rparr>\<rparr>"
    using assms by (simp_all add: handleDebugSendRpc_def debug_accepted_def GetSession_def writeJSON_def Let_def)
qed

lemma response_status:
  "rs_Status (writeJSON status obj) = status" "rs_Status method_not_allowed = 405"
  by (simp_all add: writeJSON_def method_not_allowed_def)

lemma handleDebugSendRpc_refused:
  assumes "\<nexists>req t. debug_accepted r h req t"
  shows "snd (handleDebugSendRpc env r h) = h" "rs_Status (fst (handleDebugSendRpc env r h)) \<noteq> 200"
proof -
  define req where "req = fst (Decode decode_debug_request zero_debug_request (rq_Body r))"
  have "\<not> debug_accepted r h req t" for t using assms by blast
  then have "snd (handleDebugSendRpc env r h) = h \<and> rs_Status (fst (handleDebugSendRpc env r h)) \<noteq> 200"
    unfolding handleDebugSendRpc_def req_def [symmetric]
    by (auto simp: debug_accepted_def GetSession_def response_status Let_def not_le
        simp flip: req_def split: option.split)
  then show "snd (handleDebugSendRpc env r h) = h" "rs_Status (fst (handleDebugSendRpc env r h)) \<noteq> 200"
    by simp_all
qed

text \<open>Only three kinds of handler behind the token check change anything.\<close>

lemma protected_cases:
  assumes "(p, f) \<in> set protected_routes"
  shows "p = ''/api/debug/send-rpc'' \<and> f = handleDebugSendRpc \<or>
    p = ''/api/system/admin-password'' \<and> f = handleUpdateAdminPassword \<or>
    p \<noteq> ''/api/debug/send-rpc'' \<and> f \<in> {handleRouters, handleRouterRPCRanking, handleMonitorStats} \<or>
    p \<noteq> ''/api/debug/send-rpc'' \<and> snd (f env r h) = h"
    (is "?P p f")
proof -
  have "list_all (\<lambda>(p, f). ?P p f) protected_routes"
    unfolding protected_routes_def list.pred_inject prod.case by (intro conjI; simp)
  from this [unfolded list_all_iff, THEN bspec, OF assms] show ?thesis unfolding prod.case .
qed

lemma protected_effect:
  assumes "(p, f) \<in> set protected_routes" "h' = snd (f env r h)"
  shows "router_kept (UnixMilli (he_now env)) (hs_srv h) (hs_srv h')" "hs_logs h' = hs_logs h" "hs_startTime h' = hs_startTime h"
    "p \<noteq> ''/api/system/admin-password'' \<Longrightarrow> hs_cfg h' = hs_cfg h \<and> hs_disk h' = hs_disk h"
    "p \<noteq> ''/api/debug/send-rpc'' \<Longrightarrow> srv_net (hs_srv h') = srv_net (hs_srv h)"
    "p = ''/api/debug/send-rpc'' \<Longrightarrow> f = handleDebugSendRpc"
proof -
  let ?now = "UnixMilli (he_now env)"
  have *: "router_kept (UnixMilli (he_now env)) (hs_srv h) (hs_srv h') \<and> hs_logs h' = hs_logs h \<and> hs_startTime h' = hs_startTime h \<and>
      (p \<noteq> ''/api/system/admin-password'' \<longrightarrow> hs_cfg h' = hs_cfg h \<and> hs_disk h' = hs_disk h) \<and>
      (p \<noteq> ''/api/debug/send-rpc'' \<longrightarrow> srv_net (hs_srv h') = srv_net (hs_srv h)) \<and>
      (p = ''/api/debug/send-rpc'' \<longrightarrow> f = handleDebugSendRpc)"
  proof -
    have counted: "stats_kept ?now (srv_rpcStats s) m \<Longrightarrow> router_kept ?now s (s\<lparr>srv_rpcStats := m\<rparr>)"
      "hits_kept ?now (srv_requestHits s) hits \<Longrightarrow> router_kept ?now s (s\<lparr>srv_requestHits := hits\<rparr>)"
      "router_kept ?now s (s\<lparr>srv_net := snd (WriteRouteMessage t msg (srv_net s))\<rparr>)" for s m hits t msg
      by (simp_all add: router_kept_def same_control_def hits_kept_def)
    from protected_cases [OF assms(1), of env r h] show ?thesis
    proof (elim disjE conjE)
      assume "p = ''/api/debug/send-rpc''" "f = handleDebugSendRpc"
      then show ?thesis
        using handleDebugSendRpc_accepted(2) [of r h _ _ env] handleDebugSendRpc_refused(1) [of r h env] counted(3)
        by (cases "\<exists>req t. debug_accepted r h req t") (auto simp: assms(2))
    next
      assume "p = ''/api/system/admin-password''" "f = handleUpdateAdminPassword"
      then show ?thesis using handleUpdateAdminPassword_frame [of env r h] by (auto simp: assms(2))
    next
      assume "p \<noteq> ''/api/debug/send-rpc''" "f \<in> {handleRouters, handleRouterRPCRanking, handleMonitorStats}"
      then show ?thesis
        using counting_handlers_frame [where env = env and r = r and h = h] counted(1,2) by (auto simp: assms(2))
    qed (simp add: assms(2))
  qed
  then show "router_kept (UnixMilli (he_now env)) (hs_srv h) (hs_srv h')" "hs_logs h' = hs_logs h" "hs_startTime h' = hs_startTime h"
    "p \<noteq> ''/api/system/admin-password'' \<Longrightarrow> hs_cfg h' = hs_cfg h \<and> hs_disk h' = hs_disk h"
    "p \<noteq> ''/api/debug/send-rpc'' \<Longrightarrow> srv_net (hs_srv h') = srv_net (hs_srv h)"
    "p = ''/api/debug/send-rpc'' \<Longrightarrow> f = handleDebugSendRpc"
    by blast+
qed

text \<open>Every request, whatever its method, path and token.\<close>

lemma serve_effect:
  assumes "h' = snd (serve env r h)"
  shows "h' = h \<or> (\<exists>f. (rq_Path r, f) \<in> set protected_routes \<and> token_valid env r \<and> h' = snd (f env r h))"
proof (cases "rq_Method r = ''OPTIONS''")
  case True
  then show ?thesis by (simp add: assms serve_OPTIONS)
next
  case False
  then have h': "h' = snd (mux env r h)" by (simp add: assms serve_mux)
  show ?thesis
  proof (cases rule: mux_cases [of r env h])
    case (auth f)
    then show ?thesis using h' by (auto simp: auth_routes_def)
  next
    case (protected f)
    then show ?thesis using protected_route [OF protected False, of env h] h' by auto
  qed (simp add: h')
qed

text \<open>
  C33: the console cannot disturb the router: whatever is requested, sessions, connections, counters,
  stored results, logs and the invariant of the router stay, of the recorded request times only
  those older than a minute may go; the configuration changes only through the
  password route and the network only through an accepted debug call, which appends one message
  from \<open>debug-admin\<close> to the connection of the node it names.
\<close>

theorem console_effects:
  assumes "server_ok (hs_srv h)" "h' = snd (serve env r h)"
  shows "server_ok (hs_srv h') \<and> router_kept (UnixMilli (he_now env)) (hs_srv h) (hs_srv h') \<and> hs_logs h' = hs_logs h \<and>
    (hs_cfg h' = hs_cfg h \<and> hs_disk h' = hs_disk h \<or>
       token_valid env r \<and> rq_Path r = ''/api/system/admin-password'') \<and>
    (srv_net (hs_srv h') = srv_net (hs_srv h) \<or>
       token_valid env r \<and> rq_Path r = ''/api/debug/send-rpc'' \<and>
       (\<exists>req t. debug_accepted r h req t \<and> (\<forall>c. net_out (srv_net (hs_srv h')) c = net_out (srv_net (hs_srv h)) c @
          (if c = sess_Conn t \<and> \<not> net_closed (srv_net (hs_srv h)) c
           then wire (debug_message (Itoa (UnixMilli (he_now env))) req) else []))))"
proof (cases "h' = h")
  case True
  with assms(1) show ?thesis by simp
next
  case False
  then obtain f where f: "(rq_Path r, f) \<in> set protected_routes" "token_valid env r" "h' = snd (f env r h)"
    using serve_effect [OF assms(2)] by blast
  note eff = protected_effect [OF f(1,3)]
  have "\<exists>req t. debug_accepted r h req t \<and> (\<forall>c. net_out (srv_net (hs_srv h')) c = net_out (srv_net (hs_srv h)) c @
          (if c = sess_Conn t \<and> \<not> net_closed (srv_net (hs_srv h)) c
           then wire (debug_message (Itoa (UnixMilli (he_now env))) req) else []))"
    if "rq_Path r = ''/api/debug/send-rpc''"
  proof -
    have h': "h' = snd (handleDebugSendRpc env r h)" using eff(6) [OF that] f(3) by simp
    then obtain req t where acc: "debug_accepted r h req t"
      using handleDebugSendRpc_refused(1) [of r h env] False by blast
    show ?thesis
      by (intro exI conjI, rule acc)
        (simp add: h' handleDebugSendRpc_accepted(2) [OF acc] WriteRouteMessage_out)
  qed
  with eff f(2) assms(1) server_ok_kept show ?thesis by blast
qed

section \<open>Scenes\<close>

definition console_request :: "gostring \<Rightarrow> gostring \<Rightarrow> gostring \<Rightarrow> gostring \<Rightarrow> request" where
  "console_request meth path body auth =
     \<lparr>rq_Method = meth, rq_Path = path, rq_Query = \<lambda>_. [], rq_Body = body, rq_Authorization = auth,
      rq_Cookie = None\<rparr>"

definition console_env :: "int \<Rightarrow> http_env" where
  "console_env now =
     \<lparr>he_now = now, he_jwt = toy_jwt, he_sessions = [''n'', ''m''], he_stats = [], he_web = \<lambda>_. None,
      he_write_error = None, he_write_left = None, he_GOOS = ''linux'', he_NumCPU = 1, he_NumGoroutine = 1,
      he_MemStats = \<lparr>ms_Alloc = 1, ms_Sys = 2, ms_NumGC = 0, ms_PauseTotalNs = 0\<rparr>,
      he_stamp = ''20240101-000000'', he_files = \<lambda>_. writeJSON 404 JNull\<rparr>"

definition console_state :: monitor where
  "console_state =
     \<lparr>hs_cfg = default_server_config, hs_srv = scene3, hs_startTime = 0, hs_disk = Map.empty,
      hs_logs = globalLogs, hs_geo = globalIPCountryResolver\<rparr>"

theorem api_protected_witness:
  "rs_Status (fst (serve (console_env 5) (console_request ''GET'' ''/api/status'' [] []) console_state)) = 401"
proof -
  let ?r = "console_request ''GET'' ''/api/status'' [] []"
  have "\<not> token_valid (console_env 5) ?r"
    by (simp add: token_valid_def extractToken_def console_request_def)
  moreover have "rq_Method ?r \<noteq> ''OPTIONS''" by (simp add: console_request_def)
  moreover have "rq_Path ?r \<in> fst ` set protected_routes"
    by (simp add: console_request_def protected_routes_def)
  ultimately show ?thesis using api_protected [of "console_env 5" ?r console_state console_state] by blast
qed

theorem console_effects_witness:
  "server_ok (hs_srv (snd (serve (console_env 5) (console_request ''GET'' ''/api/status'' [] []) console_state)))"
  using console_effects [OF _ refl, of console_state "console_env 5" "console_request ''GET'' ''/api/status'' [] []"]
    scene3_ok by (simp add: console_state_def)

section \<open>Sessions of the console\<close>

definition login_password :: "request \<Rightarrow> gostring" where
  "login_password r = login_Password (fst (Decode decode_login \<lparr>login_Password = []\<rparr> (rq_Body r)))"

lemma login_answer:
  assumes "rq_Path r = ''/api/auth/login''" "rq_Method r = ''POST''"
  shows "mux env r h = handleLogin env r h"
  by (rule auth_route) (simp add: assms(1) auth_routes_def)

lemma extract_bearer [simp]: "rq_Authorization r = ''Bearer '' @ t \<Longrightarrow> extractToken r = t"
  by (simp add: extractToken_def TrimPrefix_def)

lemma extractToken_given:
  "rq_Authorization r = ''Bearer '' @ tok \<or> rq_Authorization r = [] \<and> map_option TrimSpace (rq_Cookie r) = Some tok \<Longrightarrow>
     extractToken r = tok"
  by (auto simp: extractToken_def TrimPrefix_def)

lemma login_opened:
  assumes "rq_Method r = ''POST''" "GenerateToken (he_jwt env) (he_now env) ''admin'' = Some tok"
    and "rsc_AdminPassword (hs_cfg h) \<noteq> []" "login_password r = rsc_AdminPassword (hs_cfg h)"
  shows "rs_Status (fst (handleLogin env r h)) = 200 \<and>
    List.map sc_Value (rs_Cookies (fst (handleLogin env r h))) = [tok] \<and>
    (\<exists>msg user. rs_Body (fst (handleLogin env r h)) =
       json_print (json_map [(''success'', JBool True), (''message'', JStr msg),
         (''data'', json_map (token_data tok @ [(''user'', user)]))]) @ [CHR 0x0A])"
proof -
  have "\<exists>msg user. fst (handleLogin env r h) = setAuthCookie (he_now env) tok (writeJSON 200
      (json_map [(''success'', JBool True), (''message'', JStr msg),
         (''data'', json_map (token_data tok @ [(''user'', user)]))]))"
    using assms by (simp add: handleLogin_def login_password_def Let_def) blast
  then obtain msg user where "fst (handleLogin env r h) = setAuthCookie (he_now env) tok (writeJSON 200
      (json_map [(''success'', JBool True), (''message'', JStr msg),
         (''data'', json_map (token_data tok @ [(''user'', user)]))]))" by blast
  then show ?thesis
    by (simp add: setAuthCookie_def writeJSON_def del: json_print.simps) blast
qed

lemma login_closed:
  assumes "rq_Method r = ''POST''"
    and "\<not> (rsc_AdminPassword (hs_cfg h) \<noteq> [] \<and> login_password r = rsc_AdminPassword (hs_cfg h))"
  shows "rs_Status (fst (handleLogin env r h)) \<noteq> 200 \<and> rs_Cookies (fst (handleLogin env r h)) = []"
  using assms by (auto simp: handleLogin_def login_password_def writeJSON_def Let_def)

text \<open>
  A token given out at the time of \<open>env\<close>, sent back in the \<open>Authorization\<close> header or as the cookie, at
  any later request \<open>r'\<close> of the API in any state of the console: for 86400 seconds the route's
  handler answers, after that the request is refused.
\<close>

definition opens_for_a_day :: "http_env \<Rightarrow> gostring \<Rightarrow> bool" where
  "opens_for_a_day env tok \<longleftrightarrow>
     (\<forall>env' r' h' f. he_jwt env' = he_jwt env \<longrightarrow> (rq_Path r', f) \<in> set protected_routes \<longrightarrow>
        rq_Method r' \<noteq> ''OPTIONS'' \<longrightarrow>
        rq_Authorization r' = ''Bearer '' @ tok \<or>
          rq_Authorization r' = [] \<and> map_option TrimSpace (rq_Cookie r') = Some tok \<longrightarrow>
        serve env' r' h' =
          (if he_now env' < (Unix (he_now env) + 86400) * second
           then ((fst (f env' r' h'))\<lparr>rs_Headers := cors_headers @ rs_Headers (fst (f env' r' h'))\<rparr>, snd (f env' r' h'))
           else (unauthorized\<lparr>rs_Headers := cors_headers @ rs_Headers unauthorized\<rparr>, h')))"

text \<open>
  C34: a login with the configured password, and only that, gives a token, in the answer's only
  cookie and in its body; any other login gives no cookie. Sent back in the \<open>Authorization\<close> header
  or as the cookie, the token opens every route of the API for a day, whatever happens to the
  console in between, a logout or a change of the password included, and is refused from then on.
\<close>

theorem login_session:
  assumes "jwt_ok (he_jwt env)" "\<bar>Unix (he_now env)\<bar> < 2 ^ 52"
    and "rq_Path r = ''/api/auth/login''" "rq_Method r = ''POST''" "serve env r h = (w, h1)"
    and "opened \<longleftrightarrow> rsc_AdminPassword (hs_cfg h) \<noteq> [] \<and> login_password r = rsc_AdminPassword (hs_cfg h)"
  shows "h1 = h \<and> (rs_Status w = 200 \<longleftrightarrow> opened) \<and> (\<not> opened \<longrightarrow> rs_Cookies w = []) \<and>
    (opened \<longrightarrow> (\<exists>tok msg user. tok \<noteq> [] \<and> List.map sc_Value (rs_Cookies w) = [tok] \<and>
       rs_Body w = json_print (json_map [(''success'', JBool True), (''message'', JStr msg),
         (''data'', json_map (token_data tok @ [(''user'', user)]))]) @ [CHR 0x0A] \<and>
       opens_for_a_day env tok))"
proof -
  obtain tok where tok: "GenerateToken (he_jwt env) (he_now env) ''admin'' = Some tok" "tok \<noteq> []"
    "\<And>n. parseClaims (he_jwt env) n tok = (if n < Unix (he_now env + tokenExpire) * second
       then Some (token_claims ''admin'' (he_now env)) else None)"
    using token_facts [OF assms(1,2), of "''admin''"] by blast
  have w: "w = (fst (handleLogin env r h))\<lparr>rs_Headers := cors_headers @ rs_Headers (fst (handleLogin env r h))\<rparr>"
    "h1 = snd (handleLogin env r h)"
    using assms(4,5) by (auto simp: serve_mux login_answer [OF assms(3,4)])
  have "opens_for_a_day env tok"
    unfolding opens_for_a_day_def
  proof (intro allI impI)
    fix env' :: http_env and r' :: request and h' :: monitor and f :: handler
    assume r': "he_jwt env' = he_jwt env" "(rq_Path r', f) \<in> set protected_routes" "rq_Method r' \<noteq> ''OPTIONS''"
      "rq_Authorization r' = ''Bearer '' @ tok \<or>
         rq_Authorization r' = [] \<and> map_option TrimSpace (rq_Cookie r') = Some tok"
    have "extractToken r' = tok" using r'(4) by (rule extractToken_given)
    then have "token_valid env' r' \<longleftrightarrow> he_now env' < (Unix (he_now env) + 86400) * second"
      using tok(2,3) r'(1) by (simp add: token_valid_def Validate_parse Unix_expire)
    then show "serve env' r' h' =
      (if he_now env' < (Unix (he_now env) + 86400) * second
       then ((fst (f env' r' h'))\<lparr>rs_Headers := cors_headers @ rs_Headers (fst (f env' r' h'))\<rparr>, snd (f env' r' h'))
       else (unauthorized\<lparr>rs_Headers := cors_headers @ rs_Headers unauthorized\<rparr>, h'))"
      using protected_route [OF r'(2,3), of env' h'] r'(3) by (simp add: serve_mux)
  qed
  with tok(2) show ?thesis
    using login_opened [OF assms(4) tok(1), of h] login_closed [OF assms(4), of h env]
    by (cases opened) (auto simp: w assms(6) simp del: json_print.simps)
qed

definition login_body :: gostring where
  "login_body = json_print (JObj [(''password'', JStr ''root'')])"

lemma decode_login_body: "Decode decode_login \<lparr>login_Password = []\<rparr> login_body = (\<lparr>login_Password = ''root''\<rparr>, True)"
  unfolding login_body_def
  by (subst Decode_object) (simp_all add: decode_login_def decode_struct_def find_field_def string_field_def)

theorem login_session_witness:
  "rs_Status (fst (serve (console_env (3600 * second)) (console_request ''GET'' ''/api/viewers'' []
     (''Bearer '' @ the (GenerateToken toy_jwt 5 ''admin''))) console_state)) = 200"
proof -
  let ?r = "console_request ''POST'' ''/api/auth/login'' login_body []"
  let ?r' = "console_request ''GET'' ''/api/viewers'' [] (''Bearer '' @ the (GenerateToken toy_jwt 5 ''admin''))"
  have env: "jwt_ok (he_jwt (console_env 5))" "\<bar>Unix (he_now (console_env 5))\<bar> < 2 ^ 52"
    "he_jwt (console_env (3600 * second)) = he_jwt (console_env 5)"
    by (simp_all add: console_env_def toy_jwt_ok Unix_def second_def)
  have r: "rq_Path ?r = ''/api/auth/login''" "rq_Method ?r = ''POST''"
    "rq_Authorization ?r' = ''Bearer '' @ the (GenerateToken toy_jwt 5 ''admin'')" "rq_Method ?r' \<noteq> ''OPTIONS''"
    by (simp_all add: console_request_def)
  have route: "(rq_Path ?r', handleViewers) \<in> set protected_routes"
    by (simp add: console_request_def protected_routes_def)
  obtain tok where tok: "GenerateToken toy_jwt 5 ''admin'' = Some tok"
    using token_facts [OF toy_jwt_ok, of 5 "''admin''"] by (auto simp: Unix_def second_def)
  have "rs_Status (fst (serve (console_env 5) ?r console_state)) = 200 \<and>
      List.map sc_Value (rs_Cookies (fst (serve (console_env 5) ?r console_state))) = [tok]"
    using tok by (simp add: serve_mux r(2) login_answer [OF r(1,2)])
      (simp add: handleLogin_def console_request_def console_state_def default_server_config_def
        decode_login_body console_env_def writeJSON_def setAuthCookie_def)
  moreover have "he_now (console_env (3600 * second)) < (Unix (he_now (console_env 5)) + 86400) * second"
    by (simp add: console_env_def Unix_def second_def)
  moreover obtain w h1 where w: "serve (console_env 5) ?r console_state = (w, h1)" by fastforce
  moreover have "rsc_AdminPassword (hs_cfg console_state) \<noteq> [] \<and>
      login_password ?r = rsc_AdminPassword (hs_cfg console_state)"
    by (simp add: login_password_def console_request_def console_state_def default_server_config_def decode_login_body)
  ultimately have "serve (console_env (3600 * second)) ?r' console_state =
      ((fst (handleViewers (console_env (3600 * second)) ?r' console_state))\<lparr>rs_Headers := cors_headers @
          rs_Headers (fst (handleViewers (console_env (3600 * second)) ?r' console_state))\<rparr>,
       snd (handleViewers (console_env (3600 * second)) ?r' console_state))"
    using login_session [OF env(1,2) r(1,2) w refl] env(3) r(3,4) route tok
    by (auto simp: opens_for_a_day_def simp del: json_print.simps)
  then show ?thesis by (simp add: handleViewers_def Stats_def writeJSON_def)
qed

section \<open>The admin password\<close>

definition password_request_of :: "request \<Rightarrow> password_request \<times> bool" where
  "password_request_of r = Decode decode_password \<lparr>pr_OldPassword = [], pr_NewPassword = []\<rparr> (rq_Body r)"

text \<open>
  C35: a change of the password takes effect in memory exactly for a POST whose body is well formed,
  names the current password and a new one of at least four bytes after trimming; any other
  request changes nothing. When the file is written, the answer is 200 and the next start reads
  back exactly the configuration in memory. When the write fails, the answer is 500 although
  the new password is in force, and the file is as it was or holds a first part of the
  new text; no other file is touched.
\<close>

theorem password_update:
  assumes "token_valid env r" "rq_Path r = ''/api/system/admin-password''" "rq_Method r \<noteq> ''OPTIONS''"
    and "server_config_ok (hs_cfg h)" "rsc_RouterServerPort (hs_cfg h) \<noteq> 0" "rsc_HTTPMonitorPort (hs_cfg h) \<noteq> 0"
    and "password_request_of r = (req, ok)" "serve env r h = (w, h')"
    and "accepted \<longleftrightarrow> rq_Method r = ''POST'' \<and> ok \<and> pr_OldPassword req = rsc_AdminPassword (hs_cfg h) \<and>
           4 \<le> length (TrimSpace (pr_NewPassword req))"
  shows "(rs_Status w = 200 \<longleftrightarrow> accepted \<and> he_write_error env = None) \<and>
    hs_cfg h' = (if accepted then (hs_cfg h)\<lparr>rsc_AdminPassword := TrimSpace (pr_NewPassword req)\<rparr> else hs_cfg h) \<and>
    hs_srv h' = hs_srv h \<and>
    (\<not> accepted \<longrightarrow> h' = h) \<and>
    (\<forall>name. name \<noteq> RouterServerConfigName \<longrightarrow> hs_disk h' name = hs_disk h name) \<and>
    (accepted \<and> he_write_error env = None \<longrightarrow>
       fst (ReadRouterServerConfig [] (hs_disk h')) = Inr (hs_cfg h')) \<and>
    (accepted \<and> he_write_error env \<noteq> None \<longrightarrow> rs_Status w = 500 \<and>
       (hs_disk h' RouterServerConfigName = hs_disk h RouterServerConfigName \<or>
        (\<exists>n. hs_disk h' RouterServerConfigName =
           Some (Contents (take n (MarshalIndent (json_RouterServerConfig (hs_cfg h'))))))))"
proof -
  have "(rq_Path r, handleUpdateAdminPassword) \<in> set protected_routes"
    by (simp add: assms(2) protected_routes_def)
  from protected_route [OF this assms(3), of env h]
  have serve: "serve env r h = ((fst (handleUpdateAdminPassword env r h))\<lparr>rs_Headers :=
      cors_headers @ rs_Headers (fst (handleUpdateAdminPassword env r h))\<rparr>, snd (handleUpdateAdminPassword env r h))"
    using assms(1,3) by (simp add: serve_mux)
  let ?cfg = "(hs_cfg h)\<lparr>rsc_AdminPassword := TrimSpace (pr_NewPassword req)\<rparr>"
  have "fst (ReadRouterServerConfig [] (WriteRouterServerConfig [] ?cfg (hs_disk h))) = Inr ?cfg" if accepted
  proof -
    have "server_config_ok ?cfg" using assms(4) by (simp add: server_config_ok_def)
    moreover have "TrimSpace (pr_NewPassword req) \<noteq> []" using that assms(9) by (metis length_0_conv not_numeral_le_zero)
    ultimately show ?thesis
      using Unmarshal_server_written [of ?cfg] assms(5,6)
      by (simp add: ReadRouterServerConfig_def WriteRouterServerConfig_def writeDefault_def Let_def)
  qed
  note read = this
  have "handleUpdateAdminPassword env r h = (fst (handleUpdateAdminPassword env r h), h') \<and>
     rs_Status w = rs_Status (fst (handleUpdateAdminPassword env r h))"
    using serve assms(8) by (cases "handleUpdateAdminPassword env r h") auto
  then have "h' = (if \<not> accepted then h else h\<lparr>hs_cfg := ?cfg, hs_disk :=
        (if he_write_error env = None then WriteRouterServerConfig [] ?cfg (hs_disk h)
         else WriteRouterServerConfig_failed (he_write_left env) [] ?cfg (hs_disk h))\<rparr>) \<and>
      (rs_Status w = 200 \<longleftrightarrow> accepted \<and> he_write_error env = None) \<and>
      (accepted \<and> he_write_error env \<noteq> None \<longrightarrow> rs_Status w = 500)"
    using assms(7,9)
    by (cases "rq_Method r = ''POST''"; cases ok; cases "he_write_error env")
      (auto simp: handleUpdateAdminPassword_def password_request_of_def response_status not_less Let_def
        split: if_splits)
  with read show ?thesis
    by (cases "he_write_left env")
      (auto simp: WriteRouterServerConfig_def writeDefault_def WriteRouterServerConfig_failed_def failed_write_def)
qed

definition password_body :: gostring where
  "password_body = json_print (JObj [(''oldPassword'', JStr ''root''), (''newPassword'', JStr ''secret'')])"

theorem password_update_witness:
  "rsc_AdminPassword (hs_cfg (snd (serve (console_env 6) (console_request ''POST'' ''/api/system/admin-password''
     password_body (''Bearer '' @ the (GenerateToken toy_jwt 5 ''admin''))) console_state))) = ''secret''"
proof -
  define r where "r = console_request ''POST'' ''/api/system/admin-password'' password_body
    (''Bearer '' @ the (GenerateToken toy_jwt 5 ''admin''))"
  obtain tok where tok: "GenerateToken toy_jwt 5 ''admin'' = Some tok" "tok \<noteq> []"
    "\<And>n. parseClaims toy_jwt n tok = (if n < Unix (5 + tokenExpire) * second
       then Some (token_claims ''admin'' 5) else None)"
    using token_facts [OF toy_jwt_ok, of 5 "''admin''"] by (auto simp: Unix_def second_def)
  have "rq_Authorization r = ''Bearer '' @ tok" using tok(1) by (simp add: r_def console_request_def)
  then have valid: "token_valid (console_env 6) r"
    using tok(2,3) by (simp add: token_valid_def Validate_parse console_env_def Unix_def tokenExpire_def second_def)
  have req: "password_request_of r = (\<lparr>pr_OldPassword = ''root'', pr_NewPassword = ''secret''\<rparr>, True)"
    unfolding r_def password_request_of_def console_request_def request.simps password_body_def
    by (subst Decode_object) (simp_all add: decode_password_def decode_struct_def find_field_def string_field_def)
  have trim: "TrimSpace ''secret'' = ''secret''"
    by (rule TrimSpace_id) (auto simp: space_seqs_def Cons_eq_append_conv append_eq_Cons_conv)
  have cfg: "server_config_ok (hs_cfg console_state)" "rsc_RouterServerPort (hs_cfg console_state) \<noteq> 0"
    "rsc_HTTPMonitorPort (hs_cfg console_state) \<noteq> 0" "rsc_AdminPassword (hs_cfg console_state) = ''root''"
    by (simp_all add: console_state_def default_server_config_def server_config_ok_def int64_range_def)
  have rq: "rq_Path r = ''/api/system/admin-password''" "rq_Method r = ''POST''" by (simp_all add: r_def console_request_def)
  obtain w h' where s: "serve (console_env 6) r console_state = (w, h')" by fastforce
  from password_update [OF valid rq(1) _ cfg(1-3) req s refl]
  have "hs_cfg h' = (hs_cfg console_state)\<lparr>rsc_AdminPassword := ''secret''\<rparr>"
    by (simp add: rq(2) cfg(4) trim)
  then show ?thesis unfolding r_def [symmetric] s by simp
qed

section \<open>What the console shows\<close>

lemma query_limit_pos: "0 < d \<Longrightarrow> 0 < m \<Longrightarrow> 0 < query_limit d m v"
  by (simp add: query_limit_def split: option.split)

definition shown :: "gostring \<Rightarrow> gostring \<Rightarrow> gostring \<Rightarrow> bool" where
  "shown keyword level line \<longleftrightarrow>
     (keyword = [] \<or> Contains (ToLower line) (ToLower keyword)) \<and> (level = ''all'' \<or> matchLogLevel line level)"

lemma filters_shown: "filter_level level (filter_keyword keyword lines) = filter (shown keyword level) lines"
  by (auto simp: filter_level_def filter_keyword_def shown_def intro: filter_cong)

lemma drop_lastn: "0 < k \<Longrightarrow> (if int (length xs) > k then drop (length xs - nat k) xs else xs) = lastn (nat k) xs"
  by (auto simp: lastn_def)

text \<open>
  The log page shows the last lines that match, searched for among all that are kept; the export
  with the same query searches only the last lines. After any writes into the empty ring, of at
  most 1000 lines, with a positive limit or the default of 200 lines and 1000 for the export.
\<close>

theorem log_views:
  assumes "lc_lines c = []" "0 < lc_capacity c" "lc_capacity c \<le> 1000"
    and "hs_logs h = fold (\<lambda>(stamp, p). snd \<circ> logCapture_Write stamp p) ws c"
    and "kept = lastn (nat (lc_capacity c)) (concat (List.map log_lines ws))"
    and "keyword = TrimSpace (rq_Query r ''keyword'')" "level = normalizeLogLevel (rq_Query r ''level'')"
    and "view = lastn (nat (query_limit 200 1000 (rq_Query r ''limit''))) (filter (shown keyword level) kept)"
  shows "fst (handleLogs env r h) = writeJSON 200 (success_data
      [(''lines'', JArr (List.map JStr view)), (''count'', jint (int (length view))),
       (''keyword'', JStr keyword), (''level'', JStr level)]) \<and>
    rs_Body (fst (handleLogsExport env r h)) =
      Join (filter (shown keyword level)
        (lastn (nat (query_limit 1000 5000 (rq_Query r ''limit''))) kept)) [CHR 0x0A]"
proof -
  have lines: "lc_lines (hs_logs h) = kept"
    using capture_writes_lastn [of c "[]" ws] assms(1,2) by (simp add: assms(4,5))
  have "length kept \<le> 1000" using assms(3) by (simp add: assms(5))
  then have all: "lastn 1000 kept = kept" by (simp add: lastn_def)
  have limits: "0 < query_limit 200 1000 v" "0 < query_limit 1000 5000 v" for v
    by (simp_all add: query_limit_pos)
  have recent: "GetRecentProcessLogs 1000 (hs_logs h) = kept"
    "GetRecentProcessLogs (query_limit 1000 5000 v) (hs_logs h) = lastn (nat (query_limit 1000 5000 v)) kept" for v
    using limits(2) [of v] by (simp_all add: GetRecentProcessLogs_def getRecent_lastn lines all)
  have "fst (handleLogs env r h) = writeJSON 200 (success_data
      [(''lines'', JArr (List.map JStr view)), (''count'', jint (int (length view))),
       (''keyword'', JStr keyword), (''level'', JStr level)])"
    unfolding handleLogs_def Let_def recent filters_shown drop_lastn [OF limits(1)] assms(6-8) fst_conv ..
  moreover have "rs_Body (fst (handleLogsExport env r h)) =
      Join (filter (shown keyword level)
        (lastn (nat (query_limit 1000 5000 (rq_Query r ''limit''))) kept)) [CHR 0x0A]"
    unfolding handleLogsExport_def Let_def recent filters_shown assms(6,7) by simp
  ultimately show ?thesis ..
qed

theorem log_views_witness:
  "rs_Body (fst (handleLogsExport (console_env 5) (console_request ''GET'' ''/api/logs/export'' [] [])
     (console_state\<lparr>hs_logs := snd (logCapture_Write (\<lambda>_. ''t'') ''n'' globalLogs)\<rparr>))) = ''t n''"
proof -
  let ?h = "console_state\<lparr>hs_logs := snd (logCapture_Write (\<lambda>_. ''t'') ''n'' globalLogs)\<rparr>"
  have "hs_logs ?h = fold (\<lambda>(stamp, p). snd \<circ> logCapture_Write stamp p) [(\<lambda>_. ''t'', ''n'')] globalLogs" by simp
  moreover have "lc_lines globalLogs = []" "0 < lc_capacity globalLogs" "lc_capacity globalLogs \<le> 1000"
    by (simp_all add: globalLogs_def)
  moreover have "concat (List.map log_lines [(\<lambda>_. ''t'', ''n'')]) = [''t n'']"
    by (simp add: log_lines_def TrimSpace_letters)
  moreover have "shown [] ''all'' s" for s by (simp add: shown_def)
  ultimately show ?thesis
    using log_views [OF _ _ _ _ refl refl refl refl, of globalLogs ?h "[(\<lambda>_. ''t'', ''n'')]"
        "console_env 5" "console_request ''GET'' ''/api/logs/export'' [] []"]
    by (simp add: console_request_def normalizeLogLevel_def ToLower_def query_limit_def globalLogs_def lastn_def)
qed

text \<open>The rows of the router list, in order.\<close>

lemma router_rows_ids:
  "router_rows get keyword ns rv = (rows, rv') \<Longrightarrow>
     \<exists>geos. length geos = length (filter (\<lambda>n. keyword = [] \<or> Contains (ToLower (snap_RouterId n)) keyword) ns) \<and>
       rows = List.map2 router_row geos
         (filter (\<lambda>n. keyword = [] \<or> Contains (ToLower (snap_RouterId n)) keyword) ns)"
proof (induction ns arbitrary: rv rows rv')
  case (Cons n ns)
  show ?case
  proof (cases "keyword \<noteq> [] \<and> \<not> Contains (ToLower (snap_RouterId n)) keyword")
    case True
    with Cons show ?thesis by auto
  next
    case False
    then obtain geo rv1 rows1 where step: "resolveIPGeo get (snap_RemoteIP n) rv = (geo, rv1)"
      "router_rows get keyword ns rv1 = (rows1, rv')" "rows = router_row geo n # rows1"
      using Cons.prems by (auto split: prod.splits)
    from Cons.IH [OF step(2)] obtain geos where
      "length geos = length (filter (\<lambda>n. keyword = [] \<or> Contains (ToLower (snap_RouterId n)) keyword) ns)"
      "rows1 = List.map2 router_row geos
         (filter (\<lambda>n. keyword = [] \<or> Contains (ToLower (snap_RouterId n)) keyword) ns)" by blast
    with False step(3) show ?thesis by (intro exI [of _ "geo # geos"]) auto
  qed
qed simp

lemma range_map_fst: "enumerates ks m \<Longrightarrow> List.map fst (range_map ks m) = ks"
  by (auto simp: map_fst_range_map enumerates_def filter_id_conv)

text \<open>
  The console shows the session table as it is: the list of routes names exactly the ids with a
  session, each once, a single id is found exactly if it has one, and the list of routers has one
  row for each id that contains the keyword, up to case.
\<close>

theorem console_shows_sessions:
  assumes "server_ok (hs_srv h)" "enumerates (he_sessions env) (srv_sessions (hs_srv h))"
    and "ids = he_sessions env" "kw = ToLower (TrimSpace (rq_Query r ''keyword''))"
    and "TrimSpace (rq_Query r ''routeId'') \<noteq> []"
  shows "set ids = dom (srv_sessions (hs_srv h)) \<and> distinct ids \<and>
    fst (handleAvailableRoutes env r h) = writeJSON 200 (success_data
      [(''routeIds'', JArr (List.map JStr ids)), (''count'', jint (int (length ids)))]) \<and>
    fst (handleValidateRouteId env r h) = writeJSON 200 (json_map
      [(''success'', JBool True), (''exists'', JBool (rq_Query r ''routeId'' \<in> set ids)),
       (''routeId'', JStr (rq_Query r ''routeId'')),
       (''message'', JStr (if rq_Query r ''routeId'' \<in> set ids then ([CHR 0xE8, CHR 0xB7, CHR 0xAF,
        CHR 0xE7, CHR 0x94, CHR 0xB1, CHR 0xE8, CHR 0x8A, CHR 0x82, CHR 0xE7, CHR 0x82, CHR 0xB9, CHR 0xE5,
        CHR 0xAD, CHR 0x98, CHR 0xE5, CHR 0x9C, CHR 0xA8]) else no_such_node))]) \<and>
    (\<exists>rows. fst (handleRouters env r h) = writeJSON 200 (success_data
       [(''routers'', JArr rows), (''list'', JArr rows), (''total'', jint (int (length rows))),
        (''online'', jint (int (length rows))), (''offline'', jint 0)]) \<and>
       (\<exists>snaps geos. List.map snap_RouterId snaps = filter (\<lambda>k. kw = [] \<or> Contains (ToLower k) kw) ids \<and>
          length geos = length snaps \<and> rows = List.map2 router_row geos snaps))"
proof -
  let ?m = "srv_sessions (hs_srv h)"
  have ids: "set ids = dom ?m" "distinct ids" using assms(2,3) by (auto simp: enumerates_def)
  have ok: "sessions_ok ?m" using assms(1) by (rule server_okD)
  have "sess_RouterId s = k" if "(k, s) \<in> set (range_map ids ?m)" for k s
    using that sessions_okD [OF ok] by auto
  then have "List.map (\<lambda>(_, s). sess_RouterId s) (range_map ids ?m) = List.map fst (range_map ids ?m)"
    by (intro map_cong) auto
  then have ids_eq: "List.map (\<lambda>(_, s). sess_RouterId s) (range_map ids ?m) = ids"
    using range_map_fst assms(2,3) by metis
  have routes: "List.map node_RouterId (GetAllRouteNodeList ids ?m) = ids"
    using ids_eq by (simp add: GetAllRouteNodeList_def comp_def case_prod_beta')
  let ?snaps = "GetAllSessionSnapshots (srv_net (hs_srv h)) ids ?m"
  have snaps: "List.map snap_RouterId ?snaps = ids"
    using ids_eq by (simp add: GetAllSessionSnapshots_def comp_def case_prod_beta' Let_def split: prod.split option.split)
  obtain rows rv where rows: "router_rows (he_web env) kw ?snaps (hs_geo h) = (rows, rv)" by force
  from router_rows_ids [OF rows] obtain geos where geos:
    "length geos = length (filter (\<lambda>n. kw = [] \<or> Contains (ToLower (snap_RouterId n)) kw) ?snaps)"
    "rows = List.map2 router_row geos (filter (\<lambda>n. kw = [] \<or> Contains (ToLower (snap_RouterId n)) kw) ?snaps)"
    by blast
  have "List.map snap_RouterId (filter (\<lambda>n. kw = [] \<or> Contains (ToLower (snap_RouterId n)) kw) ?snaps) =
      filter (\<lambda>k. kw = [] \<or> Contains (ToLower k) kw) (List.map snap_RouterId ?snaps)"
    by (simp add: filter_map comp_def)
  moreover have "fst (handleRouters env r h) = writeJSON 200 (success_data
       [(''routers'', JArr rows), (''list'', JArr rows), (''total'', jint (int (length rows))),
        (''online'', jint (int (length rows))), (''offline'', jint 0)])"
    using rows by (simp add: handleRouters_def assms(3,4) Let_def)
  ultimately have "\<exists>rows. fst (handleRouters env r h) = writeJSON 200 (success_data
       [(''routers'', JArr rows), (''list'', JArr rows), (''total'', jint (int (length rows))),
        (''online'', jint (int (length rows))), (''offline'', jint 0)]) \<and>
       (\<exists>snaps geos. List.map snap_RouterId snaps = filter (\<lambda>k. kw = [] \<or> Contains (ToLower k) kw) ids \<and>
          length geos = length snaps \<and> rows = List.map2 router_row geos snaps)"
    using geos snaps by metis
  moreover have "fst (handleValidateRouteId env r h) = writeJSON 200 (json_map
      [(''success'', JBool True), (''exists'', JBool (rq_Query r ''routeId'' \<in> set ids)),
       (''routeId'', JStr (rq_Query r ''routeId'')),
       (''message'', JStr (if rq_Query r ''routeId'' \<in> set ids then ([CHR 0xE8, CHR 0xB7, CHR 0xAF, CHR 0xE7, CHR 0x94, CHR 0xB1, CHR 0xE8, CHR 0x8A, CHR 0x82, CHR 0xE7, CHR 0x82, CHR 0xB9, CHR 0xE5, CHR 0xAD, CHR 0x98, CHR 0xE5, CHR 0x9C, CHR 0xA8]) else no_such_node))])"
    using assms(5) ids(1) by (simp add: handleValidateRouteId_def GetSession_def domIff Let_def)
  ultimately show ?thesis
    using ids routes by (simp add: handleAvailableRoutes_def flip: assms(3))
qed

theorem console_shows_sessions_witness:
  "fst (handleAvailableRoutes (console_env 5) (console_request ''GET'' [] [] []) console_state) =
     writeJSON 200 (success_data [(''routeIds'', JArr [JStr ''n'', JStr ''m'']), (''count'', jint 2)])"
proof -
  let ?r = "(console_request ''GET'' [] [] [])\<lparr>rq_Query := \<lambda>_. ''n''\<rparr>"
  have "enumerates (he_sessions (console_env 5)) (srv_sessions (hs_srv console_state))"
    by (auto simp: console_env_def console_state_def scene3_state enumerates_def)
  moreover have "server_ok (hs_srv console_state)" by (simp add: console_state_def scene3_ok)
  moreover have "TrimSpace (rq_Query ?r ''routeId'') \<noteq> []" by (simp add: TrimSpace_letters)
  ultimately have "fst (handleAvailableRoutes (console_env 5) ?r console_state) =
     writeJSON 200 (success_data [(''routeIds'', JArr [JStr ''n'', JStr ''m'']), (''count'', jint 2)])"
    using console_shows_sessions [OF _ _ refl refl, of console_state "console_env 5" ?r]
    by (simp add: console_env_def)
  then show ?thesis by (simp add: handleAvailableRoutes_def)
qed

section \<open>Debug calls\<close>

lemma Decode_debug_range: "int64_range (dr_PacketId (fst (Decode decode_debug_request zero_debug_request body)))"
proof -
  have "int64_range (dr_PacketId (fst (decode_debug_request v)))" for v
    unfolding decode_debug_request_def
    by (rule decode_struct_inv)
      (auto simp: zero_debug_request_def string_field_def int_field_def slice_field_def split: json.splits option.splits)
  then show ?thesis by (simp add: Decode_def zero_debug_request_def split: option.split)
qed

text \<open>
  The parameters of a debug call reach the node as they were written, for JSON values without
  fractions, with integers that \<open>float64\<close> holds and with sorted keys; the next integer after
  2\<open>^\<close>53 arrives as another number.
\<close>

theorem debug_params:
  assumes "list_all any_exact ps" "int64_range packetId"
    and "body = json_print (JObj [(''targetRouteId'', JStr target), (''packetId'', jint packetId), (''params'', JArr ps)])"
    and "body' = json_print (JObj [(''targetRouteId'', JStr target), (''packetId'', jint packetId),
           (''params'', JArr [jint 9007199254740993])])"
  shows "Decode decode_debug_request zero_debug_request body =
      (\<lparr>dr_TargetRouteId = target, dr_PacketId = packetId, dr_Params = Some ps\<rparr>, True) \<and>
    debug_args (fst (Decode decode_debug_request zero_debug_request body)) = List.map json_print ps \<and>
    debug_args (fst (Decode decode_debug_request zero_debug_request body')) = [Itoa 9007199254740992]"
proof -
  have exact: "any_value v = v" "any_ok v" "wf_json v" if "v \<in> set ps" for v
    using any_value_exact assms(1) that by (auto simp: list_all_iff)
  then have ps: "decode_slice decode_any (JArr ps) = (Some ps, True)" "wf_json (JArr ps)"
    by (auto simp: decode_slice_def decode_any_def comp_def list_all_iff intro: map_idI)
  have fields: "decode_debug_request (JObj [(''targetRouteId'', JStr target), (''packetId'', jint packetId), (''params'', JArr vs)]) =
      (\<lparr>dr_TargetRouteId = target, dr_PacketId = packetId, dr_Params = fst (decode_slice decode_any (JArr vs))\<rparr>,
       snd (decode_slice decode_any (JArr vs)))" for vs
    using assms(2) by (simp add: decode_debug_request_def decode_struct_def find_field_def string_field_def
        slice_field_def zero_debug_request_def)
  have body: "Decode decode_debug_request zero_debug_request body =
      (\<lparr>dr_TargetRouteId = target, dr_PacketId = packetId, dr_Params = Some ps\<rparr>, True)"
    unfolding assms(3) using ps(2) by (subst Decode_object) (simp_all add: fields ps(1))
  have "float_ok (Itoa 9007199254740993)"
    by (simp add: float_ok_def number_parts_Itoa float_trunc_def bit_length.simps round_half_even_def Let_def)
  then have "decode_slice decode_any (JArr [jint 9007199254740993]) = (Some [jint 9007199254740992], True)"
    by (simp add: decode_slice_def decode_any_def float_text_rounds)
  then have "fst (Decode decode_debug_request zero_debug_request body') =
      \<lparr>dr_TargetRouteId = target, dr_PacketId = packetId, dr_Params = Some [jint 9007199254740992]\<rparr>"
    unfolding assms(4) by (subst Decode_object) (simp_all add: fields)
  with body show ?thesis by (simp add: debug_args_def)
qed

theorem debug_params_witness:
  "debug_args (fst (Decode decode_debug_request zero_debug_request (json_print (JObj
     [(''targetRouteId'', JStr ''m''), (''packetId'', jint 7), (''params'', JArr [JStr ''x'', jint 5])])))) =
   [quote ''x'', Itoa 5]"
  using debug_params [OF _ _ refl refl, of "[JStr ''x'', jint 5]" 7 "''m''"]
  by (simp add: int64_range_def debug_args_def)

subsection \<open>There and back\<close>

lemma plain_Itoa: "plain (Itoa i)" "Itoa i \<noteq> []"
proof -
  have "escape_char c = [c] \<and> c \<noteq> CHR 0x22" if "c \<in> set (Itoa i)" for c
    using Itoa_chars [OF that] by (auto simp: is_digit_def escape_char_def Let_def)
  then show "plain (Itoa i)" by (simp add: plain_def list_all_iff)
  show "Itoa i \<noteq> []" using Itoa_Cons [of i] by auto
qed

text \<open>The request that the node reads.\<close>

definition debug_RpcRequest :: "gostring \<Rightarrow> debug_request \<Rightarrow> RpcRequest" where
  "debug_RpcRequest uid req = zero_RpcRequest
     \<lparr>req_RpcUid := uid, req_PacketId := dr_PacketId req, req_MethodArgsJsonList := Some (debug_args req)\<rparr>"

lemma debug_rpc_json:
  "debug_rpc uid req = JObj [(''fromDebug'', JBool True),
     (''methodArgsJsonList'', JArr (List.map JStr (debug_args req))), (''packetId'', jint (dr_PacketId req)),
     (''rpcUid'', JStr uid)]"
  by (simp add: debug_rpc_def json_map_def map_entries_def)

lemma debug_rpc_decodes:
  assumes "int64_range (dr_PacketId req)"
  shows "Unmarshal decode_RpcRequest zero_RpcRequest (json_print (debug_rpc uid req)) = (debug_RpcRequest uid req, True)"
proof -
  have args: "enc_slice JStr (Some (debug_args req)) = JArr (List.map JStr (debug_args req))"
    by (simp add: enc_slice_def)
  have "wf_json (debug_rpc uid req)"
    unfolding debug_rpc_json args [symmetric] by simp
  moreover have "decode_RpcRequest (debug_rpc uid req) = (debug_RpcRequest uid req, True)"
    using assms unfolding debug_rpc_json args [symmetric]
    by (simp add: decode_RpcRequest_def decode_struct_def find_field_def EqualFold_def ToLower_def lower_char_def
        string_field_def zero_RpcRequest_def debug_RpcRequest_def)
  ultimately show ?thesis by (simp add: Unmarshal_def)
qed

lemma debug_message_client:
  "debug_message uid req = client_message ''debug-admin'' (dr_TargetRouteId req) RouteMessageTypeRpcRequest
     (json_print (debug_rpc uid req))"
  by (simp add: debug_message_def client_message_def)

lemma result_of_response:
  assumes "RpcResponse_ok resp" "resp_StartTimeMs resp = 0" "\<bar>resp_PacketId resp\<bar> < 2 ^ 53"
  shows "result_object (Marshal json_RpcResponse resp) = (case json_RpcResponse resp of JObj members \<Rightarrow> json_map members)"
proof -
  have "json_parse (Marshal json_RpcResponse resp) = Some (json_RpcResponse resp)"
    using resp.enc_wf [OF assms(1)] by (simp add: Marshal_def)
  moreover have "any_ok (json_RpcResponse resp)"
    using assms(2,3) by (simp add: json_RpcResponse_def float_Itoa)
  moreover have "any_value (json_RpcResponse resp) = (case json_RpcResponse resp of JObj members \<Rightarrow> json_map members)"
    using assms(2,3) by (simp add: json_RpcResponse_def float_text_Itoa float_Itoa json_map_def)
  ultimately show ?thesis by (simp add: result_object_def)
qed

text \<open>
  C20: a debug call comes back. An accepted call writes one frame to the connection of the node it
  names; the node reads it, invokes the handler on the parameters and answers in one frame
  addressed to the console; and once the router has read that frame, the console's query for the
  request id returns the whole response, holding what the handler gave, value or error.
\<close>

theorem debug_call:
  assumes "debug_accepted r h req t" "\<not> net_closed (srv_net (hs_srv h)) (sess_Conn t)"
    and "uid = Itoa (UnixMilli (he_now env))" "p = payload_of (debug_message uid req)" "payload_ok p"
    and "connected_node b" "conn_open b" "n_routeId b \<noteq> ''debug-admin''"
    and "resp = relay_response (debug_RpcRequest uid req) (n_stubs b)"
    and "q = response_payload b ''debug-admin'' (debug_RpcRequest uid req)" "payload_ok q"
    and "\<bar>dr_PacketId req\<bar> < 2 ^ 53"
    and "hs_srv h2 = handleConn_turn ks now c (Inr q) s" "rq_Query r2 ''requestId'' = uid"
  shows "net_out (srv_net (hs_srv (snd (handleDebugSendRpc env r h)))) (sess_Conn t) =
      net_out (srv_net (hs_srv h)) (sess_Conn t) @ EncodeFrame p \<and>
    node_sent (snd (readLoop_turn True (Inr p) b)) = node_sent b @ EncodeFrame q \<and>
    fst (handleDebugRpcResult env2 r2 h2) = writeJSON 200 (json_map [(''success'', JBool True),
      (''data'', case json_RpcResponse resp of JObj members \<Rightarrow> json_map members)]) \<and>
    response_outcome resp = invoke_outcome (Invoke (dr_PacketId req) (debug_args req) (n_stubs b))"
proof -
  have range: "int64_range (dr_PacketId req)"
    using assms(1) Decode_debug_range by (auto simp: debug_accepted_def)
  have sent: "net_out (srv_net (hs_srv (snd (handleDebugSendRpc env r h)))) (sess_Conn t) =
      net_out (srv_net (hs_srv h)) (sess_Conn t) @ EncodeFrame p"
    using handleDebugSendRpc_accepted(2) [OF assms(1), of env] assms(2)
    by (simp add: WriteRouteMessage_out wire_def assms(3,4))
  have "DecodeRouteMessagePayload p = Inr (debug_message uid req)"
    using client_message_decodes assms(5) unfolding assms(4) debug_message_client by simp
  then have answer: "node_sent (snd (readLoop_turn True (Inr p) b)) = node_sent b @ EncodeFrame q"
    using callee_answers_data [OF assms(6,7), of "debug_message uid req" p _ "debug_RpcRequest uid req"]
      debug_rpc_decodes [OF range] assms(8)
    by (simp add: debug_message_def assms(10))
  let ?m = "client_message (n_routeId b) ''debug-admin'' RouteMessageTypeRpcResponse (Marshal json_RpcResponse resp)"
  have q: "q = payload_of ?m" by (simp add: assms(9,10) response_payload_def)
  then have dec: "DecodeRouteMessagePayload q = Inr ?m"
    using client_message_decodes assms(11) by simp
  have uid: "resp_RpcUid resp = uid" "resp_StartTimeMs resp = 0" "resp_PacketId resp = dr_PacketId req"
    by (auto simp: assms(9) relay_response_def debug_RpcRequest_def zero_RpcRequest_def Let_def
        split: prod.split option.split)
  have "RpcRequest_ok (debug_RpcRequest uid req)"
    using range by (simp add: RpcRequest_ok_def debug_RpcRequest_def zero_RpcRequest_def)
  then have ok: "RpcResponse_ok resp" by (simp add: assms(9))
  have plain: "plain (resp_RpcUid resp)" "resp_RpcUid resp \<noteq> []" by (simp_all add: uid assms(3) plain_Itoa)
  from debug_response_kept [OF dec _ _ _ plain assms(13)]
  have "GetDebugResult (hs_srv h2) uid = (Marshal json_RpcResponse resp, True)" by (simp add: uid)
  then have result: "fst (handleDebugRpcResult env2 r2 h2) = writeJSON 200 (json_map [(''success'', JBool True),
      (''data'', case json_RpcResponse resp of JObj members \<Rightarrow> json_map members)])"
    using result_of_response [OF ok uid(2)] assms(12,14) plain(2) uid
    by (simp add: handleDebugRpcResult_def)
  have "response_outcome resp = invoke_outcome (Invoke (dr_PacketId req) (debug_args req) (n_stubs b))"
    by (simp add: assms(9) relay_response_outcome debug_RpcRequest_def zero_RpcRequest_def rawToJsonArgs_def)
  with sent answer result show ?thesis by blast
qed

text \<open>Node m with its method 7, which answers 42.\<close>

definition debug_stub :: RpcStubMetadata where
  "debug_stub = zero_RpcStubMetadata\<lparr>stub_PacketId := 7\<rparr>"

definition debug_session :: RouterSession where
  "debug_session = NewRouterSession ''m'' 8 (scene_info\<lparr>info_Stubs := Some [debug_stub]\<rparr>) 6"

definition debug_state :: monitor where
  "debug_state = console_state\<lparr>hs_srv := NewServer\<lparr>srv_sessions := [''m'' \<mapsto> debug_session]\<rparr>\<rparr>"

definition sample_debug :: debug_request where
  "sample_debug = \<lparr>dr_TargetRouteId = ''m'', dr_PacketId = 7, dr_Params = Some [JNum (Itoa 5)]\<rparr>"

definition debug_post :: request where
  "debug_post = console_request ''POST'' ''/api/debug/send-rpc'' (json_print (JObj
     [(''targetRouteId'', JStr ''m''), (''packetId'', jint 7), (''params'', JArr [jint 5])])) []"

definition debug_query :: request where
  "debug_query = (console_request ''GET'' ''/api/debug/rpc-result'' [] [])\<lparr>rq_Query := \<lambda>_. Itoa 0\<rparr>"

abbreviation debug_answer :: "byte list" where
  "debug_answer \<equiv> response_payload sample_b ''debug-admin'' (debug_RpcRequest (Itoa 0) sample_debug)"

lemma debug_post_accepted: "debug_accepted debug_post debug_state sample_debug debug_session"
proof -
  have "decode_debug_request (JObj [(''targetRouteId'', JStr ''m''), (''packetId'', jint 7), (''params'', JArr [jint 5])]) =
      (sample_debug, True)"
    by (simp add: decode_debug_request_def decode_struct_def find_field_def string_field_def slice_field_def
        decode_slice_def decode_any_def float_text_Itoa float_Itoa int64_range_def zero_debug_request_def sample_debug_def)
  then have "Decode decode_debug_request zero_debug_request (rq_Body debug_post) = (sample_debug, True)"
    unfolding debug_post_def console_request_def request.simps by (subst Decode_object) simp_all
  then show ?thesis
    by (simp add: debug_accepted_def debug_post_def console_request_def sample_debug_def debug_state_def
        debug_session_def NewRouterSession_def findStub_def debug_stub_def)
qed

lemma debug_payloads: "payload_ok (payload_of (debug_message (Itoa 0) sample_debug))" "payload_ok debug_answer"
proof -
  have "length (json_print (debug_rpc (Itoa 0) sample_debug)) < 1000" unfolding sample_debug_def by code_simp
  then show "payload_ok (payload_of (debug_message (Itoa 0) sample_debug))"
    by (simp add: payload_ok_def debug_message_def length_payload_of MaxFrameSize_def sample_debug_def)
  have "length (Marshal json_RpcResponse (relay_response (debug_RpcRequest (Itoa 0) sample_debug) answer_stubs)) < 1000"
    unfolding sample_debug_def answer_stubs_def by code_simp
  then show "payload_ok debug_answer"
    by (simp add: payload_ok_def response_payload_def length_payload_of MaxFrameSize_def sample_nodes)
qed

theorem debug_call_witness:
  "fst (handleDebugRpcResult (console_env 9) debug_query
     (debug_state\<lparr>hs_srv := handleConn_turn [] 9 8 (Inr debug_answer) NewServer\<rparr>)) =
   writeJSON 200 (json_map [(''success'', JBool True), (''data'', json_map
     [(''rpcUid'', JStr (Itoa 0)), (''errorFlag'', JBool False), (''errorMsg'', JStr []),
      (''startTimeMs'', jint 0), (''packetId'', jint 7), (''resultValueStr'', JStr ''42'')])])"
proof -
  let ?h2 = "debug_state\<lparr>hs_srv := handleConn_turn [] 9 8 (Inr debug_answer) NewServer\<rparr>"
  have open_conn: "\<not> net_closed (srv_net (hs_srv debug_state)) (sess_Conn debug_session)"
    by (simp add: debug_state_def NewServer_def)
  have uid: "Itoa 0 = Itoa (UnixMilli (he_now (console_env 5)))" by (simp add: console_env_def UnixMilli_def)
  have h2: "hs_srv ?h2 = handleConn_turn [] 9 8 (Inr debug_answer) NewServer" by simp
  have "fst (handleDebugRpcResult (console_env 9) debug_query ?h2) =
      writeJSON 200 (json_map [(''success'', JBool True), (''data'',
        case json_RpcResponse (relay_response (debug_RpcRequest (Itoa 0) sample_debug) (n_stubs sample_b)) of
          JObj members \<Rightarrow> json_map members)])"
    using debug_call [OF debug_post_accepted open_conn uid refl debug_payloads(1) sample_nodes(1,2) _ refl refl
        debug_payloads(2) _ h2, of debug_query "console_env 9"]
    by (simp add: sample_nodes sample_debug_def debug_query_def)
  moreover have "relay_response (debug_RpcRequest (Itoa 0) sample_debug) (n_stubs sample_b) =
      \<lparr>resp_RpcUid = Itoa 0, resp_ErrorFlag = False, resp_ErrorMsg = [], resp_StartTimeMs = 0,
       resp_PacketId = 7, resp_ResultValueStr = ''42''\<rparr>"
    by (simp add: relay_response_def sample_nodes debug_RpcRequest_def sample_debug_def zero_RpcRequest_def
        Invoke_def GetHandler_def answer_stubs_def toJsonOrString_def Let_def)
  ultimately show ?thesis by (simp add: json_RpcResponse_def)
qed

end
