(* ===== verification/Startup.thy ===== *)
theory Startup
  imports IpGeo
begin

text \<open>
  \<open>internal/VirtualRouterServer/startup_access_log.go\<close>: the addresses under which the server can be
  reached, as it logs them at its start. The network interfaces are an argument; a log record
  is its level, message and attributes.
\<close>

section \<open>Classes and text of addresses\<close>

definition IsUnspecified :: "ip \<Rightarrow> bool" where
  "IsUnspecified a \<longleftrightarrow> To4 a = Some [0, 0, 0, 0] \<or> a = replicate 16 0"

definition IsMulticast :: "ip \<Rightarrow> bool" where
  "IsMulticast a = (case To4 a of Some v \<Rightarrow> v ! 0 AND 0xf0 = 0xe0 | None \<Rightarrow> length a = 16 \<and> a ! 0 = 0xff)"

definition IsLinkLocalUnicast :: "ip \<Rightarrow> bool" where
  "IsLinkLocalUnicast a =
     (case To4 a of Some v \<Rightarrow> v ! 0 = 169 \<and> v ! 1 = 254
      | None \<Rightarrow> length a = 16 \<and> a ! 0 = 0xfe \<and> a ! 1 AND 0xc0 = 0x80)"

definition IsGlobalUnicast :: "ip \<Rightarrow> bool" where
  "IsGlobalUnicast a \<longleftrightarrow>
     (length a = 4 \<or> length a = 16) \<and> To4 a \<noteq> Some [255, 255, 255, 255] \<and>
     \<not> IsUnspecified a \<and> \<not> IsLoopback a \<and> \<not> IsMulticast a \<and> \<not> IsLinkLocalUnicast a"

fun hex_text :: "nat \<Rightarrow> gostring" where
  "hex_text n = (if n < 16 then [hex_digit n] else hex_text (n div 16) @ [hex_digit (n mod 16)])"

declare hex_text.simps [simp del]

fun hextets :: "ip \<Rightarrow> nat list" where
  "hextets (a # b # s) = (unat a * 256 + unat b) # hextets s"
| "hextets _ = []"

text \<open>Start and end of the first longest run of at least two zeros.\<close>

definition zero_run :: "nat list \<Rightarrow> (nat \<times> nat) option" where
  "zero_run gs =
     foldl (\<lambda>best i.
       let l = length (takeWhile (\<lambda>g. g = 0) (drop i gs)) in
       if l \<ge> 2 \<and> (case best of None \<Rightarrow> True | Some (a, b) \<Rightarrow> l > b - a) then Some (i, i + l) else best)
     None [0..<length gs]"

definition ip6_text :: "nat list \<Rightarrow> gostring" where
  "ip6_text gs =
     (case zero_run gs of
        None \<Rightarrow> Join (List.map hex_text gs) '':''
      | Some (i, j) \<Rightarrow>
          Join (List.map hex_text (take i gs)) '':'' @ ''::'' @ Join (List.map hex_text (drop j gs)) '':'')"

definition ip_String :: "ip \<Rightarrow> gostring" where
  "ip_String a =
     (if a = [] then ''<nil>''
      else (case To4 a of
        Some v \<Rightarrow> Join (List.map (\<lambda>b. nat_digits (unat b)) v) ''.''
      | None \<Rightarrow> if length a = 16 then ip6_text (hextets a)
                else ''?'' @ concat (List.map (\<lambda>b. [hex_digit (unat b div 16), hex_digit (unat b mod 16)]) a)))"

section \<open>Detection\<close>

datatype net_addr = IPNet ip | IPAddr ip | OtherAddr

record iface =
  if_Up :: bool
  if_Loopback :: bool
  if_Addrs :: "net_addr list option" \<comment> \<open>None: \<open>Addrs\<close> fails\<close>

definition ipFromAddr :: "net_addr \<Rightarrow> ip" where
  "ipFromAddr addr = (case addr of IPNet a \<Rightarrow> a | IPAddr a \<Rightarrow> a | OtherAddr \<Rightarrow> [])"

fun unique_loop :: "gostring list \<Rightarrow> gostring list \<Rightarrow> gostring list" where
  "unique_loop [] result = result"
| "unique_loop (value # vs) result =
     (let trimmed = TrimSpace value in
      if trimmed = [] \<or> trimmed \<in> set result then unique_loop vs result
      else unique_loop vs (result @ [trimmed]))"

definition uniqueSorted :: "gostring list \<Rightarrow> gostring list" where
  "uniqueSorted vs = sort_Slice string_less (unique_loop vs [])"

record startupHosts =
  sh_lan :: gostring
  sh_wan :: gostring

text \<open>The global unicast addresses of the interfaces that are up and not loopback, in order.\<close>

fun iface_ips :: "iface list \<Rightarrow> ip list" where
  "iface_ips [] = []"
| "iface_ips (i # is) =
     (if \<not> if_Up i \<or> if_Loopback i then iface_ips is
      else (case if_Addrs i of
        None \<Rightarrow> iface_ips is
      | Some addrs \<Rightarrow>
          filter (\<lambda>a. a \<noteq> [] \<and> IsGlobalUnicast a) (List.map ipFromAddr addrs) @ iface_ips is))"

definition detectStartupHosts :: "iface list option \<Rightarrow> startupHosts" where
  "detectStartupHosts ifaces =
     (let ips = (case ifaces of None \<Rightarrow> [] | Some is \<Rightarrow> iface_ips is);
          lans = uniqueSorted (List.map ip_String (filter IsPrivate ips));
          wans = uniqueSorted (List.map ip_String (filter (\<lambda>a. \<not> IsPrivate a) ips))
      in \<lparr>sh_lan = (case lans of [] \<Rightarrow> [] | x # _ \<Rightarrow> x), sh_wan = (case wans of [] \<Rightarrow> [] | x # _ \<Rightarrow> x)\<rparr>)"

section \<open>Log records\<close>

text \<open>\<open>net.JoinHostPort\<close> puts an IPv6 host into brackets.\<close>

definition formatHostPort :: "gostring \<Rightarrow> int \<Rightarrow> gostring" where
  "formatHostPort host port =
     (if CHR '':'' \<in> set host then ''['' @ host @ '']:'' @ Itoa port else host @ '':'' @ Itoa port)"

definition formatURL :: "gostring \<Rightarrow> gostring \<Rightarrow> int \<Rightarrow> gostring" where
  "formatURL scheme host port = scheme @ ''://'' @ formatHostPort host port"

datatype level = Info | Warn | LevelError

type_synonym log_entry = "level \<times> gostring \<times> (gostring \<times> gostring) list"

definition wan_hint :: gostring where
  "wan_hint = ([CHR 0xE8, CHR 0xAF, CHR 0xB7, CHR 0xE4, CHR 0xBD, CHR 0xBF, CHR 0xE7, CHR 0x94, CHR 0xA8,
        CHR 0xE6, CHR 0x9C, CHR 0x8D, CHR 0xE5, CHR 0x8A, CHR 0xA1, CHR 0xE5, CHR 0x99, CHR 0xA8, CHR 0xE5,
        CHR 0x85, CHR 0xAC, CHR 0xE7, CHR 0xBD, CHR 0x91] @ '' IP '' @ [CHR 0xE6, CHR 0x88, CHR 0x96,
        CHR 0xE7, CHR 0xAB, CHR 0xAF, CHR 0xE5, CHR 0x8F, CHR 0xA3, CHR 0xE6, CHR 0x98, CHR 0xA0, CHR 0xE5,
        CHR 0xB0, CHR 0x84, CHR 0xE5, CHR 0x9C, CHR 0xB0, CHR 0xE5, CHR 0x9D, CHR 0x80])"

definition logHTTPAccessURLs :: "startupHosts \<Rightarrow> gostring \<Rightarrow> int \<Rightarrow> log_entry list" where
  "logHTTPAccessURLs hosts serviceName port =
     (let entry = (\<lambda>scope host. (Info, ([CHR 0xE6, CHR 0x9C, CHR 0x8D, CHR 0xE5, CHR 0x8A, CHR 0xA1,
        CHR 0xE8, CHR 0xAE, CHR 0xBF, CHR 0xE9, CHR 0x97, CHR 0xAE, CHR 0xE5, CHR 0x9C, CHR 0xB0, CHR 0xE5, CHR 0x9D, CHR 0x80]),
            [(''service'', serviceName), (''scope'', scope), (''url'', formatURL ''http'' host port)])) in
      [entry ''localhost'' ''127.0.0.1'',
       if sh_lan hosts \<noteq> [] then entry ''lan'' (sh_lan hosts)
       else (Warn, ([CHR 0xE6, CHR 0x9C, CHR 0x8D, CHR 0xE5, CHR 0x8A, CHR 0xA1, CHR 0xE8, CHR 0xAE,
        CHR 0xBF, CHR 0xE9, CHR 0x97, CHR 0xAE, CHR 0xE5, CHR 0x9C, CHR 0xB0, CHR 0xE5, CHR 0x9D, CHR 0x80,
        CHR 0xE6, CHR 0x9C, CHR 0xAA, CHR 0xE6, CHR 0xA3, CHR 0x80, CHR 0xE6, CHR 0xB5, CHR 0x8B, CHR 0xE5,
        CHR 0x88, CHR 0xB0, CHR 0xE5, CHR 0x86, CHR 0x85, CHR 0xE7, CHR 0xBD, CHR 0x91] @ '' IP''), [(''service'', serviceName)]),
       if sh_wan hosts \<noteq> [] then entry ''wan'' (sh_wan hosts)
       else (Warn, ([CHR 0xE6, CHR 0x9C, CHR 0x8D, CHR 0xE5, CHR 0x8A, CHR 0xA1, CHR 0xE8, CHR 0xAE,
        CHR 0xBF, CHR 0xE9, CHR 0x97, CHR 0xAE, CHR 0xE5, CHR 0x9C, CHR 0xB0, CHR 0xE5, CHR 0x9D, CHR 0x80,
        CHR 0xE6, CHR 0x9C, CHR 0xAA, CHR 0xE6, CHR 0xA3, CHR 0x80, CHR 0xE6, CHR 0xB5, CHR 0x8B, CHR 0xE5,
        CHR 0x88, CHR 0xB0, CHR 0xE5, CHR 0x85, CHR 0xAC, CHR 0xE7, CHR 0xBD, CHR 0x91] @ '' IP''), [(''service'', serviceName), (''hint'', wan_hint)])])"

definition logTCPAccessAddresses :: "startupHosts \<Rightarrow> gostring \<Rightarrow> int \<Rightarrow> log_entry list" where
  "logTCPAccessAddresses hosts serviceName port =
     (let entry = (\<lambda>scope host. (Info, ([CHR 0xE6, CHR 0x9C, CHR 0x8D, CHR 0xE5, CHR 0x8A, CHR 0xA1,
        CHR 0xE8, CHR 0xBF, CHR 0x9E, CHR 0xE6, CHR 0x8E, CHR 0xA5, CHR 0xE5, CHR 0x9C, CHR 0xB0, CHR 0xE5, CHR 0x9D, CHR 0x80]),
            [(''service'', serviceName), (''scope'', scope), (''address'', formatHostPort host port)])) in
      [if sh_lan hosts \<noteq> [] then entry ''lan'' (sh_lan hosts)
       else (Warn, ([CHR 0xE6, CHR 0x9C, CHR 0x8D, CHR 0xE5, CHR 0x8A, CHR 0xA1, CHR 0xE8, CHR 0xBF,
        CHR 0x9E, CHR 0xE6, CHR 0x8E, CHR 0xA5, CHR 0xE5, CHR 0x9C, CHR 0xB0, CHR 0xE5, CHR 0x9D, CHR 0x80,
        CHR 0xE6, CHR 0x9C, CHR 0xAA, CHR 0xE6, CHR 0xA3, CHR 0x80, CHR 0xE6, CHR 0xB5, CHR 0x8B, CHR 0xE5,
        CHR 0x88, CHR 0xB0, CHR 0xE5, CHR 0x86, CHR 0x85, CHR 0xE7, CHR 0xBD, CHR 0x91] @ '' IP''), [(''service'', serviceName)]),
       if sh_wan hosts \<noteq> [] then entry ''wan'' (sh_wan hosts)
       else (Warn, ([CHR 0xE6, CHR 0x9C, CHR 0x8D, CHR 0xE5, CHR 0x8A, CHR 0xA1, CHR 0xE8, CHR 0xBF,
        CHR 0x9E, CHR 0xE6, CHR 0x8E, CHR 0xA5, CHR 0xE5, CHR 0x9C, CHR 0xB0, CHR 0xE5, CHR 0x9D, CHR 0x80,
        CHR 0xE6, CHR 0x9C, CHR 0xAA, CHR 0xE6, CHR 0xA3, CHR 0x80, CHR 0xE6, CHR 0xB5, CHR 0x8B, CHR 0xE5,
        CHR 0x88, CHR 0xB0, CHR 0xE5, CHR 0x85, CHR 0xAC, CHR 0xE7, CHR 0xBD, CHR 0x91] @ '' IP''), [(''service'', serviceName), (''hint'', wan_hint)])])"

section \<open>Properties\<close>

lemma unique_loop_result:
  "distinct result \<Longrightarrow> distinct (unique_loop vs result) \<and>
     set (unique_loop vs result) = set result \<union> (TrimSpace ` set vs - {[]})"
  by (induction vs result rule: unique_loop.induct) (auto simp: Let_def)

lemma sorted_insert_string:
  "sorted_wrt (\<lambda>a b. \<not> string_less b a) xs \<Longrightarrow> sorted_wrt (\<lambda>a b. \<not> string_less b a) (insert_by string_less x xs)"
proof (induction xs)
  case (Cons y ys)
  have set: "set (insert_by string_less x ys) = insert x (set ys)"
    by (metis insert_by_set set_mset_add_mset_insert set_mset_mset)
  show ?case
  proof (cases "string_less y x")
    case True
    then have "\<not> string_less x y" using string_less_trans string_less_irrefl by blast
    with True Cons set show ?thesis by auto
  next
    case False
    have "\<not> string_less z x" if "z \<in> set ys" for z
    proof
      assume "string_less z x"
      moreover have "x = y \<or> string_less x y" using False string_less_total by blast
      ultimately have "string_less z y" using string_less_trans by blast
      with Cons.prems that show False by auto
    qed
    with False Cons.prems show ?thesis by auto
  qed
qed simp

lemma sorted_strings: "sorted_wrt (\<lambda>a b. \<not> string_less b a) (sort_Slice string_less xs)"
  unfolding sort_Slice_def by (induction xs) (simp_all add: sorted_insert_string)

lemma uniqueSorted_result:
  "distinct (uniqueSorted vs)" "set (uniqueSorted vs) = TrimSpace ` set vs - {[]}"
  "sorted_wrt string_less (uniqueSorted vs)"
proof -
  show d: "distinct (uniqueSorted vs)" and "set (uniqueSorted vs) = TrimSpace ` set vs - {[]}"
    using unique_loop_result [of "[]" vs] by (simp_all add: uniqueSorted_def)
  have "sorted_wrt (\<lambda>a b. \<not> string_less b a) (uniqueSorted vs)"
    by (simp add: uniqueSorted_def sorted_strings)
  with d show "sorted_wrt string_less (uniqueSorted vs)"
    unfolding sorted_wrt_iff_nth_less distinct_conv_nth
    by (metis nat_neq_iff less_trans string_less_total)
qed

subsection \<open>The text of an address\<close>

definition addr_char :: "char \<Rightarrow> bool" where
  "addr_char c \<longleftrightarrow> (let n = (of_char c :: nat) in 46 \<le> n \<and> n \<le> 63 \<or> 97 \<le> n \<and> n \<le> 122)"

lemma hex_digit_char: "n < 16 \<Longrightarrow> addr_char (hex_digit n)"
  by (simp add: hex_digit_def addr_char_def)

lemma digits_chars: "list_all addr_char (nat_digits n)"
  using nat_digits_digits [of n] by (auto simp: list_all_iff addr_char_def is_digit_def Let_def)

lemma hex_text_chars: "list_all addr_char (hex_text n)"
proof (induction n rule: hex_text.induct)
  case (1 n)
  then show ?case by (subst hex_text.simps) (simp add: hex_digit_char)
qed

lemma Join_chars: "list_all P sep \<Longrightarrow> list_all (list_all P) xs \<Longrightarrow> list_all P (Join xs sep)"
  by (induction xs sep rule: Join.induct) simp_all

lemma ip_String_chars: "list_all addr_char (ip_String a)"
proof -
  have seps: "list_all addr_char '':''" "list_all addr_char ''.''" "list_all addr_char ''::''"
    "list_all addr_char ''<nil>''" "addr_char (CHR ''?'')" by (simp_all add: addr_char_def)
  have hex: "list_all (list_all addr_char) (List.map hex_text gs)" for gs
    by (simp add: list_all_iff) (simp add: hex_text_chars flip: list_all_iff)
  have byte: "addr_char (hex_digit (unat b div 16))" "addr_char (hex_digit (unat b mod 16))" for b :: byte
  proof -
    have "unat b < 2 ^ LENGTH(8)" by (rule unsigned_less)
    then show "addr_char (hex_digit (unat b div 16))" "addr_char (hex_digit (unat b mod 16))"
      by (auto intro!: hex_digit_char)
  qed
  have "list_all addr_char (ip6_text gs)" for gs
    using seps by (auto simp: ip6_text_def Join_chars hex split: option.splits)
  moreover have "list_all addr_char (concat (List.map (\<lambda>b. [hex_digit (unat b div 16), hex_digit (unat b mod 16)]) a))"
    by (induction a) (simp_all add: byte)
  moreover have "list_all addr_char (Join (List.map (\<lambda>b. nat_digits (unat b)) v) ''.'')" for v :: ip
    using seps digits_chars by (intro Join_chars) (simp_all add: list_all_iff)
  ultimately show ?thesis using seps by (auto simp: ip_String_def split: option.splits)
qed

lemma Join_nonempty: "xs \<noteq> [] \<Longrightarrow> hd xs \<noteq> [] \<Longrightarrow> Join xs sep \<noteq> []"
  by (cases "(xs, sep)" rule: Join.cases) auto

lemma hex_text_nonempty [simp]: "hex_text n \<noteq> []"
  by (subst hex_text.simps) simp

lemma ip_String_nonempty [simp]: "ip_String a \<noteq> []"
proof (cases "To4 a")
  case None
  have "ip6_text (hextets a) \<noteq> []" if "length a = 16"
  proof -
    from that obtain x y r where "a = x # y # r" by (auto simp: numeral_eq_Suc length_Suc_conv)
    then have "Join (List.map hex_text (hextets a)) '':'' \<noteq> []" by (intro Join_nonempty) simp_all
    then show ?thesis by (auto simp: ip6_text_def split: option.splits)
  qed
  with None show ?thesis by (simp add: ip_String_def)
next
  case (Some v)
  then have "v \<noteq> []" by (auto simp: To4_def split: if_splits)
  then have "Join (List.map (\<lambda>b. nat_digits (unat b)) v) ''.'' \<noteq> []"
    by (intro Join_nonempty) (simp_all add: hd_map)
  with Some show ?thesis by (simp add: ip_String_def)
qed

lemma TrimSpace_chars:
  assumes "list_all addr_char s"
  shows "TrimSpace s = s"
proof (rule TrimSpace_id)
  have no: "c \<in> set s \<Longrightarrow> addr_char c" for c using assms by (simp add: list_all_iff)
  have "\<not> addr_char (hd w)" "\<not> addr_char (last w)" "w \<noteq> []" if "w \<in> set space_seqs" for w
    using that by (auto simp: space_seqs_def addr_char_def)
  note sp = this
  show "s \<noteq> w @ t" if "w \<in> set space_seqs" for w t
    using sp [OF that] no [of "hd w"] by auto
  show "s \<noteq> t @ w" if "w \<in> set space_seqs" for w t
    using sp [OF that] no [of "last w"] by auto
qed

subsection \<open>The addresses that are logged\<close>

definition least_text :: "gostring \<Rightarrow> ip set \<Rightarrow> bool" where
  "least_text s A \<longleftrightarrow> (s = [] \<longleftrightarrow> A = {}) \<and> (A \<noteq> {} \<longrightarrow> s \<in> ip_String ` A) \<and> (\<forall>a \<in> A. \<not> string_less (ip_String a) s)"

lemma least_uniqueSorted:
  "least_text (case uniqueSorted (List.map ip_String as) of [] \<Rightarrow> [] | x # _ \<Rightarrow> x) (set as)"
proof -
  have "TrimSpace ` set (List.map ip_String as) - {[]} = ip_String ` set as"
    by (auto simp: TrimSpace_chars ip_String_chars image_image)
  with uniqueSorted_result [of "List.map ip_String as"]
  have res: "set (uniqueSorted (List.map ip_String as)) = ip_String ` set as"
    "sorted_wrt string_less (uniqueSorted (List.map ip_String as))" by simp_all
  show ?thesis
  proof (cases "uniqueSorted (List.map ip_String as)")
    case Nil
    with res(1) show ?thesis by (auto simp: least_text_def)
  next
    case (Cons x xs)
    have x: "x \<in> ip_String ` set as" using res(1) Cons by auto
    have "\<not> string_less (ip_String a) x" if "a \<in> set as" for a
    proof -
      have "ip_String a \<in> insert x (set xs)" using res(1) Cons that by auto
      moreover have "\<forall>y \<in> set xs. string_less x y" using res(2) Cons by simp
      ultimately show ?thesis using string_less_trans [of x "ip_String a" x] by auto
    qed
    with x Cons show ?thesis by (auto simp: least_text_def)
  qed
qed

text \<open>
  Of the global unicast addresses of the interfaces that are up and not loopback, the LAN host is
  a private one and the WAN host another one, each the one whose text comes first in byte order;
  a host is empty exactly if there is none.
\<close>

theorem startup_hosts:
  "least_text (sh_lan (detectStartupHosts (Some is))) {a \<in> set (iface_ips is). IsPrivate a} \<and>
   least_text (sh_wan (detectStartupHosts (Some is))) {a \<in> set (iface_ips is). \<not> IsPrivate a} \<and>
   set (iface_ips is) = {a. \<exists>i addrs. i \<in> set is \<and> if_Up i \<and> \<not> if_Loopback i \<and> if_Addrs i = Some addrs \<and>
     a \<in> ipFromAddr ` set addrs \<and> IsGlobalUnicast a}"
proof -
  have nonempty: "IsGlobalUnicast a \<Longrightarrow> a \<noteq> []" for a by (auto simp: IsGlobalUnicast_def)
  have "set (iface_ips is) = {a. \<exists>i addrs. i \<in> set is \<and> if_Up i \<and> \<not> if_Loopback i \<and> if_Addrs i = Some addrs \<and>
      a \<in> ipFromAddr ` set addrs \<and> IsGlobalUnicast a}"
    by (induction "is") (auto split: option.splits dest: nonempty)
  then show ?thesis
    using least_uniqueSorted [of "filter IsPrivate (iface_ips is)"]
      least_uniqueSorted [of "filter (\<lambda>a. \<not> IsPrivate a) (iface_ips is)"]
    by (simp add: detectStartupHosts_def Let_def)
qed

subsection \<open>Host and port\<close>

lemma Contains_char [simp]: "Contains s [c] \<longleftrightarrow> c \<in> set s"
  by (auto simp: Contains_iff in_set_conv_decomp)

lemma LastIndex_last:
  assumes "c \<notin> set q"
  shows "LastIndex (p @ c # q) [c] = int (length p)"
proof -
  let ?P = "\<lambda>i. HasPrefix (drop i (p @ c # q)) [c]"
  have at: "?P (length p)" by simp
  have none: "\<not> ?P i" if "length p < i" for i
  proof
    assume "?P i"
    then obtain t where t: "drop i (p @ c # q) = c # t" by (auto simp: HasPrefix_iff)
    have "drop i (p @ c # q) = drop (i - length p - 1) q" using that by (cases "i - length p") auto
    with t have "c \<in> set (drop (i - length p - 1) q)" by (metis list.set_intros(1))
    with assms show False by (auto dest: in_set_dropD)
  qed
  obtain i "is" where f: "filter ?P (rev [0..<Suc (length (p @ c # q))]) = i # is"
  proof (cases "filter ?P (rev [0..<Suc (length (p @ c # q))])")
    case Nil
    with at show thesis unfolding filter_Nil_rev_upt by (metis length_append less_add_Suc1 add.commute le_less_Suc_eq le_add1 not_less_eq)
  qed
  from filter_hd_rev_upt [OF f] at none [of i] have "i = length p"
    by (metis (no_types, lifting) length_append linorder_neqE_nat le_add1 le_imp_less_Suc)
  with f show ?thesis by (simp add: LastIndex_def del: upt_Suc)
qed

lemma Itoa_no_brackets: "c \<in> {CHR '':'', CHR ''['', CHR '']''} \<Longrightarrow> c \<notin> set (Itoa i)"
  using Itoa_chars [of c i] by (auto simp: is_digit_def)

lemma SplitHostPort_format:
  assumes "CHR ''['' \<notin> set host" "CHR '']'' \<notin> set host"
  shows "SplitHostPort (formatHostPort host port) = Some (host, Itoa port)"
proof (cases "CHR '':'' \<in> set host")
  case True
  then have fmt: "formatHostPort host port = (''['' @ host @ '']'') @ CHR '':'' # Itoa port"
    by (simp add: formatHostPort_def)
  have "LastIndex (formatHostPort host port) '':'' = int (length (''['' @ host @ '']''))"
    unfolding fmt by (rule LastIndex_last) (simp add: Itoa_no_brackets)
  then show ?thesis
    using assms Itoa_no_brackets by (simp add: SplitHostPort_def fmt butlast_append Let_def nat_add_distrib)
next
  case False
  then have fmt: "formatHostPort host port = host @ CHR '':'' # Itoa port"
    by (simp add: formatHostPort_def)
  have "LastIndex (formatHostPort host port) '':'' = int (length host)"
    unfolding fmt by (rule LastIndex_last) (simp add: Itoa_no_brackets)
  moreover have "\<not> HasPrefix host ''[''" using assms(1) by (auto simp: HasPrefix_iff)
  ultimately show ?thesis
    using False assms Itoa_no_brackets by (simp add: SplitHostPort_def fmt Let_def)
qed

text \<open>
  The address that is logged for an interface is one that clients can use: for every IP address
  and port, splitting the text at its port gives back the address's text and the port, IPv6 in
  brackets included, and the URL is that text behind the scheme.
\<close>

theorem logged_address_splits:
  "SplitHostPort (formatHostPort (ip_String a) port) = Some (ip_String a, Itoa port) \<and>
   formatURL ''http'' (ip_String a) port = ''http://'' @ formatHostPort (ip_String a) port"
proof -
  have "c \<in> set (ip_String a) \<Longrightarrow> addr_char c" for c
    using ip_String_chars [of a] by (simp add: list_all_iff)
  then have "CHR ''['' \<notin> set (ip_String a)" "CHR '']'' \<notin> set (ip_String a)"
    by (fastforce simp: addr_char_def)+
  then show ?thesis by (simp add: SplitHostPort_format formatURL_def)
qed

end
