(* ===== verification/ServerMain.thy ===== *)
theory ServerMain
  imports HttpProps Startup
begin

text \<open>
  The router process as a whole: \<open>Start\<close> of the router (\<open>internal/VirtualRouterServer/server.go\<close>)
  and of the console (\<open>http_server.go\<close>), the facade \<open>VirtualRouterServer/server.go\<close> and the
  program \<open>cmd/router-center/main.go\<close>. What the network answers (a port opens or not, what the
  next \<open>Accept\<close> or \<open>ListenAndServe\<close> returns) is a parameter.
\<close>

section \<open>Starting the router\<close>

definition started_entry :: "gostring \<Rightarrow> int \<Rightarrow> log_entry" where
  "started_entry message port = (Info, message, [(''port'', Itoa port)])"

text \<open>\<open>Start\<close> up to its accept loop: the error, or what it logged.\<close>

definition server_Start ::
  "bool \<Rightarrow> startupHosts \<Rightarrow> int \<Rightarrow> server \<Rightarrow> (gostring + log_entry list) \<times> server" where
  "server_Start listens hosts port s =
     (if \<not> listens then (Inl ''listen error'', s)
      else
        (Inr (started_entry ((''Router Server '' @ [CHR 0xE5, CHR 0x90, CHR 0xAF, CHR 0xE5, CHR 0x8A,
        CHR 0xA8, CHR 0xE6, CHR 0x88, CHR 0x90, CHR 0xE5, CHR 0x8A, CHR 0x9F])) port # logTCPAccessAddresses hosts ''Router Server'' port),
         s\<lparr>srv_listening := True\<rparr>))"

text \<open>One turn of the accept loop: whether \<open>Start\<close> goes on.\<close>

datatype accept_result = Accepted conn gostring | AcceptFailed

definition accept_turn :: "accept_result \<Rightarrow> server \<Rightarrow> bool \<times> server" where
  "accept_turn a s =
     (case a of
        Accepted c addr \<Rightarrow> (True, accept_conn c addr s)
      | AcceptFailed \<Rightarrow> (\<not> srv_shutdown s, s))"

text \<open>
  The loop, with what the other goroutines do before each \<open>Accept\<close> returns; it never ends by
  itself, so the list is what happens up to some time.
\<close>

fun accept_loop :: "((server \<Rightarrow> server) \<times> accept_result) list \<Rightarrow> server \<Rightarrow> bool \<times> server" where
  "accept_loop [] s = (True, s)"
| "accept_loop ((others, a) # as) s =
     (case accept_turn a (others s) of
        (True, s') \<Rightarrow> accept_loop as s'
      | (False, s') \<Rightarrow> (False, s'))"

text \<open>
  \<open>checkHeartbeat\<close> as a whole, other goroutines acting between the collection and the removal, and
  \<open>heartbeatLoop\<close>, with what they do before each of its turns.
\<close>

definition checkHeartbeat ::
  "gostring list \<Rightarrow> int \<Rightarrow> (server \<Rightarrow> server) \<Rightarrow> gostring list \<Rightarrow> server \<Rightarrow> server" where
  "checkHeartbeat ks now others ks' s =
     (let offline = collect_offline ks now (srv_sessions s)
      in checkHeartbeat_remove ks' offline (others (checkHeartbeat_collect ks now s)))"

fun heartbeatLoop ::
  "((server \<Rightarrow> server) \<times> gostring list \<times> int \<times> (server \<Rightarrow> server) \<times> gostring list) list \<Rightarrow>
     server \<Rightarrow> server" where
  "heartbeatLoop [] s = s"
| "heartbeatLoop ((minute, ks, now, others, ks') # turns) s =
     heartbeatLoop turns (checkHeartbeat ks now others ks' (minute s))"

section \<open>Starting the console\<close>

definition NewHttpServer :: "RouterServerConfig \<Rightarrow> server \<Rightarrow> int \<Rightarrow> files \<Rightarrow> logCapture \<Rightarrow> monitor" where
  "NewHttpServer cfg srv startTime disk logs =
     \<lparr>hs_cfg = cfg, hs_srv = srv, hs_startTime = startTime, hs_disk = disk, hs_logs = logs,
      hs_geo = globalIPCountryResolver\<rparr>"

text \<open>
  \<open>HttpServer.Start\<close> logs that it runs, then listens: what it logs, and the error it returns once
  \<open>ListenAndServe\<close> does.
\<close>

definition http_Start :: "startupHosts \<Rightarrow> int \<Rightarrow> gostring option \<Rightarrow> log_entry list \<times> gostring option" where
  "http_Start hosts port serves =
     (started_entry ((''HTTP Monitor '' @ [CHR 0xE5, CHR 0x90, CHR 0xAF, CHR 0xE5, CHR 0x8A, CHR 0xA8,
        CHR 0xE6, CHR 0x88, CHR 0x90, CHR 0xE5, CHR 0x8A, CHR 0x9F])) port # logHTTPAccessURLs hosts ''HTTP Monitor'' port, serves)"

section \<open>The programs\<close>

record center_env =
  ce_writer :: "rotatingFileWriter option"
  ce_hosts :: startupHosts
  ce_listens :: bool \<comment> \<open>the router's port opens\<close>
  ce_serves :: "gostring option" \<comment> \<open>the error of the console's \<open>ListenAndServe\<close>, if it returned\<close>
  ce_now :: int

text \<open>
  \<open>ct_exit\<close>: the status the process ends with by itself; \<open>None\<close>: it runs until a signal. The two
  goroutines log concurrently, so their entries are kept apart. \<open>main\<close> creates and starts both
  servers as \<open>StartServer\<close> does, but looks at their errors.
\<close>

record center =
  ct_exit :: "int option"
  ct_monitor :: "monitor option"
  ct_files :: files
  ct_logs :: process_logs
  ct_main_log :: "log_entry list"
  ct_http_log :: "log_entry list"

definition StartServer ::
  "center_env \<Rightarrow> RouterServerConfig \<Rightarrow> files \<Rightarrow> logCapture \<Rightarrow>
     ((gostring + log_entry list) \<times> (log_entry list \<times> gostring option)) \<times> monitor" where
  "StartServer env cfg disk logs =
     (case server_Start (ce_listens env) (ce_hosts env) (rsc_RouterServerPort cfg) NewServer of
        (started, srv) \<Rightarrow>
          ((started, http_Start (ce_hosts env) (rsc_HTTPMonitorPort cfg) (ce_serves env)),
           NewHttpServer cfg srv (ce_now env) disk logs))"

definition router_center_main :: "center_env \<Rightarrow> files \<Rightarrow> process_logs \<Rightarrow> center" where
  "router_center_main env fs pl0 =
     (let pl = InstallProcessLogCapture 800 (ce_writer env) pl0 in
      case ReadRouterServerConfig [] fs of
        (Inl err, fs') \<Rightarrow>
          \<lparr>ct_exit = Some 1, ct_monitor = None, ct_files = fs', ct_logs = pl,
           ct_main_log = [(LevelError, ([CHR 0xE8, CHR 0xAF, CHR 0xBB, CHR 0xE5, CHR 0x8F, CHR 0x96,
        CHR 0xE6, CHR 0x9C, CHR 0x8D, CHR 0xE5, CHR 0x8A, CHR 0xA1, CHR 0xE7, CHR 0xAB, CHR 0xAF, CHR 0xE9,
        CHR 0x85, CHR 0x8D, CHR 0xE7, CHR 0xBD, CHR 0xAE, CHR 0xE5, CHR 0xA4, CHR 0xB1, CHR 0xE8, CHR 0xB4,
        CHR 0xA5]), [(''error'', err)])], ct_http_log = []\<rparr>
      | (Inr cfg, fs') \<Rightarrow>
          (case StartServer env cfg fs' (pl_capture pl) of
             ((started, http_log, http_err), h) \<Rightarrow>
               let http_log = http_log @ (case http_err of None \<Rightarrow> [] | Some err \<Rightarrow>
                     [(Warn, ''http server stop'', [(''error'', err)])])
               in case started of
                    Inl err \<Rightarrow>
                      \<lparr>ct_exit = Some 1, ct_monitor = None, ct_files = fs', ct_logs = pl,
                       ct_main_log = [(LevelError, ''router server start error'', [(''error'', err)])],
                       ct_http_log = http_log\<rparr>
                  | Inr log \<Rightarrow>
                      \<lparr>ct_exit = None, ct_monitor = Some h, ct_files = fs', ct_logs = pl,
                       ct_main_log = log, ct_http_log = http_log\<rparr>))"

section \<open>Stopping\<close>

lemma turn_control:
  "srv_shutdown (handleConn_turn ks now c res s) = srv_shutdown s"
  "srv_accepted (handleConn_turn ks now c res s) = srv_accepted s"
  "srv_running (handleConn_turn ks now c res s) =
     (if isl res then (srv_running s)(c := False) else srv_running s)"
proof -
  have "same_control s (handleConn_turn ks now c res s)" if "\<not> isl res"
    using that by (cases res) (auto simp: handleConn_turn_def frame_rules)
  then show "srv_shutdown (handleConn_turn ks now c res s) = srv_shutdown s"
    "srv_accepted (handleConn_turn ks now c res s) = srv_accepted s"
    "srv_running (handleConn_turn ks now c res s) =
       (if isl res then (srv_running s)(c := False) else srv_running s)"
    by (cases "isl res"; auto simp: handleConn_turn_def handle_read_error_def same_control_def Let_def
        split: sum.split prod.split)+
qed

lemma remove_control:
  "srv_shutdown (checkHeartbeat_remove ks offline s) = srv_shutdown s"
  "srv_accepted (checkHeartbeat_remove ks offline s) = srv_accepted s"
  "srv_running (checkHeartbeat_remove ks offline s) = srv_running s"
  by (simp_all add: checkHeartbeat_remove_def split: prod.split)

lemmas control_simps = turn_control remove_control accept_conn_def checkHeartbeat_collect_def
  expire_debug_def Shutdown_def

lemma shutdown_step: "server_step s e s' \<Longrightarrow> srv_shutdown s' \<longleftrightarrow> srv_shutdown s \<or> e = DoShutdown"
  by (induction rule: server_step.induct) (auto simp: control_simps)

lemma shutdown_run: "server_run s es s' \<Longrightarrow> srv_shutdown s' \<longleftrightarrow> srv_shutdown s \<or> DoShutdown \<in> set es"
  by (induction rule: server_run.induct) (auto dest: shutdown_step)

definition reads_end :: "conn \<Rightarrow> server_event list \<Rightarrow> bool" where
  "reads_end c es \<longleftrightarrow> (\<exists>err now. Turn c (Inl err) now \<in> set es)"

lemma stopped_step:
  assumes "server_step s e s'" "srv_shutdown s"
  shows "srv_accepted s' = srv_accepted s \<and> (srv_running s' c \<longleftrightarrow> srv_running s c \<and> \<not> reads_end c [e])"
  using assms by (induction rule: server_step.induct) (auto simp: control_simps reads_end_def isl_def)

lemma stopped_run:
  assumes "server_run s es s'" "srv_shutdown s"
  shows "srv_accepted s' = srv_accepted s \<and> (srv_running s' c \<longleftrightarrow> srv_running s c \<and> \<not> reads_end c es)"
  using assms
proof (induction rule: server_run.induct)
  case (run_Cons s e s' es s'')
  then have "srv_shutdown s'" by (simp add: shutdown_step)
  with run_Cons stopped_step [OF run_Cons(1,4), of c] show ?case by (auto simp: reads_end_def)
qed (simp add: reads_end_def)

lemma server_run_append:
  "server_run s (es @ es') s' \<longleftrightarrow> (\<exists>s1. server_run s es s1 \<and> server_run s1 es' s')"
  by (induction es arbitrary: s) auto

text \<open>
  C36: \<open>Start\<close> goes on after every failed \<open>Accept\<close> until the first \<open>Shutdown\<close>, and returns at the first
  failed one after it. From then on no connection is accepted, but those that are open stay:
  each is served until its own read fails.
\<close>

theorem server_stops:
  assumes "server_run (snd (server_Start True hosts port NewServer)) es s1"
    and "s2 = Shutdown s1" "server_run s2 es' s'"
  shows "accept_turn AcceptFailed s1 = (DoShutdown \<notin> set es, s1) \<and>
    accept_loop ((\<lambda>_. s', AcceptFailed) # as) s2 = (False, s') \<and> server_ok s' \<and>
    srv_accepted s' = srv_accepted s1 \<and>
    (srv_running s' c \<longleftrightarrow> srv_running s1 c \<and> \<not> reads_end c es')"
proof -
  have start: "\<not> srv_shutdown (snd (server_Start True hosts port NewServer))"
    "server_ok (snd (server_Start True hosts port NewServer))"
    using server_ok_NewServer by (simp_all add: server_Start_def NewServer_def)
  have stopped: "srv_shutdown s2" by (simp add: assms(2) Shutdown_def)
  have "server_run s1 [DoShutdown] s2" by (simp add: assms(2))
  then have "server_ok s'"
    using server_ok_run [OF assms(1) start(2)] server_ok_run assms(3) by blast
  moreover have "srv_accepted s2 = srv_accepted s1" "srv_running s2 = srv_running s1"
    by (simp_all add: assms(2) Shutdown_def)
  ultimately show ?thesis
    using stopped_run [OF assms(3) stopped, of c] shutdown_run [OF assms(1)]
      shutdown_run [OF assms(3)] stopped start(1)
    by (simp add: accept_turn_def)
qed

theorem server_stops_witness:
  "srv_running (Shutdown (accept_conn 1 ''a:1'' NewServer)) 1 \<and>
   accept_loop [(\<lambda>_. Shutdown (accept_conn 1 ''a:1'' NewServer), AcceptFailed)]
     (Shutdown (accept_conn 1 ''a:1'' NewServer)) = (False, Shutdown (accept_conn 1 ''a:1'' NewServer))"
proof -
  let ?s = "accept_conn 1 ''a:1'' NewServer"
  have start: "snd (server_Start True \<lparr>sh_lan = [], sh_wan = []\<rparr> 9999 NewServer) = NewServer"
    by (simp add: server_Start_def NewServer_def)
  have run: "server_run NewServer [Accept 1 ''a:1''] ?s" by (simp add: NewServer_def)
  show ?thesis
    using server_stops [of "\<lparr>sh_lan = [], sh_wan = []\<rparr>" 9999 "[Accept 1 ''a:1'']" ?s "Shutdown ?s" "[]"
        "Shutdown ?s" "[]" 1, unfolded start, OF run refl run_Nil]
    by (simp add: accept_conn_def reads_end_def)
qed

section \<open>The first start and the next\<close>

definition router_state_ok :: "center \<Rightarrow> RouterServerConfig \<Rightarrow> bool" where
  "router_state_ok ct cfg \<longleftrightarrow>
     (\<exists>h. ct_monitor ct = Some h \<and> hs_cfg h = cfg \<and> server_ok (hs_srv h) \<and> srv_listening (hs_srv h) \<and>
        hs_disk h = ct_files ct)"

lemma router_center_runs:
  assumes "ReadRouterServerConfig [] fs = (Inr cfg, fs')"
  shows "ct_exit (router_center_main env fs pl) = (if ce_listens env then None else Some 1)"
    and "ce_listens env \<Longrightarrow> router_state_ok (router_center_main env fs pl) cfg"
    and "ct_files (router_center_main env fs pl) = fs'"
  using assms server_ok_NewServer
  by (simp_all add: router_center_main_def StartServer_def server_Start_def http_Start_def NewHttpServer_def
      router_state_ok_def NewServer_def Let_def)

text \<open>
  C37: started where there is no configuration, the router writes one and exits with status 1;
  started again it runs on the default configuration, whatever becomes of the console, from a state
  that satisfies the router's invariant, unless its port cannot be opened. It announces the
  console before listening, so also when the console's port cannot be opened.
\<close>

theorem router_center_starts:
  assumes "fs RouterServerConfigName = None" "start1 = router_center_main env fs pl"
    and "start2 = router_center_main env' (ct_files start1) pl'"
  shows "ct_exit start1 = Some 1 \<and> ct_monitor start1 = None \<and>
    ct_exit start2 = (if ce_listens env' then None else Some 1) \<and>
    (ce_listens env' \<longrightarrow> router_state_ok start2 default_server_config) \<and>
    hd (ct_http_log start2) = started_entry (''HTTP Monitor '' @ [CHR 0xE5, CHR 0x90, CHR 0xAF, CHR 0xE5,
        CHR 0x8A, CHR 0xA8, CHR 0xE6, CHR 0x88, CHR 0x90, CHR 0xE5, CHR 0x8A, CHR 0x9F]) 19999"
proof -
  have ok: "server_config_ok default_server_config"
    by (simp add: server_config_ok_def default_server_config_def int64_range_def)
  have one: "ReadRouterServerConfig [] fs = (Inl (generated_error RouterServerConfigName),
      writeDefault RouterServerConfigName (json_RouterServerConfig default_server_config) fs)"
    using assms(1) by (simp add: ReadRouterServerConfig_def)
  then have files: "ct_files start1 = writeDefault RouterServerConfigName (json_RouterServerConfig default_server_config) fs"
    and exit: "ct_exit start1 = Some 1" "ct_monitor start1 = None"
    by (simp_all add: assms(2) router_center_main_def)
  have two: "ReadRouterServerConfig [] (ct_files start1) = (Inr default_server_config, ct_files start1)"
    using Unmarshal_server_written [OF ok]
    by (simp add: files ReadRouterServerConfig_def writeDefault_def Let_def default_server_config_def)
  have "hd (ct_http_log start2) = started_entry (''HTTP Monitor '' @ [CHR 0xE5, CHR 0x90, CHR 0xAF, CHR 0xE5,
        CHR 0x8A, CHR 0xA8, CHR 0xE6, CHR 0x88, CHR 0x90, CHR 0xE5, CHR 0x8A, CHR 0x9F]) 19999"
    using two by (simp add: assms(3) router_center_main_def StartServer_def server_Start_def http_Start_def
        default_server_config_def Let_def)
  then show ?thesis
    using exit router_center_runs [OF two, of env' pl'] by (simp add: assms(3))
qed

definition quiet_start :: center_env where
  "quiet_start = \<lparr>ce_writer = None, ce_hosts = \<lparr>sh_lan = [], sh_wan = []\<rparr>, ce_listens = True,
     ce_serves = Some ''port in use'', ce_now = 0\<rparr>"

definition no_logs :: process_logs where
  "no_logs = \<lparr>pl_capture = globalLogs, pl_once = False, pl_file = None, pl_announced = False\<rparr>"

theorem router_center_starts_witness:
  "ct_exit (router_center_main quiet_start (ct_files (router_center_main quiet_start Map.empty no_logs)) no_logs) = None"
  using router_center_starts [of Map.empty _ quiet_start no_logs, OF _ refl refl, of quiet_start no_logs]
  by (simp add: quiet_start_def)

end
