(* ===== verification/Calls.thy ===== *)
theory Calls
  imports ClientProps
begin

text \<open>
  The ways to call another node: \<open>internal/rpc/direct_client.go\<close>, \<open>direct_provider.go\<close>,
  \<open>service_provider.go\<close> and \<open>relay_client.go\<close> put together. A direct call goes over the caller's
  own connection to the callee's stub server, a relayed call through the router, a call to
  oneself straight to the stub manager; the locale \<open>rpc_transport\<close> is what they share.
\<close>

section \<open>Direct calls as a whole\<close>

text \<open>
  \<open>de_between\<close>: what the read loop of the client does to the pending calls between the write of
  the request and the registration of its future.
\<close>

record direct_env =
  de_ok :: bool \<comment> \<open>the write succeeds\<close>
  de_nowMs :: int
  de_counter :: int
  de_between :: "futures \<Rightarrow> futures"

definition GetOrCreateProxy ::
  "direct_env \<Rightarrow> int \<Rightarrow> int \<Rightarrow> gostring list \<Rightarrow> DirectClient \<Rightarrow> futures \<Rightarrow> call_start \<times> byte list \<times> futures" where
  "GetOrCreateProxy env packetId timeout args c fm =
     (case direct_send (de_ok env) c (de_nowMs env) (de_counter env) packetId args of
        (Inl err, out) \<Rightarrow> (Returned [] err, out, fm)
      | (Inr rpcUid, out) \<Rightarrow>
          (case direct_register rpcUid (de_between env fm) of
             (future, fm') \<Rightarrow> (Waiting future timeout, out, fm')))"

definition DirectClient_Call ::
  "direct_env \<Rightarrow> int \<Rightarrow> int \<Rightarrow> gostring list \<Rightarrow> DirectClient \<Rightarrow> futures \<Rightarrow> call_start \<times> byte list \<times> futures" where
  "DirectClient_Call env packetId timeout args c fm = GetOrCreateProxy env packetId timeout args c fm"

text \<open>
  The loop of \<open>Start\<close> on what the callee sends; each turn consumes input, so its length is
  enough fuel.
\<close>

fun direct_readLoop :: "nat \<Rightarrow> tcp \<Rightarrow> futures \<Rightarrow> futures" where
  "direct_readLoop 0 conn fm = fm"
| "direct_readLoop (Suc fuel) conn fm =
     (case readRpcFrame conn of
        (Inl _, _) \<Rightarrow> fm
      | (Inr msg, conn') \<Rightarrow> direct_readLoop fuel conn' (direct_receive msg fm))"

text \<open>\<open>Start\<close>: the dial, the loop, and the deferred \<open>Close\<close>.\<close>

definition DirectClient_run ::
  "nat \<Rightarrow> bool \<Rightarrow> tcp \<Rightarrow> DirectClient \<Rightarrow> futures \<Rightarrow> DirectClient \<times> futures" where
  "DirectClient_run fuel dialled conn c fm =
     (if \<not> dialled then (c, fm)
      else (DirectClient_Close (DirectClient_Start True c), direct_readLoop fuel conn fm))"

section \<open>Service providers\<close>

text \<open>
  \<open>Call\<close> of the interface \<open>ServiceProvider\<close>, for both providers the route table hands out. The
  manager of direct calls is a global of its own.
\<close>

definition provider_Call ::
  "service_provider \<Rightarrow> call_env \<Rightarrow> direct_env \<Rightarrow> int \<Rightarrow> int \<Rightarrow> gostring list \<Rightarrow> node \<Rightarrow> futures \<Rightarrow>
     call_start \<times> byte list \<times> node \<times> futures" where
  "provider_Call p renv denv packetId timeout args n waits =
     (case p of
        RelayProvider target \<Rightarrow>
          (case relay_Call target renv packetId args n of (r, n') \<Rightarrow> (r, [], n', waits))
      | DirectProvider c \<Rightarrow>
          (case DirectClient_Call denv packetId timeout args (rt_store (n_table n) c) waits of
             (r, out, waits') \<Rightarrow> (r, out, n, waits')))"

text \<open>What an application does to call a node: ask the route table, then call.\<close>

definition remote_call ::
  "gostring \<Rightarrow> call_env \<Rightarrow> direct_env \<Rightarrow> int \<Rightarrow> int \<Rightarrow> gostring list \<Rightarrow> node \<Rightarrow> futures \<Rightarrow>
     call_start \<times> byte list \<times> node \<times> futures" where
  "remote_call target renv denv packetId timeout args n waits =
     (case GetRpcServiceProvider target (n_table n) of
        (Inl err, t) \<Rightarrow> (Returned [] (Some (Error err)), [], n\<lparr>n_table := t\<rparr>, waits)
      | (Inr p, t) \<Rightarrow> provider_Call p renv denv packetId timeout args (n\<lparr>n_table := t\<rparr>) waits)"

section \<open>The contract of a transport\<close>

text \<open>
  A transport carries a request to the callee and the answer back: receiving the answer
  completes the call's id with what the invocation gave, value or error.
\<close>

locale rpc_transport =
  fixes fits :: "'b \<Rightarrow> RpcRequest \<Rightarrow> bool"
    and stubs :: "'b \<Rightarrow> StubManager"
    and answer :: "'b \<Rightarrow> RpcRequest \<Rightarrow> byte list"
    and receive :: "byte list \<Rightarrow> futures \<Rightarrow> futures"
  assumes answered: "fits b req \<Longrightarrow> receive (answer b req) fm =
            complete (req_RpcUid req)
              (invoke_outcome (Invoke (req_PacketId req) (rawToJsonArgs (req_MethodArgsJsonList req)) (stubs b))) fm"
begin

text \<open>A call registered before its answer is decided by it, whatever other calls do in between.\<close>

lemma call_decided:
  assumes "fits b req" "futures_ok fm" "uid = req_RpcUid req"
    and "uid \<notin> op_uid ` set others" "fm1 = run_calls others (snd (register_new uid fm))"
  shows "outcome_of (fst (register_new uid fm)) (receive (answer b req) fm1) =
    Some (invoke_outcome (Invoke (req_PacketId req) (rawToJsonArgs (req_MethodArgsJsonList req)) (stubs b)))"
proof -
  let ?r = "invoke_outcome (Invoke (req_PacketId req) (rawToJsonArgs (req_MethodArgsJsonList req)) (stubs b))"
  have "receive (answer b req) fm1 = run_calls (others @ OpFinish uid ?r # []) (snd (register_new uid fm))"
    by (simp add: answered [OF assms(1)] assms(3,5) run_calls_def del: register_new_simps)
  then show ?thesis
    unfolding run_calls_def using calls.first_completion [OF assms(2,4), of ?r "[]"] by simp
qed

text \<open>A call registered after its answer never gets it.\<close>

lemma call_lost:
  assumes "fits b req" "futures_ok fm" "uid = req_RpcUid req"
    and "fm1 = receive (answer b req) fm" "uid \<notin> op_uid ` set others"
  shows "outcome_of (fst (register_new uid fm1)) (run_calls others (snd (register_new uid fm1))) = None"
  unfolding assms(4) answered [OF assms(1)] run_calls_def assms(3) [symmetric]
  by (rule calls.lost_completion [OF assms(2,5)])

end

section \<open>Direct transport\<close>

text \<open>A frame that arrives in one piece is read whole.\<close>

lemma readRpcFrame_frame:
  assumes "p \<noteq> []" "length p \<le> 1024 * 1024"
  shows "readRpcFrame [be32 (len32 p) @ p] = (Inr p, [])"
proof -
  have "length p < 2 ^ 32" using assms(2) by simp
  then have len: "uint (len32 p) = int (length p)" by (simp add: uint_nat)
  have "tcp_Read 4 [be32 (len32 p) @ p] = (Inr (be32 (len32 p)), [p])"
    using assms(1) by (simp add: be32_def neq_Nil_conv)
  moreover have "\<not> (int (length p) \<le> 0 \<or> int (length p) > 1024 * 1024)" using assms by auto
  ultimately have "readRpcFrame [be32 (len32 p) @ p] = tcp_ReadFull (length p) [p]"
    by (simp add: readRpcFrame_def Let_def len)
  then show ?thesis using tcp_ReadFull_chunk [OF assms(1), of "[]"] by simp
qed

definition direct_fits :: "StubManager \<Rightarrow> RpcRequest \<Rightarrow> bool" where
  "direct_fits m req \<longleftrightarrow> servable req \<and> req_RpcUid req \<noteq> [] \<and>
     length (Marshal json_RpcResponse (rpc_response req m)) \<le> 1024 * 1024"

definition request_frame :: "RpcRequest \<Rightarrow> byte list" where
  "request_frame req = be32 (len32 (request_bytes req)) @ request_bytes req"

text \<open>The stub server on a connection that carries one request, and the caller's loop on its answer.\<close>

definition direct_answer :: "StubManager \<Rightarrow> RpcRequest \<Rightarrow> byte list" where
  "direct_answer m req = stub_handleConn 2 m [request_frame req] []"

definition direct_deliver :: "byte list \<Rightarrow> futures \<Rightarrow> futures" where
  "direct_deliver w fm = direct_readLoop 2 [w] fm"

lemma direct_answer_frame:
  assumes "servable req" "req_RpcUid req \<noteq> []"
  shows "direct_answer m req = response_frame m req"
proof -
  have "readRpcFrame [request_frame req] = (Inr (request_bytes req), [])"
    using assms(1) readRpcFrame_frame [OF request_bytes_nonempty] by (simp add: request_frame_def servable_def)
  moreover have "Unmarshal decode_RpcRequest zero_RpcRequest (string_of (request_bytes req)) = (req, True)"
    using assms(1) by (simp add: request_bytes_def servable_def req.Unmarshal_Marshal)
  ultimately show ?thesis
    using assms(2) by (simp add: direct_answer_def response_frame_def numeral_2_eq_2) (simp add: readRpcFrame_def)
qed

lemma response_bytes_nonempty: "bytes_of (Marshal json_RpcResponse resp) \<noteq> []"
  by (simp add: bytes_of_def Marshal_def json_RpcResponse_def)

lemma direct_deliver_frame:
  assumes "RpcResponse_ok resp" "length (Marshal json_RpcResponse resp) \<le> 1024 * 1024"
  shows "direct_deliver (writeRpcFrame [] (bytes_of (Marshal json_RpcResponse resp))) fm =
    complete (resp_RpcUid resp) (response_outcome resp) fm"
proof -
  have "length (bytes_of (Marshal json_RpcResponse resp)) \<le> 1024 * 1024" using assms(2) by simp
  from readRpcFrame_frame [OF response_bytes_nonempty this]
  show ?thesis
    using direct_receive_complete [OF refl assms(1)]
    by (simp add: direct_deliver_def writeRpcFrame_def numeral_2_eq_2) (simp add: readRpcFrame_def)
qed

interpretation direct: rpc_transport direct_fits "\<lambda>m. m" direct_answer direct_deliver
proof
  fix m req fm
  assume fits: "direct_fits m req"
  then have req: "servable req" "req_RpcUid req \<noteq> []" "RpcRequest_ok req"
    by (simp_all add: direct_fits_def servable_def)
  have "RpcResponse_ok (rpc_response req m)" using req(3) by (simp add: rpc_response_eq)
  then have "direct_deliver (response_frame m req) fm =
      complete (req_RpcUid req) (response_outcome (rpc_response req m)) fm"
    using direct_deliver_frame [of "rpc_response req m"] fits
    by (simp add: response_frame_def direct_fits_def rpc_response_eq)
  then show "direct_deliver (direct_answer m req) fm =
      complete (req_RpcUid req)
        (invoke_outcome (Invoke (req_PacketId req) (rawToJsonArgs (req_MethodArgsJsonList req)) m)) fm"
    by (simp add: direct_answer_frame [OF req(1,2)] rpc_response_eq relay_response_outcome)
qed

section \<open>Relayed transport\<close>

text \<open>
  The callee's read loop on the request, as far as it writes; and the caller's read loop on
  those bytes. The router in between passes the frames on as they are.
\<close>

definition relay_request_payload :: "node \<Rightarrow> RpcRequest \<Rightarrow> byte list" where
  "relay_request_payload b req = payload_of
     (client_message (req_FromRouteId req) (n_routeId b) RouteMessageTypeRpcRequest (Marshal json_RpcRequest req))"

definition relay_fits :: "node \<Rightarrow> RpcRequest \<Rightarrow> bool" where
  "relay_fits b req \<longleftrightarrow> connected_node b \<and> conn_open b \<and> req_FromRouteId req \<noteq> n_routeId b \<and>
     RpcRequest_ok req \<and> payload_ok (relay_request_payload b req) \<and>
     payload_ok (response_payload b (req_FromRouteId req) req)"

definition relay_answer :: "node \<Rightarrow> RpcRequest \<Rightarrow> byte list" where
  "relay_answer b req =
     drop (length (node_sent b)) (node_sent (snd (readLoop_turn True (Inr (relay_request_payload b req)) b)))"

definition relay_deliver :: "node \<Rightarrow> byte list \<Rightarrow> futures \<Rightarrow> futures" where
  "relay_deliver a w fm =
     n_relay (snd (readLoop_turn True (fst (ReadFrame tcp_ReadFull [w])) (a\<lparr>n_relay := fm\<rparr>)))"

lemma relay_answer_frame:
  assumes "relay_fits b req"
  shows "relay_answer b req = EncodeFrame (response_payload b (req_FromRouteId req) req)"
  using callee_answers [of b "req_FromRouteId req" req "relay_request_payload b req"] assms
  by (simp add: relay_answer_def relay_fits_def relay_request_payload_def)

interpretation relay: rpc_transport relay_fits n_stubs relay_answer "relay_deliver a" for a
proof
  fix b req fm
  assume fits: "relay_fits b req"
  let ?q = "response_payload b (req_FromRouteId req) req" and ?resp = "relay_response req (n_stubs b)"
  have q: "payload_ok ?q" "RpcResponse_ok ?resp" using fits by (simp_all add: relay_fits_def)
  have "fst (ReadFrame tcp_ReadFull [EncodeFrame ?q]) = Inr ?q"
    using q(1) frame_of_stream_EncodeFrame [of ?q "[]"]
    by (simp add: tcp.ReadFrame_stream payload_ok_def)
  then have "relay_deliver a (relay_answer b req) fm = complete (req_RpcUid req) (response_outcome ?resp) fm"
    using caller_decided [OF q, OF response_payload_def, of True "a\<lparr>n_relay := fm\<rparr>"]
    by (simp add: relay_deliver_def relay_answer_frame [OF fits])
  then show "relay_deliver a (relay_answer b req) fm =
      complete (req_RpcUid req)
        (invoke_outcome (Invoke (req_PacketId req) (rawToJsonArgs (req_MethodArgsJsonList req)) (n_stubs b))) fm"
    by (simp add: relay_response_outcome)
qed

section \<open>Properties\<close>

lemma invokeLocal_outcome: "invokeLocal packetId args m = await_value (invoke_outcome (Invoke packetId args m))"
  by (auto simp: invokeLocal_def invoke_outcome_def await_value_def split: prod.split option.split)

lemma GetOrCreateProxy_waits:
  assumes "GetOrCreateProxy env packetId timeout args c fm = (Waiting g t, out, fm1)"
    and "req = direct_request c (de_nowMs env) (de_counter env) packetId args"
  shows "g = fst (register_new (req_RpcUid req) (de_between env fm))"
    "fm1 = snd (register_new (req_RpcUid req) (de_between env fm))"
    "out = request_frame req" "t = timeout"
  using assms
  by (auto simp: GetOrCreateProxy_def direct_send_def SendRpcMessage_def direct_register_def Let_def
      request_frame_def request_bytes_def simp del: register_new_simps split: if_splits prod.splits)

text \<open>
  C9: the three ways to call a method agree. A relayed call and a direct call to the same node return
  what a call inside that node returns, value or error, once their answers are in and unless
  their timers fire first, whatever other calls do in the meantime.
\<close>

theorem call_paths_agree:
  assumes "connected_node a" "conn_open a" "futures_ok (n_relay a)" "env_ok1 renv" "n_routeId b \<noteq> n_routeId a"
    and "req = relay_request (n_routeId b) renv packetId args a" "relay_fits b req"
    and "relay_Call (n_routeId b) renv packetId args a = (Waiting f t, a1)"
    and "n_relay a2 = run_calls others (n_relay a1)" "req_RpcUid req \<notin> op_uid ` set others"
    and "req' = direct_request c (de_nowMs denv) (de_counter denv) packetId args" "direct_fits (n_stubs b) req'"
    and "futures_ok (de_between denv waits)"
    and "DirectClient_Call denv packetId timeout args c waits = (Waiting g t', out, waits1)"
    and "waits2 = run_calls others' waits1" "req_RpcUid req' \<notin> op_uid ` set others'"
    and "relay_Call (n_routeId b) lenv packetId args b = (Returned v err, b1)"
  shows "Await t False pick (fm_store (relay_deliver a2 (relay_answer b req) (n_relay a2)) f) = Some (v, err) \<and>
    Await t' False pick (fm_store (direct_deliver (stub_handleConn 2 (n_stubs b) [out] []) waits2) g) = Some (v, err)"
proof -
  let ?r = "invoke_outcome (Invoke packetId args (n_stubs b))"
  have local: "(v, err) = await_value ?r"
    using assms(7,17)
    by (auto simp: relay_Call_def relay_fits_def invokeLocal_outcome split: prod.splits)
  obtain a' where "relay_Call (n_routeId b) renv packetId args a =
      (Waiting (fst (register_new (req_RpcUid req) (n_relay a))) (await_remaining (env_remaining2 renv)), a')"
    "n_relay a' = snd (register_new (req_RpcUid req) (n_relay a))"
    using relay_Call_sends [OF assms(1,2,5,4,6)] by blast
  then have f: "f = fst (register_new (req_RpcUid req) (n_relay a))"
    "n_relay a2 = run_calls others (snd (register_new (req_RpcUid req) (n_relay a)))"
    using assms(8,9) by auto
  have args: "req_PacketId req = packetId" "rawToJsonArgs (req_MethodArgsJsonList req) = args"
    "req_PacketId req' = packetId" "rawToJsonArgs (req_MethodArgsJsonList req') = args"
    by (simp_all add: assms(6,11) relay_request_def direct_request_def rawToJsonArgs_def)
  note g = GetOrCreateProxy_waits [OF assms(14) [unfolded DirectClient_Call_def] assms(11)]
  have "outcome_of f (relay_deliver a2 (relay_answer b req) (n_relay a2)) = Some ?r"
    using relay.call_decided [OF assms(7,3) refl assms(10) f(2)] f(1) args by simp
  moreover have "futures_ok (relay_deliver a2 (relay_answer b req) (n_relay a2))"
    unfolding relay.answered [OF assms(7)] f(2)
    by (rule futures_ok_complete [OF futures_ok_run [OF futures_ok_register [OF assms(3)]]])
  ultimately have relayed: "Await t False pick (fm_store (relay_deliver a2 (relay_answer b req) (n_relay a2)) f) =
      Some (v, err)"
    by (simp add: await_decided local)
  have "outcome_of g (direct_deliver (direct_answer (n_stubs b) req') waits2) = Some ?r"
    using direct.call_decided [OF assms(12,13) refl assms(16) assms(15) [unfolded g(2)]] g(1) args by simp
  moreover have "futures_ok (direct_deliver (direct_answer (n_stubs b) req') waits2)"
    unfolding direct.answered [OF assms(12)] assms(15) g(2)
    by (rule futures_ok_complete [OF futures_ok_run [OF futures_ok_register [OF assms(13)]]])
  ultimately have "Await t' False pick (fm_store (direct_deliver (direct_answer (n_stubs b) req') waits2) g) =
      Some (v, err)"
    by (simp add: await_decided local)
  with relayed show ?thesis by (simp add: direct_answer_def g(3))
qed

definition sample_direct :: DirectClient where
  "sample_direct = (NewDirectClient ''n'' ''m'' ''h'' 1)\<lparr>dc_conn := DialOpen\<rparr>"

definition sample_denv :: direct_env where
  "sample_denv = \<lparr>de_ok = True, de_nowMs = 1000, de_counter = 2, de_between = \<lambda>fm. fm\<rparr>"

definition sample_direct_req :: RpcRequest where
  "sample_direct_req = direct_request sample_direct 1000 2 7 []"

lemma sample_direct_fits: "direct_fits answer_stubs sample_direct_req"
proof -
  have "length (Marshal json_RpcRequest sample_direct_req) < 1000"
    unfolding sample_direct_req_def sample_direct_def by code_simp
  moreover have "length (Marshal json_RpcResponse (rpc_response sample_direct_req answer_stubs)) < 1000"
    unfolding sample_direct_req_def sample_direct_def answer_stubs_def by code_simp
  moreover have "RpcRequest_ok sample_direct_req" "req_RpcUid sample_direct_req \<noteq> []"
    by (simp_all add: RpcRequest_ok_def sample_direct_req_def direct_request_def int64_range_def GenerateRpcUid_def)
  ultimately show ?thesis by (simp add: direct_fits_def servable_def request_bytes_def)
qed

lemma sample_relay_fits: "relay_fits sample_b sample_req"
proof -
  have "RpcRequest_ok sample_req" "req_FromRouteId sample_req = ''n''"
    by (simp_all add: RpcRequest_ok_def sample_req_def relay_request_def sample_env_def int64_range_def sample_nodes)
  then show ?thesis
    using sample_payloads
    by (simp add: relay_fits_def sample_nodes relay_request_payload_def request_payload_def)
qed

theorem call_paths_agree_witness:
  "\<exists>out waits. DirectClient_Call sample_denv 7 5 [] sample_direct NewFutureManager = (Waiting 0 5, out, waits) \<and>
     Await 5 False False (fm_store (direct_deliver (stub_handleConn 2 answer_stubs [out] []) waits) 0) =
       Some (''42'', None)"
proof -
  obtain out waits where direct: "DirectClient_Call sample_denv 7 5 [] sample_direct NewFutureManager = (Waiting 0 5, out, waits)"
    by (simp add: DirectClient_Call_def GetOrCreateProxy_def direct_send_def SendRpcMessage_def sample_denv_def
        sample_direct_def direct_register_def register_new_def alloc_future_def Let_def NewFutureManager_def)
  obtain f t a1 where call: "relay_Call (n_routeId sample_b) sample_env 7 [] sample_a = (Waiting f t, a1)"
    using relay_Call_sends [of sample_a "''m''" sample_env sample_req 7 "[]"]
    by (auto simp: sample_nodes sample_env_def sample_req_def)
  have local: "relay_Call (n_routeId sample_b) sample_env 7 [] sample_b = (Returned ''42'' None, sample_b)"
    by (simp add: relay_Call_def sample_nodes invokeLocal_def Invoke_def GetHandler_def answer_stubs_def toJsonOrString_def)
  have req: "sample_req = relay_request (n_routeId sample_b) sample_env 7 [] sample_a"
    by (simp add: sample_req_def sample_nodes)
  have req': "sample_direct_req = direct_request sample_direct (de_nowMs sample_denv) (de_counter sample_denv) 7 []"
    by (simp add: sample_direct_req_def sample_denv_def)
  have none: "n_relay a1 = run_calls [] (n_relay a1)" "waits = run_calls [] waits" by (simp_all add: run_calls_def)
  show ?thesis
    using call_paths_agree [OF sample_nodes(1,2) _ _ _ req sample_relay_fits call none(1) _ req' _ _ direct none(2) _ local,
        of False] sample_direct_fits direct
    by (auto simp: sample_nodes futures_ok_new sample_env_def sample_denv_def)
qed

section \<open>Direct clients are dialled once\<close>

text \<open>
  Operations that leave the announcement of a node alone, and the client made for it: it is
  started once, when it is made, so no dial of it is to come.
\<close>

fun node_stays :: "RouteNode \<Rightarrow> nat \<Rightarrow> table_op \<Rightarrow> bool" where
  "node_stays node c (TUpsert nodes) = list_all (\<lambda>n. node_RouterId n = node_RouterId node \<longrightarrow> n = node) nodes"
| "node_stays node c (TRemove ids) = (node_RouterId node \<notin> set ids)"
| "node_stays node c (TDial k ok) = (k \<noteq> c)"
| "node_stays node c _ = True"

definition dead_client :: "RouteNode \<Rightarrow> nat \<Rightarrow> RouteTable \<Rightarrow> bool" where
  "dead_client node c t \<longleftrightarrow> table_ok t \<and> rt_nodes t (node_RouterId node) = Some node \<and>
     rt_rpcClients t (node_RouterId node) = Some c \<and> dc_conn (rt_store t c) \<noteq> DialOpen"

lemma dead_upsert:
  assumes "dead_client node c t" "node_RouterId n = node_RouterId node \<longrightarrow> n = node"
  shows "dead_client node c (upsert_node n t)"
  using assms table_ok_upsert_node [of t n]
  by (cases "node_RouterId n = node_RouterId node")
    (auto simp: dead_client_def upsert_node_def split: option.splits if_splits)

lemma dead_remove:
  assumes "dead_client node c t" "rid \<noteq> node_RouterId node"
  shows "dead_client node c (remove_node rid t)"
  using assms table_ok_remove_node [of t rid]
  by (auto simp: dead_client_def remove_node_def Let_def DirectClient_Close_def split: option.splits)

lemma dead_fold: "(\<And>x t. P x \<Longrightarrow> dead_client node c t \<Longrightarrow> dead_client node c (f x t)) \<Longrightarrow>
    list_all P xs \<Longrightarrow> dead_client node c t \<Longrightarrow> dead_client node c (fold f xs t)"
  by (induction xs arbitrary: t) auto

lemma dead_direct: "dead_client node c t \<Longrightarrow> dead_client node c (snd (GetOrCreateRpcClient k t))"
  using table_ok_direct [of t k] table_okD(1) [of t "node_RouterId node" c]
  by (auto simp: dead_client_def GetOrCreateRpcClient_def split: option.split)

lemma dead_relay: "dead_client node c t \<Longrightarrow> dead_client node c (snd (getOrCreateRelay k t))"
  using table_ok_relay [of t k]
  by (auto simp: dead_client_def getOrCreateRelay_def split: option.split)

lemma dead_step:
  assumes "node_stays node c op" "dead_client node c t"
  shows "dead_client node c (table_step op t)"
proof (cases op)
  case (TUpsert nodes)
  then show ?thesis
    using assms dead_fold [of "\<lambda>n. node_RouterId n = node_RouterId node \<longrightarrow> n = node" node c upsert_node nodes t]
    by (simp add: UpsertRouteNode_def dead_upsert)
next
  case (TRemove ids)
  then show ?thesis
    using assms dead_fold [of "\<lambda>i. i \<noteq> node_RouterId node" node c remove_node ids t]
    by (auto simp: RemoveRouteNode_def list_all_iff dead_remove)
next
  case (TProvider k)
  have "snd (GetRpcServiceProvider k t) =
      (if EqualFold (rt_rpcMode t) ''relay'' then snd (getOrCreateRelay k t) else snd (GetOrCreateRpcClient k t))"
    by (simp add: GetRpcServiceProvider_def split: prod.split sum.split)
  then show ?thesis using assms TProvider by (simp add: dead_direct dead_relay)
next
  case (TDirect k)
  then show ?thesis using assms by (simp add: dead_direct)
qed (use assms table_ok_step [of t op] in
    \<open>auto simp: dead_client_def SetRouteId_def SetRouterClient_def SetRpcMode_def
      DirectClient_Close_def DirectClient_Start_def split: option.splits if_splits\<close>)

text \<open>
  A direct client that lost its connection, or never got one, is never replaced: while the router
  announces its node with the same address, every call to the node in direct mode fails at
  once, whatever else happens to the route table.
\<close>

theorem dead_direct_client_stays:
  assumes "table_ok t" "rt_nodes t target = Some node" "rt_rpcClients t target = Some c"
    and "dc_conn (rt_store t c) \<noteq> DialOpen"
    and "list_all (node_stays node c) ops" "n_table n = fold table_step ops t"
    and "\<not> EqualFold (rt_rpcMode (n_table n)) ''relay''"
  shows "\<exists>err. remote_call target renv denv packetId timeout args n waits = (Returned [] (Some err), [], n, waits)"
proof -
  have id: "node_RouterId node = target" using assms(1,2) by (simp add: table_ok_def)
  have "dead_client node c t" using assms(1-4) by (simp add: dead_client_def id)
  from dead_fold [OF dead_step assms(5) this] have "dead_client node c (n_table n)" by (simp add: assms(6))
  then have "rt_rpcClients (n_table n) target = Some c" "dc_conn (rt_store (n_table n) c) \<noteq> DialOpen"
    by (simp_all add: dead_client_def id)
  then show ?thesis
    using assms(7)
    by (simp add: remote_call_def GetRpcServiceProvider_def GetOrCreateRpcClient_def provider_Call_def
        DirectClient_Call_def GetOrCreateProxy_def direct_send_def SendRpcMessage_def Let_def)
qed

definition dead_table :: RouteTable where
  "dead_table = fold table_step [TSetMode ''direct'', TUpsert [sample_node 1], TDirect ''m'', TDial 0 False] routeTableInstance"

theorem dead_direct_client_stays_witness:
  "\<exists>err. fst (remote_call ''m'' sample_env sample_denv 7 5 []
     (sample_a\<lparr>n_table := fold table_step [TUpsert [sample_node 1], TDirect ''m''] dead_table\<rparr>) NewFutureManager) =
   Returned [] (Some err)"
proof -
  let ?ops = "[TUpsert [sample_node 1], TDirect ''m'']"
  have ok: "table_ok dead_table" unfolding dead_table_def by (rule table_ok_run)
  have state: "rt_nodes dead_table ''m'' = Some (sample_node 1)" "rt_rpcClients dead_table ''m'' = Some 0"
    "dc_conn (rt_store dead_table 0) \<noteq> DialOpen" "rt_rpcMode dead_table = ''direct''"
    by (simp_all add: dead_table_def UpsertRouteNode_def upsert_node_def routeTableInstance_def SetRpcMode_def
      sample_node_def GetOrCreateRpcClient_def DirectClient_Start_def NewDirectClient_def)
  have "fold table_step ?ops dead_table = dead_table"
    using state by (simp add: UpsertRouteNode_def upsert_node_def GetOrCreateRpcClient_def sample_node_def)
  moreover have "list_all (node_stays (sample_node 1) 0) ?ops" by simp
  moreover have "\<not> EqualFold ''direct'' ''relay''" by (simp add: EqualFold_def ToLower_def)
  ultimately show ?thesis
    using dead_direct_client_stays [OF ok state(1-3), of ?ops "sample_a\<lparr>n_table := fold table_step ?ops dead_table\<rparr>"
        sample_env sample_denv 7 5 "[]" NewFutureManager] state(4)
    by fastforce
qed

end
