(* ===== verification/ClientMain.thy ===== *)
theory ClientMain
  imports Calls ServerMain
begin

text \<open>
  The node process as a whole: the TCP server for direct calls (\<open>internal/rpc/stub_server.go\<close>),
  creating and starting the client (\<open>internal/VirtualRouterClient/client.go\<close>), the facade
  \<open>VirtualRouterClient/\<close> and the program \<open>cmd/router-client/main.go\<close>.
\<close>

section \<open>The TCP server for direct calls\<close>

record StubServer =
  ss_port :: int

definition NewStubServer :: "int \<Rightarrow> StubServer" where
  "NewStubServer port = \<lparr>ss_port = port\<rparr>"

text \<open>
  What each \<open>Accept\<close> returns: an error, or what the peer will send. The loop never returns; the
  list is what happens up to some time, the result what is written on each connection.
\<close>

fun stub_accepts :: "StubManager \<Rightarrow> tcp option list \<Rightarrow> byte list list" where
  "stub_accepts m [] = []"
| "stub_accepts m (None # as) = stub_accepts m as"
| "stub_accepts m (Some conn # as) =
     stub_handleConn (Suc (length (concat conn))) m conn [] # stub_accepts m as"

definition StubServer_Start ::
  "StubServer \<Rightarrow> bool \<Rightarrow> StubManager \<Rightarrow> tcp option list \<Rightarrow> gostring + (log_entry list \<times> byte list list)" where
  "StubServer_Start s listens m accepts =
     (if \<not> listens then Inl ''listen error''
      else Inr ([started_entry ((''RPC Server '' @ [CHR 0xE5, CHR 0x90, CHR 0xAF, CHR 0xE5, CHR 0x8A,
        CHR 0xA8, CHR 0xE6, CHR 0x88, CHR 0x90, CHR 0xE5, CHR 0x8A, CHR 0x9F])) (ss_port s)], stub_accepts m accepts))"

text \<open>A turn that goes on has consumed input, so the fuel that \<open>stub_accepts\<close> gives is enough.\<close>

lemma tcp_Read_shorter: "length (concat (snd (tcp_Read n cs))) \<le> length (concat cs)"
  by (cases "(n, cs)" rule: tcp_Read.cases) auto

lemma readRpcFrame_consumes:
  assumes "readRpcFrame conn = (Inr msg, conn')"
  shows "length (concat conn') < length (concat conn)"
proof -
  obtain b conn1 where r: "tcp_Read 4 conn = (Inr b, conn1)"
    using assms by (auto simp: readRpcFrame_def split: prod.splits sum.splits)
  define len where "len = uint (of_be32 (b @ replicate (4 - length b) 0) :: 32 word)"
  have len: "0 < len" "tcp_ReadFull (nat len) conn1 = (Inr msg, conn')"
    using assms uint_ge_0 [of "of_be32 (b @ replicate (4 - length b) 0) :: 32 word"]
    by (auto simp: readRpcFrame_def r Let_def len_def [symmetric] less_le split: if_splits)
  have n: "nat len \<le> length (concat conn1)"
  proof (rule ccontr)
    assume "\<not> nat len \<le> length (concat conn1)"
    then show False using tcp.rdfull_short [of conn1 "nat len"] len(2) by simp
  qed
  have "length (concat conn') = length (concat conn1) - nat len"
    using tcp.stream_rdfull [of "nat len" conn1] len(2) by simp
  with len(1) n have "length (concat conn') < length (concat conn1)" by simp
  with tcp_Read_shorter [of 4 conn] show ?thesis by (simp add: r)
qed

lemma stub_handleConn_fuel:
  assumes "length (concat conn) < k" "length (concat conn) < k'"
  shows "stub_handleConn k m conn out = stub_handleConn k' m conn out"
  using assms
proof (induction k arbitrary: k' conn out)
  case (Suc k)
  then obtain j where j: "k' = Suc j" by (cases k') auto
  show ?case
  proof (cases "readRpcFrame conn")
    case (Pair r conn')
    show ?thesis
    proof (cases r)
      case (Inr msg)
      then have "length (concat conn') < k" "length (concat conn') < j"
        using readRpcFrame_consumes [of conn msg conn'] Pair Suc.prems by (simp_all add: j)
      from Suc.IH [OF this] show ?thesis by (simp add: j Pair Inr split: prod.split)
    qed (simp add: j Pair)
  qed
qed simp

lemma direct_readLoop_fuel:
  assumes "length (concat conn) < k" "length (concat conn) < k'"
  shows "direct_readLoop k conn fm = direct_readLoop k' conn fm"
  using assms
proof (induction k arbitrary: k' conn fm)
  case (Suc k)
  then obtain j where j: "k' = Suc j" by (cases k') auto
  show ?case
  proof (cases "readRpcFrame conn")
    case (Pair r conn')
    show ?thesis
    proof (cases r)
      case (Inr msg)
      then have "length (concat conn') < k" "length (concat conn') < j"
        using readRpcFrame_consumes [of conn msg conn'] Pair Suc.prems by (simp_all add: j)
      from Suc.IH [OF this] show ?thesis by (simp add: j Pair Inr)
    qed (simp add: j Pair)
  qed
qed simp

lemma stub_accepts_whole:
  "stub_accepts m as = List.map (\<lambda>conn. stub_handleConn (Suc (length (concat conn))) m conn []) (List.map_filter id as)"
  by (induction m as rule: stub_accepts.induct) (simp_all add: List.map_filter_simps)

section \<open>Creating a client\<close>

datatype 'a created = Failed gostring | Panicked | Created 'a

definition NewClient ::
  "gostring \<Rightarrow> files \<Rightarrow> StubManager \<Rightarrow> futures \<Rightarrow> RouteTable \<Rightarrow> node created \<times> files" where
  "NewClient configFile fs stubs relay table =
     (case ReadRouterClientConfig configFile fs of
        (Inl err, fs') \<Rightarrow> (Failed err, fs')
      | (Inr cfg, fs') \<Rightarrow>
          (case NewClientByConfig cfg stubs relay table of
             None \<Rightarrow> (Panicked, fs')
           | Some n \<Rightarrow> (Created n, fs')))"

text \<open>The facade's constructor from a configuration object, which \<open>Check\<close> fills in.\<close>

definition NewClientByConfigObject ::
  "RouterClientConfig option \<Rightarrow> StubManager \<Rightarrow> futures \<Rightarrow> RouteTable \<Rightarrow> node created" where
  "NewClientByConfigObject cfg stubs relay table =
     (case cfg of
        None \<Rightarrow> Failed ''cfg is nil''
      | Some cfg \<Rightarrow>
          (case Check cfg of
             (Some err, _) \<Rightarrow> Failed err
           | (None, cfg) \<Rightarrow>
               (case NewClientByConfig cfg stubs relay table of None \<Rightarrow> Panicked | Some n \<Rightarrow> Created n)))"

text \<open>\<open>EnsureInitialized\<close> only logs.\<close>

definition EnsureInitialized :: "StubManager \<Rightarrow> log_entry list" where
  "EnsureInitialized m =
     (case CheckInitialized m of
        None \<Rightarrow> []
      | Some err \<Rightarrow> [(LevelError, (''RPC Stub '' @ [CHR 0xE5, CHR 0xB0, CHR 0x9A, CHR 0xE6,
        CHR 0x9C, CHR 0xAA, CHR 0xE5, CHR 0x88, CHR 0x9D, CHR 0xE5, CHR 0xA7, CHR 0x8B, CHR 0xE5, CHR 0x8C, CHR 0x96]), [(''error'', err)])])"

section \<open>Starting a client\<close>

text \<open>The pool of goroutines has no order; a new one is put first.\<close>

definition spawn :: "thread \<Rightarrow> node \<Rightarrow> node" where
  "spawn t n = n\<lparr>n_client := (n_client n)\<lparr>c_threads := t # c_threads (n_client n)\<rparr>\<rparr>"

definition tryConnect :: "bool \<Rightarrow> node \<Rightarrow> bool \<times> node" where
  "tryConnect dialled n =
     (if \<not> dialled then (False, n)
      else
        let conn = c_next (n_client n); s = (n_client n)\<lparr>c_next := conn + 1\<rparr>
        in (True, n\<lparr>n_client := (closeConn s)\<lparr>c_conn := Some conn\<rparr>\<rparr>))"

definition startHeartbeat :: "bool \<Rightarrow> int list \<Rightarrow> node \<Rightarrow> node" where
  "startHeartbeat ok ks n = spawn HbTop (snd (sendHeartbeat ok ks n))"

definition runRouterClient :: "bool \<Rightarrow> bool \<Rightarrow> int list \<Rightarrow> node \<Rightarrow> node" where
  "runRouterClient dialled ok ks n =
     (case tryConnect dialled n of
        (True, n1) \<Rightarrow>
          let n2 = n1\<lparr>n_client := (n_client n1)\<lparr>c_isOpen := True\<rparr>\<rparr>;
              n3 = startHeartbeat ok ks n2
          in spawn ReadTop n3
      | (False, n1) \<Rightarrow> n1\<lparr>n_client := startBackgroundReconnect (n_client n1)\<rparr>)"

text \<open>\<open>Start\<close>: the error, the port of the local RPC server if one is started, and the node.\<close>

definition client_Start :: "bool \<Rightarrow> bool \<Rightarrow> int list \<Rightarrow> node \<Rightarrow> gostring option \<times> int option \<times> node" where
  "client_Start dialled ok ks n =
     (case CheckInitialized (n_stubs n) of
        Some err \<Rightarrow> (Some err, None, n)
      | None \<Rightarrow>
          if c_needConnect (n_client n) then (None, None, n)
          else
            let n1 = runRouterClient dialled ok ks (n\<lparr>n_client := (n_client n)\<lparr>c_needConnect := True\<rparr>\<rparr>)
            in (None, runRpcServer (n_cfg n1), n1))"

section \<open>The program\<close>

record client_env =
  cl_dials :: bool
  cl_writes :: bool
  cl_range :: "int list"
  cl_ready :: "nat \<Rightarrow> bool" \<comment> \<open>what the i-th look at the route table finds\<close>

text \<open>The exit status (2 after a panic), or \<open>None\<close> while the process runs.\<close>

definition router_client_main ::
  "client_env \<Rightarrow> StubManager \<Rightarrow> futures \<Rightarrow> RouteTable \<Rightarrow> files \<Rightarrow> int option \<times> files" where
  "router_client_main env stubs relay table fs =
     (case NewClient [] fs stubs relay table of
        (Failed err, fs') \<Rightarrow> (Some 1, fs')
      | (Panicked, fs') \<Rightarrow> (Some 2, fs')
      | (Created client, fs') \<Rightarrow>
          (case client_Start (cl_dials env) (cl_writes env) (cl_range env) client of
             (Some err, _, _) \<Rightarrow> (Some 1, fs')
           | (None, _, client) \<Rightarrow>
               if \<not> AwaitRpcRouterInfoFirstReady (cl_ready env) then (Some 1, fs')
               else (None, fs')))"

section \<open>What \<open>Start\<close> does\<close>

definition client_state :: "bool \<Rightarrow> client" where
  "client_state dialled = new_client
     \<lparr>c_needConnect := True, c_isOpen := dialled, c_reconnectAttempt := \<not> dialled,
      c_conn := if dialled then Some 0 else None, c_next := if dialled then 1 else 0,
      c_threads := if dialled then [ReadTop, HbTop] else [RecTop]\<rparr>"

text \<open>Run without interruption, the goroutine \<open>Starting\<close> of the interleaved model gets there too.\<close>

lemma exec_client_state:
  "exec (Call Starting # (if dialled then replicate 9 (Go 0 True)
     else [Go 0 True, Go 0 False, Go 0 True, Go 0 True])) new_client = Some (client_state dialled)"
  by (simp add: client_state_def new_client_def step_at_def closeConn_def api_threads_def eval_nat_numeral)

lemma reach_client_state: "client_reach (client_state dialled)"
  using exec_reach [OF exec_client_state client_reach.init] .

lemma NewClientByConfig_state:
  assumes "NewClientByConfig cfg stubs relay table = Some n"
  shows "n_cfg n = cfg" "n_stubs n = stubs" "n_client n = new_client" "n_out n = (\<lambda>_. [])"
  using assms by (auto simp: NewClientByConfig_def split: option.splits)

lemma sendHeartbeat_frame [simp]:
  "n_client (snd (sendHeartbeat ok ks n)) = n_client n" "n_cfg (snd (sendHeartbeat ok ks n)) = n_cfg n"
  "n_stubs (snd (sendHeartbeat ok ks n)) = n_stubs n"
  by (simp_all add: sendHeartbeat_def write_conn_def split: option.split sum.split)

lemma startBackgroundReconnect_new:
  "startBackgroundReconnect (new_client\<lparr>c_needConnect := True\<rparr>) = client_state False"
  by (simp add: startBackgroundReconnect_def new_client_def client_state_def)

lemma heartbeat_info_cong:
  "n_cfg n' = n_cfg n \<Longrightarrow> n_stubs n' = n_stubs n \<Longrightarrow> heartbeat_message ks n' = heartbeat_message ks n"
  by (simp add: heartbeat_message_def heartbeat_info_def)

lemma runRouterClient_new:
  assumes "n_client n = new_client\<lparr>c_needConnect := True\<rparr>"
  shows "n_client (runRouterClient dialled ok ks n) = client_state dialled"
    and "n_cfg (runRouterClient dialled ok ks n) = n_cfg n"
    and "n_stubs (runRouterClient dialled ok ks n) = n_stubs n"
  using assms
  by (simp_all add: runRouterClient_def tryConnect_def startHeartbeat_def spawn_def Let_def
      startBackgroundReconnect_new)
    (simp_all add: client_state_def new_client_def closeConn_def)

lemma sendHeartbeat_out:
  assumes "c_conn (n_client n) = Some c" "c \<notin> c_closed (n_client n)"
    and "payload_ok (payload_of (heartbeat_message ks n))"
  shows "n_out (snd (sendHeartbeat ok ks n)) =
    (if ok then (n_out n)(c := n_out n c @ EncodeFrame (payload_of (heartbeat_message ks n))) else n_out n)"
  using assms client_message_decodes(1) [of "n_routeId n" "[]" RouteMessageTypeHeartBeat]
  by (simp add: sendHeartbeat_def write_conn_def heartbeat_message_eq)

text \<open>
  C18: \<open>Start\<close> of a new client with registered stubs succeeds whether or not the router answers: with a
  connection the node has written its heartbeat and runs one read loop and one heartbeat loop,
  without one it runs the background reconnect; the local RPC server is started in direct mode
  only. The state is one of the interleaved model's, and a second \<open>Start\<close> does nothing.
\<close>

theorem client_starts:
  assumes "NewClientByConfig cfg stubs relay table = Some n" "sm_initialized stubs"
    and "p = payload_of (heartbeat_message ks n)" "payload_ok p"
    and "client_Start dialled ok ks n = (err, rpcPort, n')"
  shows "err = None \<and> rpcPort = (if is_direct cfg then Some (rcc_LocalRpcPort cfg) else None) \<and>
    connected_node n' = dialled \<and> n_out n' 0 = (if dialled \<and> ok then EncodeFrame p else []) \<and>
    c_threads (n_client n') = (if dialled then [ReadTop, HbTop] else [RecTop]) \<and>
    client_reach (n_client n') \<and> client_Start dialled' ok' ks' n' = (None, None, n')"
proof -
  note n = NewClientByConfig_state [OF assms(1)]
  let ?m = "n\<lparr>n_client := new_client\<lparr>c_needConnect := True\<rparr>\<rparr>"
  have "\<not> c_needConnect (n_client n)" by (simp add: n new_client_def)
  then have start: "err = None" "n' = runRouterClient dialled ok ks ?m" "rpcPort = runRpcServer (n_cfg n')"
    using assms(2,5) by (auto simp: client_Start_def CheckInitialized_def n Let_def)
  have st: "n_client n' = client_state dialled" "n_cfg n' = cfg" "n_stubs n' = stubs"
    using runRouterClient_new [of ?m dialled ok ks] by (simp_all add: start(2) n)
  have "n_out n' 0 = (if dialled \<and> ok then EncodeFrame p else [])"
  proof (cases dialled)
    case True
    define n2 where "n2 = ?m\<lparr>n_client := new_client\<lparr>c_needConnect := True, c_isOpen := True,
      c_next := 1, c_conn := Some 0\<rparr>\<rparr>"
    have out: "n_out n' = n_out (snd (sendHeartbeat ok ks n2))"
      using True by (simp add: start(2) runRouterClient_def tryConnect_def startHeartbeat_def spawn_def
          closeConn_def new_client_def n2_def Let_def)
    have hb: "heartbeat_message ks n2 = heartbeat_message ks n" by (rule heartbeat_info_cong) (simp_all add: n2_def)
    have n2: "c_conn (n_client n2) = Some 0" "0 \<notin> c_closed (n_client n2)" "n_out n2 = (\<lambda>_. [])"
      by (simp_all add: n2_def new_client_def n)
    show ?thesis
      using sendHeartbeat_out [OF n2(1,2), of ks ok] assms(3,4) True by (simp add: out hb n2(3))
  qed (simp add: start(2) runRouterClient_def tryConnect_def n)
  then show ?thesis
    using reach_client_state [of dialled] assms(2)
    by (simp add: start(1,3) st runRpcServer_def is_direct_def connected_node_def IsConnected_def
        client_Start_def CheckInitialized_def)
      (simp add: client_state_def)
qed

section \<open>What the program does\<close>

lemma await_ready_result: "k \<le> 100 \<Longrightarrow> await_ready ready k \<longleftrightarrow> (\<exists>i. k \<le> i \<and> i \<le> 100 \<and> ready i)"
proof (induction ready k rule: await_ready.induct)
  case (1 ready k)
  have split: "(\<exists>i. k \<le> i \<and> i \<le> 100 \<and> ready i) \<longleftrightarrow> ready k \<or> (\<exists>i. k + 1 \<le> i \<and> i \<le> 100 \<and> ready i)"
  proof -
    have k: "k \<le> i \<longleftrightarrow> i = k \<or> k + 1 \<le> i" for i by arith
    show ?thesis unfolding k using 1(2) by blast
  qed
  show ?case
  proof (cases "ready k \<or> k = 100")
    case True
    with 1(2) show ?thesis by (subst await_ready.simps) (auto simp: Let_def)
  next
    case False
    with 1 show ?thesis by (subst await_ready.simps) (simp add: split Let_def)
  qed
qed

text \<open>
  C38: the program \<open>router-client\<close> keeps running exactly when stubs were registered, its configuration
  is accepted and one of the first 101 looks at the route table finds a node. As it is in the
  repository it registers none, so it always ends with status 1.
\<close>

theorem router_client_exits:
  "(fst (router_client_main env stubs relay routeTableInstance fs) = None \<longleftrightarrow>
      sm_initialized stubs \<and> isl (fst (ReadRouterClientConfig [] fs)) = False \<and>
      (\<exists>i. i \<le> 100 \<and> cl_ready env i)) \<and>
   fst (router_client_main env stubManagerInstance relay routeTableInstance fs) = Some 1"
proof -
  have new: "\<exists>n. NewClientByConfig cfg m relay routeTableInstance = Some n" for cfg m
    by (simp add: NewClientByConfig_def SetRouteId_def routeTableInstance_def)
  have start: "fst (client_Start d w ks n) = (if sm_initialized m then None else Some not_initialized_error)"
    if "NewClientByConfig cfg m relay routeTableInstance = Some n" for d w ks n cfg m
    using NewClientByConfig_state [OF that] by (simp add: client_Start_def CheckInitialized_def Let_def)
  have main: "fst (router_client_main env m relay routeTableInstance fs) =
      (if isl (fst (ReadRouterClientConfig [] fs)) \<or> \<not> sm_initialized m \<or> \<not> await_ready (cl_ready env) 0
       then Some 1 else None)" for m
  proof (cases "ReadRouterClientConfig [] fs")
    case (Pair r fs')
    show ?thesis
    proof (cases r)
      case (Inr cfg)
      obtain n where n: "NewClientByConfig cfg m relay routeTableInstance = Some n" using new by blast
      from start [OF n, of "cl_dials env" "cl_writes env" "cl_range env"] show ?thesis
        by (cases "client_Start (cl_dials env) (cl_writes env) (cl_range env) n")
          (auto simp: router_client_main_def NewClient_def Pair Inr n AwaitRpcRouterInfoFirstReady_def)
    qed (simp add: router_client_main_def NewClient_def Pair)
  qed
  show ?thesis
    using await_ready_result [of 0 "cl_ready env"] by (auto simp: main stubManagerInstance_def)
qed

definition direct_config :: RouterClientConfig where
  "direct_config = sample_client_config\<lparr>rcc_RpcMode := ''direct'', rcc_LocalRpcPort := 7\<rparr>"

definition direct_node :: node where
  "direct_node = \<lparr>n_cfg = direct_config, n_client = new_client, n_out = \<lambda>_. [], n_stubs = answer_stubs,
     n_relay = NewFutureManager,
     n_table = routeTableInstance\<lparr>rt_routeId := ''n'', rt_rpcMode := ''direct'', rt_routerClient := True\<rparr>\<rparr>"

theorem client_starts_witness:
  "connected_node (snd (snd (client_Start True True [] direct_node))) \<and>
   fst (snd (client_Start True True [] direct_node)) = Some 7"
proof -
  let ?r = "client_Start True True [] direct_node"
  have new: "NewClientByConfig direct_config answer_stubs NewFutureManager routeTableInstance = Some direct_node"
    by (simp add: NewClientByConfig_def SetRouteId_def SetRpcMode_def SetRouterClient_def routeTableInstance_def
        direct_node_def direct_config_def sample_client_config_def zero_RouterClientConfig_def)
  have info: "heartbeat_info [] direct_node = \<lparr>info_Host = [], info_Port = 7, info_Stubs = Some []\<rparr>"
    unfolding direct_node_def by code_simp
  have "length (Marshal json_RpcServerInfo (heartbeat_info [] direct_node)) < 1000"
    unfolding info by code_simp
  then have p: "payload_ok (payload_of (heartbeat_message [] direct_node))"
    by (simp add: payload_ok_def heartbeat_message_def length_payload_of MaxFrameSize_def direct_node_def
        direct_config_def sample_client_config_def zero_RouterClientConfig_def)
  have "sm_initialized answer_stubs" by (simp add: answer_stubs_def)
  then show ?thesis
    using client_starts [OF new _ refl p, of True True "fst ?r" "fst (snd ?r)" "snd (snd ?r)"]
    by (simp add: is_direct_def direct_config_def)
qed

end
