(* ===== verification/Cluster.thy ===== *)
theory Cluster
  imports RouterSpec ServerMain ClientMain
begin

text \<open>
  The whole system: the router of \<open>internal/VirtualRouterServer\<close> and any number of processes with
  a client of \<open>internal/VirtualRouterClient\<close> each, joined by TCP connections that hold what was
  written and not yet read. Every step is one of the code's own: a turn of a router
  goroutine, a turn of a client's read loop on the frame that arrived, a call, a heartbeat.
\<close>

section \<open>State\<close>

type_synonym proc = nat

text \<open>
  A connection has two ends: \<open>d\<close> at the router, number \<open>c\<close> of process \<open>p\<close> at the client. Bytes stay
  in the writer's \<open>n_out\<close> and \<open>net_out\<close>; \<open>cl_up\<close> and \<open>cl_down\<close> count those that the reader has taken.
\<close>

record cluster =
  cl_router :: server
  cl_nodes :: "proc \<Rightarrow> node"
  cl_link :: "conn \<rightharpoonup> proc \<times> nat"
  cl_up :: "conn \<Rightarrow> nat"
  cl_down :: "conn \<Rightarrow> nat"
  cl_uid :: "proc \<Rightarrow> int" \<comment> \<open>the last value of \<open>uidCounter\<close>\<close>

definition cluster_start :: "(proc \<Rightarrow> node) \<Rightarrow> cluster" where
  "cluster_start N =
     \<lparr>cl_router = NewServer, cl_nodes = N, cl_link = Map.empty, cl_up = \<lambda>_. 0, cl_down = \<lambda>_. 0,
      cl_uid = \<lambda>_. 0\<rparr>"

definition put_node :: "proc \<Rightarrow> node \<Rightarrow> cluster \<Rightarrow> cluster" where
  "put_node p n g = g\<lparr>cl_nodes := (cl_nodes g)(p := n)\<rparr>"

section \<open>Steps\<close>

text \<open>\<open>ReadFrame\<close> on a connection with \<open>bytes\<close> written and \<open>pos\<close> read: the frame, and the bytes read then.\<close>

inductive arrives :: "byte list \<Rightarrow> nat \<Rightarrow> byte list \<Rightarrow> nat \<Rightarrow> bool" where
  arrives: "bytes = past @ concat chunks @ late \<Longrightarrow> length past = pos \<Longrightarrow>
     ReadFrame tcp_ReadFull chunks = (Inr payload, rest) \<Longrightarrow>
     arrives bytes pos payload (pos + length (concat chunks) - length (concat rest))"

text \<open>
  While a call waits for its connection, the other goroutines of its process may change the
  connection's state; what they send and receive are steps before or after it.
\<close>

definition waits_quietly :: "call_env \<Rightarrow> bool" where
  "waits_quietly env \<longleftrightarrow>
     (\<forall>n. \<exists>s. snd (env_await1 env n) = n\<lparr>n_client := s\<rparr>) \<and> (\<forall>n. \<exists>s. snd (env_await2 env n) = n\<lparr>n_client := s\<rparr>)"

datatype cluster_event =
    Links conn proc nat gostring
  | RouterReads conn int
  | RouterLoses conn int
  | RouterActs server_event
  | NodeReads conn "byte list"
  | NodeLoses proc
  | NodeRuns proc
  | NodeLooks proc table_op
  | NodeBeats proc
  | NodeSends proc gostring gostring
  | NodeCalls proc gostring call_env int "gostring list"

fun own_event :: "server_event \<Rightarrow> bool" where
  "own_event (Accept _ _) = False"
| "own_event (Turn _ _ _) = False"
| "own_event _ = True"

inductive cluster_step :: "cluster \<Rightarrow> cluster_event \<Rightarrow> cluster \<Rightarrow> bool" where
  links: "cl_link g d = None \<Longrightarrow> (p, c) \<notin> ran (cl_link g) \<Longrightarrow> c < c_next (n_client (cl_nodes g p)) \<Longrightarrow>
     server_step (cl_router g) (Accept d addr) r \<Longrightarrow>
     cluster_step g (Links d p c addr) (g\<lparr>cl_router := r, cl_link := (cl_link g)(d \<mapsto> (p, c)),
       cl_up := (cl_up g)(d := 0), cl_down := (cl_down g)(d := 0)\<rparr>)"
| router_reads: "cl_link g d = Some (p, c) \<Longrightarrow> arrives (n_out (cl_nodes g p) c) (cl_up g d) payload pos \<Longrightarrow>
     server_step (cl_router g) (Turn d (Inr payload) now) r \<Longrightarrow>
     cluster_step g (RouterReads d now) (g\<lparr>cl_router := r, cl_up := (cl_up g)(d := pos)\<rparr>)"
| router_loses: "cl_link g d = Some l \<Longrightarrow> server_step (cl_router g) (Turn d (Inl err) now) r \<Longrightarrow>
     cluster_step g (RouterLoses d now) (g\<lparr>cl_router := r\<rparr>)"
| router_acts: "own_event e \<Longrightarrow> server_step (cl_router g) e r \<Longrightarrow>
     cluster_step g (RouterActs e) (g\<lparr>cl_router := r\<rparr>)"
| node_reads: "cl_link g d = Some (p, c) \<Longrightarrow> arrives (net_out (srv_net (cl_router g)) d) (cl_down g d) payload pos \<Longrightarrow>
     n = snd (readLoop_turn ok (Inr payload) (cl_nodes g p)) \<Longrightarrow>
     cluster_step g (NodeReads d payload) (put_node p n g\<lparr>cl_down := (cl_down g)(d := pos)\<rparr>)"
| node_loses: "n = snd (readLoop_turn ok (Inl err) (cl_nodes g p)) \<Longrightarrow>
     cluster_step g (NodeLoses p) (put_node p n g)"
| node_runs: "client_step (n_client (cl_nodes g p)) s \<Longrightarrow>
     cluster_step g (NodeRuns p) (put_node p ((cl_nodes g p)\<lparr>n_client := s\<rparr>) g)"
| node_looks: "n = (cl_nodes g p)\<lparr>n_table := table_step op (n_table (cl_nodes g p))\<rparr> \<Longrightarrow>
     cluster_step g (NodeLooks p op) (put_node p n g)"
| node_beats: "cluster_step g (NodeBeats p) (put_node p (snd (sendHeartbeat ok ks (cl_nodes g p))) g)"
| node_sends: "n = snd (Send ok to RouteMessageTypeMessageData data (cl_nodes g p)) \<Longrightarrow>
     cluster_step g (NodeSends p to data) (put_node p n g)"
| node_calls: "cl_uid g p < env_counter env \<Longrightarrow> waits_quietly env \<Longrightarrow> int64_range (env_nowMs env) \<Longrightarrow>
     int64_range packetId \<Longrightarrow> n = snd (relay_Call target env packetId args (cl_nodes g p)) \<Longrightarrow>
     cluster_step g (NodeCalls p target env packetId args)
       (put_node p n g\<lparr>cl_uid := (cl_uid g)(p := env_counter env)\<rparr>)"

inductive_cases cluster_step_cases: "cluster_step g e g'"

text \<open>
  No step writes 4 GiB to a connection at once: the length prefix of such a frame would wrap.
\<close>

definition short_writes :: "cluster \<Rightarrow> cluster \<Rightarrow> bool" where
  "short_writes g g' \<longleftrightarrow>
     (\<forall>p c. length (n_out (cl_nodes g' p) c) < length (n_out (cl_nodes g p) c) + 2 ^ 32) \<and>
     (\<forall>d. length (net_out (srv_net (cl_router g')) d) < length (net_out (srv_net (cl_router g)) d) + 2 ^ 32)"

inductive cluster_run :: "cluster \<Rightarrow> cluster_event list \<Rightarrow> cluster \<Rightarrow> bool" where
  run_start: "cluster_run g [] g"
| run_step: "cluster_run g es g1 \<Longrightarrow> cluster_step g1 e g2 \<Longrightarrow> short_writes g1 g2 \<Longrightarrow>
     cluster_run g (es @ [e]) g2"

section \<open>Reading whole frames\<close>

text \<open>A position between two frames of what was written.\<close>

definition between :: "RouteMessage list \<Rightarrow> nat \<Rightarrow> nat \<Rightarrow> bool" where
  "between ms k pos \<longleftrightarrow> k \<le> length ms \<and> pos = length (concat (List.map wire (take k ms)))"

definition sizable :: "RouteMessage \<Rightarrow> bool" where
  "sizable m \<longleftrightarrow> length (payload_of m) < 2 ^ 32"

lemma between_0 [simp]: "between ms 0 0"
  by (simp add: between_def)

lemma between_append: "between ms k pos \<Longrightarrow> between (ms @ ms') k pos"
  by (simp add: between_def)

lemma frame_of_stream_sizable:
  assumes "length p < 2 ^ 32" "frame_of_stream (EncodeFrame p @ rest) = (Inr q, rest')"
  shows "q = p \<and> rest' = rest \<and> int (length p) \<le> MaxFrameSize"
  using assms by (simp add: frame_of_stream_def EncodeFrame_def Let_def split: if_splits)

lemma frame_of_stream_more:
  assumes "frame_of_stream bs = (Inr p, rest)"
  shows "frame_of_stream (bs @ late) = (Inr p, rest @ late) \<and> length rest \<le> length bs"
  using assms by (auto simp: frame_of_stream_def Let_def split: if_splits)

lemma arrives_message:
  assumes "arrives (concat (List.map wire ms)) pos payload pos'" "between ms k pos" "list_all sizable ms"
  shows "k < length ms \<and> payload = payload_of (ms ! k) \<and> sendable (ms ! k) \<and> between ms (Suc k) pos' \<and>
    DecodeRouteMessagePayload payload = Inr (as_received (ms ! k))"
  using assms(1)
proof cases
  case (arrives past chunks late rest)
  have "concat (List.map wire ms) = concat (List.map wire (take k ms)) @ concat (List.map wire (drop k ms))"
    by (metis append_take_drop_id concat_append map_append)
  then have tail: "concat chunks @ late = concat (List.map wire (drop k ms))"
    using arrives(2,3) assms(2) by (simp add: between_def append_eq_append_conv)
  have frame: "frame_of_stream (concat chunks) = (Inr payload, concat rest)"
    using tcp.ReadFrame_stream [of chunks] arrives(4) by (metis fst_conv snd_conv prod.collapse)
  note more = frame_of_stream_more [OF frame, of late]
  have k: "k < length ms"
  proof (rule ccontr)
    assume "\<not> k < length ms"
    then have "concat chunks = []" using tail by simp
    then show False using frame unfolding frame_of_stream_def by (simp only: list.size) simp
  qed
  then have split: "concat (List.map wire (drop k ms)) =
      EncodeFrame (payload_of (ms ! k)) @ concat (List.map wire (drop (Suc k) ms))"
    by (simp add: Cons_nth_drop_Suc [symmetric] wire_def)
  have "sizable (ms ! k)" using assms(3) k by (simp add: list_all_length)
  then have p: "payload = payload_of (ms ! k)" "concat rest @ late = concat (List.map wire (drop (Suc k) ms))"
    "sendable (ms ! k)"
    using frame_of_stream_sizable [of "payload_of (ms ! k)"] more unfolding tail split
    by (auto simp: sizable_def sendable_def)
  have "length (concat chunks) = length (wire (ms ! k)) + length (concat rest)"
    using arg_cong [OF tail, of length] arg_cong [OF p(2), of length] unfolding split by (simp add: wire_def)
  then have "between ms (Suc k) pos'"
    using assms(2) k arrives(1) by (simp add: between_def take_Suc_conv_app_nth)
  then show ?thesis using k p Decode_payload_of [OF sendable_fits [OF p(3)]] by simp
qed

end
