(* ===== verification/ClusterPost.thy ===== *)
theory ClusterPost
  imports Cluster
begin

text \<open>
  The cluster's steps in terms of whole messages: what a client writes in a step, what the
  router writes, and the mail in transit between them. Every step of the cluster is a step of
  this mail, which knows no bytes, sessions or goroutines.
\<close>

section \<open>What a client writes\<close>

definition utters :: "(RouteMessage \<Rightarrow> bool) \<Rightarrow> node \<Rightarrow> node \<Rightarrow> bool" where
  "utters P n n' \<longleftrightarrow> n_cfg n' = n_cfg n \<and> n_stubs n' = n_stubs n \<and>
     (n_out n' = n_out n \<or> (\<exists>c m. P m \<and> n_out n' = (n_out n)(c := n_out n c @ wire m)))"

lemma utters_silent: "n_cfg n' = n_cfg n \<Longrightarrow> n_stubs n' = n_stubs n \<Longrightarrow> n_out n' = n_out n \<Longrightarrow> utters P n n'"
  by (simp add: utters_def)

lemma utters_later:
  "utters (\<lambda>_. False) n n1 \<Longrightarrow> utters P n1 n2 \<Longrightarrow> utters P n n2"
  by (auto simp: utters_def)

lemma utters_mono: "utters P n n' \<Longrightarrow> (\<And>m. P m \<Longrightarrow> Q m) \<Longrightarrow> utters Q n n'"
  unfolding utters_def by blast

lemma utters_routeId: "utters P n n' \<Longrightarrow> n_routeId n' = n_routeId n"
  by (simp add: utters_def)

lemma write_conn_utters: "P m \<Longrightarrow> utters P n (snd (write_conn ok c (EncodeFrame (payload_of m)) n))"
  by (auto simp: utters_def write_conn_def wire_def)

lemma sendHeartbeat_utters:
  "utters (\<lambda>m. m = heartbeat_message ks n) n (snd (sendHeartbeat ok ks n))"
  "n_relay (snd (sendHeartbeat ok ks n)) = n_relay n"
  by (auto simp: sendHeartbeat_def write_conn_utters utters_silent split: option.split)

lemma handle_simple_quiet:
  "n_cfg (snd (handle_simple msg t n)) = n_cfg n" "n_stubs (snd (handle_simple msg t n)) = n_stubs n"
  "n_out (snd (handle_simple msg t n)) = n_out n"
  "n_relay (snd (handle_simple msg t n)) =
     (if t = RouteMessageTypeRpcResponse then HandleRelayRpcResponse msg (n_relay n) else n_relay n)"
  by (auto simp: handle_simple_def handleRegister_def handleRemoveOffline_def handleSystemError_def Let_def
      message_types split: option.split prod.split)

text \<open>
  A send to another node writes its message or nothing; a send that fails writes nothing; and
  the pending calls stay as they are.
\<close>

lemma Send_with_utters:
  assumes "to \<noteq> n_routeId n"
  shows "utters (\<lambda>m. m = client_message (n_routeId n) to t d) n (snd (Send_with h ok to t d n))"
    and "fst (Send_with h ok to t d n) \<noteq> None \<Longrightarrow> utters P n (snd (Send_with h ok to t d n))"
    and "n_relay (snd (Send_with h ok to t d n)) = n_relay n"
proof -
  have "utters (\<lambda>m. m = client_message (n_routeId n) to t d) n (snd (Send_with h ok to t d n)) \<and>
      (fst (Send_with h ok to t d n) \<noteq> None \<longrightarrow> utters P n (snd (Send_with h ok to t d n))) \<and>
      n_relay (snd (Send_with h ok to t d n)) = n_relay n"
  proof (cases "connected_node n")
    case True
    then obtain c where "c_conn (n_client n) = Some c" using connected_conn by blast
    with True assms show ?thesis
      by (auto simp: Send_with_remote Let_def utters_def wire_def)
  qed (simp add: Send_with_offline utters_silent)
  then show "utters (\<lambda>m. m = client_message (n_routeId n) to t d) n (snd (Send_with h ok to t d n))"
    "fst (Send_with h ok to t d n) \<noteq> None \<Longrightarrow> utters P n (snd (Send_with h ok to t d n))"
    "n_relay (snd (Send_with h ok to t d n)) = n_relay n" by simp_all
qed

lemma Send_utters:
  assumes "to \<noteq> n_routeId n"
  shows "utters (\<lambda>m. m = client_message (n_routeId n) to t d) n (snd (Send ok to t d n))"
    and "fst (Send ok to t d n) \<noteq> None \<Longrightarrow> utters P n (snd (Send ok to t d n))"
    and "n_relay (snd (Send ok to t d n)) = n_relay n"
  using Send_with_utters [OF assms] by (simp_all add: Send_def)

lemma Send_self:
  "utters P n (snd (Send ok (n_routeId n) RouteMessageTypeMessageData d n))"
  "n_relay (snd (Send ok (n_routeId n) RouteMessageTypeMessageData d n)) = n_relay n"
  by (cases "connected_node n";
      simp add: Send_def Send_with_self Send_with_offline handleMessage_def utters_silent handle_simple_quiet message_types)+

text \<open>What a node sends after a message arrived, and what becomes of its pending calls.\<close>

definition answers :: "node \<Rightarrow> RouteMessage \<Rightarrow> RouteMessage \<Rightarrow> bool" where
  "answers n m m' \<longleftrightarrow> MessageType m = Some RouteMessageTypeRpcRequest \<and>
     (\<exists>d req. Data m = Some d \<and> Unmarshal decode_RpcRequest zero_RpcRequest d = (req, True) \<and>
        m' = client_message (n_routeId n) (FromRouteId m) RouteMessageTypeRpcResponse
          (Marshal json_RpcResponse (relay_response req (n_stubs n))))"

lemma HandleRelayRpcRequest_utters:
  assumes "MessageType m = Some RouteMessageTypeRpcRequest"
  shows "utters (answers n m) n (HandleRelayRpcRequest (Send_with handle_simple ok) (n_stubs n) m n)"
    and "FromRouteId m \<noteq> n_routeId n \<Longrightarrow>
      n_relay (HandleRelayRpcRequest (Send_with handle_simple ok) (n_stubs n) m n) = n_relay n"
proof -
  let ?n' = "HandleRelayRpcRequest (Send_with handle_simple ok) (n_stubs n) m n"
  have "utters (answers n m) n ?n' \<and> (FromRouteId m \<noteq> n_routeId n \<longrightarrow> n_relay ?n' = n_relay n)"
  proof (cases "\<exists>d req. Data m = Some d \<and> Unmarshal decode_RpcRequest zero_RpcRequest d = (req, True)")
    case True
    then obtain d req where d: "Data m = Some d" "Unmarshal decode_RpcRequest zero_RpcRequest d = (req, True)"
      by blast
    let ?a = "Marshal json_RpcResponse (relay_response req (n_stubs n))"
    have n': "?n' = snd (Send_with handle_simple ok (FromRouteId m) RouteMessageTypeRpcResponse ?a n)"
      by (simp add: HandleRelayRpcRequest_def d)
    show ?thesis
    proof (cases "FromRouteId m = n_routeId n")
      case self: True
      then show ?thesis
        by (cases "connected_node n")
          (simp_all add: n' Send_with_self Send_with_offline utters_silent handle_simple_quiet)
    next
      case False
      then show ?thesis
        using Send_with_utters [OF False, where t = RouteMessageTypeRpcResponse and d = ?a and h = handle_simple
            and ok = ok] assms d
        by (auto simp: n' answers_def elim: utters_mono)
    qed
  next
    case False
    then have "?n' = n" by (auto simp: HandleRelayRpcRequest_def split: option.split prod.split)
    then show ?thesis by (simp add: utters_silent)
  qed
  then show "utters (answers n m) n ?n'" "FromRouteId m \<noteq> n_routeId n \<Longrightarrow> n_relay ?n' = n_relay n" by simp_all
qed

lemma readLoop_turn_utters:
  assumes "DecodeRouteMessagePayload payload = Inr m"
  shows "utters (answers n m) n (snd (readLoop_turn ok (Inr payload) n))"
    and "(MessageType m = Some RouteMessageTypeRpcRequest \<Longrightarrow> FromRouteId m \<noteq> n_routeId n) \<Longrightarrow>
      n_relay (snd (readLoop_turn ok (Inr payload) n)) =
      (if MessageType m = Some RouteMessageTypeRpcResponse then HandleRelayRpcResponse m (n_relay n) else n_relay n)"
  using HandleRelayRpcRequest_utters [of m n ok]
  by (cases "MessageType m",
      auto simp: readLoop_turn_def assms handleMessage_def utters_silent handle_simple_quiet message_types)+

lemma readLoop_turn_lost:
  "utters P n (snd (readLoop_turn ok (Inl err) n))" "n_relay (snd (readLoop_turn ok (Inl err) n)) = n_relay n"
  by (simp_all add: readLoop_turn_def utters_silent)

text \<open>A call registers its future and writes its request at most.\<close>

definition asks :: "node \<Rightarrow> gostring \<Rightarrow> RpcRequest \<Rightarrow> RouteMessage \<Rightarrow> bool" where
  "asks n target req m \<longleftrightarrow> target \<noteq> n_routeId n \<and>
     m = client_message (n_routeId n) target RouteMessageTypeRpcRequest (Marshal json_RpcRequest req)"

lemma relay_Call_effect:
  assumes "waits_quietly env" "relay_Call target env packetId args n = (r, n')"
    and "req = relay_request target env packetId args n"
  shows "utters (asks n target req) n n' \<and>
    (n_relay n' = snd (register_new (req_RpcUid req) (n_relay n)) \<and>
       (\<forall>f t. r = Waiting f t \<longrightarrow> f = fst (register_new (req_RpcUid req) (n_relay n))) \<or>
     n_relay n' = n_relay n \<and> (\<forall>f t. r \<noteq> Waiting f t))"
proof -
  let ?data = "Marshal json_RpcRequest req"
  define w where "w = (if connected_node n then (None, n) else env_await1 env n)"
  obtain e1 n0 where w: "w = (e1, n0)" by fastforce
  obtain s where n0: "n0 = n\<lparr>n_client := s\<rparr>"
  proof (cases "connected_node n")
    case True
    then have "n0 = n\<lparr>n_client := n_client n\<rparr>" using w by (simp add: w_def)
    then show thesis by (rule that)
  next
    case False
    then have "env_await1 env n = (e1, n0)" using w by (simp add: w_def)
    then show thesis using assms(1) that unfolding waits_quietly_def by (metis snd_conv)
  qed
  have n0_sel: "n_relay n0 = n_relay n" "n_cfg n0 = n_cfg n" "n_stubs n0 = n_stubs n" by (simp_all add: n0)
  have req: "relay_request target env packetId args n0 = req" by (simp add: assms(3) relay_request_def n0)
  have quiet: "utters P n n0" for P by (simp add: n0 utters_silent)
  note call = assms(2) [unfolded relay_Call_def, folded w_def, unfolded w]
  show ?thesis
  proof (cases "e1 \<noteq> None \<or> target = n_routeId n")
    case True
    then have "n' = n0" "\<forall>f t. r \<noteq> Waiting f t"
      using call by (auto simp: n0 split: prod.splits option.splits)
    then show ?thesis using quiet n0_sel by simp
  next
    case False
    then have remote: "e1 = None" "target \<noteq> n_routeId n0" "target \<noteq> n_routeId n" by (simp_all add: n0)
    obtain f fm where fm: "register_new (req_RpcUid req) (n_relay n) = (f, fm)" by fastforce
    let ?n1 = "n0\<lparr>n_relay := fm\<rparr>"
    have to_n1: "utters (\<lambda>_. False) n ?n1" by (simp add: n0 utters_silent)
    obtain e2 n2 where send1: "Send (env_ok1 env) target RouteMessageTypeRpcRequest ?data ?n1 = (e2, n2)" by fastforce
    have n2: "utters (asks n target req) ?n1 n2" "e2 \<noteq> None \<Longrightarrow> utters (\<lambda>_. False) ?n1 n2" "n_relay n2 = fm"
        "n_routeId n2 = n_routeId n"
      using Send_utters [where to = target and n = ?n1 and t = RouteMessageTypeRpcRequest and d = ?data
          and ok = "env_ok1 env"] remote send1 n0_sel utters_routeId [of _ ?n1 n2]
      by (auto simp: asks_def n0 elim!: utters_mono)
    obtain e3 n3 where wait: "env_await2 env n2 = (e3, n3)" by fastforce
    then obtain s' where n3: "n3 = n2\<lparr>n_client := s'\<rparr>" using assms(1) by (metis waits_quietly_def snd_conv)
    obtain e4 n4 where send2: "Send (env_ok2 env) target RouteMessageTypeRpcRequest ?data n3 = (e4, n4)" by fastforce
    have n4: "utters (asks n target req) n3 n4" "n_relay n4 = fm"
      using Send_utters [where to = target and n = n3 and t = RouteMessageTypeRpcRequest and d = ?data
          and ok = "env_ok2 env"] remote send2 n2(3,4)
      by (auto simp: asks_def n3 elim!: utters_mono)
    have to_n2: "utters (asks n target req) n n2" by (rule utters_later [OF to_n1 n2(1)])
    have to_n3: "utters (\<lambda>_. False) n n3" if "e2 \<noteq> None"
      using utters_later [OF to_n1 n2(2) [OF that]] by (simp add: utters_def n3)
    have to_n4: "utters (asks n target req) n n4" if "e2 \<noteq> None"
      by (rule utters_later [OF to_n3 [OF that] n4(1)])
    have "n' = n2 \<or> e2 \<noteq> None \<and> n' \<in> {n3, n4}" "\<forall>g t. r = Waiting g t \<longrightarrow> g = f"
      using call remote
      by (auto simp: req fm n0_sel send1 wait send2 Let_def simp del: register_new_simps
          split: option.splits if_splits)
    moreover have "n_relay n3 = fm" by (simp add: n3 n2(3))
    moreover have "e2 \<noteq> None \<Longrightarrow> utters (asks n target req) n n3" using to_n3 utters_mono by blast
    ultimately show ?thesis
      using to_n2 to_n4 n2(3) n4(2) by (auto simp: fm simp del: register_new_simps)
  qed
qed

section \<open>What the router writes\<close>

definition rpc :: "RouteMessage \<Rightarrow> bool" where
  "rpc m \<longleftrightarrow> MessageType m = Some RouteMessageTypeRpcRequest \<or> MessageType m = Some RouteMessageTypeRpcResponse"

lemma not_rpc [simp]:
  "\<not> rpc (notice r k)" "\<not> rpc (conflict_reply k)"
  "MessageType m = Some RouteMessageTypeHeartBeat \<Longrightarrow> \<not> rpc (route_table_message m ns)"
  "\<not> rpc (heartbeat_message ks n)" "\<not> rpc (client_message from to RouteMessageTypeMessageData d)"
  by (simp_all add: rpc_def notice_def conflict_reply_def route_table_message_def heartbeat_message_def
      client_message_def message_types)

lemma filter_rpc_notices [simp]: "filter rpc (List.map (\<lambda>(k, _). notice r k) xs) = []"
  by (induction xs) auto

lemma hub_new_mail:
  assumes "proper d he"
  shows "\<exists>ms. hub_mail (hub_do ks he h) d = hub_mail h d @ ms \<and>
    (filter rpc ms = [] \<or>
     (\<exists>c m n. filter rpc ms = [m] \<and> he = Post c m \<and> hub_members h (ToRouteId m) = Some (d, n)))"
proof (cases he)
  case (Hello c m host port)
  then show ?thesis using assms by (auto simp: hello_def Let_def split: option.split prod.split)
next
  case (Post c m)
  then show ?thesis by (auto simp: pass_on_def split: option.split prod.split)
next
  case (Leave c)
  then show ?thesis by (auto simp: expel_simps)
next
  case (Expel ids)
  then show ?thesis by (auto simp: expel_simps)
qed (use assms in auto)

lemma hub_new_members:
  assumes "hub_members (hub_do ks he h) k = Some (d, n)"
  shows "(\<exists>n. hub_members h k = Some (d, n)) \<or> (\<exists>m host port. he = Hello d m host port \<and> FromRouteId m = k)"
  using assms
  by (cases he) (auto simp: hello_def pass_on_def expel_simps Let_def split: option.splits prod.splits if_splits)

lemma hub_event_cases:
  "hub_event_of s e = Post c m \<Longrightarrow>
     \<exists>payload now. e = Turn c (Inr payload) now \<and> DecodeRouteMessagePayload payload = Inr m"
  "hub_event_of s e = Hello c m host port \<Longrightarrow>
     \<exists>payload now. e = Turn c (Inr payload) now \<and> DecodeRouteMessagePayload payload = Inr m"
  by (cases e; auto simp: hub_event_of_def said_def split: sum.splits option.splits prod.splits if_splits)+

text \<open>
  A step of the router in terms of mailboxes: it passes on at most the request or response it
  has just read, to the connection of its target, and registers an id for the connection that
  announces it.
\<close>

lemma router_step:
  assumes "server_ok s" "implements s h" "server_step s e s'"
  obtains h' where "implements s' h'"
    and "\<And>d. d \<in> set (srv_accepted s) \<Longrightarrow> \<exists>ms. hub_mail h' d = hub_mail h d @ ms \<and>
      (filter rpc ms = [] \<or> (\<exists>c payload now m t. filter rpc ms = [m] \<and> e = Turn c (Inr payload) now \<and>
         DecodeRouteMessagePayload payload = Inr m \<and> srv_sessions s (ToRouteId m) = Some t \<and> sess_Conn t = d))"
    and "\<And>k t'. srv_sessions s' k = Some t' \<Longrightarrow>
      (\<exists>t. srv_sessions s k = Some t \<and> sess_Conn t = sess_Conn t') \<or>
      (\<exists>payload now m. e = Turn (sess_Conn t') (Inr payload) now \<and>
         DecodeRouteMessagePayload payload = Inr m \<and> FromRouteId m = k)"
    and "\<And>d addr. e = Accept d addr \<Longrightarrow> hub_mail h' d = []"
proof -
  obtain ks where h': "implements s' (hub_do ks (hub_event_of s e) h)" using hub_step [OF assms] by blast
  let ?h' = "hub_do ks (hub_event_of s e) h"
  note I = implementsD(1) [OF assms(2)]
  show thesis
  proof (rule that [OF h'])
    fix d assume "d \<in> set (srv_accepted s)"
    from hub_new_mail [OF proper_event [OF this assms(3)], of ks h]
    obtain ms where ms: "hub_mail ?h' d = hub_mail h d @ ms"
      "filter rpc ms = [] \<or> (\<exists>c m n. filter rpc ms = [m] \<and> hub_event_of s e = Post c m \<and>
         hub_members h (ToRouteId m) = Some (d, n))" by blast
    show "\<exists>ms. hub_mail ?h' d = hub_mail h d @ ms \<and>
      (filter rpc ms = [] \<or> (\<exists>c payload now m t. filter rpc ms = [m] \<and> e = Turn c (Inr payload) now \<and>
         DecodeRouteMessagePayload payload = Inr m \<and> srv_sessions s (ToRouteId m) = Some t \<and> sess_Conn t = d))"
      using ms by (intro exI [of _ ms]) (auto simp: I dest!: hub_event_cases(1))
  next
    fix k t' assume "srv_sessions s' k = Some t'"
    then have "hub_members ?h' k = Some (sess_Conn t', node_of t')" by (simp add: implementsD(1) [OF h'])
    from hub_new_members [OF this]
    show "(\<exists>t. srv_sessions s k = Some t \<and> sess_Conn t = sess_Conn t') \<or>
      (\<exists>payload now m. e = Turn (sess_Conn t') (Inr payload) now \<and>
         DecodeRouteMessagePayload payload = Inr m \<and> FromRouteId m = k)"
      by (auto simp: I dest!: hub_event_cases(2))
  next
    fix d addr assume "e = Accept d addr"
    then show "hub_mail ?h' d = []" by (simp add: hub_event_of_def)
  qed
qed

section \<open>The system as mail in transit\<close>

text \<open>
  Whole messages instead of bytes: what each process wrote on each of its connections, what the
  router wrote on each of its own, and how many of these the reader has taken.
\<close>

record post =
  po_out :: "proc \<Rightarrow> nat \<Rightarrow> RouteMessage list"
  po_mail :: "conn \<Rightarrow> RouteMessage list"
  po_up :: "conn \<Rightarrow> nat"
  po_down :: "conn \<Rightarrow> nat"

definition shows_post :: "cluster \<Rightarrow> post \<Rightarrow> bool" where
  "shows_post g v \<longleftrightarrow> (\<exists>h. implements (cl_router g) h \<and> hub_mail h = po_mail v) \<and>
     (\<forall>p c. n_out (cl_nodes g p) c = concat (List.map wire (po_out v p c)) \<and> list_all sizable (po_out v p c)) \<and>
     (\<forall>d p c. cl_link g d = Some (p, c) \<longrightarrow> between (po_out v p c) (po_up v d) (cl_up g d) \<and>
        between (po_mail v d) (po_down v d) (cl_down g d) \<and> list_all sizable (po_mail v d))"

text \<open>One process writes at most one message; the router passes on what \<open>P\<close> allows.\<close>

definition says :: "(RouteMessage \<Rightarrow> bool) \<Rightarrow> (nat \<Rightarrow> RouteMessage list) \<Rightarrow> (nat \<Rightarrow> RouteMessage list) \<Rightarrow> bool" where
  "says P out out' \<longleftrightarrow> out' = out \<or> (\<exists>c m. P m \<and> out' = out(c := out c @ [m]))"

definition passes :: "cluster \<Rightarrow> (conn \<Rightarrow> RouteMessage \<Rightarrow> bool) \<Rightarrow> (conn \<Rightarrow> RouteMessage list) \<Rightarrow> (conn \<Rightarrow> RouteMessage list) \<Rightarrow> bool" where
  "passes g P mail mail' \<longleftrightarrow> (\<forall>d \<in> dom (cl_link g). \<exists>ms. mail' d = mail d @ ms \<and>
     (filter rpc ms = [] \<or> (\<exists>m. filter rpc ms = [m] \<and> P d m)))"

definition serves_at :: "cluster \<Rightarrow> gostring \<Rightarrow> conn \<Rightarrow> bool" where
  "serves_at g k d \<longleftrightarrow> (\<exists>t. srv_sessions (cl_router g) k = Some t \<and> sess_Conn t = d)"

inductive post_step :: "cluster \<Rightarrow> cluster_event \<Rightarrow> post \<Rightarrow> post \<Rightarrow> bool" for g where
  post_links: "passes g (\<lambda>_ _. False) (po_mail v) mail \<Longrightarrow> mail d = [] \<Longrightarrow> cl_link g d = None \<Longrightarrow>
     (p, c) \<notin> ran (cl_link g) \<Longrightarrow> post_step g (Links d p c addr) v
     (v\<lparr>po_mail := mail, po_up := (po_up v)(d := 0), po_down := (po_down v)(d := 0)\<rparr>)"
| post_read: "cl_link g d = Some (p, c) \<Longrightarrow> po_up v d < length (po_out v p c) \<Longrightarrow>
     m = as_received (po_out v p c ! po_up v d) \<Longrightarrow>
     passes g (\<lambda>d' m'. m' = m \<and> serves_at g (ToRouteId m) d') (po_mail v) mail \<Longrightarrow>
     post_step g (RouterReads d now) v (v\<lparr>po_mail := mail, po_up := (po_up v)(d := Suc (po_up v d))\<rparr>)"
| post_router: "e = RouterLoses d now \<or> e = RouterActs a \<Longrightarrow> passes g (\<lambda>_ _. False) (po_mail v) mail \<Longrightarrow>
     post_step g e v (v\<lparr>po_mail := mail\<rparr>)"
| post_receive: "cl_link g d = Some (p, c) \<Longrightarrow> po_down v d < length (po_mail v d) \<Longrightarrow>
     m = as_received (po_mail v d ! po_down v d) \<Longrightarrow> DecodeRouteMessagePayload payload = Inr m \<Longrightarrow>
     says (answers (cl_nodes g p) m) (po_out v p) out \<Longrightarrow>
     post_step g (NodeReads d payload) v
       (v\<lparr>po_out := (po_out v)(p := out), po_down := (po_down v)(d := Suc (po_down v d))\<rparr>)"
| post_call: "req = relay_request target env packetId args (cl_nodes g p) \<Longrightarrow>
     says (asks (cl_nodes g p) target req) (po_out v p) out \<Longrightarrow>
     post_step g (NodeCalls p target env packetId args) v (v\<lparr>po_out := (po_out v)(p := out)\<rparr>)"
| post_node: "e \<in> {NodeLoses p, NodeRuns p, NodeLooks p op, NodeBeats p, NodeSends p to data} \<Longrightarrow>
     says (\<lambda>m. \<not> rpc m \<and> FromRouteId m = n_routeId (cl_nodes g p)) (po_out v p) out \<Longrightarrow>
     post_step g e v (v\<lparr>po_out := (po_out v)(p := out)\<rparr>)"

lemma shows_postD:
  assumes "shows_post g v"
  shows "n_out (cl_nodes g p) c = concat (List.map wire (po_out v p c))" "list_all sizable (po_out v p c)"
    "cl_link g d = Some (p, c) \<Longrightarrow> between (po_out v p c) (po_up v d) (cl_up g d)"
    "cl_link g d = Some (p, c) \<Longrightarrow> between (po_mail v d) (po_down v d) (cl_down g d)"
    "cl_link g d = Some (p, c) \<Longrightarrow> list_all sizable (po_mail v d)"
  using assms by (auto simp: shows_post_def)

lemma shows_post_uid [simp]: "shows_post (g\<lparr>cl_uid := u\<rparr>) v = shows_post g v"
  by (simp add: shows_post_def)

lemma shows_post_down:
  "shows_post g v \<Longrightarrow> between (po_mail v d) k pos \<Longrightarrow>
     shows_post (g\<lparr>cl_down := (cl_down g)(d := pos)\<rparr>) (v\<lparr>po_down := (po_down v)(d := k)\<rparr>)"
  by (auto simp: shows_post_def)

lemma shows_post_up:
  "shows_post g v \<Longrightarrow> (\<And>p c. cl_link g d = Some (p, c) \<Longrightarrow> between (po_out v p c) k pos) \<Longrightarrow>
     shows_post (g\<lparr>cl_up := (cl_up g)(d := pos)\<rparr>) (v\<lparr>po_up := (po_up v)(d := k)\<rparr>)"
  by (auto simp: shows_post_def)

lemma wire_sizable: "length (wire m) < 2 ^ 32 \<Longrightarrow> sizable m"
  by (simp add: sizable_def wire_def EncodeFrame_def)

lemma utters_post:
  assumes "shows_post g v" "utters P (cl_nodes g p) n"
    and "\<forall>c. length (n_out n c) < length (n_out (cl_nodes g p) c) + 2 ^ 32"
  shows "\<exists>out. says P (po_out v p) out \<and> shows_post (put_node p n g) (v\<lparr>po_out := (po_out v)(p := out)\<rparr>)"
proof -
  consider "n_out n = n_out (cl_nodes g p)"
    | c m where "P m" "n_out n = (n_out (cl_nodes g p))(c := n_out (cl_nodes g p) c @ wire m)"
    using assms(2) by (auto simp: utters_def)
  then show ?thesis
  proof cases
    case 1
    then have "shows_post (put_node p n g) (v\<lparr>po_out := (po_out v)(p := po_out v p)\<rparr>)"
      using assms(1) by (simp add: shows_post_def put_node_def)
    then show ?thesis by (auto simp: says_def)
  next
    case 2
    have "sizable m" using spec [OF assms(3), of c] by (intro wire_sizable) (simp add: 2)
    then have "shows_post (put_node p n g)
        (v\<lparr>po_out := (po_out v)(p := (po_out v p)(c := po_out v p c @ [m]))\<rparr>)"
      using assms(1) 2(2) by (auto simp: shows_post_def put_node_def between_append)
    then show ?thesis using 2(1) unfolding says_def by blast
  qed
qed

definition linked_all :: "cluster \<Rightarrow> bool" where
  "linked_all g \<longleftrightarrow> server_ok (cl_router g) \<and> set (srv_accepted (cl_router g)) = dom (cl_link g)"

definition read_now :: "server \<Rightarrow> server_event \<Rightarrow> conn \<Rightarrow> RouteMessage \<Rightarrow> bool" where
  "read_now s e d m \<longleftrightarrow> (\<exists>c payload now t. e = Turn c (Inr payload) now \<and>
     DecodeRouteMessagePayload payload = Inr m \<and> srv_sessions s (ToRouteId m) = Some t \<and> sess_Conn t = d)"

lemma router_post:
  assumes "shows_post g v" "linked_all g" "server_step (cl_router g) e r"
    and "\<forall>d. length (net_out (srv_net r) d) < length (net_out (srv_net (cl_router g)) d) + 2 ^ 32"
  obtains mail where "passes g (read_now (cl_router g) e) (po_mail v) mail"
    and "shows_post (g\<lparr>cl_router := r\<rparr>) (v\<lparr>po_mail := mail\<rparr>)"
    and "\<And>d addr. e = Accept d addr \<Longrightarrow> mail d = []"
proof -
  obtain h where h: "implements (cl_router g) h" "hub_mail h = po_mail v"
    using assms(1) by (auto simp: shows_post_def)
  have ok: "server_ok (cl_router g)" "set (srv_accepted (cl_router g)) = dom (cl_link g)"
    using assms(2) by (simp_all add: linked_all_def)
  obtain h' where h': "implements r h'"
    and mail: "\<And>d. d \<in> dom (cl_link g) \<Longrightarrow> \<exists>ms. hub_mail h' d = hub_mail h d @ ms \<and>
      (filter rpc ms = [] \<or> (\<exists>m. filter rpc ms = [m] \<and> read_now (cl_router g) e d m))"
    and join: "\<And>d addr. e = Accept d addr \<Longrightarrow> hub_mail h' d = []"
  proof (rule router_step [OF ok(1) h(1) assms(3), unfolded ok(2)])
    fix h'
    assume h': "implements r h'" "\<And>d addr. e = Accept d addr \<Longrightarrow> hub_mail h' d = []"
      and mail: "\<And>d. d \<in> dom (cl_link g) \<Longrightarrow> \<exists>ms. hub_mail h' d = hub_mail h d @ ms \<and>
        (filter rpc ms = [] \<or> (\<exists>c payload now m t. filter rpc ms = [m] \<and> e = Turn c (Inr payload) now \<and>
           DecodeRouteMessagePayload payload = Inr m \<and> srv_sessions (cl_router g) (ToRouteId m) = Some t \<and>
           sess_Conn t = d))"
    show thesis
    proof (rule that [OF h'(1) _ h'(2)])
      fix d
      assume "d \<in> dom (cl_link g)"
      from mail [OF this] show "\<exists>ms. hub_mail h' d = hub_mail h d @ ms \<and>
          (filter rpc ms = [] \<or> (\<exists>m. filter rpc ms = [m] \<and> read_now (cl_router g) e d m))"
        unfolding read_now_def by blast
    qed
  qed
  have passes: "passes g (read_now (cl_router g) e) (po_mail v) (hub_mail h')"
    using mail by (simp add: passes_def h(2))
  have "list_all sizable (hub_mail h' d) \<and> between (hub_mail h' d) (po_down v d) (cl_down g d)"
    if link: "cl_link g d = Some (p, c)" for d p c
  proof -
    have "d \<in> dom (cl_link g)" using link by blast
    then obtain ms where ms: "hub_mail h' d = po_mail v d @ ms" using mail h(2) by metis
    have "length (concat (List.map wire ms)) < 2 ^ 32"
      using spec [OF assms(4), of d] implementsD(5) [OF h(1), of d] implementsD(5) [OF h', of d] by (simp add: h(2) ms)
    then have "list_all sizable ms"
    proof (induction ms)
      case (Cons m ms)
      then have "length (wire m) < 2 ^ 32" "length (concat (List.map wire ms)) < 2 ^ 32" by simp_all
      with Cons.IH wire_sizable show ?case by simp
    qed simp
    then show ?thesis using shows_postD(4,5) [OF assms(1) link] by (simp add: ms between_append)
  qed
  then have "shows_post (g\<lparr>cl_router := r\<rparr>) (v\<lparr>po_mail := hub_mail h'\<rparr>)"
    using assms(1) h' by (fastforce simp: shows_post_def)
  from that [OF passes this join] show thesis .
qed

lemma accepted_step:
  "server_step s e s' \<Longrightarrow> set (srv_accepted s') = set (srv_accepted s) \<union> (case e of Accept d addr \<Rightarrow> {d} | _ \<Rightarrow> {})"
  by (erule server_step_cases)
    (auto simp: accept_conn_def turn_control checkHeartbeat_collect_def checkHeartbeat_remove_def expire_debug_def
      Shutdown_def Let_def split: prod.split)

lemma linked_all_server:
  assumes "linked_all g" "server_step (cl_router g) e r"
  shows "server_ok r" "set (srv_accepted r) = dom (cl_link g) \<union> (case e of Accept d addr \<Rightarrow> {d} | _ \<Rightarrow> {})"
  using assms server_ok_step [OF assms(2)] accepted_step [OF assms(2)] by (simp_all add: linked_all_def)

lemma linked_all_step:
  assumes "linked_all g" "cluster_step g e g'"
  shows "linked_all g'"
  using assms(2)
proof cases
  case (links d p c addr r)
  with linked_all_server [OF assms(1) links(6)] show ?thesis by (auto simp: linked_all_def)
next
  case (router_reads d p c payload pos now r)
  with linked_all_server [OF assms(1) router_reads(5)] show ?thesis by (simp add: linked_all_def)
next
  case (router_loses d l err now r)
  with linked_all_server [OF assms(1) router_loses(4)] show ?thesis by (simp add: linked_all_def)
next
  case (router_acts a r)
  then have "(case a of Accept d addr \<Rightarrow> {d} | _ \<Rightarrow> {}) = {}" by (cases a) auto
  with router_acts linked_all_server [OF assms(1) router_acts(4)] show ?thesis by (simp add: linked_all_def)
qed (use assms(1) in \<open>simp_all add: linked_all_def put_node_def\<close>)

lemma passes_mono:
  "passes g P mail mail' \<Longrightarrow> (\<And>d m. P d m \<Longrightarrow> Q d m) \<Longrightarrow> passes g Q mail mail'"
  unfolding passes_def by blast

lemma short_writesD:
  assumes "short_writes g g'"
  shows "cl_nodes g' p = n \<Longrightarrow> \<forall>c. length (n_out n c) < length (n_out (cl_nodes g p) c) + 2 ^ 32"
    and "cl_router g' = r \<Longrightarrow>
      \<forall>d. length (net_out (srv_net r) d) < length (net_out (srv_net (cl_router g)) d) + 2 ^ 32"
  using assms by (auto simp: short_writes_def)

lemma post_simulates_links:
  assumes "shows_post g v" "linked_all g" "cluster_step g (Links d p c addr) g'" "short_writes g g'"
  shows "\<exists>v'. post_step g (Links d p c addr) v v' \<and> shows_post g' v'"
  using assms(3)
proof cases
  case (links r)
  obtain mail where mail: "passes g (read_now (cl_router g) (Accept d addr)) (po_mail v) mail"
    "shows_post (g\<lparr>cl_router := r\<rparr>) (v\<lparr>po_mail := mail\<rparr>)" "mail d = []"
    using router_post [OF assms(1,2) links(5) short_writesD(2) [OF assms(4)]] links(1) by auto
  have "passes g (\<lambda>_ _. False) (po_mail v) mail"
    by (rule passes_mono [OF mail(1)]) (simp add: read_now_def)
  moreover have "shows_post g' (v\<lparr>po_mail := mail, po_up := (po_up v)(d := 0), po_down := (po_down v)(d := 0)\<rparr>)"
    using mail(2,3) by (auto simp: links(1) shows_post_def)
  ultimately show ?thesis using mail(3) links(2,3) post_links by blast
qed

lemma post_simulates_read:
  assumes "shows_post g v" "linked_all g" "cluster_step g (RouterReads d now) g'" "short_writes g g'"
  shows "\<exists>v'. post_step g (RouterReads d now) v v' \<and> shows_post g' v'"
  using assms(3)
proof cases
  case (router_reads p c payload pos r)
  note V = shows_postD [OF assms(1)]
  note read = arrives_message [OF router_reads(3) [unfolded V(1)] V(3) [OF router_reads(2)] V(2)]
  let ?m = "as_received (po_out v p c ! po_up v d)"
  obtain mail where mail: "passes g (read_now (cl_router g) (Turn d (Inr payload) now)) (po_mail v) mail"
    "shows_post (g\<lparr>cl_router := r\<rparr>) (v\<lparr>po_mail := mail\<rparr>)"
    using router_post [OF assms(1,2) router_reads(4) short_writesD(2) [OF assms(4)]] router_reads(1) by auto
  have "passes g (\<lambda>d' m'. m' = ?m \<and> serves_at g (ToRouteId ?m) d') (po_mail v) mail"
    by (rule passes_mono [OF mail(1)]) (use read in \<open>auto simp: read_now_def serves_at_def\<close>)
  then have "post_step g (RouterReads d now) v (v\<lparr>po_mail := mail, po_up := (po_up v)(d := Suc (po_up v d))\<rparr>)"
    using post_read [OF router_reads(2) _ refl] read by blast
  moreover have "shows_post (g\<lparr>cl_router := r, cl_up := (cl_up g)(d := pos)\<rparr>)
      (v\<lparr>po_mail := mail, po_up := (po_up v)(d := Suc (po_up v d))\<rparr>)"
    using shows_post_up [OF mail(2), of d "Suc (po_up v d)" pos] read router_reads(2) by simp
  ultimately show ?thesis using router_reads(1) by blast
qed

lemma post_simulates_receive:
  assumes "shows_post g v" "cluster_step g (NodeReads d payload) g'" "short_writes g g'"
  shows "\<exists>v'. post_step g (NodeReads d payload) v v' \<and> shows_post g' v'"
  using assms(2)
proof cases
  case (node_reads p c pos n ok)
  note V = shows_postD [OF assms(1)]
  obtain h where h: "implements (cl_router g) h" "hub_mail h = po_mail v"
    using assms(1) by (auto simp: shows_post_def)
  have "arrives (concat (List.map wire (po_mail v d))) (cl_down g d) payload pos"
    using node_reads(3) implementsD(5) [OF h(1), of d] by (simp add: h(2))
  note read = arrives_message [OF this V(4,5) [OF node_reads(2)]]
  let ?m = "as_received (po_mail v d ! po_down v d)"
  have "utters (answers (cl_nodes g p) ?m) (cl_nodes g p) n"
    unfolding node_reads(4) using readLoop_turn_utters(1) read by blast
  from utters_post [OF assms(1) this short_writesD(1) [OF assms(3)]] obtain out where
    out: "says (answers (cl_nodes g p) ?m) (po_out v p) out"
      "shows_post (put_node p n g) (v\<lparr>po_out := (po_out v)(p := out)\<rparr>)"
    by (auto simp: node_reads(1) put_node_def)
  have "post_step g (NodeReads d payload) v
      (v\<lparr>po_out := (po_out v)(p := out), po_down := (po_down v)(d := Suc (po_down v d))\<rparr>)"
    using post_receive [OF node_reads(2) _ refl _ out(1)] read by blast
  moreover have "shows_post g' (v\<lparr>po_out := (po_out v)(p := out), po_down := (po_down v)(d := Suc (po_down v d))\<rparr>)"
    using shows_post_down [OF out(2), of d "Suc (po_down v d)" pos] read by (simp add: node_reads(1) put_node_def)
  ultimately show ?thesis by blast
qed

lemma post_simulates_node:
  assumes "shows_post g v" "g' = put_node p n g" "short_writes g g'"
    and "utters (\<lambda>m. \<not> rpc m \<and> FromRouteId m = n_routeId (cl_nodes g p)) (cl_nodes g p) n"
    and "e \<in> {NodeLoses p, NodeRuns p, NodeLooks p op, NodeBeats p, NodeSends p to data}"
  shows "\<exists>v'. post_step g e v v' \<and> shows_post g' v'"
  using utters_post [OF assms(1,4) short_writesD(1) [OF assms(3)]] post_node [OF assms(5)]
  by (auto simp: assms(2) put_node_def)

lemma post_simulates:
  assumes "shows_post g v" "linked_all g" "cluster_step g e g'" "short_writes g g'"
  shows "\<exists>v'. post_step g e v v' \<and> shows_post g' v'"
  using assms(3)
proof cases
  case (router_loses d l err now r)
  obtain mail where mail: "passes g (read_now (cl_router g) (Turn d (Inl err) now)) (po_mail v) mail"
    "shows_post (g\<lparr>cl_router := r\<rparr>) (v\<lparr>po_mail := mail\<rparr>)"
    using router_post [OF assms(1,2) router_loses(4) short_writesD(2) [OF assms(4)]] router_loses(2) by auto
  have "passes g (\<lambda>_ _. False) (po_mail v) mail"
    by (rule passes_mono [OF mail(1)]) (simp add: read_now_def)
  then show ?thesis unfolding router_loses(1,2) using mail(2) post_router by blast
next
  case (router_acts a r)
  have "cl_router g' = r" by (simp add: router_acts(2))
  from router_post [OF assms(1,2) router_acts(4) short_writesD(2) [OF assms(4) this]]
  obtain mail where mail: "passes g (read_now (cl_router g) a) (po_mail v) mail"
    "shows_post (g\<lparr>cl_router := r\<rparr>) (v\<lparr>po_mail := mail\<rparr>)" by metis
  have "passes g (\<lambda>_ _. False) (po_mail v) mail"
    by (rule passes_mono [OF mail(1)]) (use router_acts(3) in \<open>auto simp: read_now_def\<close>)
  then show ?thesis unfolding router_acts(1,2) using mail(2) post_router by blast
next
  case (node_calls p env packetId n target args)
  let ?req = "relay_request target env packetId args (cl_nodes g p)"
  have "utters (asks (cl_nodes g p) target ?req) (cl_nodes g p) n"
    using relay_Call_effect [OF node_calls(4) prod.collapse [symmetric] refl] node_calls(7) by blast
  from utters_post [OF assms(1) this short_writesD(1) [OF assms(4)]] obtain out where
    out: "says (asks (cl_nodes g p) target ?req) (po_out v p) out"
      "shows_post (put_node p n g) (v\<lparr>po_out := (po_out v)(p := out)\<rparr>)"
    by (auto simp: node_calls(2) put_node_def)
  then show ?thesis unfolding node_calls(1) using post_call [OF refl out(1)] node_calls(2) by auto
next
  case (node_sends n ok to data p)
  have "utters (\<lambda>m. \<not> rpc m \<and> FromRouteId m = n_routeId (cl_nodes g p)) (cl_nodes g p) n"
  proof (cases "to = n_routeId (cl_nodes g p)")
    case True
    then show ?thesis using Send_self(1) by (simp add: node_sends(3))
  next
    case False
    show ?thesis unfolding node_sends(3) by (rule utters_mono [OF Send_utters(1) [OF False]]) simp
  qed
  from post_simulates_node [OF assms(1) node_sends(2) assms(4) this] show ?thesis by (simp add: node_sends(1))
next
  case (node_beats p ok ks)
  have "utters (\<lambda>m. \<not> rpc m \<and> FromRouteId m = n_routeId (cl_nodes g p)) (cl_nodes g p)
      (snd (sendHeartbeat ok ks (cl_nodes g p)))"
    by (rule utters_mono [OF sendHeartbeat_utters(1)]) (auto, simp add: heartbeat_message_def)
  from post_simulates_node [OF assms(1) node_beats(2) assms(4) this] show ?thesis by (simp add: node_beats(1))
qed (use assms post_simulates_links post_simulates_read post_simulates_receive readLoop_turn_lost(1) utters_silent
    in \<open>auto intro!: post_simulates_node\<close>)

end
