(* ===== verification/ClusterProps.thy ===== *)
theory ClusterProps
  imports ClusterPost
begin

text \<open>
  Calls in the whole system. An invariant of the cluster says that every request and response
  in transit, on whatever connection and after however many reconnects, tells the truth: a
  request was asked by the node it names, and a response is what its callee's handler gave for
  such a request. So the outcome of a call is never another call's, and no call runs twice.
\<close>

section \<open>Requests and responses that tell the truth\<close>

definition asked :: "cluster_event list \<Rightarrow> proc \<Rightarrow> gostring \<Rightarrow> gostring \<Rightarrow> int \<Rightarrow> gostring list \<Rightarrow> bool" where
  "asked es p uid target packetId args \<longleftrightarrow>
     (\<exists>env. NodeCalls p target env packetId args \<in> set es \<and> uid = GenerateRpcUid (env_nowMs env) (env_counter env))"

text \<open>What the handler of a node with the id \<open>target\<close> gives; \<open>N\<close> are the processes.\<close>

definition given :: "(proc \<Rightarrow> node) \<Rightarrow> gostring \<Rightarrow> int \<Rightarrow> gostring list \<Rightarrow> outcome \<Rightarrow> bool" where
  "given N target packetId args r \<longleftrightarrow>
     (\<exists>q. n_routeId (N q) = target \<and> r = invoke_outcome (Invoke packetId args (n_stubs (N q))))"

definition honest :: "(proc \<Rightarrow> node) \<Rightarrow> cluster_event list \<Rightarrow> RouteMessage \<Rightarrow> bool" where
  "honest N es m \<longleftrightarrow>
     (MessageType m = Some RouteMessageTypeRpcRequest \<longrightarrow>
        FromRouteId m \<noteq> ToRouteId m \<and>
        (\<exists>a req. n_routeId (N a) = FromRouteId m \<and> Data m = Some (Marshal json_RpcRequest req) \<and> RpcRequest_ok req \<and>
           asked es a (req_RpcUid req) (ToRouteId m) (req_PacketId req) (rawToJsonArgs (req_MethodArgsJsonList req)))) \<and>
     (MessageType m = Some RouteMessageTypeRpcResponse \<longrightarrow>
        (\<exists>a resp target packetId args. n_routeId (N a) = ToRouteId m \<and>
           Data m = Some (Marshal json_RpcResponse resp) \<and> RpcResponse_ok resp \<and>
           asked es a (resp_RpcUid resp) target packetId args \<and>
           given N target packetId args (response_outcome resp)))"

lemma asked_mono: "asked es p uid target k args \<Longrightarrow> set es \<subseteq> set es' \<Longrightarrow> asked es' p uid target k args"
  by (auto simp: asked_def)

lemma honest_mono: "honest N es m \<Longrightarrow> set es \<subseteq> set es' \<Longrightarrow> honest N es' m"
  unfolding honest_def by (blast dest: asked_mono)

lemma known_typeD: "known_type t = Some x \<Longrightarrow> t = Some x"
  using RouteMessageTypeFromOrdinal_idem by (auto simp: known_type_def split: option.splits)

lemma as_received_sel [simp]:
  "FromRouteId (as_received m) = FromRouteId m" "ToRouteId (as_received m) = ToRouteId m"
  "Data (as_received m) = Data m"
  by (simp_all add: as_received_def)

lemma as_received_type: "MessageType (as_received m) = Some t \<Longrightarrow> MessageType m = Some t"
  by (simp add: as_received_def known_typeD)

lemma honest_received: "honest N es m \<Longrightarrow> honest N es (as_received m)"
  using as_received_type [of m] by (cases "MessageType (as_received m)") (simp_all add: honest_def)

lemma honest_quiet: "\<not> rpc m \<Longrightarrow> honest N es m"
  by (simp add: honest_def rpc_def)

section \<open>The invariant\<close>

text \<open>Ids of calls: every process counts up.\<close>

definition numbered :: "cluster_event list \<Rightarrow> proc \<Rightarrow> int \<Rightarrow> gostring \<times> int \<times> gostring list \<Rightarrow> bool" where
  "numbered es p i q \<longleftrightarrow>
     (\<exists>target env k args. NodeCalls p target env k args \<in> set es \<and> i = env_counter env \<and> q = (target, k, args))"

definition counted :: "cluster_event list \<Rightarrow> (proc \<Rightarrow> int) \<Rightarrow> bool" where
  "counted es u \<longleftrightarrow> (\<forall>p. 0 \<le> u p \<and> (\<forall>i q. numbered es p i q \<longrightarrow> 0 < i \<and> i \<le> u p) \<and>
     (\<forall>i q q'. numbered es p i q \<longrightarrow> numbered es p i q' \<longrightarrow> q = q'))"

lemma asked_unique:
  assumes "counted es u" "asked es p uid target k args" "asked es p uid target' k' args'"
  shows "target = target' \<and> k = k' \<and> args = args'"
proof -
  obtain t i t' i' where e: "numbered es p i (target, k, args)" "numbered es p i' (target', k', args')"
    "GenerateRpcUid t i = GenerateRpcUid t' i'"
    using assms(2,3) unfolding asked_def numbered_def by blast
  then have "0 \<le> i" "0 \<le> i'" using assms(1) unfolding counted_def by fastforce+
  then have "i = i'" by (rule GenerateRpcUid_unique [OF e(3)])
  then have "(target, k, args) = (target', k', args')" using assms(1) e(1,2) unfolding counted_def by blast
  then show ?thesis by simp
qed

lemma asked_before:
  assumes "counted es u" "asked es p uid target k args" "u p < i"
  shows "GenerateRpcUid t i \<noteq> uid"
proof
  assume eq: "GenerateRpcUid t i = uid"
  obtain t' j where j: "uid = GenerateRpcUid t' j" "numbered es p j (target, k, args)"
    using assms(2) unfolding asked_def numbered_def by blast
  then have "0 < j \<and> j \<le> u p" using assms(1) unfolding counted_def by blast
  moreover from this have "i = j" using GenerateRpcUid_unique [of t i t' j] eq assms(3) by (simp add: j(1))
  ultimately show False using assms(3) by simp
qed

lemma numbered_snoc:
  "numbered (es @ [e]) p i q \<longleftrightarrow> numbered es p i q \<or>
     (\<exists>target env k args. e = NodeCalls p target env k args \<and> i = env_counter env \<and> q = (target, k, args))"
  by (auto simp: numbered_def)

lemma counted_call:
  assumes "counted es u" "u p < env_counter env"
  shows "counted (es @ [NodeCalls p target env k args]) (u(p := env_counter env))"
proof -
  let ?es = "es @ [NodeCalls p target env k args]" and ?u = "u(p := env_counter env)"
  have C: "0 \<le> u q" "numbered es q i x \<Longrightarrow> 0 < i \<and> i \<le> u q"
      "numbered es q i x \<Longrightarrow> numbered es q i y \<Longrightarrow> x = y" for q i x y
    using assms(1) unfolding counted_def by blast+
  have new: "numbered ?es q i x \<longleftrightarrow>
      numbered es q i x \<or> q = p \<and> i = env_counter env \<and> x = (target, k, args)" for q i x
    by (auto simp: numbered_snoc)
  have old: "i < env_counter env" if "numbered es p i x" for i x
    using C(2) [OF that] assms(2) by simp
  have pos: "0 < env_counter env" using C(1) [of p] assms(2) by simp
  have "0 \<le> ?u q" for q using C(1) [of q] pos by simp
  moreover have "0 < i \<and> i \<le> ?u q" if "numbered ?es q i x" for q i x
    using that C(2) [of q i x] old [of i x] pos unfolding new by (cases "q = p") auto
  moreover have "x = y" if "numbered ?es q i x" "numbered ?es q i y" for q i x y
    using that C(3) [of q i x y] old [of i x] old [of i y] unfolding new by auto
  ultimately show ?thesis unfolding counted_def by blast
qed

lemma counted_other: "counted es u \<Longrightarrow> (\<And>p target env k args. e \<noteq> NodeCalls p target env k args) \<Longrightarrow> counted (es @ [e]) u"
  by (simp add: counted_def numbered_snoc)

definition system_ok :: "(proc \<Rightarrow> node) \<Rightarrow> cluster_event list \<Rightarrow> cluster \<Rightarrow> post \<Rightarrow> bool" where
  "system_ok N es g v \<longleftrightarrow> shows_post g v \<and> linked_all g \<and> counted es (cl_uid g) \<and>
     (\<forall>p. n_cfg (cl_nodes g p) = n_cfg (N p) \<and> n_stubs (cl_nodes g p) = n_stubs (N p) \<and>
        futures_ok (n_relay (cl_nodes g p))) \<and>
     (\<forall>p c. \<forall>m \<in> set (po_out v p c). FromRouteId m = n_routeId (N p) \<and> honest N es m) \<and>
     (\<forall>d p c. cl_link g d = Some (p, c) \<longrightarrow>
        (\<forall>m \<in> set (po_mail v d). rpc m \<longrightarrow> honest N es m \<and> ToRouteId m = n_routeId (N p)) \<and>
        (\<forall>k. serves_at g k d \<longrightarrow> k = n_routeId (N p)))"

lemma system_okD:
  assumes "system_ok N es g v"
  shows "shows_post g v" "linked_all g" "counted es (cl_uid g)" "n_routeId (cl_nodes g p) = n_routeId (N p)"
    "n_cfg (cl_nodes g p) = n_cfg (N p)" "n_stubs (cl_nodes g p) = n_stubs (N p)" "futures_ok (n_relay (cl_nodes g p))"
    "m \<in> set (po_out v p c) \<Longrightarrow> FromRouteId m = n_routeId (N p) \<and> honest N es m"
    "cl_link g d = Some (p, c) \<Longrightarrow> m \<in> set (po_mail v d) \<Longrightarrow> rpc m \<Longrightarrow> honest N es m \<and> ToRouteId m = n_routeId (N p)"
    "cl_link g d = Some (p, c) \<Longrightarrow> serves_at g k d \<Longrightarrow> k = n_routeId (N p)"
  using assms unfolding system_ok_def by (simp, simp, simp, simp, simp, simp, simp, simp, blast+)

lemma system_ok_start:
  assumes "\<And>p. n_out (N p) = (\<lambda>_. [])" "\<And>p. n_relay (N p) = NewFutureManager"
  shows "system_ok N [] (cluster_start N) \<lparr>po_out = \<lambda>_ _. [], po_mail = \<lambda>_. [], po_up = \<lambda>_. 0, po_down = \<lambda>_. 0\<rparr>"
proof -
  have "\<exists>h. implements NewServer h \<and> hub_mail h = (\<lambda>_. [])"
    using implements_new by (intro exI [of _ hub_new]) (simp add: hub_new_def)
  moreover have "server_ok NewServer" by (rule server_ok_NewServer)
  moreover have "srv_accepted NewServer = []" by (simp add: NewServer_def)
  ultimately show ?thesis
    by (auto simp: system_ok_def shows_post_def linked_all_def counted_def numbered_def cluster_start_def assms futures_ok_new)
qed

text \<open>A message that a process holds after reading its connection.\<close>

lemma received_honest:
  assumes "system_ok N es g v" "cl_link g d = Some (p, c)" "m = as_received (po_mail v d ! i)" "i < length (po_mail v d)"
  shows "honest N es m" "rpc m \<Longrightarrow> ToRouteId m = n_routeId (N p)"
proof -
  have m: "po_mail v d ! i \<in> set (po_mail v d)" using assms(4) by simp
  have rpc: "rpc (po_mail v d ! i)" if "rpc m"
    using that unfolding rpc_def assms(3) by (blast dest: as_received_type)
  show "honest N es m"
    using rpc system_okD(9) [OF assms(1,2) m] honest_received honest_quiet unfolding assms(3) by blast
  show "ToRouteId m = n_routeId (N p)" if "rpc m"
    using rpc [OF that] system_okD(9) [OF assms(1,2) m] by (simp add: assms(3))
qed

lemma asks_honest:
  assumes "system_ok N es g v" "asks (cl_nodes g p) target (relay_request target env k args (cl_nodes g p)) m"
    and "int64_range (env_nowMs env)" "int64_range k"
  shows "FromRouteId m = n_routeId (N p) \<and> honest N (es @ [NodeCalls p target env k args]) m"
proof -
  let ?req = "relay_request target env k args (cl_nodes g p)"
  have m: "m = client_message (n_routeId (N p)) target RouteMessageTypeRpcRequest (Marshal json_RpcRequest ?req)"
    "target \<noteq> n_routeId (N p)"
    using assms(2) system_okD(4) [OF assms(1)] by (simp_all add: asks_def)
  have "asked (es @ [NodeCalls p target env k args]) p (req_RpcUid ?req) target (req_PacketId ?req)
      (rawToJsonArgs (req_MethodArgsJsonList ?req))"
    by (auto simp: asked_def relay_request_def rawToJsonArgs_def)
  moreover have "RpcRequest_ok ?req" using assms(3,4) by (simp add: RpcRequest_ok_def relay_request_def)
  ultimately show ?thesis using m(2) unfolding honest_def m(1) by (auto simp: message_types)
qed

lemma answers_honest:
  assumes "system_ok N es g v" "honest N es m" "ToRouteId m = n_routeId (N p)" "answers (cl_nodes g p) m m'"
  shows "FromRouteId m' = n_routeId (N p) \<and> honest N es m'"
proof -
  obtain d req where d: "MessageType m = Some RouteMessageTypeRpcRequest" "Data m = Some d"
      "Unmarshal decode_RpcRequest zero_RpcRequest d = (req, True)"
    and m': "m' = client_message (n_routeId (N p)) (FromRouteId m) RouteMessageTypeRpcResponse
      (Marshal json_RpcResponse (relay_response req (n_stubs (N p))))"
    using assms(4) system_okD(4,6) [OF assms(1)] by (auto simp: answers_def)
  obtain a req' where a: "n_routeId (N a) = FromRouteId m" "d = Marshal json_RpcRequest req'" "RpcRequest_ok req'"
    "asked es a (req_RpcUid req') (ToRouteId m) (req_PacketId req') (rawToJsonArgs (req_MethodArgsJsonList req'))"
    using assms(2) d(1,2) by (auto simp: honest_def)
  have "req' = req" using d(3) by (simp add: a(2) req.Unmarshal_Marshal [OF a(3)])
  then have "given N (ToRouteId m) (req_PacketId req) (rawToJsonArgs (req_MethodArgsJsonList req))
      (response_outcome (relay_response req (n_stubs (N p))))"
    using assms(3) by (auto simp: given_def relay_response_outcome)
  then have "\<exists>a resp target packetId args. n_routeId (N a) = FromRouteId m \<and>
      Marshal json_RpcResponse (relay_response req (n_stubs (N p))) = Marshal json_RpcResponse resp \<and>
      RpcResponse_ok resp \<and> asked es a (resp_RpcUid resp) target packetId args \<and>
      given N target packetId args (response_outcome resp)"
    using a unfolding \<open>req' = req\<close> by (metis relay_response_frame)
  then show ?thesis by (simp add: honest_def m' message_types)
qed

text \<open>A response completes its call, any other message leaves the pending calls alone.\<close>

lemma receive_relay:
  assumes "system_ok N es g v" "post_step g (NodeReads d payload) v v'" "cl_link g d = Some (p, c)"
  shows "n_relay (snd (readLoop_turn ok (Inr payload) (cl_nodes g p))) = n_relay (cl_nodes g p) \<or>
    (\<exists>resp target k args a. n_routeId (N a) = n_routeId (N p) \<and> asked es a (resp_RpcUid resp) target k args \<and>
       given N target k args (response_outcome resp) \<and>
       n_relay (snd (readLoop_turn ok (Inr payload) (cl_nodes g p))) =
         complete (resp_RpcUid resp) (response_outcome resp) (n_relay (cl_nodes g p)))"
  using assms(2)
proof cases
  case (post_receive p' c' m out)
  have p: "p' = p" using post_receive(2) assms(3) by simp
  note m = received_honest [OF assms(1,3) post_receive(4,3)]
  have "FromRouteId m \<noteq> n_routeId (cl_nodes g p)" if "MessageType m = Some RouteMessageTypeRpcRequest"
    using m that system_okD(4) [OF assms(1)] by (auto simp: honest_def rpc_def)
  note relay = readLoop_turn_utters(2) [OF post_receive(5) this, of ok]
  show ?thesis
  proof (cases "MessageType m = Some RouteMessageTypeRpcResponse")
    case True
    then obtain a resp target k args where r: "n_routeId (N a) = ToRouteId m"
      "Data m = Some (Marshal json_RpcResponse resp)" "RpcResponse_ok resp"
      "asked es a (resp_RpcUid resp) target k args" "given N target k args (response_outcome resp)"
      using m(1) unfolding honest_def by blast
    have "n_routeId (N a) = n_routeId (N p)" using m(2) r(1) True by (simp add: rpc_def)
    moreover have "n_relay (snd (readLoop_turn ok (Inr payload) (cl_nodes g p))) =
        complete (resp_RpcUid resp) (response_outcome resp) (n_relay (cl_nodes g p))"
      using relay True HandleRelayRpcResponse_complete [OF r(2,3)] by simp
    ultimately show ?thesis using r(4,5) by blast
  qed (use relay in simp)
qed simp_all

lemma nodes_step:
  assumes "system_ok N es g v" "cluster_step g e g'" "post_step g e v v'"
  shows "n_cfg (cl_nodes g' p) = n_cfg (N p) \<and> n_stubs (cl_nodes g' p) = n_stubs (N p) \<and>
    futures_ok (n_relay (cl_nodes g' p))"
proof -
  note D = system_okD [OF assms(1)]
  have node: ?thesis
    if "utters P (cl_nodes g q) n" "futures_ok (n_relay n)" "cl_nodes g' = (cl_nodes g)(q := n)" for P q n
    using that D(5-7) by (simp add: utters_def)
  from assms(2) show ?thesis
  proof cases
    case (node_reads d q c payload pos n ok)
    obtain m where m: "DecodeRouteMessagePayload payload = Inr m"
      using assms(3) unfolding node_reads(1) by cases auto
    have "utters (\<lambda>_. True) (cl_nodes g q) n"
      unfolding node_reads(5) by (rule utters_mono [OF readLoop_turn_utters(1) [OF m]]) simp
    moreover have "futures_ok (n_relay n)"
      using receive_relay [OF assms(1) assms(3) [unfolded node_reads(1)] node_reads(3), of ok] D(7) futures_ok_complete
      unfolding node_reads(5) by metis
    ultimately show ?thesis by (rule node) (simp add: node_reads(2) put_node_def)
  next
    case (node_loses n ok err q)
    then show ?thesis
      using readLoop_turn_lost D(7) by (intro node [of "\<lambda>_. True" q n]) (auto simp: put_node_def)
  next
    case (node_runs q s)
    then show ?thesis using D(5-7) by (simp add: put_node_def)
  next
    case (node_looks n q op)
    then show ?thesis using D(5-7) by (simp add: put_node_def)
  next
    case (node_beats q ok ks)
    show ?thesis
      by (rule node [OF sendHeartbeat_utters(1)]) (simp_all add: sendHeartbeat_utters(2) D(7) node_beats(2) put_node_def)
  next
    case (node_sends n ok to data q)
    have n: "cl_nodes g' = (cl_nodes g)(q := n)" by (simp add: node_sends(2) put_node_def)
    show ?thesis
    proof (cases "to = n_routeId (cl_nodes g q)")
      case True
      from node [OF Send_self(1) _ n [unfolded node_sends(3) True]] show ?thesis by (simp add: Send_self(2) D(7))
    next
      case False
      from node [OF Send_utters(1) [OF False] _ n [unfolded node_sends(3)]] show ?thesis
        by (simp add: Send_utters(3) [OF False] D(7))
    qed
  next
    case (node_calls q env k n target args)
    let ?req = "relay_request target env k args (cl_nodes g q)" and ?fm = "n_relay (cl_nodes g q)"
    obtain r where "relay_Call target env k args (cl_nodes g q) = (r, n)" using node_calls(7) by (metis prod.collapse)
    note effect = relay_Call_effect [OF node_calls(4) this refl, THEN conjunct1]
      relay_Call_effect [OF node_calls(4) this refl, THEN conjunct2]
    have "futures_ok (n_relay n)"
      using effect(2) by (elim disjE conjE) (simp_all only: D(7) futures_ok_register)
    then show ?thesis by (rule node [OF effect(1)]) (simp add: node_calls(2) put_node_def)
  qed (use D(5-7) in simp_all)
qed

lemma out_step:
  assumes "system_ok N es g v" "cluster_step g e g'" "post_step g e v v'" "m \<in> set (po_out v' p c)"
  shows "FromRouteId m = n_routeId (N p) \<and> honest N (es @ [e]) m"
proof -
  note D = system_okD [OF assms(1)]
  have old: ?thesis if "m \<in> set (po_out v p c)"
    using D(8) [OF that] honest_mono [of N es m "es @ [e]"] by auto
  have new: ?thesis
    if "says P (po_out v q) out" "po_out v' = (po_out v)(q := out)"
      "\<And>m. P m \<Longrightarrow> FromRouteId m = n_routeId (N q) \<and> honest N (es @ [e]) m" for P q out
    using that assms(4) old by (cases "p = q") (auto simp: says_def split: if_splits)
  from assms(3) show ?thesis
  proof cases
    case (post_receive d q c m' payload out)
    note m' = received_honest [OF assms(1) post_receive(3,5,4)]
    have "FromRouteId m = n_routeId (N q) \<and> honest N (es @ [e]) m" if "answers (cl_nodes g q) m' m" for m
    proof -
      have "ToRouteId m' = n_routeId (N q)" using that by (intro m'(2)) (simp add: answers_def rpc_def)
      from answers_honest [OF assms(1) m'(1) this that] show ?thesis
        using honest_mono [of N es m "es @ [e]"] by auto
    qed
    then show ?thesis using post_receive(2) by (intro new [OF post_receive(7)]) auto
  next
    case (post_call req target env k args q out)
    from assms(2) have "int64_range (env_nowMs env)" "int64_range k" unfolding post_call(1) by (cases; simp)+
    then show ?thesis
      using asks_honest [OF assms(1), of q target env k args] post_call by (intro new [OF post_call(4)]) auto
  next
    case (post_node q op to data out)
    then show ?thesis using D(4) honest_quiet by (intro new [OF post_node(3)]) auto
  qed (use old assms(4) in auto)
qed

lemma asked_mail_step:
  assumes "system_ok N es g v" "post_step g e v v'" "cl_link g d = Some (p, c)" "m \<in> set (po_mail v' d)" "rpc m"
  shows "honest N (es @ [e]) m \<and> ToRouteId m = n_routeId (N p)"
proof -
  note D = system_okD [OF assms(1)]
  have old: ?thesis if "m \<in> set (po_mail v d)"
    using D(9) [OF assms(3) that assms(5)] honest_mono [of N es m "es @ [e]"] by auto
  have new: ?thesis
    if P: "passes g P (po_mail v) (po_mail v')" "P d m \<Longrightarrow> honest N (es @ [e]) m \<and> ToRouteId m = n_routeId (N p)" for P
  proof -
    obtain ms where ms: "po_mail v' d = po_mail v d @ ms" "filter rpc ms = [] \<or> (\<exists>m. filter rpc ms = [m] \<and> P d m)"
      using P(1) assms(3) unfolding passes_def by blast
    show ?thesis
    proof (cases "m \<in> set ms")
      case True
      then have "m \<in> set (filter rpc ms)" using assms(5) by simp
      with ms(2) have "P d m" by (metis empty_iff list.set(1) set_ConsD)
      then show ?thesis by (rule P(2))
    qed (use old assms(4) ms(1) in auto)
  qed
  from assms(2) show ?thesis
  proof cases
    case (post_read d' q c' m' mail now)
    have m': "m' = as_received (po_out v q c' ! po_up v d')" "po_out v q c' ! po_up v d' \<in> set (po_out v q c')"
      using post_read(4,5) by simp_all
    have "honest N (es @ [e]) m'"
      using D(8) [OF m'(2)] honest_received honest_mono [of N es _ "es @ [e]"] unfolding m'(1) by auto
    moreover have "po_mail v' = mail" by (simp add: post_read(2))
    ultimately have passed: "passes g (\<lambda>d' x. x = m' \<and> serves_at g (ToRouteId m') d') (po_mail v) (po_mail v')"
      and m'_ok: "honest N (es @ [e]) m'" using post_read(6) by simp_all
    show ?thesis
    proof (rule new [OF passed])
      assume "m = m' \<and> serves_at g (ToRouteId m') d"
      then show "honest N (es @ [e]) m \<and> ToRouteId m = n_routeId (N p)"
        using m'_ok D(10) [OF assms(3)] by blast
    qed
  next
    case (post_links mail d' q c' addr)
    show ?thesis by (rule new [of "\<lambda>_ _. False"]) (simp_all add: post_links)
  next
    case (post_router d now a mail)
    show ?thesis by (rule new [of "\<lambda>_ _. False"]) (simp_all add: post_router)
  qed (use old assms(4) in auto)
qed

text \<open>A connection serves the id of the process at its other end.\<close>

lemma serves_step:
  assumes "system_ok N es g v" "cluster_step g e g'" "post_step g e v v'" "cl_link g' d = Some (p, c)" "serves_at g' k d"
  shows "k = n_routeId (N p)"
proof -
  note D = system_okD [OF assms(1)]
  have ok: "server_ok (cl_router g)" "set (srv_accepted (cl_router g)) = dom (cl_link g)"
    using D(2) by (simp_all add: linked_all_def)
  obtain h where h: "implements (cl_router g) h" using D(1) by (auto simp: shows_post_def)
  have router: ?thesis
    if a: "server_step (cl_router g) a (cl_router g')" "cl_link g d = Some (p, c)"
      "\<And>payload now m. a = Turn d (Inr payload) now \<Longrightarrow> DecodeRouteMessagePayload payload = Inr m \<Longrightarrow>
         FromRouteId m = n_routeId (N p)" for a
  proof -
    obtain t' where t': "srv_sessions (cl_router g') k = Some t'" "sess_Conn t' = d"
      using assms(5) by (auto simp: serves_at_def)
    have "serves_at g k d \<or> (\<exists>payload now m. a = Turn d (Inr payload) now \<and>
        DecodeRouteMessagePayload payload = Inr m \<and> FromRouteId m = k)"
      using router_step [OF ok(1) h a(1)] t' unfolding serves_at_def by metis
    then show ?thesis using D(10) [OF a(2)] a(3) by blast
  qed
  have same: ?thesis if "cl_router g' = cl_router g" "cl_link g' = cl_link g"
    using assms(4,5) D(10) that by (auto simp: serves_at_def)
  from assms(2) show ?thesis
  proof cases
    case (links d' q c' addr r)
    then have g': "cl_router g' = r" "cl_link g' = (cl_link g)(d' \<mapsto> (q, c'))" by simp_all
    have "d' \<notin> dom (cl_link g)" using links(3) by blast
    then have "\<not> serves_at g k d'" using server_okD(3) [OF ok(1)] unfolding ok(2) serves_at_def by blast
    then have "\<not> serves_at g' k d'"
      using links(6) g'(1) by (auto simp: serves_at_def accept_conn_def)
    then have "d \<noteq> d'" using assms(5) by blast
    then show ?thesis using router [of "Accept d' addr"] links(6) g' assms(4) by auto
  next
    case (router_reads d' q c' payload pos now r)
    have turn: "server_step (cl_router g) (Turn d' (Inr payload) now) (cl_router g')" "cl_link g' = cl_link g"
      using router_reads by simp_all
    have from_d: "FromRouteId m = n_routeId (N q)" if "DecodeRouteMessagePayload payload = Inr m" for m
    proof -
      note V = shows_postD [OF D(1)]
      note read = arrives_message [OF router_reads(4) [unfolded V(1)] V(3) [OF router_reads(3)] V(2)]
      then show ?thesis using that D(8) by (metis Inr_inject as_received_sel(1) nth_mem)
    qed
    show ?thesis
      using assms(4) router_reads(3) from_d unfolding turn(2) by (intro router [OF turn(1)]) auto
  next
    case (router_loses d' l err now r)
    then show ?thesis using assms(4) by (intro router [of "Turn d' (Inl err) now"]) auto
  next
    case (router_acts a r)
    then show ?thesis using assms(4) by (intro router [of a]) auto
  qed (intro same; simp add: put_node_def)+
qed

lemma counted_step: "counted es (cl_uid g) \<Longrightarrow> cluster_step g e g' \<Longrightarrow> counted (es @ [e]) (cl_uid g')"
  by (erule cluster_step_cases) (simp_all add: counted_call counted_other put_node_def)

lemma system_ok_step:
  assumes "system_ok N es g v" "cluster_step g e g'" "short_writes g g'"
  obtains v' where "post_step g e v v'" "system_ok N (es @ [e]) g' v'"
proof -
  note D = system_okD [OF assms(1)]
  obtain v' where v': "post_step g e v v'" "shows_post g' v'"
    using post_simulates [OF D(1,2) assms(2,3)] by blast
  have mail: "honest N (es @ [e]) m \<and> ToRouteId m = n_routeId (N p)"
    if "cl_link g' d = Some (p, c)" "m \<in> set (po_mail v' d)" "rpc m" for d p c m
  proof (cases "cl_link g d")
    case None
    have "\<exists>addr. e = Links d p c addr"
      using assms(2) None that(1) by cases (auto simp: put_node_def split: if_splits)
    then obtain addr where e: "e = Links d p c addr" ..
    from v'(1) that(2) show ?thesis unfolding e by cases simp_all
  next
    case (Some l)
    have "cl_link g d = Some (p, c)"
      using assms(2) Some that(1) by cases (auto simp: put_node_def split: if_splits)
    from asked_mail_step [OF assms(1) v'(1) this that(2,3)] show ?thesis .
  qed
  have "system_ok N (es @ [e]) g' v'"
    unfolding system_ok_def
    using v'(2) linked_all_step [OF D(2) assms(2)] counted_step [OF D(3) assms(2)] nodes_step [OF assms(1,2) v'(1)]
      out_step [OF assms(1,2) v'(1)] mail serves_step [OF assms(1,2) v'(1)] by blast
  with v'(1) show thesis by (rule that)
qed

lemma system_ok_run:
  assumes "cluster_run g es' g'" "system_ok N es g v"
  shows "\<exists>v'. system_ok N (es @ es') g' v'"
  using assms
proof (induction rule: cluster_run.induct)
  case (run_step g es' g1 e g2)
  then obtain v1 where "system_ok N (es @ es') g1 v1" by blast
  from system_ok_step [OF this run_step(2,3)] show ?case by (metis append.assoc)
qed auto

section \<open>A call gets its own answer\<close>

text \<open>What happens to the pending calls of a process in a step: at most one is registered or completed.\<close>

fun fair_op :: "(proc \<Rightarrow> node) \<Rightarrow> cluster_event list \<Rightarrow> cluster_event \<Rightarrow> proc \<Rightarrow> call_op \<Rightarrow> bool" where
  "fair_op N es e p (OpRegister uid) \<longleftrightarrow>
     (\<exists>target env k args. e = NodeCalls p target env k args \<and> uid = GenerateRpcUid (env_nowMs env) (env_counter env))"
| "fair_op N es e p (OpFinish uid r) \<longleftrightarrow> (\<exists>target k args. asked es p uid target k args \<and> given N target k args r)"

lemma relay_step:
  assumes "system_ok N es g v" "cluster_step g e g'" "post_step g e v v'" "inj (\<lambda>p. n_routeId (N p))"
  shows "\<exists>ops. n_relay (cl_nodes g' p) = run_calls ops (n_relay (cl_nodes g p)) \<and> list_all (fair_op N es e p) ops"
proof -
  have same: ?thesis if "n_relay (cl_nodes g' p) = n_relay (cl_nodes g p)"
    using that by (intro exI [of _ "[]"]) (simp add: run_calls_def)
  from assms(2) show ?thesis
  proof cases
    case (node_reads d q c payload pos n ok)
    show ?thesis
    proof (cases "q = p")
      case True
      have g': "cl_nodes g' p = snd (readLoop_turn ok (Inr payload) (cl_nodes g p))"
        by (simp add: node_reads(2,5) put_node_def True)
      from receive_relay [OF assms(1) assms(3) [unfolded node_reads(1)] node_reads(3), of ok] show ?thesis
      proof (elim disjE exE conjE)
        fix resp target k args a
        assume a: "n_routeId (N a) = n_routeId (N q)" "asked es a (resp_RpcUid resp) target k args"
          "given N target k args (response_outcome resp)"
          "n_relay (snd (readLoop_turn ok (Inr payload) (cl_nodes g q))) =
             complete (resp_RpcUid resp) (response_outcome resp) (n_relay (cl_nodes g q))"
        have "a = p" using injD [OF assms(4) a(1)] True by simp
        then show ?thesis
          using a(2-4) unfolding True
          by (intro exI [of _ "[OpFinish (resp_RpcUid resp) (response_outcome resp)]"]) (auto simp: run_calls_def g')
      qed (use same True g' in simp)
    qed (use same in \<open>simp add: node_reads(2) put_node_def\<close>)
  next
    case (node_calls q env k n target args)
    let ?req = "relay_request target env k args (cl_nodes g q)"
    obtain r where "relay_Call target env k args (cl_nodes g q) = (r, n)" using node_calls(7) by (metis prod.collapse)
    from relay_Call_effect [OF node_calls(4) this refl, THEN conjunct2] show ?thesis
    proof (elim disjE conjE)
      assume n: "n_relay n = snd (register_new (req_RpcUid ?req) (n_relay (cl_nodes g q)))"
      show ?thesis
      proof (cases "q = p")
        case True
        with n show ?thesis
          by (intro exI [of _ "[OpRegister (req_RpcUid ?req)]"])
            (auto simp: run_calls_def node_calls(1,2) put_node_def relay_request_def simp del: register_new_simps)
      qed (use same in \<open>simp add: node_calls(2) put_node_def\<close>)
    qed (use same in \<open>cases "q = p"; simp add: node_calls(2) put_node_def\<close>)
  next
    case (node_loses n ok err q)
    then show ?thesis using readLoop_turn_lost(2) by (intro same) (auto simp: put_node_def)
  next
    case (node_sends n ok to data q)
    have "n_relay n = n_relay (cl_nodes g q)"
      unfolding node_sends(3) using Send_utters(3) Send_self(2) by (cases "to = n_routeId (cl_nodes g q)") auto
    then show ?thesis by (intro same) (auto simp: node_sends(2) put_node_def)
  qed (intro same; auto simp: put_node_def sendHeartbeat_utters(2))+
qed

text \<open>A registered call stays pending or has been decided by what a node of its target gave.\<close>

definition well_decided :: "(proc \<Rightarrow> node) \<Rightarrow> gostring \<Rightarrow> nat \<Rightarrow> gostring \<Rightarrow> int \<Rightarrow> gostring list \<Rightarrow> futures \<Rightarrow> bool" where
  "well_decided N uid f target k args fm \<longleftrightarrow>
     fm_m fm uid = Some f \<or> (\<exists>r. outcome_of f fm = Some r \<and> given N target k args r)"

lemma well_decided_op:
  assumes "futures_ok fm" "well_decided N uid f target k args fm" "fair_op N es e p op"
    and "asked es p uid target k args" "counted es u" "cluster_step g e g'" "cl_uid g = u"
  shows "well_decided N uid f target k args (call_step register_new complete op fm)"
proof (cases "\<exists>r. outcome_of f fm = Some r \<and> given N target k args r")
  case True
  then show ?thesis using calls.decided_step [OF assms(1)] by (auto simp: well_decided_def)
next
  case False
  then have pending: "fm_m fm uid = Some f" using assms(2) unfolding well_decided_def by blast
  show ?thesis
  proof (cases op)
    case (OpRegister uid')
    then obtain env target' k' args' where e: "e = NodeCalls p target' env k' args'"
      "uid' = GenerateRpcUid (env_nowMs env) (env_counter env)" using assms(3) by auto
    have "cl_uid g p < env_counter env" using assms(6) unfolding e(1) by cases
    then have "uid' \<noteq> uid" using asked_before [OF assms(5,4)] by (simp add: e(2) assms(7))
    then show ?thesis using calls.pending_step [OF assms(1) pending, of op] by (simp add: OpRegister well_decided_def)
  next
    case (OpFinish uid' r)
    show ?thesis
    proof (cases "uid' = uid")
      case True
      obtain target' k' args' where "asked es p uid' target' k' args'" "given N target' k' args' r"
        using assms(3) by (auto simp: OpFinish)
      then have "given N target k args r" using asked_unique [OF assms(5,4)] True by blast
      moreover have "outcome_of f (complete uid r fm) = Some r"
        using calls.finish_result [OF assms(1), of f uid r] pending by simp
      ultimately show ?thesis by (simp add: OpFinish True well_decided_def)
    next
      case False
      then show ?thesis using calls.pending_step [OF assms(1) pending, of op] by (simp add: OpFinish well_decided_def)
    qed
  qed
qed

lemma well_decided_run:
  assumes "cluster_run g es' g'" "system_ok N es g v" "inj (\<lambda>p. n_routeId (N p))"
    and "asked es p uid target k args" "well_decided N uid f target k args (n_relay (cl_nodes g p))"
  shows "well_decided N uid f target k args (n_relay (cl_nodes g' p))"
  using assms
proof (induction rule: cluster_run.induct)
  case (run_step g es' g1 e g2)
  obtain v1 where v1: "system_ok N (es @ es') g1 v1" using system_ok_run [OF run_step(1) run_step.prems(1)] by blast
  obtain v2 where v2: "post_step g1 e v1 v2" using system_ok_step [OF v1 run_step(2,3)] by blast
  obtain ops where ops: "n_relay (cl_nodes g2 p) = run_calls ops (n_relay (cl_nodes g1 p))"
    "list_all (fair_op N (es @ es') e p) ops"
    using relay_step [OF v1 run_step(2) v2 assms(3)] by blast
  have asked: "asked (es @ es') p uid target k args" using asked_mono [OF run_step.prems(3)] by simp
  have "well_decided N uid f target k args (run_calls ops fm)"
    if "futures_ok fm" "well_decided N uid f target k args fm" for fm
    using ops(2) that
  proof (induction ops arbitrary: fm)
    case (Cons op ops)
    then have "well_decided N uid f target k args (call_step register_new complete op fm)"
      using well_decided_op [OF _ _ _ asked system_okD(3) [OF v1] run_step(2) refl] by simp
    with Cons calls.step_inv show ?case by (simp add: run_calls_def)
  qed (simp add: run_calls_def)
  from this [OF system_okD(7) [OF v1] run_step.IH [OF run_step.prems]] show ?case by (simp add: ops(1))
qed

end
