(* ===== verification/ClusterRun.thy ===== *)
theory ClusterRun
  imports ClusterProps
begin

text \<open>
  The system at work: runs of the cluster in which nodes register and a call comes back. They
  show that the steps fit together, byte for byte.
\<close>

section \<open>Reading what was just written\<close>

lemma arrives_frame:
  assumes "payload_ok p" "bytes = sent @ EncodeFrame p"
  shows "arrives bytes (length sent) p (length bytes)"
proof -
  have "fst (ReadFrame tcp_ReadFull [EncodeFrame p]) = Inr p" "concat (snd (ReadFrame tcp_ReadFull [EncodeFrame p])) = []"
    using frame_of_stream_EncodeFrame [of p "[]"] assms(1) by (simp_all add: tcp.ReadFrame_stream payload_ok_def)
  then obtain rest where "ReadFrame tcp_ReadFull [EncodeFrame p] = (Inr p, rest)" "concat rest = []"
    by (metis prod.collapse)
  from arrives.arrives [of bytes sent "[EncodeFrame p]" "[]", OF _ refl this(1)] this(2) assms(2)
  show ?thesis by simp
qed

lemma frame_short: "payload_ok p \<Longrightarrow> length (EncodeFrame p) < 2 ^ 32"
  by (simp add: payload_ok_def EncodeFrame_def MaxFrameSize_def)

lemma short_node:
  assumes "payload_ok x" "cl_nodes g' = (cl_nodes g)(p := n)" "cl_router g' = cl_router g"
    and "n_out n = (n_out (cl_nodes g p))(c := n_out (cl_nodes g p) c @ EncodeFrame x) \<or> n_out n = n_out (cl_nodes g p)"
  shows "short_writes g g'"
  using assms(2-4) frame_short [OF assms(1)] by (auto simp: short_writes_def)

lemma short_router:
  assumes "payload_ok x" "cl_nodes g' = cl_nodes g"
    and "\<And>d. net_out (srv_net (cl_router g')) d = net_out (srv_net (cl_router g)) d \<or>
      net_out (srv_net (cl_router g')) d = net_out (srv_net (cl_router g)) d @ EncodeFrame x"
  shows "short_writes g g'"
proof -
  have "length (net_out (srv_net (cl_router g')) d) < length (net_out (srv_net (cl_router g)) d) + 2 ^ 32" for d
    using assms(3) [of d] frame_short [OF assms(1)] by auto
  then show ?thesis using assms(2) by (simp add: short_writes_def)
qed

text \<open>A connection on which both ends have read everything.\<close>

definition ready :: "cluster \<Rightarrow> conn \<Rightarrow> proc \<Rightarrow> nat \<Rightarrow> bool" where
  "ready g d p c \<longleftrightarrow> cl_link g d = Some (p, c) \<and> connected_node (cl_nodes g p) \<and> conn_open (cl_nodes g p) \<and>
     c_conn (n_client (cl_nodes g p)) = Some c \<and> srv_running (cl_router g) d \<and>
     \<not> net_closed (srv_net (cl_router g)) d \<and> cl_up g d = length (n_out (cl_nodes g p) c) \<and>
     cl_down g d = length (net_out (srv_net (cl_router g)) d)"

lemma readyD:
  assumes "ready g d p c"
  shows "cl_link g d = Some (p, c)" "connected_node (cl_nodes g p)" "conn_open (cl_nodes g p)"
    "c_conn (n_client (cl_nodes g p)) = Some c" "c \<notin> c_closed (n_client (cl_nodes g p))"
    "srv_running (cl_router g) d" "\<not> net_closed (srv_net (cl_router g)) d"
    "cl_up g d = length (n_out (cl_nodes g p) c)" "cl_down g d = length (net_out (srv_net (cl_router g)) d)"
  using assms by (simp_all add: ready_def conn_open_def)

lemma router_reads_frame:
  assumes "cl_link g d = Some (p, c)" "n_out (cl_nodes g p) c = sent @ EncodeFrame x" "cl_up g d = length sent"
    and "payload_ok x" "srv_running (cl_router g) d" "r = handleConn_turn ks now d (Inr x) (cl_router g)"
    and "enumerates ks (srv_sessions r)"
  shows "cluster_step g (RouterReads d now)
    (g\<lparr>cl_router := r, cl_up := (cl_up g)(d := length (n_out (cl_nodes g p) c))\<rparr>)"
proof -
  have "arrives (n_out (cl_nodes g p) c) (cl_up g d) x (length (n_out (cl_nodes g p) c))"
    unfolding assms(3) by (rule arrives_frame [OF assms(4,2)])
  from cluster_step.router_reads [OF assms(1) this server_step.turn [OF assms(5-7)]] show ?thesis .
qed

lemma node_reads_frame:
  assumes "cl_link g d = Some (p, c)" "net_out (srv_net (cl_router g)) d = sent @ EncodeFrame x"
    and "cl_down g d = length sent" "payload_ok x" "n = snd (readLoop_turn True (Inr x) (cl_nodes g p))"
  shows "cluster_step g (NodeReads d x)
    (put_node p n g\<lparr>cl_down := (cl_down g)(d := length (net_out (srv_net (cl_router g)) d))\<rparr>)"
proof -
  have "arrives (net_out (srv_net (cl_router g)) d) (cl_down g d) x (length (net_out (srv_net (cl_router g)) d))"
    unfolding assms(3) by (rule arrives_frame [OF assms(4,2)])
  from cluster_step.node_reads [OF assms(1) this assms(5)] show ?thesis .
qed

section \<open>The five steps of a call\<close>

lemma relay_Call_exact:
  assumes "connected_node n" "conn_open n" "c_conn (n_client n) = Some c" "target \<noteq> n_routeId n" "env_ok1 env"
    and "req = relay_request target env k args n"
  shows "relay_Call target env k args n =
    (Waiting (fm_next (n_relay n)) (await_remaining (env_remaining2 env)),
     n\<lparr>n_relay := snd (register_new (req_RpcUid req) (n_relay n)),
       n_out := (n_out n)(c := n_out n c @ EncodeFrame (request_payload n target req))\<rparr>)"
proof -
  obtain f fm where fm: "register_new (req_RpcUid req) (n_relay n) = (f, fm)" by fastforce
  then have f: "f = fm_next (n_relay n)" using register_new_simps(1) by (metis fst_conv)
  let ?n1 = "n\<lparr>n_relay := fm\<rparr>"
  have n1: "connected_node ?n1" "target \<noteq> n_routeId ?n1" "c_conn (n_client ?n1) = Some c"
    using assms(1,3,4) by (simp_all add: connected_node_def)
  have "Send True target RouteMessageTypeRpcRequest (Marshal json_RpcRequest req) ?n1 =
      (None, ?n1\<lparr>n_out := (n_out n)(c := n_out n c @ EncodeFrame (request_payload n target req))\<rparr>)"
    unfolding Send_def Send_with_remote [OF n1] using assms(2,3)
    by (simp add: Let_def request_payload_def conn_open_def)
  then show ?thesis
    using assms(1,4,5) by (simp add: relay_Call_def assms(6) [symmetric] fm f Let_def del: register_new_simps)
qed

lemma callee_exact:
  assumes "connected_node n" "conn_open n" "c_conn (n_client n) = Some c" "caller \<noteq> n_routeId n" "RpcRequest_ok req"
    and "payload_ok p" "p = payload_of (client_message caller (n_routeId n) RouteMessageTypeRpcRequest
           (Marshal json_RpcRequest req))"
  shows "snd (readLoop_turn True (Inr p) n) =
    n\<lparr>n_out := (n_out n)(c := n_out n c @ EncodeFrame (response_payload n caller req))\<rparr>"
proof -
  let ?m = "client_message caller (n_routeId n) RouteMessageTypeRpcRequest (Marshal json_RpcRequest req)"
  have "DecodeRouteMessagePayload p = Inr ?m" using client_message_decodes assms(6) unfolding assms(7) by simp
  then have "snd (readLoop_turn True (Inr p) n) = snd (Send_with handle_simple True caller RouteMessageTypeRpcResponse
      (Marshal json_RpcResponse (relay_response req (n_stubs n))) n)"
    by (simp add: readLoop_turn_def handleMessage_def HandleRelayRpcRequest_def req.Unmarshal_Marshal assms(5))
  then show ?thesis
    using Send_with_remote [OF assms(1,4,3)] assms(2,3) by (simp add: Let_def response_payload_def conn_open_def)
qed

section \<open>A node registers\<close>

lemma run_step1: "cluster_step g e g' \<Longrightarrow> short_writes g g' \<Longrightarrow> cluster_run g [e] g'"
  using cluster_run.run_step [OF cluster_run.run_start] by simp

lemma run_append: "cluster_run g1 es' g2 \<Longrightarrow> cluster_run g es g1 \<Longrightarrow> cluster_run g (es @ es') g2"
proof (induction rule: cluster_run.induct)
  case (run_step g1 es' g2 e g3)
  then show ?case using cluster_run.run_step [of g "es @ es'" g2 e g3] by simp
qed simp

lemma table_kept:
  assumes "payload_ok (payload_of m)" "MessageType m = Some RouteMessageTypeHeartBeat"
    and "n' = snd (readLoop_turn True (Inr (payload_of m)) n)"
  shows "n_client n' = n_client n" "n_out n' = n_out n" "n_relay n' = n_relay n" "n_stubs n' = n_stubs n"
    "n_cfg n' = n_cfg n"
proof -
  have "sendable m" using assms(1) by (simp add: sendable_def payload_ok_def)
  from Decode_payload_of [OF sendable_fits [OF this]]
  have "n' = handleRegister (as_received m) n"
    using assms(2) by (simp add: assms(3) readLoop_turn_def as_received_def handleMessage_def handle_simple_def message_types
      known_message_type [unfolded message_types])
  moreover have "n_out (handleRegister k n) = n_out n" "n_relay (handleRegister k n) = n_relay n"
    "n_stubs (handleRegister k n) = n_stubs n" for k
    by (simp_all add: handleRegister_def split: option.split prod.split)
  ultimately show "n_client n' = n_client n" "n_out n' = n_out n" "n_relay n' = n_relay n" "n_stubs n' = n_stubs n"
    "n_cfg n' = n_cfg n" by simp_all
qed

text \<open>
  Heartbeat, registration, route table: three steps, after which both ends have read everything
  again. \<open>same_but\<close>: what the steps leave alone.
\<close>

definition same_but :: "conn \<Rightarrow> proc \<Rightarrow> cluster \<Rightarrow> cluster \<Rightarrow> bool" where
  "same_but d p g g' \<longleftrightarrow> cl_uid g' = cl_uid g \<and> (\<forall>q. q \<noteq> p \<longrightarrow> cl_nodes g' q = cl_nodes g q) \<and>
     n_cfg (cl_nodes g' p) = n_cfg (cl_nodes g p) \<and> n_stubs (cl_nodes g' p) = n_stubs (cl_nodes g p) \<and>
     n_relay (cl_nodes g' p) = n_relay (cl_nodes g p) \<and>
     (\<forall>d' p' c'. d' \<noteq> d \<longrightarrow> p' \<noteq> p \<longrightarrow> ready g d' p' c' \<longrightarrow> ready g' d' p' c')"

lemma hello_trip:
  assumes "ready g d p c" "n = cl_nodes g p" "x = payload_of (heartbeat_message [] n)" "payload_ok x"
    and "RpcServerInfo_ok (heartbeat_info [] n)" "srv_sessions (cl_router g) (n_routeId n) = None"
    and "m = (srv_sessions (cl_router g))(n_routeId n \<mapsto> NewRouterSession (n_routeId n) d (heartbeat_info [] n) now)"
    and "enumerates ks m" "y = payload_of (route_table_message (heartbeat_message [] n) (GetAllRouteNodeList ks m))"
    and "payload_ok y"
  shows "\<exists>g'. cluster_run g [NodeBeats p, RouterReads d now, NodeReads d y] g' \<and> ready g' d p c \<and>
    srv_sessions (cl_router g') = m \<and> same_but d p g g'"
proof -
  note R = readyD [OF assms(1)]
  define n1 where "n1 = n\<lparr>n_out := (n_out n)(c := n_out n c @ EncodeFrame x)\<rparr>"
  define g1 where "g1 = put_node p n1 g"
  have beat: "cluster_step g (NodeBeats p) g1"
    using cluster_step.node_beats [of g p True "[]"] R(4,5)
    by (simp add: g1_def n1_def sendHeartbeat_def write_conn_def assms(2,3))
  have short1: "short_writes g g1"
    by (rule short_node [OF assms(4), of g1 g p n1 c]) (simp_all add: g1_def n1_def put_node_def assms(2))
  have hello: "says_hello x (n_routeId n) (heartbeat_info [] n) (heartbeat_message [] n)"
    using client_message_decodes [of "n_routeId n" "[]" RouteMessageTypeHeartBeat] assms(3-5)
    by (simp add: says_hello_def heartbeat_message_eq info.Unmarshal_Marshal)
  define r where "r = handleConn_turn ks now d (Inr x) (cl_router g)"
  note turn = heartbeat_new [OF hello assms(6), of ks now d, folded r_def assms(7)]
  have r: "srv_sessions r = m" "srv_running r = srv_running (cl_router g)"
    "net_closed (srv_net r) = net_closed (srv_net (cl_router g))"
    "net_out (srv_net r) = (net_out (srv_net (cl_router g)))(d := net_out (srv_net (cl_router g)) d @ EncodeFrame y)"
    using R(7) by (simp_all add: turn conn_Write_out wire_def assms(9) fun_eq_iff)
  define g2 where "g2 = g1\<lparr>cl_router := r, cl_up := (cl_up g1)(d := length (n_out (cl_nodes g1 p) c))\<rparr>"
  have read: "cluster_step g1 (RouterReads d now) g2"
    unfolding g2_def
    by (rule router_reads_frame [where ks = ks and x = x and sent = "n_out n c"])
      (use R assms(4,8) r(1) in \<open>simp_all add: g1_def n1_def put_node_def r_def assms(2)\<close>)
  have short2: "short_writes g1 g2"
    by (rule short_router [OF assms(10)]) (simp_all add: g2_def g1_def put_node_def r(4))
  define n3 where "n3 = snd (readLoop_turn True (Inr y) (cl_nodes g2 p))"
  define g3 where "g3 = put_node p n3 g2\<lparr>cl_down := (cl_down g2)(d := length (net_out (srv_net (cl_router g2)) d))\<rparr>"
  have get: "cluster_step g2 (NodeReads d y) g3"
    unfolding g3_def
    by (rule node_reads_frame [where sent = "net_out (srv_net (cl_router g)) d"])
      (use R assms(10) r(4) in \<open>simp_all add: g2_def g1_def put_node_def n3_def\<close>)
  have n3: "n_client n3 = n_client n" "n_out n3 = (n_out n)(c := n_out n c @ EncodeFrame x)" "n_relay n3 = n_relay n"
    "n_stubs n3 = n_stubs n" "n_cfg n3 = n_cfg n"
    using table_kept [OF assms(10) [unfolded assms(9)] _ n3_def [unfolded assms(9)]]
    by (simp_all add: heartbeat_message_def route_table_message_def g2_def g1_def n1_def put_node_def)
  have short3: "short_writes g2 g3"
    by (rule short_node [OF assms(4), of g3 g2 p n3 c]) (simp_all add: g3_def g2_def g1_def n1_def put_node_def n3)
  have run: "cluster_run g [NodeBeats p, RouterReads d now, NodeReads d y] g3"
    using run_append [OF run_append [OF run_step1 [OF get short3] run_step1 [OF read short2]] run_step1 [OF beat short1]]
    by simp
  have "ready g3 d p c"
    using assms(1) n3 r
    by (simp add: ready_def g3_def g2_def g1_def n1_def put_node_def assms(2) connected_node_def conn_open_def)
  moreover have "ready g3 d' p' c'" if "d' \<noteq> d" "p' \<noteq> p" "ready g d' p' c'" for d' p' c'
    using that r by (simp add: ready_def g3_def g2_def g1_def put_node_def)
  ultimately show ?thesis
    using run n3 r(1) by (intro exI [of _ g3]) (simp add: same_but_def g3_def g2_def g1_def put_node_def assms(2))
qed

section \<open>A call comes back\<close>

text \<open>The router passes the last message of one connection on to another, whose node reads it.\<close>

definition carry :: "conn \<Rightarrow> conn \<Rightarrow> nat \<Rightarrow> proc \<Rightarrow> byte list \<Rightarrow> server \<Rightarrow> cluster \<Rightarrow> cluster" where
  "carry ds dr up q x r g =
     (put_node q (snd (readLoop_turn True (Inr x) (cl_nodes g q))) g)\<lparr>cl_router := r,
        cl_up := (cl_up g)(ds := up), cl_down := (cl_down g)(dr := length (net_out (srv_net r) dr))\<rparr>"

lemma carry_run:
  assumes "cl_link g ds = Some (p, c)" "n_out (cl_nodes g p) c = sent @ EncodeFrame x" "cl_up g ds = length sent"
    and "srv_running (cl_router g) ds" "x = payload_of m" "payload_ok x" "DecodeRouteMessagePayload x = Inr m" "forwarded m"
    and "ToRouteId m \<noteq> []" "srv_sessions (cl_router g) (ToRouteId m) = Some t" "sess_Conn t = dr"
    and "cl_link g dr = Some (q, c')" "\<not> net_closed (srv_net (cl_router g)) dr"
    and "cl_down g dr = length (net_out (srv_net (cl_router g)) dr)" "enumerates ks (srv_sessions (cl_router g))"
    and "n = snd (readLoop_turn True (Inr x) (cl_nodes g q))" "payload_ok y"
    and "n_out n = (n_out (cl_nodes g q))(c' := n_out (cl_nodes g q) c' @ EncodeFrame y) \<or> n_out n = n_out (cl_nodes g q)"
    and "r = handleConn_turn ks now ds (Inr x) (cl_router g)"
  shows "cluster_run g [RouterReads ds now, NodeReads dr x] (carry ds dr (length (n_out (cl_nodes g p) c)) q x r g) \<and>
    srv_sessions r = srv_sessions (cl_router g) \<and> srv_running r = srv_running (cl_router g) \<and>
    net_closed (srv_net r) = net_closed (srv_net (cl_router g)) \<and>
    net_out (srv_net r) = (net_out (srv_net (cl_router g)))(dr := net_out (srv_net (cl_router g)) dr @ EncodeFrame x)"
proof -
  have r: "srv_sessions r = srv_sessions (cl_router g)"
    "srv_net r = snd (conn_Write dr (EncodeFrame x) (srv_net (cl_router g)))"
    using forward_turn [OF assms(7,8), of ks now ds "cl_router g"] assms(9-11)
    by (simp_all add: assms(19) route_target_def wire_def assms(5))
  then have net: "net_closed (srv_net r) = net_closed (srv_net (cl_router g))"
    "net_out (srv_net r) = (net_out (srv_net (cl_router g)))(dr := net_out (srv_net (cl_router g)) dr @ EncodeFrame x)"
    using assms(13) by (simp_all add: conn_Write_out fun_eq_iff)
  have running: "srv_running r = srv_running (cl_router g)" by (simp add: assms(19) turn_control)
  define g1 where "g1 = g\<lparr>cl_router := r, cl_up := (cl_up g)(ds := length (n_out (cl_nodes g p) c))\<rparr>"
  have read: "cluster_step g (RouterReads ds now) g1"
    unfolding g1_def by (rule router_reads_frame [OF assms(1-3,6,4,19)]) (simp add: r(1) assms(15))
  have short1: "short_writes g g1" by (rule short_router [OF assms(6)]) (simp_all add: g1_def net)
  define g2 where "g2 = carry ds dr (length (n_out (cl_nodes g p) c)) q x r g"
  have g2: "g2 = put_node q n g1\<lparr>cl_down := (cl_down g1)(dr := length (net_out (srv_net (cl_router g1)) dr))\<rparr>"
    by (simp add: g2_def g1_def carry_def put_node_def assms(16))
  have get: "cluster_step g1 (NodeReads dr x) g2"
    unfolding g2 by (rule node_reads_frame [where sent = "net_out (srv_net (cl_router g)) dr"])
      (use assms(12,14,6,16) in \<open>simp_all add: g1_def net\<close>)
  have short2: "short_writes g1 g2"
    by (rule short_node [OF assms(17), of g2 g1 q n c']) (use assms(18) in \<open>simp_all add: g2 g1_def put_node_def\<close>)
  show ?thesis
    using run_append [OF run_step1 [OF get short2] run_step1 [OF read short1]] r(1) net running
    by (simp add: g2_def)
qed

lemma call_trip:
  assumes "ready g da a ca" "ready g db b cb" "a \<noteq> b" "da \<noteq> db" "enumerates ks (srv_sessions (cl_router g))"
    and "n_routeId (cl_nodes g a) = ia" "n_routeId (cl_nodes g b) = ib" "ia \<noteq> ib" "ia \<notin> {[], ''debug-admin''}" "ib \<noteq> []"
    and "srv_sessions (cl_router g) ia = Some ta" "sess_Conn ta = da" "srv_sessions (cl_router g) ib = Some tb" "sess_Conn tb = db"
    and "cl_uid g a < env_counter env" "waits_quietly env" "env_ok1 env" "int64_range (env_nowMs env)" "int64_range k"
    and "req = relay_request ib env k args (cl_nodes g a)" "futures_ok (n_relay (cl_nodes g a))"
    and "x = request_payload (cl_nodes g a) ib req" "payload_ok x"
    and "y = response_payload (cl_nodes g b) ia req" "payload_ok y"
  shows "\<exists>g1 g2 t. cluster_step g (NodeCalls a ib env k args) g1 \<and> short_writes g g1 \<and>
    fst (relay_Call ib env k args (cl_nodes g a)) = Waiting (fm_next (n_relay (cl_nodes g a))) t \<and>
    cluster_run g1 [RouterReads da now, NodeReads db x, RouterReads db now', NodeReads da y] g2 \<and>
    futures_ok (n_relay (cl_nodes g2 a)) \<and>
    outcome_of (fm_next (n_relay (cl_nodes g a))) (n_relay (cl_nodes g2 a)) =
      Some (invoke_outcome (Invoke k args (n_stubs (cl_nodes g b))))"
proof -
  let ?n = "cl_nodes g a" and ?m = "cl_nodes g b"
  note A = readyD [OF assms(1)] and B = readyD [OF assms(2)]
  define n1 where "n1 = ?n\<lparr>n_relay := snd (register_new (req_RpcUid req) (n_relay ?n)),
    n_out := (n_out ?n)(ca := n_out ?n ca @ EncodeFrame x)\<rparr>"
  have call: "relay_Call ib env k args ?n = (Waiting (fm_next (n_relay ?n)) (await_remaining (env_remaining2 env)), n1)"
    using relay_Call_exact [OF A(2-4) _ assms(17,20)] assms(6-8) unfolding n1_def assms(22) by simp
  define g1 where "g1 = put_node a n1 g\<lparr>cl_uid := (cl_uid g)(a := env_counter env)\<rparr>"
  have step1: "cluster_step g (NodeCalls a ib env k args) g1"
    unfolding g1_def by (rule cluster_step.node_calls [OF assms(15,16,18,19)]) (simp add: call)
  have short1: "short_writes g g1"
    by (rule short_node [OF assms(23), of g1 g a n1 ca]) (simp_all add: g1_def put_node_def n1_def)
  let ?mx = "client_message ia ib RouteMessageTypeRpcRequest (Marshal json_RpcRequest req)"
  have x: "x = payload_of ?mx" "DecodeRouteMessagePayload x = Inr ?mx" "forwarded ?mx"
    using client_message_decodes assms(23) by (simp_all add: assms(6,22) request_payload_def forwarded_def)
  have ok: "RpcRequest_ok req" using assms(18,19) by (simp add: assms(20) RpcRequest_ok_def relay_request_def)
  define m2 where "m2 = ?m\<lparr>n_out := (n_out ?m)(cb := n_out ?m cb @ EncodeFrame y)\<rparr>"
  have m2: "m2 = snd (readLoop_turn True (Inr x) ?m)"
    using callee_exact [OF B(2-4) _ ok assms(23)] assms(6-8) x(1) by (simp add: m2_def assms(24))
  define r2 where "r2 = handleConn_turn ks now da (Inr x) (cl_router g)"
  define g2 where "g2 = carry da db (length (n_out n1 ca)) b x r2 g1"
  have g1: "cl_nodes g1 a = n1" "cl_nodes g1 b = ?m" "cl_router g1 = cl_router g" "cl_link g1 = cl_link g"
    "cl_up g1 = cl_up g" "cl_down g1 = cl_down g" "n_out n1 ca = n_out ?n ca @ EncodeFrame x"
    using assms(3) by (simp_all add: g1_def put_node_def n1_def)
  have "cluster_run g1 [RouterReads da now, NodeReads db x] (carry da db (length (n_out (cl_nodes g1 a) ca)) b x r2 g1) \<and>
      srv_sessions r2 = srv_sessions (cl_router g1) \<and> srv_running r2 = srv_running (cl_router g1) \<and>
      net_closed (srv_net r2) = net_closed (srv_net (cl_router g1)) \<and>
      net_out (srv_net r2) = (net_out (srv_net (cl_router g1)))(db := net_out (srv_net (cl_router g1)) db @ EncodeFrame x)"
    by (rule carry_run [of g1 da a ca "n_out ?n ca" x ?mx tb db b cb ks m2 y r2 now])
      (simp_all add: g1 A B x(2,3) assms(5,10,13,14,23,25) m2 [symmetric] r2_def m2_def, rule x(1))
  then have leg1: "cluster_run g1 [RouterReads da now, NodeReads db x] g2"
    "srv_sessions r2 = srv_sessions (cl_router g)" "srv_running r2 = srv_running (cl_router g)"
    "net_closed (srv_net r2) = net_closed (srv_net (cl_router g))"
    "net_out (srv_net r2) = (net_out (srv_net (cl_router g)))(db := net_out (srv_net (cl_router g)) db @ EncodeFrame x)"
    by (simp_all add: g1 g2_def)
  let ?my = "client_message ib ia RouteMessageTypeRpcResponse (Marshal json_RpcResponse (relay_response req (n_stubs ?m)))"
  have y: "y = payload_of ?my" "DecodeRouteMessagePayload y = Inr ?my" "forwarded ?my"
    using client_message_decodes assms(9,25) by (simp_all add: assms(7,24) response_payload_def forwarded_def)
  define n3 where "n3 = snd (readLoop_turn True (Inr y) n1)"
  define r4 where "r4 = handleConn_turn ks now' db (Inr y) r2"
  define g4 where "g4 = carry db da (length (n_out m2 cb)) a y r4 g2"
  have g2: "cl_nodes g2 a = n1" "cl_nodes g2 b = m2" "cl_router g2 = r2" "cl_link g2 = cl_link g"
    "cl_up g2 db = cl_up g db" "cl_down g2 da = cl_down g da"
    using assms(3,4) by (simp_all add: g2_def carry_def put_node_def g1_def m2)
  have quiet: "n_out n3 = n_out n1"
    using y(2) by (simp add: n3_def readLoop_turn_def handleMessage_def handle_simple_def message_types)
  have "cluster_run g2 [RouterReads db now', NodeReads da y] (carry db da (length (n_out (cl_nodes g2 b) cb)) a y r4 g2)"
    by (rule carry_run [of g2 db b cb "n_out ?m cb" y ?my ta da a ca ks n3 x r4 now', THEN conjunct1])
      (simp_all add: g2 A B y(2,3) leg1(2-5) assms(4,5,11,12,23,25) assms(9) [simplified] n3_def [symmetric] quiet r4_def m2_def, rule y(1))
  then have leg2: "cluster_run g2 [RouterReads db now', NodeReads da y] g4" by (simp add: g4_def g2)
  have "n_relay (cl_nodes g4 a) = n_relay n3" by (simp add: g4_def carry_def put_node_def n3_def g2(1))
  also have "\<dots> = complete (req_RpcUid req) (response_outcome (relay_response req (n_stubs ?m))) (n_relay n1)"
    using caller_decided [OF assms(25), of "relay_response req (n_stubs ?m)" ib ia True n1] ok y(1) by (simp add: n3_def)
  finally have relay: "n_relay (cl_nodes g4 a) = run_calls ([] @ [OpFinish (req_RpcUid req)
      (response_outcome (relay_response req (n_stubs ?m)))]) (snd (register_new (req_RpcUid req) (n_relay ?n)))"
    by (simp add: n1_def run_calls_def)
  have "outcome_of (fm_next (n_relay ?n)) (n_relay (cl_nodes g4 a)) =
      Some (response_outcome (relay_response req (n_stubs ?m)))"
    using calls.first_completion [OF assms(21), of "req_RpcUid req" "[]"
        "response_outcome (relay_response req (n_stubs ?m))" "[]"]
    unfolding relay run_calls_def by (simp del: register_new_simps(2))
  moreover have "response_outcome (relay_response req (n_stubs ?m)) = invoke_outcome (Invoke k args (n_stubs ?m))"
    by (simp add: relay_response_outcome assms(20) relay_request_def rawToJsonArgs_def)
  moreover have "futures_ok (n_relay (cl_nodes g4 a))"
    unfolding relay by (rule futures_ok_run [OF futures_ok_register [OF assms(21)]])
  ultimately show ?thesis using step1 short1 call run_append [OF leg2 leg1(1)] by auto
qed

section \<open>A run\<close>

text \<open>Node n, node m which answers 42, and idle processes.\<close>

definition sample_procs :: "proc \<Rightarrow> node" where
  "sample_procs p = (if p = 0 then sample_a else if p = 1 then sample_b
     else sample_node_n (replicate p (CHR ''x'')) stubManagerInstance)"

lemma sample_procs_ok:
  "inj (\<lambda>p. n_routeId (sample_procs p))" "n_out (sample_procs p) = (\<lambda>_. [])" "n_relay (sample_procs p) = NewFutureManager"
proof -
  have ids: "n_routeId (sample_procs p) = (if p = 0 then ''n'' else if p = 1 then ''m'' else replicate p (CHR ''x''))" for p
    by (simp add: sample_procs_def sample_nodes)
  have len: "length (n_routeId (sample_procs k)) = (if k = 0 then 1 else k)" for k unfolding ids by simp
  have "p = q" if eq: "n_routeId (sample_procs p) = n_routeId (sample_procs q)" for p q
  proof -
    have "(if p = 0 then 1 else p) = (if q = 0 then 1 else q)" using arg_cong [OF eq, of length] unfolding len .
    then have "p = q \<or> p = 0 \<and> q = 1 \<or> p = 1 \<and> q = 0" by (cases "p = 0"; cases "q = 0") simp_all
    moreover have "n_routeId (sample_procs 0) \<noteq> n_routeId (sample_procs 1)" by (simp add: ids)
    then have "\<not> (p = 0 \<and> q = 1)" "\<not> (p = 1 \<and> q = 0)" using eq by metis+
    ultimately show ?thesis by blast
  qed
  then show "inj (\<lambda>p. n_routeId (sample_procs p))" by (rule injI)
qed (simp_all add: sample_procs_def sample_node_n_def)

lemma sample_registered:
  obtains es g where "cluster_run (cluster_start sample_procs) es g" "ready g 7 0 0" "ready g 8 1 0"
    and "srv_sessions (cl_router g) = [''n'' \<mapsto> NewRouterSession ''n'' 7 (heartbeat_info [] sample_a) 5,
          ''m'' \<mapsto> NewRouterSession ''m'' 8 (heartbeat_info [] sample_b) 6]"
    and "cl_uid g = (\<lambda>_. 0)" "n_cfg (cl_nodes g 0) = n_cfg sample_a" "n_relay (cl_nodes g 0) = NewFutureManager"
    and "n_cfg (cl_nodes g 1) = n_cfg sample_b" "n_stubs (cl_nodes g 1) = answer_stubs"
proof -
  let ?r1 = "accept_conn 7 ''a:1'' NewServer"
  define g0 where "g0 = (cluster_start sample_procs)\<lparr>cl_router := ?r1, cl_link := [7 \<mapsto> (0, 0)],
    cl_up := (\<lambda>_. 0)(7 := 0), cl_down := (\<lambda>_. 0)(7 := 0)\<rparr>"
  define g1 where "g1 = g0\<lparr>cl_router := scene0, cl_link := [7 \<mapsto> (0, 0), 8 \<mapsto> (1, 0)],
    cl_up := (cl_up g0)(8 := 0), cl_down := (cl_down g0)(8 := 0)\<rparr>"
  have "cluster_step (cluster_start sample_procs) (Links 7 0 0 ''a:1'') g0"
    using cluster_step.links [of "cluster_start sample_procs" 7 0 0 "''a:1''" ?r1]
    by (simp add: cluster_start_def g0_def NewServer_def sample_procs_def sample_node_n_def)
  moreover have "short_writes (cluster_start sample_procs) g0"
    by (simp add: short_writes_def g0_def cluster_start_def accept_conn_def NewServer_def)
  moreover have "cluster_step g0 (Links 8 1 0 ''b:2'') g1"
    using cluster_step.links [of g0 8 1 0 "''b:2''" scene0]
    by (simp add: cluster_start_def g0_def g1_def NewServer_def accept_conn_def scene0_def sample_procs_def sample_node_n_def)
  moreover have "short_writes g0 g1"
    by (simp add: short_writes_def g0_def g1_def cluster_start_def scene0_def accept_conn_def NewServer_def)
  ultimately have run1: "cluster_run (cluster_start sample_procs) [Links 7 0 0 ''a:1'', Links 8 1 0 ''b:2''] g1"
    using run_append [OF run_step1 run_step1] by simp
  have nodes: "cl_nodes g1 = sample_procs" "cl_router g1 = scene0" "cl_uid g1 = (\<lambda>_. 0)"
    by (simp_all add: g0_def g1_def cluster_start_def)
  have ready: "ready g1 7 0 0" "ready g1 8 1 0"
    by (simp_all add: ready_def nodes sample_procs_def sample_nodes scene0_ok)
      (simp_all add: g0_def g1_def sample_node_n_def new_client_def scene0_def accept_conn_def NewServer_def)
  have at1: "cl_nodes g1 0 = sample_a" "cl_nodes g1 1 = sample_b" by (simp_all add: nodes sample_procs_def)
  let ?ia = "heartbeat_info [] sample_a" and ?ib = "heartbeat_info [] sample_b"
  let ?m1 = "[''n'' \<mapsto> NewRouterSession ''n'' 7 ?ia 5]"
  let ?m2 = "[''n'' \<mapsto> NewRouterSession ''n'' 7 ?ia 5, ''m'' \<mapsto> NewRouterSession ''m'' 8 ?ib 6]"
  have info: "?ia = \<lparr>info_Host = [], info_Port = 0, info_Stubs = Some []\<rparr>"
    "?ib = \<lparr>info_Host = [], info_Port = 0, info_Stubs = Some []\<rparr>"
    unfolding sample_node_n_def answer_stubs_def by code_simp+
  have small: "length (Marshal json_RpcServerInfo ?ia) < 1000" "length (Marshal json_RpcServerInfo ?ib) < 1000"
    "length (Marshal (enc_slice json_RouteNode) (Some (GetAllRouteNodeList [''n''] ?m1))) < 1000"
    "length (Marshal (enc_slice json_RouteNode) (Some (GetAllRouteNodeList [''n'', ''m''] ?m2))) < 1000"
    unfolding info by code_simp+
  have ok: "RpcServerInfo_ok ?ia" "RpcServerInfo_ok ?ib"
    unfolding info by (simp_all add: RpcServerInfo_ok_def slice_ok_def int64_range_def)
  let ?x1 = "payload_of (heartbeat_message [] sample_a)" and ?x2 = "payload_of (heartbeat_message [] sample_b)"
  let ?y1 = "payload_of (route_table_message (heartbeat_message [] sample_a) (GetAllRouteNodeList [''n''] ?m1))"
    and ?y2 = "payload_of (route_table_message (heartbeat_message [] sample_b) (GetAllRouteNodeList [''n'', ''m''] ?m2))"
  have payloads: "payload_ok ?x1" "payload_ok ?x2" "payload_ok ?y1" "payload_ok ?y2"
    using small by (simp_all add: payload_ok_def heartbeat_message_def route_table_message_def length_payload_of
      MaxFrameSize_def sample_nodes)
  have "srv_sessions (cl_router g1) (n_routeId sample_a) = None" by (simp add: nodes scene0_ok)
  moreover have "?m1 = (srv_sessions (cl_router g1))(n_routeId sample_a \<mapsto> NewRouterSession (n_routeId sample_a) 7 ?ia 5)"
    by (simp add: nodes scene0_ok sample_nodes)
  moreover have "enumerates [''n''] ?m1" by (simp add: enumerates_def)
  ultimately obtain g2 where g2: "cluster_run g1 [NodeBeats 0, RouterReads 7 5, NodeReads 7 ?y1] g2" "ready g2 7 0 0"
    "srv_sessions (cl_router g2) = ?m1" "same_but 7 0 g1 g2"
    using hello_trip [OF ready(1) at1(1) [symmetric] refl payloads(1) ok(1) _ _ _ refl payloads(3)] by blast
  have at2: "cl_nodes g2 1 = sample_b" "ready g2 8 1 0"
    using g2(4) at1(2) ready(2) by (simp_all add: same_but_def)
  have "srv_sessions (cl_router g2) (n_routeId sample_b) = None" by (simp add: g2(3) sample_nodes)
  moreover have "?m2 = (srv_sessions (cl_router g2))(n_routeId sample_b \<mapsto> NewRouterSession (n_routeId sample_b) 8 ?ib 6)"
    by (simp add: g2(3) sample_nodes)
  moreover have "enumerates [''n'', ''m''] ?m2" by (auto simp: enumerates_def)
  ultimately obtain g3 where g3: "cluster_run g2 [NodeBeats 1, RouterReads 8 6, NodeReads 8 ?y2] g3" "ready g3 8 1 0"
    "srv_sessions (cl_router g3) = ?m2" "same_but 8 1 g2 g3"
    using hello_trip [OF at2(2) at2(1) [symmetric] refl payloads(2) ok(2) _ _ _ refl payloads(4)] by blast
  have "ready g3 7 0 0" using g3(4) g2(2) by (simp add: same_but_def)
  moreover have "cl_nodes g3 0 = cl_nodes g2 0" using g3(4) by (simp add: same_but_def)
  moreover have "n_cfg (cl_nodes g2 0) = n_cfg sample_a" "n_relay (cl_nodes g2 0) = NewFutureManager"
    using g2(4) by (simp_all add: same_but_def at1 sample_nodes)
  moreover have "n_cfg (cl_nodes g3 1) = n_cfg sample_b" "n_stubs (cl_nodes g3 1) = answer_stubs"
    using g3(4) by (simp_all add: same_but_def at2 sample_nodes del: One_nat_def)
  moreover have "cl_uid g3 = (\<lambda>_. 0)" using g2(4) g3(4) by (simp add: same_but_def nodes(3))
  ultimately show thesis
    using that [OF run_append [OF g3(1) run_append [OF g2(1) run1]] _ g3(2,3)] by simp
qed

text \<open>n calls m, and the answer comes back.\<close>

lemma sample_call:
  obtains es g g1 g2 t where "cluster_run (cluster_start sample_procs) es g"
    and "cluster_step g (NodeCalls 0 ''m'' sample_env 7 []) g1" "short_writes g g1"
    and "fst (relay_Call ''m'' sample_env 7 [] (cl_nodes g 0)) = Waiting 0 t"
    and "cluster_run g1 [RouterReads 7 9, NodeReads 8 (request_payload sample_a ''m'' sample_req), RouterReads 8 9,
      NodeReads 7 (response_payload sample_b ''n'' sample_req)] g2"
    and "futures_ok (n_relay (cl_nodes g2 0))" "outcome_of 0 (n_relay (cl_nodes g2 0)) = Some (Done ''42'')"
proof -
  obtain es g where g: "cluster_run (cluster_start sample_procs) es g" "ready g 7 0 0" "ready g 8 1 0"
      "srv_sessions (cl_router g) = [''n'' \<mapsto> NewRouterSession ''n'' 7 (heartbeat_info [] sample_a) 5,
         ''m'' \<mapsto> NewRouterSession ''m'' 8 (heartbeat_info [] sample_b) 6]"
      "cl_uid g = (\<lambda>_. 0)" "n_cfg (cl_nodes g 0) = n_cfg sample_a" "n_relay (cl_nodes g 0) = NewFutureManager"
      "n_cfg (cl_nodes g 1) = n_cfg sample_b" "n_stubs (cl_nodes g 1) = answer_stubs"
    by (rule sample_registered)
  have ids: "n_routeId (cl_nodes g 0) = ''n''" "n_routeId (cl_nodes g 1) = ''m''"
    unfolding g(6,8) by (simp_all add: sample_nodes)
  have req: "relay_request ''m'' sample_env 7 [] (cl_nodes g 0) = sample_req"
    by (simp add: sample_req_def relay_request_def g(6))
  have x: "request_payload (cl_nodes g 0) ''m'' sample_req = request_payload sample_a ''m'' sample_req"
    "response_payload (cl_nodes g 1) ''n'' sample_req = response_payload sample_b ''n'' sample_req"
    by (simp_all add: request_payload_def response_payload_def g(6,8,9) sample_nodes del: One_nat_def)
  have "\<exists>s. n = n\<lparr>n_client := s\<rparr>" for n :: node by (rule exI [of _ "n_client n"]) simp
  then have env: "waits_quietly sample_env" "env_ok1 sample_env" "cl_uid g 0 < env_counter sample_env"
    "int64_range (env_nowMs sample_env)" "int64_range 7"
    by (auto simp: waits_quietly_def sample_env_def g(5) int64_range_def)
  have en: "enumerates [''n'', ''m''] (srv_sessions (cl_router g))" by (auto simp: g(4) enumerates_def)
  have futures: "futures_ok (n_relay (cl_nodes g 0))" by (simp add: g(7) futures_ok_new)
  have sessions: "srv_sessions (cl_router g) ''n'' = Some (NewRouterSession ''n'' 7 (heartbeat_info [] sample_a) 5)"
    "srv_sessions (cl_router g) ''m'' = Some (NewRouterSession ''m'' 8 (heartbeat_info [] sample_b) 6)"
    by (simp_all add: g(4))
  have next0: "fm_next (n_relay (cl_nodes g 0)) = 0" by (simp add: g(7) NewFutureManager_def)
  have inv: "invoke_outcome (Invoke 7 [] answer_stubs) = Done ''42''"
    by (simp add: invoke_outcome_def Invoke_def GetHandler_def answer_stubs_def toJsonOrString_def)
  obtain g1 g2 t where run: "cluster_step g (NodeCalls 0 ''m'' sample_env 7 []) g1" "short_writes g g1"
    "fst (relay_Call ''m'' sample_env 7 [] (cl_nodes g 0)) = Waiting 0 t"
    "cluster_run g1 [RouterReads 7 9, NodeReads 8 (request_payload sample_a ''m'' sample_req), RouterReads 8 9,
       NodeReads 7 (response_payload sample_b ''n'' sample_req)] g2"
    "futures_ok (n_relay (cl_nodes g2 0))" "outcome_of 0 (n_relay (cl_nodes g2 0)) = Some (Done ''42'')"
    using call_trip [OF g(2,3) _ _ en ids _ _ _ sessions(1) _ sessions(2) _ env(3,1,2,4,5) req [symmetric] futures
        x(1) [symmetric] _ x(2) [symmetric] sample_payloads(2), of 9 9] sample_payloads(1)
    by (auto simp: next0 g(9) inv simp del: One_nat_def)
  from that [OF g(1) run] show thesis .
qed

section \<open>A call gets its own answer\<close>

text \<open>
  C2: no call gets another call's answer. In the whole system, router and processes with distinct ids,
  through any interleaving of calls, messages, lost connections and reconnects, what a relayed
  call returns is its timeout, or exactly what the handler of a node with the id that it named
  gives for its arguments.
\<close>

theorem calls_get_their_answers:
  assumes "inj (\<lambda>p. n_routeId (N p))" "\<And>p. n_out (N p) = (\<lambda>_. [])" "\<And>p. n_relay (N p) = NewFutureManager"
    and "cluster_run (cluster_start N) es g"
    and "cluster_step g (NodeCalls p target env packetId args) g1" "short_writes g g1"
    and "fst (relay_Call target env packetId args (cl_nodes g p)) = Waiting f t"
    and "cluster_run g1 es' g2"
    and "Await t fired pick (fm_store (n_relay (cl_nodes g2 p)) f) = Some (v, err)"
  shows "(v, err) = ([], Some ''rpc timeout'') \<or>
    (\<exists>q. n_routeId (N q) = target \<and> (v, err) = await_value (invoke_outcome (Invoke packetId args (n_stubs (N q)))))"
proof -
  let ?e = "NodeCalls p target env packetId args" and ?req = "relay_request target env packetId args (cl_nodes g p)"
  obtain w where w: "system_ok N es g w"
    using system_ok_run [OF assms(4) system_ok_start [OF assms(2,3)]] by auto
  obtain w1 where w1: "system_ok N (es @ [?e]) g1 w1" using system_ok_step [OF w assms(5,6)] by blast
  obtain w2 where w2: "system_ok N ((es @ [?e]) @ es') g2 w2" using system_ok_run [OF assms(8) w1] by blast
  have asked: "asked (es @ [?e]) p (req_RpcUid ?req) target packetId args"
    by (auto simp: asked_def relay_request_def)
  have "n_relay (cl_nodes g1 p) = snd (register_new (req_RpcUid ?req) (n_relay (cl_nodes g p))) \<and>
      f = fst (register_new (req_RpcUid ?req) (n_relay (cl_nodes g p)))"
    using assms(5)
  proof cases
    case (node_calls n)
    have "relay_Call target env packetId args (cl_nodes g p) = (Waiting f t, n)"
      using assms(7) node_calls(6) by (metis prod.collapse)
    from relay_Call_effect [OF node_calls(3) this refl, THEN conjunct2] show ?thesis
      by (auto simp: node_calls(1) put_node_def simp del: register_new_simps)
  qed
  then have "well_decided N (req_RpcUid ?req) f target packetId args (n_relay (cl_nodes g1 p))"
    by (simp add: well_decided_def)
  from well_decided_run [OF assms(8) w1 assms(1) asked this]
  have decided: "well_decided N (req_RpcUid ?req) f target packetId args (n_relay (cl_nodes g2 p))" .
  show ?thesis
  proof (cases "outcome_of f (n_relay (cl_nodes g2 p))")
    case None
    then have "Await t fired pick (fm_store (n_relay (cl_nodes g2 p)) f) =
        (if 0 < t \<and> fired then Some ([], Some ''rpc timeout'') else None)" by (rule await_open)
    with assms(9) show ?thesis by (simp split: if_splits)
  next
    case (Some r)
    then have "given N target packetId args r"
      using decided calls.pending_open [OF system_okD(7) [OF w2]] unfolding well_decided_def by fastforce
    then show ?thesis
      using assms(9) await_decided [OF system_okD(7) [OF w2] Some] by (auto simp: given_def split: if_splits)
  qed
qed

theorem calls_get_their_answers_witness:
  "\<exists>es g g1 es' g2 t. cluster_run (cluster_start sample_procs) es g \<and>
     cluster_step g (NodeCalls 0 ''m'' sample_env 7 []) g1 \<and> cluster_run g1 es' g2 \<and>
     Await t False False (fm_store (n_relay (cl_nodes g2 0)) 0) = Some (''42'', None) \<and>
     (\<exists>q. n_routeId (sample_procs q) = ''m'' \<and>
        (''42'', None) = await_value (invoke_outcome (Invoke 7 [] (n_stubs (sample_procs q)))))"
proof -
  obtain es g g1 g2 t where run: "cluster_run (cluster_start sample_procs) es g"
    "cluster_step g (NodeCalls 0 ''m'' sample_env 7 []) g1" "short_writes g g1"
    "fst (relay_Call ''m'' sample_env 7 [] (cl_nodes g 0)) = Waiting 0 t"
    "cluster_run g1 [RouterReads 7 9, NodeReads 8 (request_payload sample_a ''m'' sample_req), RouterReads 8 9,
      NodeReads 7 (response_payload sample_b ''n'' sample_req)] g2"
    "futures_ok (n_relay (cl_nodes g2 0))" "outcome_of 0 (n_relay (cl_nodes g2 0)) = Some (Done ''42'')"
    by (rule sample_call)
  have answer: "Await t False False (fm_store (n_relay (cl_nodes g2 0)) 0) = Some (''42'', None)"
    using await_decided [OF run(6,7), of t False False] by (simp add: await_value_def)
  from calls_get_their_answers [OF sample_procs_ok run(1-5) answer]
  have "\<exists>q. n_routeId (sample_procs q) = ''m'' \<and>
      (''42'', None) = await_value (invoke_outcome (Invoke 7 [] (n_stubs (sample_procs q))))" by simp
  then show ?thesis using run(1,2,5) answer by blast
qed

end
