(* ===== verification/ClusterOnce.thy ===== *)
theory ClusterOnce
  imports ClusterRun
begin

text \<open>
  No call runs twice. A request is written once, passed on once and read once: a send that
  fails has written nothing, a reconnect starts new connections with nothing in transit, and
  the router writes what it reads to one connection at most.
\<close>

section \<open>Copies of one request\<close>

definition request_of :: "gostring \<Rightarrow> gostring \<Rightarrow> RouteMessage \<Rightarrow> bool" where
  "request_of caller uid m \<longleftrightarrow> MessageType m = Some RouteMessageTypeRpcRequest \<and> FromRouteId m = caller \<and>
     (case Data m of
        None \<Rightarrow> False
      | Some d \<Rightarrow>
          (case Unmarshal decode_RpcRequest zero_RpcRequest d of (req, ok) \<Rightarrow> ok \<and> req_RpcUid req = uid))"

text \<open>The read loop of a node takes the request and invokes its handler.\<close>

definition runs_call :: "gostring \<Rightarrow> gostring \<Rightarrow> cluster_event \<Rightarrow> bool" where
  "runs_call caller uid e =
     (case e of
        NodeReads d payload \<Rightarrow>
          (case DecodeRouteMessagePayload payload of Inl _ \<Rightarrow> False | Inr m \<Rightarrow> request_of caller uid m)
      | _ \<Rightarrow> False)"

lemma request_of_rpc: "request_of caller uid m \<Longrightarrow> rpc m"
  by (simp add: request_of_def rpc_def)

lemma request_of_received: "request_of caller uid (as_received m) \<Longrightarrow> request_of caller uid m"
  unfolding request_of_def as_received_sel by (blast dest: as_received_type)

lemma answers_no_request: "answers n m m' \<Longrightarrow> \<not> request_of caller uid m'"
  by (auto simp: answers_def request_of_def message_types)

lemma asks_request:
  assumes "asks n target req m" "request_of caller uid m" "RpcRequest_ok req"
  shows "caller = n_routeId n \<and> uid = req_RpcUid req"
  using assms by (auto simp: asks_def request_of_def req.Unmarshal_Marshal)

text \<open>Where copies are: in what the caller wrote, and in what the router wrote.\<close>

definition written :: "(RouteMessage \<Rightarrow> bool) \<Rightarrow> proc \<Rightarrow> post \<Rightarrow> (nat \<times> nat) set" where
  "written R a v = {(c, i). i < length (po_out v a c) \<and> R (po_out v a c ! i)}"

definition mailed :: "(RouteMessage \<Rightarrow> bool) \<Rightarrow> cluster \<Rightarrow> post \<Rightarrow> (conn \<times> nat) set" where
  "mailed R g v = {(d, j). d \<in> dom (cl_link g) \<and> j < length (po_mail v d) \<and> R (po_mail v d ! j)}"

definition single :: "'a set \<Rightarrow> bool" where
  "single S \<longleftrightarrow> (\<forall>x \<in> S. \<forall>y \<in> S. x = y)"

definition once :: "(proc \<Rightarrow> node) \<Rightarrow> proc \<Rightarrow> gostring \<Rightarrow> cluster_event list \<Rightarrow> cluster \<Rightarrow> post \<Rightarrow> bool" where
  "once N a uid es g v \<longleftrightarrow>
     (let R = request_of (n_routeId (N a)) uid; n = length (filter (runs_call (n_routeId (N a)) uid) es) in
      single (written R a v) \<and> (written R a v \<noteq> {} \<longrightarrow> (\<exists>target k args. asked es a uid target k args)) \<and>
      single (mailed R g v) \<and>
      (mailed R g v \<noteq> {} \<longrightarrow> (\<exists>d c i. cl_link g d = Some (a, c) \<and> (c, i) \<in> written R a v \<and> i < po_up v d)) \<and>
      n \<le> 1 \<and> (n = 1 \<longrightarrow> (\<exists>d j. (d, j) \<in> mailed R g v \<and> j < po_down v d)))"

definition links_once :: "cluster \<Rightarrow> bool" where
  "links_once g \<longleftrightarrow> (\<forall>d d' l. cl_link g d = Some l \<longrightarrow> cl_link g d' = Some l \<longrightarrow> d = d')"

lemma links_once_step: "links_once g \<Longrightarrow> cluster_step g e g' \<Longrightarrow> links_once g'"
  by (erule cluster_step_cases) (auto simp: links_once_def put_node_def ran_def)

section \<open>The steps\<close>

lemma written_says:
  assumes "says P (po_out v p) out" "\<And>m. P m \<Longrightarrow> p = a \<Longrightarrow> \<not> R m"
  shows "written R a (v\<lparr>po_out := (po_out v)(p := out)\<rparr>) = written R a v"
  using assms by (auto simp: written_def says_def nth_append split: if_splits)

lemma written_cong: "po_out v' = po_out v \<Longrightarrow> written R a v' = written R a v"
  by (simp add: written_def)

lemma mailed_cong: "po_mail v' = po_mail v \<Longrightarrow> cl_link g' = cl_link g \<Longrightarrow> mailed R g' v' = mailed R g v"
  by (simp add: mailed_def)

text \<open>What the router passes on adds one copy at most, of the message that it has just read.\<close>

lemma appended_copies:
  assumes "filter rpc ms = [] \<or> (\<exists>m. filter rpc ms = [m] \<and> P m)" "\<And>m. R m \<Longrightarrow> rpc m"
  shows "(\<forall>m. P m \<longrightarrow> \<not> R m) \<Longrightarrow> \<not> (\<exists>m \<in> set ms. R m)"
    and "j < length ms \<Longrightarrow> j' < length ms \<Longrightarrow> R (ms ! j) \<Longrightarrow> R (ms ! j') \<Longrightarrow> j = j'"
proof -
  show "\<not> (\<exists>m \<in> set ms. R m)" if none: "\<forall>m. P m \<longrightarrow> \<not> R m"
  proof
    assume "\<exists>m \<in> set ms. R m"
    then obtain m where "m \<in> set (filter rpc ms)" "R m" using assms(2) by auto
    moreover from this have "P m" using assms(1) by (metis empty_iff list.set(1) set_ConsD)
    ultimately show False using none by blast
  qed
  assume j: "j < length ms" "j' < length ms" "R (ms ! j)" "R (ms ! j')"
  have "card {i. i < length ms \<and> rpc (ms ! i)} \<le> 1"
    using assms(1) by (auto simp flip: length_filter_conv_card)
  moreover have "{j, j'} \<subseteq> {i. i < length ms \<and> rpc (ms ! i)}" using j assms(2) by auto
  moreover have "finite {i. i < length ms \<and> rpc (ms ! i)}" by simp
  ultimately have "card {j, j'} \<le> 1" by (meson card_mono le_trans)
  then show "j = j'" by (cases "j = j'") auto
qed

lemma mailed_same:
  assumes "passes g P (po_mail v) (po_mail v')" "\<And>m. R m \<Longrightarrow> rpc m" "\<And>d m. P d m \<Longrightarrow> \<not> R m"
  shows "mailed R g v' = mailed R g v"
proof -
  have "j < length (po_mail v' d) \<and> R (po_mail v' d ! j) \<longleftrightarrow> j < length (po_mail v d) \<and> R (po_mail v d ! j)"
    if d: "d \<in> dom (cl_link g)" for d j
  proof -
    obtain ms where ms: "po_mail v' d = po_mail v d @ ms" "filter rpc ms = [] \<or> (\<exists>m. filter rpc ms = [m] \<and> P d m)"
      using assms(1) d unfolding passes_def by blast
    have "\<not> (\<exists>m \<in> set ms. R m)" using appended_copies(1) [OF ms(2), of R] assms(2,3) by blast
    then show ?thesis by (auto simp: ms(1) nth_append)
  qed
  then show ?thesis by (auto simp: mailed_def)
qed

lemma mailed_new:
  assumes "passes g P (po_mail v) (po_mail v')" "\<And>m. R m \<Longrightarrow> rpc m" "mailed R g v = {}"
    and "\<And>d d' m m'. P d m \<Longrightarrow> P d' m' \<Longrightarrow> d = d'"
  shows "single (mailed R g v')"
proof -
  have new: "\<exists>ms i m. po_mail v' d = po_mail v d @ ms \<and> j = length (po_mail v d) + i \<and> i < length ms \<and> R (ms ! i) \<and>
      (filter rpc ms = [] \<or> (\<exists>m. filter rpc ms = [m] \<and> P d m)) \<and> P d m" if "(d, j) \<in> mailed R g v'" for d j
  proof -
    have d: "d \<in> dom (cl_link g)" "j < length (po_mail v' d)" "R (po_mail v' d ! j)" using that by (auto simp: mailed_def)
    obtain ms where ms: "po_mail v' d = po_mail v d @ ms" "filter rpc ms = [] \<or> (\<exists>m. filter rpc ms = [m] \<and> P d m)"
      using assms(1) d(1) unfolding passes_def by blast
    have "\<not> j < length (po_mail v d)"
    proof
      assume "j < length (po_mail v d)"
      then have "(d, j) \<in> mailed R g v" using d by (simp add: mailed_def ms(1) nth_append)
      with assms(3) show False by simp
    qed
    then have j: "j = length (po_mail v d) + (j - length (po_mail v d))" "j - length (po_mail v d) < length ms"
      "R (ms ! (j - length (po_mail v d)))"
      using d(2,3) by (simp_all add: ms(1) nth_append)
    moreover have "\<exists>m. P d m"
      using appended_copies(1) [OF ms(2), of R] assms(2) j(2,3) nth_mem by blast
    ultimately show ?thesis using ms by blast
  qed
  show ?thesis
    unfolding single_def
  proof (intro ballI)
    fix x y assume "x \<in> mailed R g v'" "y \<in> mailed R g v'"
    moreover obtain d j d' j' where xy: "x = (d, j)" "y = (d', j')" by fastforce
    ultimately have dj: "(d, j) \<in> mailed R g v'" "(d', j') \<in> mailed R g v'" by simp_all
    have "d = d'" using new [OF dj(1)] new [OF dj(2)] assms(4) by blast
    from new [OF dj(1)] new [OF dj(2) [folded this]] have "j = j'"
      using appended_copies(2) [of _ "P d" R] assms(2) by (metis same_append_eq)
    with \<open>d = d'\<close> show "x = y" by (simp add: xy)
  qed
qed

lemma mailed_links:
  assumes "passes g (\<lambda>_ _. False) (po_mail v) (po_mail v')" "po_mail v' d = []" "cl_link g' = (cl_link g)(d \<mapsto> l)"
    and "cl_link g d = None" "\<And>m. R m \<Longrightarrow> rpc m"
  shows "mailed R g' v' = mailed R g v"
proof -
  have "mailed R g' v' = mailed R g v'" using assms(2-4) by (auto simp: mailed_def)
  also have "\<dots> = mailed R g v" by (rule mailed_same [OF assms(1,5)]) simp_all
  finally show ?thesis .
qed

text \<open>An event that is not the reading of the request adds no run of it.\<close>

lemma onceD:
  assumes "once N a uid es g v"
  shows "single (written (request_of (n_routeId (N a)) uid) a v)"
    "written (request_of (n_routeId (N a)) uid) a v \<noteq> {} \<Longrightarrow> \<exists>target k args. asked es a uid target k args"
    "single (mailed (request_of (n_routeId (N a)) uid) g v)"
    "mailed (request_of (n_routeId (N a)) uid) g v \<noteq> {} \<Longrightarrow> \<exists>d c i. cl_link g d = Some (a, c) \<and>
       (c, i) \<in> written (request_of (n_routeId (N a)) uid) a v \<and> i < po_up v d"
    "length (filter (runs_call (n_routeId (N a)) uid) es) \<le> 1"
    "length (filter (runs_call (n_routeId (N a)) uid) es) = 1 \<Longrightarrow>
       \<exists>d j. (d, j) \<in> mailed (request_of (n_routeId (N a)) uid) g v \<and> j < po_down v d"
  using assms unfolding once_def Let_def by blast+

lemma asked_snoc: "asked es p uid target k args \<Longrightarrow> asked (es @ [e]) p uid target k args"
  by (rule asked_mono) auto

lemma once_quiet:
  assumes "once N a uid es g v" "\<not> runs_call (n_routeId (N a)) uid e"
    and "written (request_of (n_routeId (N a)) uid) a v' = written (request_of (n_routeId (N a)) uid) a v"
    and "mailed (request_of (n_routeId (N a)) uid) g' v' = mailed (request_of (n_routeId (N a)) uid) g v"
    and "\<And>d l. cl_link g d = Some l \<Longrightarrow> cl_link g' d = Some l \<and> po_up v d \<le> po_up v' d \<and> po_down v d \<le> po_down v' d"
  shows "once N a uid (es @ [e]) g' v'"
proof -
  note O = onceD [OF assms(1)]
  have "\<exists>target k args. asked (es @ [e]) a uid target k args"
    if "written (request_of (n_routeId (N a)) uid) a v \<noteq> {}"
    using O(2) [OF that] asked_snoc by blast
  moreover have "\<exists>d c i. cl_link g' d = Some (a, c) \<and> (c, i) \<in> written (request_of (n_routeId (N a)) uid) a v \<and> i < po_up v' d"
    if "mailed (request_of (n_routeId (N a)) uid) g v \<noteq> {}"
    using O(4) [OF that] assms(5) by (meson less_le_trans)
  moreover have "\<exists>d j. (d, j) \<in> mailed (request_of (n_routeId (N a)) uid) g v \<and> j < po_down v' d"
    if one: "length (filter (runs_call (n_routeId (N a)) uid) es) = 1"
  proof -
    obtain d j where dj: "(d, j) \<in> mailed (request_of (n_routeId (N a)) uid) g v" "j < po_down v d"
      using O(6) [OF one] by blast
    then have "d \<in> dom (cl_link g)" by (simp add: mailed_def)
    then have "j < po_down v' d" using assms(5) dj(2) by fastforce
    with dj(1) show ?thesis by blast
  qed
  moreover have n: "filter (runs_call (n_routeId (N a)) uid) (es @ [e]) = filter (runs_call (n_routeId (N a)) uid) es"
    using assms(2) by simp
  ultimately show ?thesis using O(1,3,5) unfolding once_def Let_def assms(3,4) n by blast
qed

lemma link_new:
  "cluster_step g (Links d p c addr) g' \<Longrightarrow> cl_link g' = (cl_link g)(d \<mapsto> (p, c)) \<and> cl_link g d = None"
  by (erule cluster_step_cases) (simp_all add: put_node_def)

lemma link_same:
  "cluster_step g e g' \<Longrightarrow> (\<And>d p c addr. e \<noteq> Links d p c addr) \<Longrightarrow> cl_link g' = cl_link g"
  by (erule cluster_step_cases) (auto simp: put_node_def)

lemma runs_call_simps:
  "(\<And>d payload. e \<noteq> NodeReads d payload) \<Longrightarrow> \<not> runs_call caller uid e"
  "DecodeRouteMessagePayload payload = Inr m \<Longrightarrow> runs_call caller uid (NodeReads d payload) = request_of caller uid m"
  by (auto simp: runs_call_def split: cluster_event.split)

lemma once_read:
  assumes "system_ok N es g v" "inj (\<lambda>p. n_routeId (N p))" "once N a uid es g v" "links_once g"
    and "cluster_step g (RouterReads d now) g'" "post_step g (RouterReads d now) v v'"
  shows "once N a uid (es @ [RouterReads d now]) g' v'"
proof -
  let ?R = "request_of (n_routeId (N a)) uid"
  note O = onceD [OF assms(3)]
  have link: "cl_link g' = cl_link g" using link_same [OF assms(5)] by simp
  from assms(6) obtain p c m where r: "cl_link g d = Some (p, c)" "po_up v d < length (po_out v p c)"
    "m = as_received (po_out v p c ! po_up v d)"
    "passes g (\<lambda>d' m'. m' = m \<and> serves_at g (ToRouteId m) d') (po_mail v) (po_mail v')"
    "po_out v' = po_out v" "po_up v' = (po_up v)(d := Suc (po_up v d))" "po_down v' = po_down v"
    by cases auto
  have W: "written ?R a v' = written ?R a v" by (rule written_cong) (rule r(5))
  show ?thesis
  proof (cases "?R m")
    case False
    have "mailed ?R g v' = mailed ?R g v"
      by (rule mailed_same [OF r(4) request_of_rpc]) (use False in blast)+
    then have "mailed ?R g' v' = mailed ?R g v" by (simp add: mailed_cong [OF refl link])
    from once_quiet [OF assms(3) runs_call_simps(1) W this] show ?thesis by (simp add: link r(6,7))
  next
    case True
    let ?i = "po_up v d"
    have R: "?R (po_out v p c ! ?i)" using True request_of_received unfolding r(3) by blast
    then have "n_routeId (N p) = n_routeId (N a)"
      using system_okD(8) [OF assms(1) nth_mem [OF r(2)]] by (simp add: request_of_def)
    then have p: "p = a" using injD [OF assms(2)] by blast
    then have here: "(c, ?i) \<in> written ?R a v" using R r(2) by (simp add: written_def)
    have none: "mailed ?R g v = {}"
    proof (rule ccontr)
      assume "mailed ?R g v \<noteq> {}"
      then obtain d0 c0 i0 where 0: "cl_link g d0 = Some (a, c0)" "(c0, i0) \<in> written ?R a v" "i0 < po_up v d0"
        using O(4) by blast
      then have "(c0, i0) = (c, ?i)" using O(1) here unfolding single_def by blast
      moreover from this have "d0 = d" using assms(4) 0(1) r(1) p unfolding links_once_def by blast
      ultimately show False using 0(3) by simp
    qed
    have "single (mailed ?R g v')"
      by (rule mailed_new [OF r(4) request_of_rpc none]) (auto simp: serves_at_def)
    then have single: "single (mailed ?R g' v')" by (simp add: mailed_cong [OF refl link])
    have "length (filter (runs_call (n_routeId (N a)) uid) es) \<noteq> 1" using O(6) none by blast
    then have "filter (runs_call (n_routeId (N a)) uid) (es @ [RouterReads d now]) = []"
      using O(5) runs_call_simps(1) [of "RouterReads d now"] by (simp add: le_Suc_eq)
    moreover have "\<exists>d c i. cl_link g' d = Some (a, c) \<and> (c, i) \<in> written ?R a v' \<and> i < po_up v' d"
      using r(1) here unfolding W link r(6) p by (intro exI [of _ d] exI [of _ c] exI [of _ ?i]) simp
    moreover have "\<exists>target k args. asked (es @ [RouterReads d now]) a uid target k args"
      using O(2) here asked_snoc by blast
    moreover have "single (written ?R a v')" using O(1) unfolding W .
    ultimately show ?thesis using single unfolding once_def Let_def by fastforce
  qed
qed

lemma once_receive:
  assumes "once N a uid es g v" "cluster_step g (NodeReads d payload) g'" "post_step g (NodeReads d payload) v v'"
  shows "once N a uid (es @ [NodeReads d payload]) g' v'"
proof -
  let ?R = "request_of (n_routeId (N a)) uid" and ?e = "NodeReads d payload"
  note O = onceD [OF assms(1)]
  have link: "cl_link g' = cl_link g" using link_same [OF assms(2)] by simp
  from assms(3) obtain p c m out where r: "cl_link g d = Some (p, c)" "po_down v d < length (po_mail v d)"
    "m = as_received (po_mail v d ! po_down v d)" "DecodeRouteMessagePayload payload = Inr m"
    "says (answers (cl_nodes g p) m) (po_out v p) out"
    "v' = v\<lparr>po_out := (po_out v)(p := out), po_down := (po_down v)(d := Suc (po_down v d))\<rparr>"
    by cases auto
  have "written ?R a (v\<lparr>po_out := (po_out v)(p := out)\<rparr>) = written ?R a v"
    by (rule written_says [OF r(5)]) (rule answers_no_request)
  then have W: "written ?R a v' = written ?R a v" by (simp add: r(6) written_def)
  have M: "mailed ?R g' v' = mailed ?R g v" by (rule mailed_cong) (simp_all add: r(6) link)
  show ?thesis
  proof (cases "?R m")
    case False
    then have "\<not> runs_call (n_routeId (N a)) uid ?e" by (simp add: runs_call_simps(2) [OF r(4)])
    from once_quiet [OF assms(1) this W M] show ?thesis by (simp add: link r(6))
  next
    case True
    then have "?R (po_mail v d ! po_down v d)" unfolding r(3) by (rule request_of_received)
    then have here: "(d, po_down v d) \<in> mailed ?R g v" using r(1,2) by (auto simp: mailed_def)
    have "length (filter (runs_call (n_routeId (N a)) uid) es) \<noteq> 1"
    proof
      assume "length (filter (runs_call (n_routeId (N a)) uid) es) = 1"
      then obtain d0 j0 where 0: "(d0, j0) \<in> mailed ?R g v" "j0 < po_down v d0" using O(6) by blast
      then have "(d0, j0) = (d, po_down v d)" using O(3) here unfolding single_def by blast
      with 0(2) show False by simp
    qed
    then have "filter (runs_call (n_routeId (N a)) uid) (es @ [?e]) = [?e]"
      using O(5) True runs_call_simps(2) [OF r(4), of "n_routeId (N a)" uid d] by (simp add: le_Suc_eq)
    moreover have "(d, po_down v d) \<in> mailed ?R g v \<and> po_down v d < po_down v' d" using here by (simp add: r(6))
    moreover have "\<exists>d c i. cl_link g d = Some (a, c) \<and> (c, i) \<in> written ?R a v \<and> i < po_up v' d"
      using O(4) here r(6) by auto
    moreover have "\<exists>target k args. asked (es @ [?e]) a uid target k args" if "written ?R a v \<noteq> {}"
      using O(2) [OF that] asked_snoc by blast
    ultimately show ?thesis using O(1,3) unfolding once_def Let_def W M link by fastforce
  qed
qed

lemma once_call:
  assumes "system_ok N es g v" "inj (\<lambda>p. n_routeId (N p))" "once N a uid es g v"
    and "cluster_step g (NodeCalls p target env k args) g'" "post_step g (NodeCalls p target env k args) v v'"
  shows "once N a uid (es @ [NodeCalls p target env k args]) g' v'"
proof -
  let ?R = "request_of (n_routeId (N a)) uid" and ?e = "NodeCalls p target env k args"
  note O = onceD [OF assms(3)]
  have link: "cl_link g' = cl_link g" using link_same [OF assms(4)] by simp
  from assms(4) have guard: "cl_uid g p < env_counter env" "int64_range (env_nowMs env)" "int64_range k"
    by (cases; simp)+
  let ?req = "relay_request target env k args (cl_nodes g p)"
  from assms(5) obtain out where r: "says (asks (cl_nodes g p) target ?req) (po_out v p) out"
    "v' = v\<lparr>po_out := (po_out v)(p := out)\<rparr>" by cases auto
  have M: "mailed ?R g' v' = mailed ?R g v" by (rule mailed_cong) (simp_all add: r(2) link)
  have quiet: "\<not> runs_call (n_routeId (N a)) uid ?e" by (rule runs_call_simps(1)) simp
  have req: "RpcRequest_ok ?req" using guard by (simp add: RpcRequest_ok_def relay_request_def)
  show ?thesis
  proof (cases "p = a \<and> uid = req_RpcUid ?req")
    case False
    have "written ?R a v' = written ?R a v"
      unfolding r(2)
    proof (rule written_says [OF r(1)])
      fix m assume "asks (cl_nodes g p) target ?req m" "p = a"
      then show "\<not> ?R m" using asks_request [OF _ _ req] False by blast
    qed
    from once_quiet [OF assms(3) quiet this M] show ?thesis by (simp add: link r(2))
  next
    case True
    then have uid: "p = a" "uid = GenerateRpcUid (env_nowMs env) (env_counter env)" by (simp_all add: relay_request_def)
    have "\<not> asked es a uid t k' args'" for t k' args'
      using asked_before [OF system_okD(3) [OF assms(1)], of a uid t k' args' "env_counter env" "env_nowMs env"] guard(1) uid
      by blast
    then have none: "written ?R a v = {}" using O(2) by blast
    then have empty: "\<not> (i < length (po_out v a c) \<and> ?R (po_out v a c ! i))" for c i by (auto simp: written_def)
    have "single (written ?R a v')"
      using r(1) empty unfolding r(2) uid(1) says_def single_def written_def
      by (auto simp: nth_append split: if_splits)
    moreover have "asked (es @ [?e]) a uid target k args" using uid by (auto simp: asked_def)
    moreover have "mailed ?R g v = {}" using O(4) none by blast
    moreover have "filter (runs_call (n_routeId (N a)) uid) (es @ [?e]) = filter (runs_call (n_routeId (N a)) uid) es"
      using quiet by simp
    ultimately show ?thesis using O(3,5,6) unfolding once_def Let_def M by fastforce
  qed
qed

lemma once_step:
  assumes "system_ok N es g v" "inj (\<lambda>p. n_routeId (N p))" "once N a uid es g v" "links_once g"
    and "cluster_step g e g'" "post_step g e v v'"
  shows "once N a uid (es @ [e]) g' v'"
  using assms(6)
proof cases
  case (post_links mail d p c addr)
  let ?R = "request_of (n_routeId (N a)) uid"
  note link = link_new [OF assms(5) [unfolded post_links(1)]]
  have "mailed ?R g' v' = mailed ?R g v"
    by (rule mailed_links [OF _ _ link [THEN conjunct1] link [THEN conjunct2] request_of_rpc])
      (simp_all add: post_links(2-4))
  moreover have "written ?R a v' = written ?R a v" by (rule written_cong) (simp add: post_links(2))
  moreover have "\<not> runs_call (n_routeId (N a)) uid e" by (rule runs_call_simps(1)) (simp add: post_links(1))
  moreover have "cl_link g' d' = Some l \<and> po_up v d' \<le> po_up v' d' \<and> po_down v d' \<le> po_down v' d'"
    if "cl_link g d' = Some l" for d' l
    using that link by (cases "d' = d") (simp_all add: post_links(2))
  ultimately show ?thesis using once_quiet [OF assms(3)] by blast
next
  case (post_router d now act mail)
  let ?R = "request_of (n_routeId (N a)) uid"
  have link: "cl_link g' = cl_link g" using link_same [OF assms(5)] post_router(2) by auto
  have "mailed ?R g v' = mailed ?R g v"
    by (rule mailed_same [of g "\<lambda>_ _. False"]) (simp_all add: post_router request_of_rpc)
  then have "mailed ?R g' v' = mailed ?R g v" by (simp add: mailed_def link)
  moreover have "written ?R a v' = written ?R a v" by (rule written_cong) (simp add: post_router(1))
  moreover have "\<not> runs_call (n_routeId (N a)) uid e" by (rule runs_call_simps(1)) (use post_router(2) in auto)
  ultimately show ?thesis
    using once_quiet [OF assms(3), of e v' g'] link by (simp add: post_router(1))
next
  case (post_node p op to data out)
  let ?R = "request_of (n_routeId (N a)) uid"
  have link: "cl_link g' = cl_link g" using link_same [OF assms(5)] post_node(2) by auto
  have "written ?R a v' = written ?R a v"
    unfolding post_node(1) by (rule written_says [OF post_node(3)]) (use request_of_rpc in blast)
  moreover have "mailed ?R g' v' = mailed ?R g v" by (rule mailed_cong) (simp_all add: post_node(1) link)
  moreover have "\<not> runs_call (n_routeId (N a)) uid e" by (rule runs_call_simps(1)) (use post_node(2) in auto)
  ultimately show ?thesis
    using once_quiet [OF assms(3), of e v' g'] link by (simp add: post_node(1))
next
  case (post_read d p c m mail now)
  show ?thesis using once_read [OF assms(1-4)] assms(5,6) unfolding post_read(1) by blast
next
  case (post_receive d p c m payload out)
  show ?thesis using once_receive [OF assms(3)] assms(5,6) unfolding post_receive(1) by blast
next
  case (post_call req target env k args p out)
  show ?thesis using once_call [OF assms(1-3)] assms(5,6) unfolding post_call(1) by blast
qed

lemma once_run:
  assumes "cluster_run g es' g'" "system_ok N es g v" "inj (\<lambda>p. n_routeId (N p))" "once N a uid es g v" "links_once g"
  shows "\<exists>v'. system_ok N (es @ es') g' v' \<and> once N a uid (es @ es') g' v' \<and> links_once g'"
  using assms
proof (induction rule: cluster_run.induct)
  case (run_step g es' g1 e g2)
  then obtain v1 where v1: "system_ok N (es @ es') g1 v1" "once N a uid (es @ es') g1 v1" "links_once g1" by blast
  obtain v2 where v2: "post_step g1 e v1 v2" "system_ok N ((es @ es') @ [e]) g2 v2"
    using system_ok_step [OF v1(1) run_step(2,3)] by blast
  have "once N a uid ((es @ es') @ [e]) g2 v2"
    by (rule once_step [OF v1(1) run_step.prems(2) v1(2,3) run_step(2) v2(1)])
  with v2(2) links_once_step [OF v1(3) run_step(2)] show ?case by auto
qed auto

section \<open>The property\<close>

text \<open>
  C3: no call runs twice. Along every run of the whole system, whatever connections are lost and
  made again, and however the interleaving retries a send, the read loops of all nodes
  together take the request of a call at most once, and only of a call that its caller made.
\<close>

theorem calls_run_once:
  assumes "inj (\<lambda>p. n_routeId (N p))" "\<And>p. n_out (N p) = (\<lambda>_. [])" "\<And>p. n_relay (N p) = NewFutureManager"
    and "cluster_run (cluster_start N) es g"
  shows "length (filter (runs_call (n_routeId (N a)) uid) es) \<le> 1 \<and>
    (\<forall>e \<in> set es. runs_call (n_routeId (N a)) uid e \<longrightarrow> (\<exists>target packetId args. asked es a uid target packetId args))"
proof -
  let ?v = "\<lparr>po_out = \<lambda>_ _. [], po_mail = \<lambda>_. [], po_up = \<lambda>_. 0, po_down = \<lambda>_. 0\<rparr>"
  let ?R = "request_of (n_routeId (N a)) uid"
  have "once N a uid [] (cluster_start N) ?v" by (simp add: once_def written_def mailed_def single_def Let_def)
  moreover have "links_once (cluster_start N)" by (simp add: links_once_def cluster_start_def)
  ultimately obtain v where v: "once N a uid es g v"
    using once_run [OF assms(4) system_ok_start [OF assms(2,3)] assms(1)] by auto
  note O = onceD [OF v]
  have "\<exists>target k args. asked es a uid target k args" if "e \<in> set es" "runs_call (n_routeId (N a)) uid e" for e
  proof -
    have "filter (runs_call (n_routeId (N a)) uid) es \<noteq> []" using that by (auto simp: filter_empty_conv)
    then have "length (filter (runs_call (n_routeId (N a)) uid) es) = 1" using O(5) by (simp add: le_Suc_eq)
    then have "written ?R a v \<noteq> {}" using O(4,6) by blast
    then show ?thesis by (rule O(2))
  qed
  then show ?thesis using O(5) by blast
qed

theorem calls_run_once_witness:
  "\<exists>es g. cluster_run (cluster_start sample_procs) es g \<and>
     length (filter (runs_call (n_routeId (sample_procs 0)) (req_RpcUid sample_req)) es) = 1"
proof -
  let ?x = "request_payload sample_a ''m'' sample_req" and ?c = "NodeCalls 0 ''m'' sample_env 7 []"
  obtain es g g1 g2 t where run: "cluster_run (cluster_start sample_procs) es g" "cluster_step g ?c g1" "short_writes g g1"
    "fst (relay_Call ''m'' sample_env 7 [] (cl_nodes g 0)) = Waiting 0 t"
    "cluster_run g1 [RouterReads 7 9, NodeReads 8 ?x, RouterReads 8 9,
      NodeReads 7 (response_payload sample_b ''n'' sample_req)] g2"
    "futures_ok (n_relay (cl_nodes g2 0))" "outcome_of 0 (n_relay (cl_nodes g2 0)) = Some (Done ''42'')"
    by (rule sample_call)
  let ?es = "(es @ [?c]) @ [RouterReads 7 9, NodeReads 8 ?x, RouterReads 8 9,
      NodeReads 7 (response_payload sample_b ''n'' sample_req)]"
  have all: "cluster_run (cluster_start sample_procs) ?es g2"
    by (rule run_append [OF run(5) run_append [OF run_step1 [OF run(2,3)] run(1)]])
  have "RpcRequest_ok sample_req"
    by (simp add: RpcRequest_ok_def sample_req_def relay_request_def sample_env_def int64_range_def)
  moreover have "DecodeRouteMessagePayload ?x =
      Inr (client_message ''n'' ''m'' RouteMessageTypeRpcRequest (Marshal json_RpcRequest sample_req))"
    using client_message_decodes sample_payloads(1) by (simp add: request_payload_def sample_nodes)
  ultimately have "runs_call (n_routeId (sample_procs 0)) (req_RpcUid sample_req) (NodeReads 8 ?x)"
    by (simp add: runs_call_def request_of_def req.Unmarshal_Marshal sample_procs_def sample_nodes)
  then have "filter (runs_call (n_routeId (sample_procs 0)) (req_RpcUid sample_req)) ?es \<noteq> []" by (simp add: filter_empty_conv)
  moreover have "length (filter (runs_call (n_routeId (sample_procs 0)) (req_RpcUid sample_req)) ?es) \<le> 1"
    using calls_run_once [OF sample_procs_ok all] by blast
  ultimately have "length (filter (runs_call (n_routeId (sample_procs 0)) (req_RpcUid sample_req)) ?es) = 1"
    by (metis One_nat_def le_Suc_eq le_zero_eq length_0_conv)
  with all show ?thesis by blast
qed

end
