(* ===== verification/Arguments.thy ===== *)
theory Arguments
  imports Stubs
begin

text \<open>
  The typed side of a call: how \<open>unmarshalArgToType\<close> of \<open>internal/rpc/orm.go\<close> turns the raw JSON of an
  argument into a value of the parameter's type, and that a function registered with
  \<open>RegisterRpcFunc\<close> is called with well-typed values only. Integers, booleans, strings and pointers
  to them are modelled; what \<open>encoding/json\<close> does for the other kinds is a parameter.
\<close>

section \<open>Values\<close>

datatype 'b go_value = VNil | VPtr "'b go_value" | VInt int | VBool bool | VStr gostring | VOther 'b

text \<open>What reflection knows of the types: the width of an integer type, zero and decoding of other kinds.\<close>

record 'b type_info =
  ti_bits :: "go_type \<Rightarrow> nat"
  ti_zero :: "go_type \<Rightarrow> 'b"
  ti_decode :: "go_type \<Rightarrow> 'b \<Rightarrow> json \<Rightarrow> 'b \<times> bool"

definition fits_int :: "nat \<Rightarrow> int \<Rightarrow> bool" where
  "fits_int bits i \<longleftrightarrow> - (2 ^ (bits - 1)) \<le> i \<and> i < 2 ^ (bits - 1)"

definition fits_uint :: "nat \<Rightarrow> int \<Rightarrow> bool" where
  "fits_uint bits i \<longleftrightarrow> 0 \<le> i \<and> i < 2 ^ bits"

section \<open>Decoding\<close>

fun zero_value :: "'b type_info \<Rightarrow> go_type \<Rightarrow> 'b go_value" where
  "zero_value I (TPtr t) = VNil"
| "zero_value I (TBase name printed k) =
     (case k of KInt \<Rightarrow> VInt 0 | KUint \<Rightarrow> VInt 0 | KBool \<Rightarrow> VBool False | KString \<Rightarrow> VStr []
      | _ \<Rightarrow> VOther (ti_zero I (TBase name printed k)))"

definition decode_int :: "nat \<Rightarrow> gostring \<Rightarrow> int option" where
  "decode_int bits n = (case Atoi n of None \<Rightarrow> None | Some i \<Rightarrow> if fits_int bits i then Some i else None)"

definition decode_uint :: "nat \<Rightarrow> gostring \<Rightarrow> int option" where
  "decode_uint bits n =
     (if n \<noteq> [] \<and> list_all is_digit n \<and> digits_value n < 2 ^ min bits 64 then Some (int (digits_value n)) else None)"

text \<open>
  \<open>json.Unmarshal\<close> into a variable that holds \<open>v\<close>: \<open>null\<close> makes a pointer nil and leaves any other
  kind alone; a nil pointer gets a new zero value to decode into.
\<close>

fun decode_value :: "'b type_info \<Rightarrow> go_type \<Rightarrow> 'b go_value \<Rightarrow> json \<Rightarrow> 'b go_value \<times> bool" where
  "decode_value I (TPtr t) v j =
     (if j = JNull then (VNil, True)
      else (case decode_value I t (case v of VPtr w \<Rightarrow> w | _ \<Rightarrow> zero_value I t) j of (w, ok) \<Rightarrow> (VPtr w, ok)))"
| "decode_value I (TBase name printed k) v j =
     (let t = TBase name printed k in
      case k of
        KInt \<Rightarrow>
          (case j of JNull \<Rightarrow> (v, True)
           | JNum n \<Rightarrow> (case decode_int (ti_bits I t) n of Some i \<Rightarrow> (VInt i, True) | None \<Rightarrow> (v, False))
           | _ \<Rightarrow> (v, False))
      | KUint \<Rightarrow>
          (case j of JNull \<Rightarrow> (v, True)
           | JNum n \<Rightarrow> (case decode_uint (ti_bits I t) n of Some i \<Rightarrow> (VInt i, True) | None \<Rightarrow> (v, False))
           | _ \<Rightarrow> (v, False))
      | KBool \<Rightarrow> (case j of JNull \<Rightarrow> (v, True) | JBool b \<Rightarrow> (VBool b, True) | _ \<Rightarrow> (v, False))
      | KString \<Rightarrow> (case j of JNull \<Rightarrow> (v, True) | JStr s \<Rightarrow> (VStr s, True) | _ \<Rightarrow> (v, False))
      | _ \<Rightarrow> (case ti_decode I t (case v of VOther b \<Rightarrow> b | _ \<Rightarrow> ti_zero I t) j of (b, ok) \<Rightarrow> (VOther b, ok)))"

definition unmarshal_error :: gostring where
  "unmarshal_error = ''json: cannot unmarshal''"

definition unmarshalArgToType :: "'b type_info \<Rightarrow> go_type \<Rightarrow> gostring \<Rightarrow> gostring + 'b go_value" where
  "unmarshalArgToType I t raw =
     (case t of
        TPtr elem \<Rightarrow>
          (case Unmarshal (decode_value I elem (zero_value I elem)) (zero_value I elem) raw of
             (val, ok) \<Rightarrow> if \<not> ok then Inl unmarshal_error else Inr (VPtr val))
      | _ \<Rightarrow>
          (case Unmarshal (decode_value I t (zero_value I t)) (zero_value I t) raw of
             (val, ok) \<Rightarrow> if \<not> ok then Inl unmarshal_error else Inr val))"

section \<open>Typing and encoding\<close>

fun has_type :: "'b type_info \<Rightarrow> go_type \<Rightarrow> 'b go_value \<Rightarrow> bool" where
  "has_type I (TPtr t) v \<longleftrightarrow> (case v of VNil \<Rightarrow> True | VPtr w \<Rightarrow> has_type I t w | _ \<Rightarrow> False)"
| "has_type I (TBase name printed k) v \<longleftrightarrow>
     (case k of
        KInt \<Rightarrow> (case v of VInt i \<Rightarrow> fits_int (ti_bits I (TBase name printed k)) i | _ \<Rightarrow> False)
      | KUint \<Rightarrow> (case v of VInt i \<Rightarrow> fits_uint (ti_bits I (TBase name printed k)) i | _ \<Rightarrow> False)
      | KBool \<Rightarrow> (case v of VBool _ \<Rightarrow> True | _ \<Rightarrow> False)
      | KString \<Rightarrow> (case v of VStr _ \<Rightarrow> True | _ \<Rightarrow> False)
      | _ \<Rightarrow> (case v of VOther _ \<Rightarrow> True | _ \<Rightarrow> False))"

fun basic :: "'b type_info \<Rightarrow> go_type \<Rightarrow> bool" where
  "basic I (TPtr t) \<longleftrightarrow> basic I t"
| "basic I (TBase name printed k) \<longleftrightarrow> k \<in> {KInt, KUint, KBool, KString} \<and>
     ti_bits I (TBase name printed k) \<in> {8, 16, 32, 64}"

text \<open>What \<open>json.Marshal\<close> makes of a value of these types.\<close>

fun json_value :: "'b go_value \<Rightarrow> json" where
  "json_value VNil = JNull"
| "json_value (VPtr v) = json_value v"
| "json_value (VInt i) = JNum (Itoa i)"
| "json_value (VBool b) = JBool b"
| "json_value (VStr s) = JStr s"
| "json_value (VOther b) = JNull"

text \<open>What the callee gets for an argument: for \<open>null\<close> not a nil pointer, but a pointer to a zero value.\<close>

definition received :: "'b type_info \<Rightarrow> go_type \<Rightarrow> 'b go_value \<Rightarrow> 'b go_value" where
  "received I t v = (case t of TPtr e \<Rightarrow> if json_value v = JNull then VPtr (zero_value I e) else v | _ \<Rightarrow> v)"

text \<open>The values a function is called with: well typed, and never a nil pointer.\<close>

definition callable :: "'b type_info \<Rightarrow> go_type \<Rightarrow> 'b go_value \<Rightarrow> bool" where
  "callable I t v \<longleftrightarrow> has_type I t v \<and> v \<noteq> VNil"

text \<open>What the caller sees of a function that was called.\<close>

definition called :: "int \<Rightarrow> call_result \<Rightarrow> go_any \<times> gostring option" where
  "called packetId r =
     (case r of
        CPanic p \<Rightarrow> (GNil, Some (panic_error packetId p))
      | CReturn out \<Rightarrow>
          (case normalizeFuncResult out of
             HPanic p \<Rightarrow> (GNil, Some (panic_error packetId p))
           | HReturn v err \<Rightarrow> (v, err)))"

section \<open>Lemmas\<close>

lemma zero_has_type: "has_type I t (zero_value I t)"
  by (cases t) (auto simp: fits_int_def fits_uint_def split: go_kind.splits)

lemma decode_uint_fits: "decode_uint bits n = Some i \<Longrightarrow> fits_uint bits i"
proof -
  assume "decode_uint bits n = Some i"
  then have i: "i = int (digits_value n)" "digits_value n < 2 ^ min bits 64"
    by (auto simp: decode_uint_def split: if_splits)
  have "(2::nat) ^ min bits 64 \<le> 2 ^ bits" by simp
  then have "digits_value n < 2 ^ bits" using i(2) by linarith
  then have "int (digits_value n) < int (2 ^ bits)" by (subst of_nat_less_iff)
  then show ?thesis by (simp add: fits_uint_def i(1))
qed

lemma decode_int_fits: "decode_int bits n = Some i \<Longrightarrow> fits_int bits i"
  by (auto simp: decode_int_def split: option.splits if_splits)

lemma decode_has_type: "has_type I t v \<Longrightarrow> has_type I t (fst (decode_value I t v j))"
proof (induction t arbitrary: v)
  case (TPtr t)
  have "has_type I t (case v of VPtr w \<Rightarrow> w | _ \<Rightarrow> zero_value I t)"
    using TPtr.prems zero_has_type [of I t] by (auto split: go_value.splits)
  from TPtr.IH [OF this] show ?case by (simp add: split_beta)
next
  case (TBase name printed k)
  then show ?case
    by (auto simp: Let_def split_beta dest: decode_int_fits decode_uint_fits
        split: go_kind.splits json.splits option.splits go_value.splits)
qed

lemma decode_null: "basic I t \<Longrightarrow> decode_value I t (zero_value I t) JNull = (zero_value I t, True)"
  by (cases t) (auto simp: Let_def)

lemma decode_int_Itoa: "bits \<in> {8, 16, 32, 64} \<Longrightarrow> fits_int bits i \<Longrightarrow> decode_int bits (Itoa i) = Some i"
proof -
  assume b: "bits \<in> {8, 16, 32, 64}" and i: "fits_int bits i"
  then have "int64_range i" by (auto simp: fits_int_def int64_range_def)
  then show ?thesis using i by (simp add: decode_int_def)
qed

lemma decode_uint_Itoa: "bits \<in> {8, 16, 32, 64} \<Longrightarrow> fits_uint bits i \<Longrightarrow> decode_uint bits (Itoa i) = Some i"
proof -
  assume b: "bits \<in> {8, 16, 32, 64}" and i: "fits_uint bits i"
  then have 0: "0 \<le> i" "nat i < 2 ^ min bits 64" "min bits 64 = bits"
    by (auto simp: fits_uint_def nat_less_iff)
  then show ?thesis by (simp add: decode_uint_def Itoa_def)
qed

lemma json_value_wf: "wf_json (json_value v)"
  by (induction v) auto

lemma decode_json_value:
  "basic I t \<Longrightarrow> has_type I t v \<Longrightarrow> json_value v \<noteq> JNull \<Longrightarrow> decode_value I t u (json_value v) = (v, True)"
proof (induction t arbitrary: v u)
  case (TPtr t)
  then obtain w where w: "v = VPtr w" by (cases v) auto
  then show ?case using TPtr by simp
next
  case (TBase name printed k)
  let ?bits = "ti_bits I (TBase name printed k)"
  have bits: "k = KInt \<or> k = KUint \<or> k = KBool \<or> k = KString" "?bits \<in> {8, 16, 32, 64}"
    using TBase.prems(1) by simp_all
  from bits(1) show ?case
  proof (elim disjE)
    assume "k = KInt"
    with TBase.prems(2) bits(2) show ?thesis by (cases v) (simp_all add: decode_int_Itoa)
  next
    assume "k = KUint"
    with TBase.prems(2) bits(2) show ?thesis by (cases v) (simp_all add: decode_uint_Itoa)
  next
    assume "k = KBool"
    with TBase.prems(2) show ?thesis by (cases v) simp_all
  next
    assume "k = KString"
    with TBase.prems(2) show ?thesis by (cases v) simp_all
  qed
qed

lemma unmarshal_json_value:
  assumes "basic I t" "has_type I t v"
  shows "unmarshalArgToType I t (Marshal json_value v) = Inr (received I t v)"
proof -
  have parse: "Unmarshal (decode_value I s (zero_value I s)) (zero_value I s) (Marshal json_value v) =
      decode_value I s (zero_value I s) (json_value v)" for s
    by (simp add: Unmarshal_def Marshal_def json_value_wf)
  show ?thesis
  proof (cases t)
    case (TPtr e)
    have e: "basic I e" using assms(1) TPtr by simp
    show ?thesis
    proof (cases "json_value v = JNull")
      case True
      with decode_null [OF e] show ?thesis by (simp add: unmarshalArgToType_def parse TPtr received_def)
    next
      case False
      then obtain w where w: "v = VPtr w" "has_type I e w" using assms(2) TPtr by (cases v) auto
      then have "decode_value I e (zero_value I e) (json_value v) = (w, True)"
        using decode_json_value [OF e w(2)] False by simp
      with False show ?thesis
        by (simp add: unmarshalArgToType_def parse TPtr received_def w(1) [symmetric])
    qed
  next
    case (TBase name printed k)
    have "json_value v \<noteq> JNull" using assms TBase by (auto split: go_value.splits)
    from decode_json_value [OF assms this] show ?thesis
      by (simp add: unmarshalArgToType_def parse TBase received_def del: decode_value.simps zero_value.simps)
  qed
qed

lemma received_callable:
  assumes "has_type I t v"
  shows "callable I t (received I t v)"
proof (cases t)
  case (TPtr e)
  with assms zero_has_type [of I e] show ?thesis by (auto simp: callable_def received_def)
next
  case (TBase n p k)
  with assms show ?thesis by (auto simp: callable_def received_def split: go_kind.splits)
qed

lemma unmarshal_callable:
  assumes "unmarshalArgToType I t raw = Inr v"
  shows "callable I t v"
proof -
  have typed: "has_type I s (fst (Unmarshal (decode_value I s (zero_value I s)) (zero_value I s) raw))" for s
    by (simp add: Unmarshal_def zero_has_type decode_has_type split: option.split)
  show ?thesis
  proof (cases t)
    case (TPtr e)
    with assms typed [of e] show ?thesis
      by (auto simp: unmarshalArgToType_def callable_def split: prod.splits if_splits)
  next
    case (TBase n p k)
    have "has_type I t v"
      using assms typed [of "TBase n p k"]
      by (auto simp: unmarshalArgToType_def TBase simp del: has_type.simps zero_value.simps
          split: prod.splits if_splits)
    moreover from this have "v \<noteq> VNil" by (auto simp: TBase split: go_kind.splits)
    ultimately show ?thesis by (simp add: callable_def)
  qed
qed

lemma unmarshal_valid: "unmarshalArgToType I t raw = Inr v \<Longrightarrow> json_parse raw \<noteq> None"
  by (cases "json_parse raw") (auto simp: unmarshalArgToType_def Unmarshal_def split: go_type.splits)

lemma unmarshal_errors: "unmarshalArgToType I t raw = Inl e \<Longrightarrow> e = unmarshal_error"
  by (auto simp: unmarshalArgToType_def split: go_type.splits prod.splits if_splits)

lemma Invoke_registered:
  assumes "0 < fm_PacketId meta" "RegisterRpcFunc un meta (Fn ts name call) m = (err, m')"
  shows "Invoke (fm_PacketId meta) as m' =
     (case func_handler un ts call as of
        HPanic r \<Rightarrow> (GNil, Some (panic_error (fm_PacketId meta) r))
      | HReturn v x \<Rightarrow> (v, x))"
proof -
  obtain cn mn where names: "func_names meta name = (cn, mn)" by force
  have "m' = RegisterStub (func_metadata meta ts name) (func_handler un ts call) m"
    using assms by (auto simp: RegisterRpcFunc_def)
  then show ?thesis
    by (simp add: Invoke_def RegisterStub_def GetHandler_def func_metadata_def names)
qed

lemma decode_args_outcome:
  assumes "length as = length ts"
  shows "(\<exists>vs. decode_args un i ts as acc = Inr (acc @ vs) \<and> list_all2 (\<lambda>t (v, a). un t a = Inr v) ts (zip vs as) \<and>
        length vs = length ts) \<or>
     (\<exists>j e. j < length ts \<and> decode_args un i ts as acc = Inl (arg_error (i + j) (ts ! j) e) \<and>
        un (ts ! j) (as ! j) = Inl e)"
  using assms
proof (induction ts arbitrary: as i acc)
  case (Cons t ts)
  then obtain a as' where as: "as = a # as'" "length as' = length ts" by (cases as) auto
  show ?case
  proof (cases "un t a")
    case (Inl e)
    then have "0 < length (t # ts) \<and> decode_args un i (t # ts) as acc = Inl (arg_error (i + 0) ((t # ts) ! 0) e) \<and>
        un ((t # ts) ! 0) (as ! 0) = Inl e" by (simp add: as(1))
    then show ?thesis by blast
  next
    case (Inr v)
    from Cons.IH [OF as(2), of "i + 1" "acc @ [v]"] show ?thesis
    proof
      assume "\<exists>vs. decode_args un (i + 1) ts as' (acc @ [v]) = Inr ((acc @ [v]) @ vs) \<and>
          list_all2 (\<lambda>t (v, a). un t a = Inr v) ts (zip vs as') \<and> length vs = length ts"
      then obtain vs where vs: "decode_args un (i + 1) ts as' (acc @ [v]) = Inr ((acc @ [v]) @ vs)"
        "list_all2 (\<lambda>t (v, a). un t a = Inr v) ts (zip vs as')" "length vs = length ts" by blast
      have "decode_args un i (t # ts) as acc = Inr (acc @ v # vs) \<and>
          list_all2 (\<lambda>t (v, a). un t a = Inr v) (t # ts) (zip (v # vs) as) \<and> length (v # vs) = length (t # ts)"
        using vs by (simp add: as(1) Inr)
      then show ?thesis by blast
    next
      assume "\<exists>j e. j < length ts \<and> decode_args un (i + 1) ts as' (acc @ [v]) = Inl (arg_error (i + 1 + j) (ts ! j) e) \<and>
          un (ts ! j) (as' ! j) = Inl e"
      then obtain j e where j: "j < length ts" "un (ts ! j) (as' ! j) = Inl e"
        "decode_args un (i + 1) ts as' (acc @ [v]) = Inl (arg_error (i + 1 + j) (ts ! j) e)" by blast
      then have "Suc j < length (t # ts) \<and>
          decode_args un i (t # ts) as acc = Inl (arg_error (i + Suc j) ((t # ts) ! Suc j) e) \<and>
          un ((t # ts) ! Suc j) (as ! Suc j) = Inl e"
        by (simp add: as(1) Inr)
      then show ?thesis by blast
    qed
  qed
qed simp

lemma Invoke_decoded:
  assumes "0 < fm_PacketId meta" "RegisterRpcFunc un meta (Fn ts name call) m = (err, m')"
    and "length as = length ts" "decode_args un 0 ts as [] = Inr ws"
  shows "Invoke (fm_PacketId meta) as m' = called (fm_PacketId meta) (call ws)"
  using assms(3,4) by (simp add: Invoke_registered [OF assms(1,2)] func_handler_def called_def split: call_result.split)

lemma Invoke_typed:
  assumes "0 < fm_PacketId meta" "RegisterRpcFunc (unmarshalArgToType I) meta (Fn ts name call) m = (err, m')"
    and "length as = length ts"
  shows "(\<exists>i < length ts. Invoke (fm_PacketId meta) as m' = (GNil, Some (arg_error i (ts ! i) unmarshal_error))) \<or>
     (\<exists>ws. list_all2 (callable I) ts ws \<and> list_all (\<lambda>a. json_parse a \<noteq> None) as \<and>
       Invoke (fm_PacketId meta) as m' = called (fm_PacketId meta) (call ws))"
proof -
  let ?un = "unmarshalArgToType I"
  note len = assms(3)
  from decode_args_outcome [OF len, of ?un 0 "[]"] show ?thesis
  proof (elim disjE exE conjE)
    fix vs
    assume vs: "decode_args ?un 0 ts as [] = Inr ([] @ vs)" "length vs = length ts"
      "list_all2 (\<lambda>t (v, a). ?un t a = Inr v) ts (zip vs as)"
    then have un: "?un (ts ! k) (as ! k) = Inr (vs ! k)" if "k < length ts" for k
      using len that by (auto simp: list_all2_conv_all_nth)
    then have "list_all2 (callable I) ts vs"
      using vs(2) by (auto simp: list_all2_conv_all_nth intro: unmarshal_callable)
    moreover have "list_all (\<lambda>a. json_parse a \<noteq> None) as"
      using unmarshal_valid [OF un] by (simp add: list_all_length len)
    ultimately show ?thesis using Invoke_decoded [OF assms, of vs] vs(1) by auto
  next
    fix j e
    assume j: "j < length ts" "decode_args ?un 0 ts as [] = Inl (arg_error (0 + j) (ts ! j) e)"
      "?un (ts ! j) (as ! j) = Inl e"
    have "Invoke (fm_PacketId meta) as m' = (GNil, Some (arg_error j (ts ! j) unmarshal_error))"
      using j unmarshal_errors [OF j(3)] len by (simp add: Invoke_registered [OF assms(1,2)] func_handler_def)
    with j(1) show ?thesis by blast
  qed
qed

section \<open>Property\<close>

text \<open>
  C8: a registered function is called with typed values. Whatever raw arguments arrive, \<open>Invoke\<close>
  reports a wrong count or an argument that does not decode, or all are valid JSON and it calls
  the function on one well-typed value per parameter, none a nil pointer; and for the JSON of well-typed integers,
  booleans, strings and pointers it calls the function on exactly these values, except that an
  argument printed as \<open>null\<close> arrives as a pointer to the zero value.
\<close>

theorem typed_call:
  assumes "0 < fm_PacketId meta" "RegisterRpcFunc (unmarshalArgToType I) meta (Fn ts name call) m = (err, m')"
  shows "(length as \<noteq> length ts \<and>
       Invoke (fm_PacketId meta) as m' = (GNil, Some (count_error (length ts) (length as))) \<or>
     (\<exists>i < length ts. Invoke (fm_PacketId meta) as m' = (GNil, Some (arg_error i (ts ! i) unmarshal_error))) \<or>
     (\<exists>ws. list_all2 (callable I) ts ws \<and> list_all (\<lambda>a. json_parse a \<noteq> None) as \<and>
       Invoke (fm_PacketId meta) as m' = called (fm_PacketId meta) (call ws))) \<and>
    (list_all (basic I) ts \<longrightarrow> list_all2 (has_type I) ts vs \<longrightarrow>
       Invoke (fm_PacketId meta) (List.map (Marshal json_value) vs) m' =
         called (fm_PacketId meta) (call (map2 (received I) ts vs)) \<and>
       list_all2 (callable I) ts (map2 (received I) ts vs))"
proof (intro conjI impI)
  let ?un = "unmarshalArgToType I"
  show "length as \<noteq> length ts \<and>
       Invoke (fm_PacketId meta) as m' = (GNil, Some (count_error (length ts) (length as))) \<or>
     (\<exists>i < length ts. Invoke (fm_PacketId meta) as m' = (GNil, Some (arg_error i (ts ! i) unmarshal_error))) \<or>
     (\<exists>ws. list_all2 (callable I) ts ws \<and> list_all (\<lambda>a. json_parse a \<noteq> None) as \<and>
       Invoke (fm_PacketId meta) as m' = called (fm_PacketId meta) (call ws))"
    using Invoke_typed [OF assms, of as]
    by (cases "length as = length ts") (simp_all add: Invoke_registered [OF assms] func_handler_def)
  assume basic: "list_all (basic I) ts" and typed: "list_all2 (has_type I) ts vs"
  then have len: "length vs = length ts" by (simp add: list_all2_lengthD)
  have "decoded ?un ts (List.map (Marshal json_value) vs) (map2 (received I) ts vs)"
    using basic typed by (auto simp: decoded_def len list_all_length list_all2_conv_all_nth unmarshal_json_value)
  from Invoke_decoded [OF assms _ decode_args_decoded [OF _ this]] len
  show "Invoke (fm_PacketId meta) (List.map (Marshal json_value) vs) m' =
      called (fm_PacketId meta) (call (map2 (received I) ts vs))" by simp
  show "list_all2 (callable I) ts (map2 (received I) ts vs)"
    using typed by (auto simp: list_all2_conv_all_nth received_callable)
qed

text \<open>A function of an \<open>int32\<close> and a pointer to a string, called with a number and a nil pointer.\<close>

definition go_types :: "unit type_info" where
  "go_types = \<lparr>ti_bits = (\<lambda>t. if t = TBase ''int32'' ''int32'' KInt then 32 else 64), ti_zero = \<lambda>_. (),
     ti_decode = \<lambda>_ _ _. ((), False)\<rparr>"

definition label_call :: "unit go_value list \<Rightarrow> call_result" where
  "label_call vs =
     (case vs of
        [VInt i, VPtr (VStr s)] \<Rightarrow>
          CReturn [\<lparr>ov_Interface = GValue (Some (Itoa i @ s)), ov_Implements = False,
             ov_error = None, ov_isNil = False, ov_nilable = False\<rparr>]
      | _ \<Rightarrow> CPanic ''nil dereference'')"

definition label_types :: "go_type list" where
  "label_types = [TBase ''int32'' ''int32'' KInt, TPtr (TBase ''string'' ''string'' KString)]"

theorem typed_call_witness:
  "Invoke 1001 [Itoa (-5), ''null'']
     (snd (RegisterRpcFunc (unmarshalArgToType go_types) sample_meta (Fn label_types ''app.Label'' label_call)
        stubManagerInstance)) = (GValue (Some (Itoa (-5))), None)"
proof -
  let ?r = "RegisterRpcFunc (unmarshalArgToType go_types) sample_meta (Fn label_types ''app.Label'' label_call)
     stubManagerInstance"
  have "0 < fm_PacketId sample_meta" "?r = (fst ?r, snd ?r)" by (simp_all add: sample_meta_def)
  moreover have "list_all (basic go_types) label_types" "list_all2 (has_type go_types) label_types [VInt (-5), VNil]"
    by (simp_all add: label_types_def go_types_def fits_int_def)
  ultimately have "Invoke (fm_PacketId sample_meta) (List.map (Marshal json_value) [VInt (-5), VNil :: unit go_value]) (snd ?r) =
      called (fm_PacketId sample_meta) (label_call (map2 (received go_types) label_types [VInt (-5), VNil]))"
    using typed_call [of sample_meta go_types label_types] by blast
  then show ?thesis
    by (simp add: sample_meta_def label_types_def label_call_def received_def called_def normalizeFuncResult_def Marshal_def)
qed

end
