(* ===== verification/Typed.thy ===== *)
theory Typed
  imports ConfigModel
begin

text \<open>
  What can come out of the decoders. The locale \<open>json_message\<close> adds to \<open>json_codec\<close> that every
  text, well formed or not, decodes to a value of the type; it holds of all messages and
  configurations of the program.
\<close>

locale json_message = json_codec +
  fixes zero
  assumes zero_ok: "ok zero"
    and dec_ok: "ok (fst (dec v))"
begin

lemma Unmarshal_ok: "ok (fst (Unmarshal dec zero d))"
  by (simp add: Unmarshal_def zero_ok dec_ok split: option.split)

lemma Unmarshal_stable: "Unmarshal dec zero' (Marshal enc (fst (Unmarshal dec zero d))) = (fst (Unmarshal dec zero d), True)"
  using Unmarshal_ok [of d] by simp

lemma dec_slice_ok: "slice_ok ok (fst (decode_slice dec v))"
  by (simp add: slice_ok_def decode_slice_def list_all_iff dec_ok split: json.split)

lemma slice_message: "json_message (enc_slice enc) (decode_slice dec) (slice_ok ok) None"
proof (intro json_message.intro json_message_axioms.intro slice_codec)
  show "slice_ok ok (None :: 'a list option)" by (simp add: slice_ok_def)
qed (rule dec_slice_ok)

end

lemmas field_defs = string_field_def bool_field_def int_field_def slice_field_def

interpretation stub_msg: json_message json_RpcStubMetadata decode_RpcStubMetadata RpcStubMetadata_ok zero_RpcStubMetadata
  by unfold_locales (simp add: RpcStubMetadata_ok_def zero_RpcStubMetadata_def, rule decoded_RpcStubMetadata_ok)

interpretation info_msg: json_message json_RpcServerInfo decode_RpcServerInfo RpcServerInfo_ok zero_RpcServerInfo
  by unfold_locales
    (simp add: RpcServerInfo_ok_def zero_RpcServerInfo_def slice_ok_def, rule decoded_RpcServerInfo_ok)

interpretation node_msg: json_message json_RouteNode decode_RouteNode RouteNode_ok zero_RouteNode
proof
  fix v
  show "RouteNode_ok (fst (decode_RouteNode v))"
    unfolding decode_RouteNode_def
    by (rule decode_struct_inv)
      (auto simp: RouteNode_ok_def zero_RouteNode_def field_defs split: json.splits option.splits)
qed (simp add: RouteNode_ok_def zero_RouteNode_def)

interpretation nodes_msg: json_message "enc_slice json_RouteNode" "decode_slice decode_RouteNode"
    "slice_ok RouteNode_ok" None
  by (rule node_msg.slice_message)

interpretation req_msg: json_message json_RpcRequest decode_RpcRequest RpcRequest_ok zero_RpcRequest
proof
  fix v
  show "RpcRequest_ok (fst (decode_RpcRequest v))"
    unfolding decode_RpcRequest_def
    by (rule decode_struct_inv)
      (auto simp: RpcRequest_ok_def zero_RpcRequest_def field_defs split: json.splits option.splits)
qed (simp add: RpcRequest_ok_def zero_RpcRequest_def)

interpretation resp_msg: json_message json_RpcResponse decode_RpcResponse RpcResponse_ok zero_RpcResponse
proof
  fix v
  show "RpcResponse_ok (fst (decode_RpcResponse v))"
    unfolding decode_RpcResponse_def
    by (rule decode_struct_inv)
      (auto simp: RpcResponse_ok_def zero_RpcResponse_def field_defs split: json.splits option.splits)
qed (simp add: RpcResponse_ok_def zero_RpcResponse_def)

interpretation server_config_msg: json_message json_RouterServerConfig decode_RouterServerConfig
    server_config_ok zero_RouterServerConfig
proof
  fix v
  show "server_config_ok (fst (decode_RouterServerConfig v))"
    unfolding decode_RouterServerConfig_def
    by (rule decode_struct_inv)
      (auto simp: server_config_ok_def zero_RouterServerConfig_def field_defs split: json.splits option.splits)
qed (simp add: server_config_ok_def zero_RouterServerConfig_def)

interpretation client_config_msg: json_message json_RouterClientConfig decode_RouterClientConfig
    client_config_ok zero_RouterClientConfig
proof
  fix v
  show "client_config_ok (fst (decode_RouterClientConfig v))"
    unfolding decode_RouterClientConfig_def
    by (rule decode_struct_inv)
      (auto simp: client_config_ok_def zero_RouterClientConfig_def field_defs split: json.splits option.splits)
qed (simp add: client_config_ok_def zero_RouterClientConfig_def)

section \<open>Property\<close>

text \<open>
  C39: whatever bytes or text arrive, what the decoders return is well typed. A decoded route message
  has one of the six types or none, and is received again as it is when it is sent on; every
  struct has its integers in the range of \<open>int\<close>, also when decoding reports an error half
  way, and encoding and decoding it again gives the same struct.
\<close>

theorem decoded_well_typed:
  "(case DecodeRouteMessagePayload p of
      Inl _ \<Rightarrow> True
    | Inr m \<Rightarrow> known_type (MessageType m) = MessageType m \<and> length (payload_of m) \<le> length p \<and>
        DecodeRouteMessagePayload (payload_of m) = Inr m) \<and>
   (let q = fst (Unmarshal decode_RpcRequest zero_RpcRequest d) in
      RpcRequest_ok q \<and> Unmarshal decode_RpcRequest zero_RpcRequest (Marshal json_RpcRequest q) = (q, True)) \<and>
   (let r = fst (Unmarshal decode_RpcResponse zero_RpcResponse d) in
      RpcResponse_ok r \<and> Unmarshal decode_RpcResponse zero_RpcResponse (Marshal json_RpcResponse r) = (r, True)) \<and>
   (let i = fst (Unmarshal decode_RpcServerInfo zero_RpcServerInfo d) in
      RpcServerInfo_ok i \<and> Unmarshal decode_RpcServerInfo zero_RpcServerInfo (Marshal json_RpcServerInfo i) = (i, True)) \<and>
   (let ns = fst (Unmarshal (decode_slice decode_RouteNode) None d) in
      slice_ok RouteNode_ok ns \<and>
      Unmarshal (decode_slice decode_RouteNode) None (Marshal (enc_slice json_RouteNode) ns) = (ns, True))"
proof -
  have "case DecodeRouteMessagePayload p of
      Inl _ \<Rightarrow> True
    | Inr m \<Rightarrow> known_type (MessageType m) = MessageType m \<and> length (payload_of m) \<le> length p \<and>
        DecodeRouteMessagePayload (payload_of m) = Inr m"
  proof (cases "DecodeRouteMessagePayload p")
    case (Inr m)
    have "fits_int32 m" "as_received m = m" "length (payload_of m) \<le> length p"
      using Decode_fits [OF Inr] by simp_all
    moreover have "known_type (MessageType m) = MessageType m"
      using arg_cong [OF \<open>as_received m = m\<close>, of MessageType] by (simp add: as_received_def)
    ultimately show ?thesis by (simp add: Inr Decode_payload_of)
  qed simp
  then show ?thesis
    using req_msg.Unmarshal_ok resp_msg.Unmarshal_ok info_msg.Unmarshal_ok nodes_msg.Unmarshal_ok
    by (simp add: Let_def req_msg.Unmarshal_stable resp_msg.Unmarshal_stable info_msg.Unmarshal_stable
        nodes_msg.Unmarshal_stable)
qed

end
