(* ===== verification/Deploy.thy ===== *)
theory Deploy
  imports ConfigModel
begin

text \<open>
  \<open>_ssh/deploy.go\<close>: the tool that builds the router, copies it to a server and starts it there.
  The YAML decoder and the SSH library are parameters (\<open>deploy_env\<close>), and so is what the Go
  compiler, the remote shell and the platform's path functions answer. The state is the local
  disk, by absolute paths, and the commands the server was given, each with its standard input.
\<close>

section \<open>Configuration\<close>

record Config =
  dp_Host :: gostring
  dp_Port :: int
  dp_User :: gostring
  dp_Password :: gostring
  dp_OS :: gostring
  dp_Arch :: gostring
  dp_TargetDir :: gostring
  dp_BinaryName :: gostring
  dp_BuildPath :: gostring
  dp_StartCmd :: gostring

record deploy_env =
  dn_yaml :: "gostring \<Rightarrow> Config \<Rightarrow> Config \<times> gostring option" \<comment> \<open>decode into a value; the error\<close>
  dn_build :: "gostring list \<Rightarrow> gostring list \<Rightarrow> gostring + gostring" \<comment> \<open>arguments, environment; error or binary\<close>
  dn_Abs :: "gostring \<Rightarrow> gostring"
  dn_Join :: "gostring \<Rightarrow> gostring \<Rightarrow> gostring"
  dn_dial :: "gostring \<Rightarrow> gostring \<Rightarrow> gostring \<Rightarrow> gostring option" \<comment> \<open>address, user, password; the error\<close>
  dn_session :: "nat \<Rightarrow> gostring option" \<comment> \<open>opening the n-th session fails\<close>
  dn_run :: "nat \<Rightarrow> gostring \<Rightarrow> gostring option" \<comment> \<open>the n-th session's command fails\<close>

record deploy_state =
  ds_disk :: files
  ds_sessions :: nat
  ds_remote :: "(gostring \<times> gostring option) list"

definition not_exist :: gostring where
  "not_exist = ''no such file''"

definition readYaml :: "deploy_env \<Rightarrow> files \<Rightarrow> gostring \<Rightarrow> Config \<Rightarrow> Config \<times> gostring option" where
  "readYaml env disk path cfg =
     (case disk path of
        Some (Contents text) \<Rightarrow> dn_yaml env text cfg
      | _ \<Rightarrow> (cfg, Some not_exist))"

definition default_config :: Config where
  "default_config = \<lparr>dp_Host = [], dp_Port = 22, dp_User = [], dp_Password = [], dp_OS = [], dp_Arch = [],
     dp_TargetDir = [], dp_BinaryName = [], dp_BuildPath = [], dp_StartCmd = []\<rparr>"

definition base_config_name :: gostring where
  "base_config_name = ''_ssh/config_for_ssh_deploy.yaml''"

definition local_config_name :: gostring where
  "local_config_name = ''_ssh/config_for_ssh_deploy.local.yaml''"

definition loadConfig :: "deploy_env \<Rightarrow> files \<Rightarrow> gostring + Config" where
  "loadConfig env disk =
     (case readYaml env disk (dn_Abs env base_config_name) default_config of
        (_, Some err) \<Rightarrow> Inl err
      | (cfg, None) \<Rightarrow>
          if disk (dn_Abs env local_config_name) \<noteq> None then
            (case readYaml env disk (dn_Abs env local_config_name) cfg of
               (_, Some err) \<Rightarrow> Inl err
             | (cfg, None) \<Rightarrow> Inr cfg)
          else Inr cfg)"

section \<open>Building\<close>

definition temp_name :: "Config \<Rightarrow> gostring" where
  "temp_name cfg =
     (let tempName = dp_BinaryName cfg @ ''_tmp'' in
      if dp_OS cfg = ''windows'' then tempName @ ''.exe'' else tempName)"

definition build_args :: "Config \<Rightarrow> gostring list" where
  "build_args cfg = [''build'', ''-o'', temp_name cfg, dp_BuildPath cfg]"

definition build_vars :: "Config \<Rightarrow> gostring list" where
  "build_vars cfg = [''GOOS='' @ dp_OS cfg, ''GOARCH='' @ dp_Arch cfg, ''CGO_ENABLED=0'']"

definition buildBinary :: "deploy_env \<Rightarrow> Config \<Rightarrow> deploy_state \<Rightarrow> (gostring + gostring) \<times> deploy_state" where
  "buildBinary env cfg s =
     (case dn_build env (build_args cfg) (build_vars cfg) of
        Inl err \<Rightarrow> (Inl err, s)
      | Inr bin \<Rightarrow>
          let absPath = dn_Abs env (temp_name cfg) in
          (Inr absPath, s\<lparr>ds_disk := (ds_disk s)(absPath \<mapsto> Contents bin)\<rparr>))"

section \<open>The server\<close>

definition dialSSH :: "deploy_env \<Rightarrow> Config \<Rightarrow> gostring option" where
  "dialSSH env cfg = dn_dial env (dp_Host cfg @ '':'' @ Itoa (dp_Port cfg)) (dp_User cfg) (dp_Password cfg)"

definition run_session ::
  "deploy_env \<Rightarrow> gostring \<Rightarrow> gostring option \<Rightarrow> deploy_state \<Rightarrow> gostring option \<times> deploy_state" where
  "run_session env cmd stdin s =
     (dn_run env (ds_sessions s - 1) cmd, s\<lparr>ds_remote := ds_remote s @ [(cmd, stdin)]\<rparr>)"

definition new_session :: "deploy_env \<Rightarrow> deploy_state \<Rightarrow> gostring option \<times> deploy_state" where
  "new_session env s = (dn_session env (ds_sessions s), s\<lparr>ds_sessions := ds_sessions s + 1\<rparr>)"

definition runRemote :: "deploy_env \<Rightarrow> gostring \<Rightarrow> deploy_state \<Rightarrow> gostring option \<times> deploy_state" where
  "runRemote env cmd s =
     (case new_session env s of
        (Some err, s) \<Rightarrow> (Some err, s)
      | (None, s) \<Rightarrow> run_session env cmd None s)"

definition stop_command :: "gostring \<Rightarrow> gostring" where
  "stop_command name = ''pkill -9 '' @ name"

definition stopProcess :: "deploy_env \<Rightarrow> gostring \<Rightarrow> deploy_state \<Rightarrow> deploy_state" where
  "stopProcess env name s = snd (runRemote env (stop_command name) s)"

definition target_path :: "deploy_env \<Rightarrow> gostring \<Rightarrow> gostring \<Rightarrow> gostring" where
  "target_path env targetDir name =
     List.map (\<lambda>c. if c = CHR 0x5C then CHR ''/'' else c) (dn_Join env targetDir name)"

definition mkdir_command :: "gostring \<Rightarrow> gostring" where
  "mkdir_command targetDir = ''mkdir -p '' @ targetDir"

definition upload_command :: "deploy_env \<Rightarrow> gostring \<Rightarrow> gostring \<Rightarrow> gostring" where
  "upload_command env targetDir name = ''cat > '' @ target_path env targetDir name"

definition uploadFile ::
  "deploy_env \<Rightarrow> gostring \<Rightarrow> gostring \<Rightarrow> gostring \<Rightarrow> deploy_state \<Rightarrow> gostring option \<times> deploy_state" where
  "uploadFile env localPath targetDir name s =
     (let s = snd (runRemote env (mkdir_command targetDir) s) in
      case new_session env s of
        (Some err, s) \<Rightarrow> (Some err, s)
      | (None, s) \<Rightarrow>
          (case ds_disk s localPath of
             Some (Contents f) \<Rightarrow> run_session env (upload_command env targetDir name) (Some f) s
           | _ \<Rightarrow> (Some not_exist, s)))"

section \<open>The deployment\<close>

definition start_command :: "Config \<Rightarrow> gostring" where
  "start_command cfg = ''cd '' @ dp_TargetDir cfg @ '' && chmod +x ./'' @ dp_BinaryName cfg @ '' && '' @ dp_StartCmd cfg"

text \<open>
  The exit status and the state at the end. \<open>os.Exit\<close> does not run the deferred calls, so the
  built file is removed only when \<open>main\<close> returns.
\<close>

definition deploy_main :: "deploy_env \<Rightarrow> deploy_state \<Rightarrow> nat \<times> deploy_state" where
  "deploy_main env s =
     (case loadConfig env (ds_disk s) of
        Inl _ \<Rightarrow> (1, s)
      | Inr config \<Rightarrow>
     (case buildBinary env config s of
        (Inl _, s) \<Rightarrow> (1, s)
      | (Inr localPath, s) \<Rightarrow>
     if dialSSH env config \<noteq> None then (1, s)
     else
       let s = stopProcess env (dp_BinaryName config) s in
     (case uploadFile env localPath (dp_TargetDir config) (dp_BinaryName config) s of
        (Some _, s) \<Rightarrow> (1, s)
      | (None, s) \<Rightarrow>
     (case runRemote env (start_command config) s of
        (Some _, s) \<Rightarrow> (1, s)
      | (None, s) \<Rightarrow> (0, s\<lparr>ds_disk := (ds_disk s)(localPath := None)\<rparr>)))))"

section \<open>Properties\<close>

text \<open>What the \<open>n\<close>-th session gives the server, and whether its command succeeds.\<close>

definition given :: "deploy_env \<Rightarrow> nat \<Rightarrow> gostring \<Rightarrow> gostring option \<Rightarrow> (gostring \<times> gostring option) list" where
  "given env n cmd stdin = (if dn_session env n = None then [(cmd, stdin)] else [])"

definition succeeds :: "deploy_env \<Rightarrow> nat \<Rightarrow> gostring \<Rightarrow> bool" where
  "succeeds env n cmd \<longleftrightarrow> dn_session env n = None \<and> dn_run env n cmd = None"

lemma runRemote_state:
  "snd (runRemote env cmd s) = s\<lparr>ds_sessions := ds_sessions s + 1,
     ds_remote := ds_remote s @ given env (ds_sessions s) cmd None\<rparr>"
  by (simp add: runRemote_def new_session_def run_session_def given_def split: option.split)

lemma runRemote_error: "fst (runRemote env cmd s) = None \<longleftrightarrow> succeeds env (ds_sessions s) cmd"
  by (simp add: runRemote_def new_session_def run_session_def succeeds_def split: option.split)

lemma uploadFile_result:
  assumes "ds_disk s localPath = Some (Contents f)" "n = ds_sessions s"
  shows "snd (uploadFile env localPath dir name s) = s\<lparr>ds_sessions := n + 2,
      ds_remote := ds_remote s @ given env n (mkdir_command dir) None @
        given env (n + 1) (upload_command env dir name) (Some f)\<rparr>"
    "fst (uploadFile env localPath dir name s) = None \<longleftrightarrow>
      succeeds env (n + 1) (upload_command env dir name)"
  using assms
  by (simp_all add: uploadFile_def runRemote_state new_session_def run_session_def given_def succeeds_def
      Let_def split: option.split)

text \<open>What \<open>main\<close> does once it is connected to the server.\<close>

definition built :: "deploy_env \<Rightarrow> Config \<Rightarrow> gostring \<Rightarrow> deploy_state \<Rightarrow> deploy_state" where
  "built env cfg bin s = s\<lparr>ds_disk := (ds_disk s)(dn_Abs env (temp_name cfg) \<mapsto> Contents bin)\<rparr>"

definition uploaded :: "deploy_env \<Rightarrow> Config \<Rightarrow> deploy_state \<Rightarrow> gostring option \<times> deploy_state" where
  "uploaded env cfg s = uploadFile env (dn_Abs env (temp_name cfg)) (dp_TargetDir cfg) (dp_BinaryName cfg)
     (stopProcess env (dp_BinaryName cfg) s)"

lemma deploy_main_built:
  assumes "loadConfig env (ds_disk s) = Inr cfg" "dn_build env (build_args cfg) (build_vars cfg) = Inr bin"
  shows "deploy_main env s =
    (if dialSSH env cfg \<noteq> None then (1, built env cfg bin s)
     else (case uploaded env cfg (built env cfg bin s) of
       (Some _, s3) \<Rightarrow> (1, s3)
     | (None, s3) \<Rightarrow> (case runRemote env (start_command cfg) s3 of
         (Some _, s4) \<Rightarrow> (1, s4)
       | (None, s4) \<Rightarrow> (0, s4\<lparr>ds_disk := (ds_disk s4)(dn_Abs env (temp_name cfg) := None)\<rparr>))))"
  by (simp add: deploy_main_def assms buildBinary_def built_def uploaded_def Let_def)

text \<open>The state of the deployment when the upload is over, and whether it succeeded.\<close>

lemma uploaded_result:
  assumes "n = ds_sessions s"
  shows "snd (uploaded env cfg (built env cfg bin s)) = (built env cfg bin s)\<lparr>ds_sessions := n + 3,
      ds_remote := ds_remote s @ given env n (stop_command (dp_BinaryName cfg)) None @
        given env (n + 1) (mkdir_command (dp_TargetDir cfg)) None @
        given env (n + 2) (upload_command env (dp_TargetDir cfg) (dp_BinaryName cfg)) (Some bin)\<rparr>"
    "fst (uploaded env cfg (built env cfg bin s)) = None \<longleftrightarrow>
      succeeds env (n + 2) (upload_command env (dp_TargetDir cfg) (dp_BinaryName cfg))"
proof -
  let ?s = "stopProcess env (dp_BinaryName cfg) (built env cfg bin s)"
  have s: "?s = (built env cfg bin s)\<lparr>ds_sessions := n + 1,
      ds_remote := ds_remote s @ given env n (stop_command (dp_BinaryName cfg)) None\<rparr>"
    by (simp add: stopProcess_def runRemote_state built_def assms)
  then have "ds_disk ?s (dn_Abs env (temp_name cfg)) = Some (Contents bin)" "n + 1 = ds_sessions ?s"
    by (simp_all add: built_def)
  note up = uploadFile_result [OF this, where dir = "dp_TargetDir cfg" and name = "dp_BinaryName cfg"]
  show "snd (uploaded env cfg (built env cfg bin s)) = (built env cfg bin s)\<lparr>ds_sessions := n + 3,
      ds_remote := ds_remote s @ given env n (stop_command (dp_BinaryName cfg)) None @
        given env (n + 1) (mkdir_command (dp_TargetDir cfg)) None @
        given env (n + 2) (upload_command env (dp_TargetDir cfg) (dp_BinaryName cfg)) (Some bin)\<rparr>"
    unfolding uploaded_def up(1) by (simp add: s numeral_3_eq_3)
  show "fst (uploaded env cfg (built env cfg bin s)) = None \<longleftrightarrow>
      succeeds env (n + 2) (upload_command env (dp_TargetDir cfg) (dp_BinaryName cfg))"
    unfolding uploaded_def up(2) by simp
qed

text \<open>
  C40: what a deployment does, step by step. If the configuration cannot be read or the build
  fails, it exits with 1 and has changed nothing; if the server cannot be reached it exits with 1
  and leaves the built file. Otherwise the server is given, each in a session of its own and if
  that session opens, the command that stops the old process, the one that makes the directory,
  the binary under its target path and, only if the upload succeeded, the start command. Failing
  to stop the process or to make the directory does not stop the deployment. The status is 0
  exactly when the upload and the start command succeeded; then the built file is removed, and
  with any other status it stays on the disk; nothing else there changes.
\<close>

theorem deployment:
  assumes "deploy_main env s = (status, s')" "n = ds_sessions s"
  shows "case loadConfig env (ds_disk s) of
      Inl err \<Rightarrow> status = 1 \<and> s' = s
    | Inr cfg \<Rightarrow> (case dn_build env (build_args cfg) (build_vars cfg) of
        Inl err \<Rightarrow> status = 1 \<and> s' = s
      | Inr bin \<Rightarrow>
          let path = dn_Abs env (temp_name cfg);
            upload = upload_command env (dp_TargetDir cfg) (dp_BinaryName cfg) in
          if dialSSH env cfg \<noteq> None
          then status = 1 \<and> s' = s\<lparr>ds_disk := (ds_disk s)(path \<mapsto> Contents bin)\<rparr>
          else ds_remote s' = ds_remote s @ given env n (stop_command (dp_BinaryName cfg)) None @
              given env (n + 1) (mkdir_command (dp_TargetDir cfg)) None @
              given env (n + 2) upload (Some bin) @
              (if succeeds env (n + 2) upload then given env (n + 3) (start_command cfg) None else []) \<and>
            status = (if succeeds env (n + 2) upload \<and> succeeds env (n + 3) (start_command cfg)
                      then 0 else 1) \<and>
            ds_disk s' = (ds_disk s)(path := if status = 0 then None else Some (Contents bin)))"
proof (cases "loadConfig env (ds_disk s)")
  case (Inr cfg)
  note load = this
  show ?thesis
  proof (cases "dn_build env (build_args cfg) (build_vars cfg)")
    case (Inr bin)
    obtain err s3 where up: "uploaded env cfg (built env cfg bin s) = (err, s3)" by fastforce
    obtain err4 s4 where run: "runRemote env (start_command cfg) s3 = (err4, s4)" by fastforce
    note main = assms(1) [unfolded deploy_main_built [OF load Inr] up run prod.case]
    note up_result = uploaded_result [OF assms(2), of env cfg bin, unfolded up fst_conv snd_conv]
      and start = runRemote_state [of env "start_command cfg" s3, unfolded run snd_conv]
        runRemote_error [of env "start_command cfg" s3, unfolded run fst_conv]
    show ?thesis
      using main up_result start
      by (cases err; cases err4)
        (auto simp: load Inr Let_def built_def numeral_2_eq_2 numeral_3_eq_3 split: if_splits)
  qed (use assms(1) load in \<open>simp add: deploy_main_def buildBinary_def\<close>)
qed (use assms(1) in \<open>simp add: deploy_main_def\<close>)

text \<open>A deployment whose start command fails.\<close>

definition deploy_sample_env :: deploy_env where
  "deploy_sample_env = \<lparr>dn_yaml = \<lambda>_ cfg. (cfg\<lparr>dp_BinaryName := ''b''\<rparr>, None), dn_build = \<lambda>_ _. Inr ''bin'',
     dn_Abs = \<lambda>p. p, dn_Join = \<lambda>a b. a @ ''/'' @ b, dn_dial = \<lambda>_ _ _. None, dn_session = \<lambda>_. None,
     dn_run = \<lambda>n _. if n = 3 then Some ''exit status 1'' else None\<rparr>"

definition deploy_sample_state :: deploy_state where
  "deploy_sample_state = \<lparr>ds_disk = [base_config_name \<mapsto> Contents []], ds_sessions = 0, ds_remote = []\<rparr>"

theorem deployment_witness:
  "fst (deploy_main deploy_sample_env deploy_sample_state) = 1 \<and>
   ds_disk (snd (deploy_main deploy_sample_env deploy_sample_state)) ''b_tmp'' = Some (Contents ''bin'')"
proof -
  let ?cfg = "default_config\<lparr>dp_BinaryName := ''b''\<rparr>"
  have load: "loadConfig deploy_sample_env (ds_disk deploy_sample_state) = Inr ?cfg"
    by (simp add: loadConfig_def readYaml_def deploy_sample_env_def deploy_sample_state_def base_config_name_def local_config_name_def)
  have env: "dn_build deploy_sample_env (build_args ?cfg) (build_vars ?cfg) = Inr ''bin''"
    "dialSSH deploy_sample_env ?cfg = None" "dn_Abs deploy_sample_env (temp_name ?cfg) = ''b_tmp''"
    "\<not> succeeds deploy_sample_env (0 + 3) cmd" for cmd
    by (simp_all add: deploy_sample_env_def dialSSH_def temp_name_def default_config_def succeeds_def)
  have "ds_sessions deploy_sample_state = 0" by (simp add: deploy_sample_state_def)
  from deployment [OF surjective_pairing this [symmetric], of deploy_sample_env] show ?thesis
    by (simp add: load env [simplified] Let_def)
qed

end
