(* ===== verification/Facade.thy ===== *)
theory Facade
  imports ClientMain
begin

text \<open>
  The public packages \<open>VirtualRouterClient\<close> and \<open>VirtualRouterServer\<close>: what an application calls.
  Most functions pass their arguments on to \<open>internal/\<close>; \<open>Shutdown\<close> of the client is modelled here as
  a function, as its interleaved form is in \<open>ClientLifecycle\<close>. The state of a \<open>Client\<close> of the facade
  is that of the client inside. \<open>AwaitSystemClose\<close> never returns and has no model.
\<close>

section \<open>Stopping a client\<close>

text \<open>\<open>None\<close>: closing the closed channel panics.\<close>

definition client_Shutdown :: "node \<Rightarrow> node option" where
  "client_Shutdown n =
     (let s = (n_client n)\<lparr>c_needConnect := False, c_isOpen := False\<rparr>
      in if c_stopped s then None
         else Some (n\<lparr>n_client := closeConn (s\<lparr>c_stopped := True\<rparr>)\<rparr>))"

lemma step_panic: "c_panic s \<Longrightarrow> step_at i ok s = None"
  by (simp add: step_at_def)

text \<open>Run without interruption, the goroutine of the interleaved model does the same.\<close>

lemma shutdown_goroutine:
  assumes "\<not> c_panic (n_client n)"
  shows "exec (Call (Shutting SNeed) # replicate 4 (Go (length (c_threads (n_client n))) True)) (n_client n) =
    map_option n_client (client_Shutdown n)"
  using assms
  by (simp add: eval_nat_numeral step_panic step_last [where ts = "c_threads (n_client n)"] api_threads_def
      client_Shutdown_def closeConn_def Let_def split: option.split)

section \<open>The client package\<close>

definition facade_NewClient ::
  "gostring \<Rightarrow> files \<Rightarrow> StubManager \<Rightarrow> futures \<Rightarrow> RouteTable \<Rightarrow> node created \<times> files" where
  "facade_NewClient configFile fs stubs relay table =
     (case NewClient configFile fs stubs relay table of
        (Failed err, fs') \<Rightarrow> (Failed err, fs')
      | (Panicked, fs') \<Rightarrow> (Panicked, fs')
      | (Created c, fs') \<Rightarrow> (Created c, fs'))"

definition facade_Start :: "bool \<Rightarrow> bool \<Rightarrow> int list \<Rightarrow> node \<Rightarrow> gostring option \<times> int option \<times> node" where
  "facade_Start = client_Start"

definition facade_Shutdown :: "node \<Rightarrow> node option" where
  "facade_Shutdown = client_Shutdown"

definition facade_IsConnected :: "node \<Rightarrow> bool" where
  "facade_IsConnected = connected_node"

definition facade_RouteId :: "node \<Rightarrow> gostring" where
  "facade_RouteId n = n_routeId n"

definition facade_Send :: "bool \<Rightarrow> node sender" where
  "facade_Send = Send"

definition facade_AwaitRpcRouterInfoFirstReady :: "(nat \<Rightarrow> bool) \<Rightarrow> bool" where
  "facade_AwaitRpcRouterInfoFirstReady = AwaitRpcRouterInfoFirstReady"

definition facade_AwaitConnected ::
  "(nat \<Rightarrow> bool) \<Rightarrow> (nat \<Rightarrow> bool) \<Rightarrow> (nat \<Rightarrow> int) \<Rightarrow> int \<Rightarrow> int \<Rightarrow> node \<Rightarrow> gostring option option" where
  "facade_AwaitConnected = AwaitConnected"

definition facade_ReadRouterClientConfig ::
  "gostring \<Rightarrow> files \<Rightarrow> (gostring + RouterClientConfig) \<times> files" where
  "facade_ReadRouterClientConfig = ReadRouterClientConfig"

definition facade_NewDefaultRouterClientConfig :: RouterClientConfig where
  "facade_NewDefaultRouterClientConfig = NewDefaultRouterClientConfig"

definition RegisterRpcStub :: "RpcStubMetadata \<Rightarrow> RpcHandler \<Rightarrow> StubManager \<Rightarrow> StubManager" where
  "RegisterRpcStub = RegisterStub"

definition EnsureStubInitialized :: "StubManager \<Rightarrow> log_entry list" where
  "EnsureStubInitialized = EnsureInitialized"

definition facade_GetRpcServiceProvider ::
  "gostring \<Rightarrow> RouteTable \<Rightarrow> (go_error + service_provider) \<times> RouteTable" where
  "facade_GetRpcServiceProvider toRouteId t =
     (case GetRpcServiceProvider toRouteId t of
        (Inl err, t') \<Rightarrow> (Inl err, t')
      | (Inr provider, t') \<Rightarrow> (Inr provider, t'))"

section \<open>The server package\<close>

definition facade_ReadRouterServerConfig ::
  "gostring \<Rightarrow> files \<Rightarrow> (gostring + RouterServerConfig) \<times> files" where
  "facade_ReadRouterServerConfig = ReadRouterServerConfig"

definition facade_InstallProcessLogCapture ::
  "int \<Rightarrow> rotatingFileWriter option \<Rightarrow> process_logs \<Rightarrow> process_logs" where
  "facade_InstallProcessLogCapture = InstallProcessLogCapture"

section \<open>Helpers\<close>

definition int64ToString :: "int \<Rightarrow> gostring" where
  "int64ToString v = Itoa v"

text \<open>The value decoded so far is returned with the error.\<close>

definition UnmarshalArg :: "(json \<Rightarrow> 'a \<times> bool) \<Rightarrow> 'a \<Rightarrow> gostring \<Rightarrow> 'a \<times> bool" where
  "UnmarshalArg decode zero raw = Unmarshal decode zero raw"

section \<open>After \<open>Shutdown\<close>\<close>

text \<open>
  After \<open>Shutdown\<close> the application gets an error from every operation at once: nothing is sent, a
  wait for the connection does not wait, and a second \<open>Shutdown\<close> panics. \<open>Start\<close> does run again,
  but the stop channel stays closed: the heartbeat loop it starts can end at its first wait, and
  so can the background reconnect.
\<close>

definition stopped_node :: "node \<Rightarrow> bool" where
  "stopped_node n \<longleftrightarrow> c_stopped (n_client n) \<and> \<not> c_needConnect (n_client n) \<and>
     \<not> c_isOpen (n_client n) \<and> c_conn (n_client n) = None"

lemma client_Shutdown_stopped: "client_Shutdown n = Some n' \<Longrightarrow> stopped_node n' \<and> n_stubs n' = n_stubs n"
  by (auto simp: client_Shutdown_def stopped_node_def Let_def split: if_splits)

lemma restart:
  assumes "stopped_node n" "sm_initialized (n_stubs n)" "client_Start True ok ks n = (err, port, n')"
  shows "err = None \<and> connected_node n' \<and> c_stopped (n_client n')"
  using assms
  by (auto simp: client_Start_def CheckInitialized_def stopped_node_def runRouterClient_def tryConnect_def
      startHeartbeat_def spawn_def connected_node_def IsConnected_def Let_def)

theorem after_shutdown:
  assumes "client_Shutdown n = Some n'"
  shows "\<not> connected_node n' \<and> Send ok k t data n' = (Some not_connected_error, n') \<and>
    AwaitConnected conn stop now start timeout n' = Some (Some await_not_started_error) \<and>
    client_Shutdown n' = None"
    "sm_initialized (n_stubs n) \<Longrightarrow> client_Start True ok ks n' = (err, port, n'') \<Longrightarrow>
      err = None \<and> connected_node n'' \<and>
      heartbeat_step False HbWait (n_client n'') = Some (n_client n'', []) \<and>
      reconnect_step False RecWait (n_client n'') = Some (n_client n'', [RecDefer])"
proof -
  note st = client_Shutdown_stopped [OF assms]
  then have off: "\<not> connected_node n'" by (simp add: stopped_node_def connected_node_def IsConnected_def)
  with st show "\<not> connected_node n' \<and> Send ok k t data n' = (Some not_connected_error, n') \<and>
      AwaitConnected conn stop now start timeout n' = Some (Some await_not_started_error) \<and>
      client_Shutdown n' = None"
    by (simp add: Send_def Send_with_def AwaitConnected_def stopped_node_def client_Shutdown_def Let_def)
  show "err = None \<and> connected_node n'' \<and>
      heartbeat_step False HbWait (n_client n'') = Some (n_client n'', []) \<and>
      reconnect_step False RecWait (n_client n'') = Some (n_client n'', [RecDefer])"
    if "sm_initialized (n_stubs n)" "client_Start True ok ks n' = (err, port, n'')"
    using restart [of n' ok ks err port n''] st that by simp
qed

end
