(* ===== verification/Helpers.thy ===== *)
theory Helpers
  imports HttpProps Facade
begin

text \<open>
  Small functions used across packages, and the helpers exported for tests
  (\<open>test_helpers.go\<close> of \<open>internal/VirtualRouterServer\<close> and \<open>internal/VirtualRouterClient\<close>), which
  reach into the server's, the console's and the route table's state.
\<close>

section \<open>Helpers\<close>

text \<open>\<open>rawToStringList\<close> of \<open>relay_handlers.go\<close>: raw JSON and strings are both bytes here.\<close>

definition rawToStringList :: "gostring list \<Rightarrow> gostring list" where
  "rawToStringList args = foldl (\<lambda>list a. list @ [a]) [] args"

lemma rawToStringList_id [simp]: "rawToStringList args = args"
proof -
  have "foldl (\<lambda>list a. list @ [a]) acc args = acc @ args" for acc
    by (induction args arbitrary: acc) auto
  then show ?thesis by (simp add: rawToStringList_def)
qed

definition jsonMarshalImpl :: "('a \<Rightarrow> json) \<Rightarrow> 'a \<Rightarrow> gostring" where
  "jsonMarshalImpl enc v = Marshal enc v"

definition jsonMarshal :: "('a \<Rightarrow> json) \<Rightarrow> 'a \<Rightarrow> gostring" where
  "jsonMarshal enc v = jsonMarshalImpl enc v"

definition intToString :: "int \<Rightarrow> gostring" where
  "intToString v = Itoa v"

definition safeData :: "RouteMessage \<Rightarrow> gostring" where
  "safeData msg = (case Data msg of None \<Rightarrow> [] | Some d \<Rightarrow> d)"

definition LastHeartbeatMs :: "RouterSession \<Rightarrow> int" where
  "LastHeartbeatMs s = sess_lastHeartbeat s"

section \<open>The address cache\<close>

definition resolver_get :: "gostring \<Rightarrow> resolver \<Rightarrow> IPGeoInfo option" where
  "resolver_get ip r = rv_cache r ip"

definition resolver_set :: "gostring \<Rightarrow> IPGeoInfo \<Rightarrow> resolver \<Rightarrow> resolver" where
  "resolver_set ip geo r = r\<lparr>rv_cache := (rv_cache r)(ip \<mapsto> geo)\<rparr>"

text \<open>A public address is looked up through the cache: \<open>get\<close>, and on a miss \<open>fetch\<close> and \<open>set\<close>.\<close>

lemma resolveIPGeo_cache:
  assumes "public_ip (TrimSpace ip)"
  shows "resolveIPGeo get ip r =
    (case resolver_get (TrimSpace ip) r of
       Some cached \<Rightarrow> (cached, r)
     | None \<Rightarrow> (case fetch get (TrimSpace ip) r of (geo, r') \<Rightarrow> (geo, resolver_set (TrimSpace ip) geo r')))"
proof -
  have "ParseIP [] = None" by (simp add: ParseIP_def)
  with assms show ?thesis
    by (auto simp: resolveIPGeo_def resolver_get_def resolver_set_def public_ip_def Let_def
        split: option.splits if_splits)
qed

section \<open>Test access to the server\<close>

definition ForwardToTargetForTest :: "RouteMessage \<Rightarrow> server \<Rightarrow> server" where
  "ForwardToTargetForTest msg s = forwardToTarget msg s"

definition RecordRouterRPCForTest :: "int \<Rightarrow> gostring \<Rightarrow> gostring \<Rightarrow> stats_map \<Rightarrow> stats_map" where
  "RecordRouterRPCForTest now fromRouteID toRouteID m = recordRouterRPC now fromRouteID toRouteID m"

definition SetRouterLastMinuteHitsForTest :: "gostring \<Rightarrow> int list \<Rightarrow> stats_map \<Rightarrow> stats_map" where
  "SetRouterLastMinuteHitsForTest routerID hits m =
     (let (st, m) = (case m routerID of Some st \<Rightarrow> (st, m) | None \<Rightarrow> ensureRouterRPCStats m routerID)
      in m(routerID \<mapsto> st\<lparr>rs_LastMinuteHits := hits\<rparr>))"

lemma SetRouterLastMinuteHitsForTest_totals:
  "SetRouterLastMinuteHitsForTest k hits m k' =
     (if k' = k then Some (fst (ensureRouterRPCStats m k)\<lparr>rs_LastMinuteHits := hits\<rparr>) else m k')"
  by (auto simp: SetRouterLastMinuteHitsForTest_def ensureRouterRPCStats_def Let_def split: option.split)

definition HandleLogsForTest :: handler where
  "HandleLogsForTest env r h = handleLogs env r h"

definition HandleLogsExportForTest :: handler where
  "HandleLogsExportForTest env r h = handleLogsExport env r h"

definition HandleRouterRPCRankingForTest :: handler where
  "HandleRouterRPCRankingForTest env r h = handleRouterRPCRanking env r h"

definition HandleUpdateAdminPasswordForTest :: handler where
  "HandleUpdateAdminPasswordForTest env r h = handleUpdateAdminPassword env r h"

definition MatchLogLevelForTest :: "gostring \<Rightarrow> gostring \<Rightarrow> bool" where
  "MatchLogLevelForTest line level = matchLogLevel line level"

definition ResolveIPCountryForTest :: "web \<Rightarrow> gostring \<Rightarrow> resolver \<Rightarrow> gostring \<times> resolver" where
  "ResolveIPCountryForTest get ip r = resolveIPCountry get ip r"

definition MonitorStaticHandlerForTest :: handler where
  "MonitorStaticHandlerForTest env r h = monitorStaticHandler env r h"

section \<open>Test access to the logs\<close>

text \<open>The captured state is replaced; the second result is the function that restores it.\<close>

definition SetProcessLogsForTest :: "gostring list \<Rightarrow> int \<Rightarrow> logCapture \<Rightarrow> logCapture \<times> (logCapture \<Rightarrow> logCapture)" where
  "SetProcessLogsForTest lines capacity logs =
     (let backupLines = lc_lines logs; backupCapacity = lc_capacity logs;
          logs = logs\<lparr>lc_lines := lines\<rparr>;
          logs = (if capacity > 0 then logs\<lparr>lc_capacity := capacity\<rparr> else logs)
      in (logs, \<lambda>logs. logs\<lparr>lc_lines := backupLines, lc_capacity := backupCapacity\<rparr>))"

text \<open>Whatever is logged in between, restoring brings back the logs as they were.\<close>

lemma SetProcessLogsForTest_restores:
  assumes "SetProcessLogsForTest lines capacity logs = (logs', restore)"
  shows "restore (fold (\<lambda>(stamp, p). snd \<circ> logCapture_Write stamp p) ws logs') = logs"
  using assms by (cases logs) (auto simp: SetProcessLogsForTest_def Let_def)

definition NewLogCaptureTestHelper :: "int \<Rightarrow> logCapture" where
  "NewLogCaptureTestHelper capacity =
     (let capacity = (if capacity \<le> 0 then 1 else capacity) in \<lparr>lc_capacity = capacity, lc_lines = []\<rparr>)"

definition helper_Write :: "(nat \<Rightarrow> gostring) \<Rightarrow> gostring \<Rightarrow> logCapture \<Rightarrow> nat \<times> logCapture" where
  "helper_Write stamp p h = logCapture_Write stamp p h"

definition helper_GetRecent :: "int \<Rightarrow> logCapture \<Rightarrow> gostring list" where
  "helper_GetRecent limit h = getRecent limit h"

text \<open>The helper keeps at least one line, whatever capacity it was asked for.\<close>

lemma LogCaptureTestHelper_keeps:
  "helper_GetRecent limit (fold (\<lambda>(stamp, p). snd \<circ> helper_Write stamp p) ws (NewLogCaptureTestHelper capacity)) =
    lastn (min (nat (if limit \<le> 0 then 100 else limit)) (nat (max 1 capacity))) (concat (List.map log_lines ws))"
proof -
  have new: "lc_lines (NewLogCaptureTestHelper capacity) = []"
    "lc_capacity (NewLogCaptureTestHelper capacity) = max 1 capacity"
    by (auto simp: NewLogCaptureTestHelper_def)
  have writes: "helper_Write = logCapture_Write" by (intro ext) (simp add: helper_Write_def)
  from capture_writes_lastn [of "NewLogCaptureTestHelper capacity" "[]" ws] show ?thesis
    by (simp add: new helper_GetRecent_def writes getRecent_lastn)
qed

definition NewRotatingFileWriterForTest ::
  "bool \<Rightarrow> bool \<Rightarrow> gostring \<Rightarrow> gostring \<Rightarrow> int \<Rightarrow> int \<Rightarrow> disk \<Rightarrow> rotatingFileWriter option" where
  "NewRotatingFileWriterForTest mkdir_ok open_ok dir baseName maxBytes maxFiles d =
     newRotatingFileWriter mkdir_ok open_ok
       \<lparr>lr_Dir = dir, lr_BaseName = baseName, lr_MaxBytes = maxBytes, lr_MaxFiles = maxFiles\<rparr> d"

section \<open>Test access to the route table\<close>

definition close_client :: "gostring \<times> nat \<Rightarrow> RouteTable \<Rightarrow> RouteTable" where
  "close_client e t =
     (case e of (_, c) \<Rightarrow> t\<lparr>rt_store := (rt_store t)(c := DirectClient_Close (rt_store t c))\<rparr>)"

text \<open>\<open>ids\<close> is the order of the range over the direct clients.\<close>

definition ResetRouteTableForTest :: "gostring list \<Rightarrow> RouteTable \<Rightarrow> RouteTable" where
  "ResetRouteTableForTest ids t =
     (let t = t\<lparr>rt_routeId := [], rt_routerClient := False, rt_rpcMode := []\<rparr>;
          t = fold close_client (range_map ids (rt_rpcClients t)) t
      in t\<lparr>rt_nodes := Map.empty, rt_rpcClients := Map.empty, rt_relays := Map.empty\<rparr>)"

lemma close_twice: "DirectClient_Close (DirectClient_Close c) = DirectClient_Close c"
  by (simp add: DirectClient_Close_def)

lemma close_all:
  "rt_store (fold close_client cs t) c =
     (if c \<in> snd ` set cs then DirectClient_Close (rt_store t c) else rt_store t c)"
proof (induction cs arbitrary: t)
  case (Cons kd cs)
  then show ?case by (cases kd) (simp add: close_client_def close_twice)
qed simp

lemma close_frame: "rt_routeId (fold close_client cs t) = rt_routeId t"
  by (induction cs arbitrary: t) (simp_all add: close_client_def split_beta)

text \<open>
  After a reset the table is as at the start of the program, so that \<open>SetRouteId\<close> does not panic
  again, and no direct client that it held stays open.
\<close>

lemma ResetRouteTableForTest_fresh:
  assumes "enumerates ids (rt_rpcClients t)"
  shows "table_ok (ResetRouteTableForTest ids t)"
    and "SetRouteId k (ResetRouteTableForTest ids t) = Some ((ResetRouteTableForTest ids t)\<lparr>rt_routeId := k\<rparr>)"
    and "rt_nodes (ResetRouteTableForTest ids t) = Map.empty" "rt_rpcClients (ResetRouteTableForTest ids t) = Map.empty"
    and "rt_rpcClients t rid = Some c \<Longrightarrow> dc_conn (rt_store (ResetRouteTableForTest ids t) c) \<noteq> DialOpen"
proof -
  show "table_ok (ResetRouteTableForTest ids t)"
    "SetRouteId k (ResetRouteTableForTest ids t) = Some ((ResetRouteTableForTest ids t)\<lparr>rt_routeId := k\<rparr>)"
    "rt_nodes (ResetRouteTableForTest ids t) = Map.empty" "rt_rpcClients (ResetRouteTableForTest ids t) = Map.empty"
    by (simp_all add: ResetRouteTableForTest_def close_frame Let_def table_ok_def SetRouteId_def)
  assume c: "rt_rpcClients t rid = Some c"
  then have "rid \<in> set ids" using assms by (auto simp: enumerates_def)
  with c have "(rid, c) \<in> set (range_map ids (rt_rpcClients t))" by (simp add: set_range_map)
  then have "c \<in> snd ` set (range_map ids (rt_rpcClients t))" by (metis image_eqI snd_conv)
  then show "dc_conn (rt_store (ResetRouteTableForTest ids t) c) \<noteq> DialOpen"
    by (simp add: ResetRouteTableForTest_def close_all Let_def DirectClient_Close_def del: set_range_map)
qed

end
