(* ===== verification/Spec2Isabelle.thy ===== *)
theory Spec2Isabelle
  imports ClusterOnce Arguments Typed Deploy Helpers
begin

text \<open>
  A verification development for virtual-router-go: a router to which nodes connect by TCP, the
  client library that nodes use to call each other, the router's HTTP console, and the tool
  that deploys the router.

  \<^bold>\<open>The program.\<close> Nodes keep one connection to the router. They announce themselves by heartbeats
  (id, address, RPC stubs), get the table of all nodes back, and send messages that the router
  passes to the node they name. A call is a request message and a response message with the same
  RPC id; in direct mode it goes over a connection of the caller's own to the callee. The console
  shows the router's sessions, statistics and logs, and can call a node for debugging.

  \<^bold>\<open>Theories and source files\<close> (below \<open>src/\<close>; \<open>VRS\<close> and \<open>VRC\<close> stand for
  \<open>internal/VirtualRouterServer\<close> and \<open>internal/VirtualRouterClient\<close>):

  \<^item> \<open>Prelude\<close>, \<open>GoStrings\<close>, \<open>GoJson\<close>, \<open>AnyJson\<close>: what the source uses of Go's standard library.
    Bytes are 8-bit words, strings are byte lists, \<open>enumerates\<close> and \<open>range_map\<close> give a \<open>range\<close> over
    a map in an arbitrary order; \<open>strings\<close>, \<open>strconv\<close>; \<open>encoding/json\<close> as a lexer, a parser and a
    printer (\<open>Marshal\<close>, \<open>Unmarshal\<close>), with \<open>any\<close> and float64 numbers in \<open>AnyJson\<close>.
  \<^item> \<open>Framing\<close>, \<open>RouteMessage\<close>, \<open>Dto\<close>, \<open>Typed\<close>: \<open>internal/core\<close> and \<open>internal/rpc/dto.go\<close>, the wire
    format, as encoders and decoders; the length and field prefixes are 32-bit words.
  \<^item> \<open>Sessions\<close>, \<open>RouterStats\<close>, \<open>RouterServer\<close>: \<open>VRS/session.go\<close>, \<open>session_manager.go\<close>, \<open>server.go\<close>.
    The record \<open>server\<close> is the struct \<open>Server\<close> with its session manager and the network: what was
    written on each connection and which are closed. One turn of a goroutine's loop is a function
    on it, \<open>server_step\<close> lets the goroutines take turns in any order.
  \<^item> \<open>ServerProps\<close>, \<open>ServerRouting\<close>, \<open>RouterSpec\<close>: what the router guarantees. \<open>RouterSpec\<close> states
    it as a machine on whole messages, the hub, and proves that the router implements it.
  \<^item> \<open>Futures\<close>, \<open>Stubs\<close>, \<open>Arguments\<close>, \<open>Relay\<close>, \<open>RouteTable\<close>: \<open>internal/rpc\<close> and
    \<open>VRC/route_table.go\<close>: pending calls, registered functions and the TCP server for direct calls,
    the decoding of arguments by the parameters' types, the request and response handlers, the
    table of known nodes.
  \<^item> \<open>ClientLifecycle\<close>, \<open>RouterClient\<close>, \<open>ClientProps\<close>, \<open>Calls\<close>: \<open>VRC/client.go\<close>, twice. \<open>ClientLifecycle\<close>
    interleaves its goroutines at every access to a shared field (threads as program counters);
    \<open>RouterClient\<close> has the messages, one handler at a time, on a record \<open>node\<close> of the client and
    the globals of its process. \<open>Calls\<close> puts both ways of calling together.
  \<^item> \<open>ConfigModel\<close>, \<open>Deploy\<close>: \<open>internal/config/config.go\<close>, \<open>_ssh/deploy.go\<close>; the disk is a map
    from paths to contents.
  \<^item> \<open>Logs\<close>, \<open>IpGeo\<close>, \<open>Startup\<close>, \<open>Jwt\<close>, \<open>HttpMonitor\<close>, \<open>HttpProps\<close>: the console, from \<open>VRS\<close>
    (\<open>log_capture.go\<close>, \<open>ip_country_resolver.go\<close>, \<open>startup_access_log.go\<close>, \<open>jwt.go\<close>, \<open>http_server.go\<close>,
    \<open>static_assets.go\<close>). A request is served in one step on the record \<open>monitor\<close>, which holds the
    router it shares.
  \<^item> \<open>ServerMain\<close>, \<open>ClientMain\<close>, \<open>Facade\<close>: starting and stopping, the two programs under \<open>cmd/\<close> and the
    facades \<open>VirtualRouterServer/\<close>, \<open>VirtualRouterClient/\<close>.
  \<^item> \<open>Helpers\<close>: small functions shared by packages, and the helpers exported for tests.
  \<^item> \<open>Cluster\<close>, \<open>ClusterPost\<close>, \<open>ClusterProps\<close>, \<open>ClusterRun\<close>, \<open>ClusterOnce\<close>: the whole system. The record
    \<open>cluster\<close> is the router's \<open>server\<close>, the \<open>node\<close> of every process, and what each TCP connection
    holds that was written and not read; \<open>cluster_step\<close> is one turn of a router goroutine, one frame
    taken by a read loop, a call, a heartbeat, a message sent, a connection made or lost.
    \<open>ClusterPost\<close> shows that it implements a machine on whole messages in transit; \<open>ClusterProps\<close>
    has the invariant of that machine, the other two the properties and a complete run.

  \<^bold>\<open>What is proved.\<close>
  Wire format: frames survive any cutting by TCP, messages and JSON structs survive encoding, and
  whatever bytes arrive decode to well-typed values or an error. Router: an invariant of all
  reachable states (sessions, connections, exact counters), what can end the hold of a connection on
  its id, registration, conflict, departure, the heartbeat loop, statistics that count exactly, and the refinement of the hub with
  delivery in order. Calls: the first response decides a call, a relayed call comes back through
  the router with what the callee's handler gave, the direct, the relayed and the local way of
  calling agree, and a registered function sees well-typed arguments only. Whole system: through
  any interleaving, lost connections and reconnects, no call gets another call's answer and no
  call runs twice. Client: one background reconnect at most, the handshake, waiting that ends,
  back-off without overflow, start-up. Console: no access without a valid token, no harm to the
  router, exact logs, tokens and password changes. Programs: when they run and with what status
  they end. Several theorems state where the code goes wrong; the manifest lists these findings.

  \<^bold>\<open>Interfaces.\<close> Each is a locale, with its client's lemmas proved inside and an interpretation on
  the model: \<open>byte_source\<close> (what \<open>io.ReadFull\<close> promises; the bytes reader and TCP), \<open>json_codec\<close> and
  \<open>json_message\<close> (every struct that travels or is stored), \<open>session_registry\<close> (the session table),
  \<open>call_registry\<close> (pending calls), \<open>router_client_sender\<close> (the client as the relay handlers see it),
  \<open>rpc_transport\<close> (direct and relayed calls).

  \<^bold>\<open>Fuel.\<close> \<open>read_frames\<close>, \<open>stub_handleConn\<close> and \<open>direct_readLoop\<close> take one unit per frame; a frame takes
  at least one byte of the input, so one more than its length is enough
  (\<open>stub_handleConn_fuel\<close>, \<open>direct_readLoop_fuel\<close>, \<open>read_frames_enough\<close>). \<open>AwaitConnected\<close> is a partial function whose termination is a theorem.
  All other recursion terminates by construction.

  \<^bold>\<open>The whole system\<close> starts with a new router and fresh processes with distinct ids. One step
  writes fewer than 4 GiB to a connection (\<open>short_writes\<close>: lengths are 32-bit), applications send
  data messages only through \<open>Send\<close>, while a call waits for its connection the other goroutines
  of its process change the connection's state only (\<open>waits_quietly\<close>; what they send and receive
  are steps before or after), and the console's debug calls are left out.

  \<^bold>\<open>Assumptions.\<close> A handler's turn is atomic and reads the clock once; where the source gives up a
  lock in between, the model has two steps (the heartbeat loop, a direct call). Times are
  unbounded integers except the reconnect delay, a signed 64-bit word. \<open>strings.ToLower\<close> and
  \<open>EqualFold\<close> fold ASCII letters only; strings are valid UTF-8 where JSON would replace bytes.
  Error texts of the operating system and of \<open>encoding/json\<close> are placeholders. A write by the router
  to a connection that it has not closed succeeds (\<open>conn_Write\<close>): that the peer is gone shows at
  the next read. Decoding a JSON array makes new elements, also where a key is repeated
  (\<open>decode_slice\<close>). Renaming and writing configuration and log files succeeds unless an error is
  a parameter; behind the password route the write may fail and leave the file old or with a
  first part of the text (\<open>failed_write\<close>). Paths of requests carry no percent escapes. Not under
  \<open>src/\<close>, hence parameters: the JWT library (\<open>jwt_ok\<close>, about the secret of the program, with an
  instance), the YAML and SSH libraries, the Go compiler, the address service, what the network
  answers to a dial or a listen and to a client's write.

  \<^bold>\<open>Not modelled.\<close> Reading HTTP requests from sockets and the bodies of redirects (\<open>net/http\<close>), the
  content of the embedded pages, log records other than those of start-up, signals, type
  aliases, and \<open>AwaitSystemClose\<close>, which never returns.
\<close>

end
